(* ===== verification/Prelude.thy ===== *)
theory Prelude
  imports Main "HOL-Library.Word" "HOL-Library.Sublist" "HOL-Library.Char_ord"
    "HOL-Library.List_Lexorder"
begin

text \<open>
  Shared vocabulary of the development.

  Go strings and byte slices are both lists of 8-bit characters (type \<open>string\<close>), as in Go,
  where a string is a sequence of bytes. A Go \<open>error\<close> is a value of type \<open>error\<close>: a leaf made by
  \<open>errors.New\<close> or \<open>fmt.Errorf\<close> (\<open>Err\<close>, holding the constant text of the message; the operands
  that a format prints are left out), a cause wrapped with \<open>%w\<close> (\<open>Wrap\<close>), or the result of
  \<open>errors.Join\<close> (\<open>Joined\<close>). A fallible function returns \<open>error + 'a\<close>; a function of type
  \<open>error\<close> in Go that can return \<open>nil\<close> returns \<open>error option\<close>.
\<close>

named_theorems go_simps \<open>defining equations that evaluate closed terms of the model\<close>
named_theorems guard_dests \<open>what a successful guard of the model guarantees\<close>

subsection \<open>Types\<close>

type_synonym bytes = string

datatype error = Err string | Wrap string error | Joined "error list"

type_synonym 'a result = "error + 'a"

text \<open>The \<open>Write\<close> method of an \<open>io.Writer\<close> with state \<open>'d\<close>: bytes written and an error.\<close>

type_synonym 'd io_write = "'d \<Rightarrow> bytes \<Rightarrow> 'd \<times> int \<times> error option"

subsection \<open>Errors\<close>

text \<open>\<open>errors.Join\<close> drops the nil errors and returns nil when nothing is left.\<close>

definition errors_join :: "error option list \<Rightarrow> error option" where
  "errors_join es =
     (let present = List.map_filter id es in if present = [] then None else Some (Joined present))"

text \<open>\<open>errors.Is\<close>: the error itself or anything it wraps is the target.\<close>

fun errors_is :: "error \<Rightarrow> error \<Rightarrow> bool" where
  "errors_is (Err m) t = (Err m = t)"
| "errors_is (Wrap m e) t = (Wrap m e = t \<or> errors_is e t)"
| "errors_is (Joined es) t = (Joined es = t \<or> (\<exists>e\<in>set es. errors_is e t))"

text \<open>\<open>Error()\<close>: the message text.\<close>

fun join_with :: "string \<Rightarrow> string list \<Rightarrow> string" where
  "join_with sep [] = []"
| "join_with sep [x] = x"
| "join_with sep (x # y # zs) = x @ sep @ join_with sep (y # zs)"

fun error_text :: "error \<Rightarrow> string" where
  "error_text (Err m) = m"
| "error_text (Wrap m e) = m @ '': '' @ error_text e"
| "error_text (Joined es) = join_with [CHR 0x0A] (map error_text es)"

lemma errors_join_None [simp]: "errors_join es = None \<longleftrightarrow> (\<forall>e\<in>set es. e = None)"
  by (auto simp: errors_join_def Let_def List.map_filter_def filter_empty_conv)

lemma errors_join_Some_iff: "(\<exists>e. errors_join es = Some e) \<longleftrightarrow> (\<exists>e\<in>set es. e \<noteq> None)"
  using errors_join_None [of es] by (metis not_None_eq option.exhaust)


text \<open>\<open>pgx.ErrNoRows\<close>, and the errors of package \<open>io\<close>.\<close>

definition ErrNoRows :: error where "ErrNoRows = Err ''no rows in result set''"
definition ErrShortWrite :: error where "ErrShortWrite = Err ''short write''"
definition errEOF :: error where "errEOF = Err ''EOF''"
definition ErrUnexpectedEOF :: error where "ErrUnexpectedEOF = Err ''unexpected EOF''"

text \<open>Reading through \<open>io.LimitReader\<close>.\<close>

definition limit_read :: "int \<Rightarrow> bytes \<Rightarrow> bytes" where
  "limit_read n b = (if int (length b) \<le> n then b else take (nat n) b)"

subsection \<open>Results\<close>

definition is_ok :: "'a result \<Rightarrow> bool" where
  "is_ok r = (case r of Inl _ \<Rightarrow> False | Inr _ \<Rightarrow> True)"

lemma is_ok_simps [simp]: "\<not> is_ok (Inl e)" "is_ok (Inr x)"
  by (simp_all add: is_ok_def)

lemma is_ok_iff: "is_ok r \<longleftrightarrow> (\<exists>x. r = Inr x)"
  by (cases r) simp_all

text \<open>The guard of an early return: \<open>if cond { return errors.New(m) }\<close>.\<close>

definition guard :: "bool \<Rightarrow> string \<Rightarrow> error option" where
  "guard bad m = (if bad then Some (Err m) else None)"

lemma guard_None [simp]: "guard bad m = None \<longleftrightarrow> \<not> bad"
  by (simp add: guard_def)

lemma guard_simps [go_simps]: "guard True m = Some (Err m)" "guard False m = None"
  by (simp_all add: guard_def)

text \<open>The first error of a sequence of checks, in source order.\<close>

fun first_error :: "error option list \<Rightarrow> error option" where
  "first_error [] = None"
| "first_error (Some e # es) = Some e"
| "first_error (None # es) = first_error es"

lemma first_error_None [simp]: "first_error es = None \<longleftrightarrow> (\<forall>e\<in>set es. e = None)"
  by (induction es rule: first_error.induct) auto

lemma first_error_append:
  "first_error (xs @ ys) = (case first_error xs of None \<Rightarrow> first_error ys | Some e \<Rightarrow> Some e)"
  by (induction xs rule: first_error.induct) auto

end
