(* ===== verification/Go_Strings.thy ===== *)
theory Go_Strings
  imports Prelude
begin

text \<open>
  The functions of Go's packages \<open>strings\<close>, \<open>bytes\<close> and \<open>sort\<close> that ReleaseDock calls, on byte
  strings. Case folding is the ASCII part of Go's: every use in the sources compares the folded
  value with an ASCII constant, or with a hexadecimal digest, none of whose letters has a
  non-ASCII case variant (only \<open>k\<close>, \<open>s\<close> and \<open>i\<close> have one).
\<close>

subsection \<open>Prefixes, suffixes, searching\<close>

definition has_prefix :: "string \<Rightarrow> string \<Rightarrow> bool" where
  "has_prefix s p \<longleftrightarrow> take (length p) s = p"

definition has_suffix :: "string \<Rightarrow> string \<Rightarrow> bool" where
  "has_suffix s p \<longleftrightarrow> length p \<le> length s \<and> drop (length s - length p) s = p"

definition trim_prefix :: "string \<Rightarrow> string \<Rightarrow> string" where
  "trim_prefix s p = (if has_prefix s p then drop (length p) s else s)"

definition trim_suffix :: "string \<Rightarrow> string \<Rightarrow> string" where
  "trim_suffix s p = (if has_suffix s p then take (length s - length p) s else s)"

text \<open>\<open>bytes.Index\<close> and \<open>strings.Index\<close>: the leftmost occurrence.\<close>

fun index_of :: "'a list \<Rightarrow> 'a list \<Rightarrow> nat option" where
  "index_of [] pat = (if pat = [] then Some 0 else None)"
| "index_of (x # xs) pat =
     (if take (length pat) (x # xs) = pat then Some 0 else map_option Suc (index_of xs pat))"

definition contains_sub :: "string \<Rightarrow> string \<Rightarrow> bool" where
  "contains_sub s sub \<longleftrightarrow> index_of s sub \<noteq> None"

definition contains_char :: "string \<Rightarrow> char \<Rightarrow> bool" where
  "contains_char s c \<longleftrightarrow> c \<in> set s"

definition contains_any :: "string \<Rightarrow> string \<Rightarrow> bool" where
  "contains_any s cs \<longleftrightarrow> (\<exists>c\<in>set s. c \<in> set cs)"

text \<open>\<open>IndexByte\<close>, \<open>LastIndexByte\<close> and \<open>IndexAny\<close>.\<close>

fun index_where :: "('a \<Rightarrow> bool) \<Rightarrow> 'a list \<Rightarrow> nat option" where
  "index_where P [] = None"
| "index_where P (x # xs) = (if P x then Some 0 else map_option Suc (index_where P xs))"

definition index_byte :: "string \<Rightarrow> char \<Rightarrow> nat option" where
  "index_byte s c = index_where (\<lambda>x. x = c) s"

definition last_index_byte :: "string \<Rightarrow> char \<Rightarrow> nat option" where
  "last_index_byte s c = map_option (\<lambda>i. length s - Suc i) (index_byte (rev s) c)"

lemma has_prefix_iff: "has_prefix s p \<longleftrightarrow> (\<exists>t. s = p @ t)"
  unfolding has_prefix_def by (metis append_eq_conv_conj append_take_drop_id)

lemma has_prefix_append [simp]: "has_prefix (p @ t) p"
  by (auto simp: has_prefix_iff)

lemma has_suffix_iff: "has_suffix s p \<longleftrightarrow> (\<exists>t. s = t @ p)"
proof
  assume "has_suffix s p"
  then show "\<exists>t. s = t @ p" unfolding has_suffix_def by (metis append_take_drop_id)
qed (auto simp: has_suffix_def)

lemma has_suffix_append [simp]: "has_suffix (t @ p) p"
  by (auto simp: has_suffix_iff)

lemma trim_prefix_append [simp]: "trim_prefix (p @ t) p = t"
  by (simp add: trim_prefix_def)

lemma trim_suffix_append [simp]: "trim_suffix (t @ p) p = t"
  by (simp add: trim_suffix_def)

lemma index_of_Some_bound: "index_of xs pat = Some i \<Longrightarrow> i + length pat \<le> length xs"
proof (induction xs pat arbitrary: i rule: index_of.induct)
  case (2 x xs pat)
  show ?case
  proof (cases "take (length pat) (x # xs) = pat")
    case True
    then have "length pat \<le> length (x # xs)"
      by (metis length_take min.cobounded1)
    then show ?thesis using 2 True by simp
  next
    case False
    with 2 obtain j where "index_of xs pat = Some j" "i = Suc j" by auto
    with 2(1) [OF False] show ?thesis by simp
  qed
qed (auto split: if_splits)

lemma index_of_Some_split:
  "index_of xs pat = Some i \<Longrightarrow> xs = take i xs @ pat @ drop (i + length pat) xs"
proof (induction xs pat arbitrary: i rule: index_of.induct)
  case (2 x xs pat)
  show ?case
  proof (cases "take (length pat) (x # xs) = pat")
    case True
    with 2(2) show ?thesis by (metis append_take_drop_id append_Nil index_of.simps(2) option.inject
          plus_nat.add_0 take0)
  next
    case False
    with 2 obtain j where "index_of xs pat = Some j" "i = Suc j" by auto
    with 2(1) [OF False] show ?thesis by (metis Cons_eq_appendI add_Suc drop_Suc_Cons take_Suc_Cons)
  qed
qed (auto split: if_splits)

lemma index_of_None_iff: "index_of xs pat = None \<longleftrightarrow> (\<nexists>a b. xs = a @ pat @ b)"
proof (induction xs pat rule: index_of.induct)
  case (2 x xs pat)
  show ?case
  proof (cases "take (length pat) (x # xs) = pat")
    case True
    then have "x # xs = [] @ pat @ drop (length pat) (x # xs)"
      by (metis append_take_drop_id append_Nil)
    with True show ?thesis by (metis index_of.simps(2) option.distinct(1))
  next
    case False
    have "x # xs = a @ pat @ b \<longleftrightarrow> (\<exists>a'. a = x # a' \<and> xs = a' @ pat @ b)" for a b
      using False by (cases a) auto
    with False 2 show ?thesis by auto
  qed
qed auto

text \<open>Leftmost: before the reported position there is no occurrence.\<close>

lemma index_of_leftmost:
  "index_of xs pat = Some i \<Longrightarrow> xs = a @ pat @ b \<Longrightarrow> i \<le> length a"
proof (induction xs pat arbitrary: i a rule: index_of.induct)
  case (2 x xs pat)
  show ?case
  proof (cases "take (length pat) (x # xs) = pat")
    case True
    with 2(2) have "i = 0" by simp
    then show ?thesis by simp
  next
    case False
    with 2(2) obtain j where j: "index_of xs pat = Some j" "i = Suc j" by auto
    from 2(3) False obtain a' where "a = x # a'" "xs = a' @ pat @ b" by (cases a) auto
    with 2(1) [OF False j(1)] j(2) show ?thesis by simp
  qed
qed (auto split: if_splits)

lemma index_of_eqI:
  assumes "xs = a @ pat @ b" and "\<And>a' b'. xs = a' @ pat @ b' \<Longrightarrow> length a \<le> length a'"
  shows "index_of xs pat = Some (length a)"
proof -
  from assms(1) obtain i where i: "index_of xs pat = Some i"
    using index_of_None_iff by (metis not_None_eq)
  have "i \<le> length a" using index_of_leftmost [OF i assms(1)] .
  moreover have "length a \<le> length (take i xs)"
    using assms(2) index_of_Some_split [OF i] by blast
  then have "length a \<le> i" by simp
  ultimately show ?thesis using i by simp
qed

lemma contains_sub_iff: "contains_sub s sub \<longleftrightarrow> (\<exists>a b. s = a @ sub @ b)"
  using index_of_None_iff [of s sub] by (auto simp: contains_sub_def)

lemma contains_sub_single: "contains_sub s [c] \<longleftrightarrow> c \<in> set s"
  by (simp add: contains_sub_iff in_set_conv_decomp)

lemma index_where_Some:
  "index_where P xs = Some i \<longleftrightarrow> i < length xs \<and> P (xs ! i) \<and> (\<forall>j<i. \<not> P (xs ! j))"
proof (induction xs arbitrary: i)
  case (Cons x xs)
  show ?case
  proof (cases i)
    case 0
    then show ?thesis by auto
  next
    case (Suc k)
    have "(\<forall>j<Suc k. \<not> P ((x # xs) ! j)) \<longleftrightarrow> \<not> P x \<and> (\<forall>j<k. \<not> P (xs ! j))"
      by (auto simp: less_Suc_eq_0_disj)
    with Suc Cons.IH [of k] show ?thesis by auto
  qed
qed simp

lemma index_where_None: "index_where P xs = None \<longleftrightarrow> (\<forall>x\<in>set xs. \<not> P x)"
  by (induction xs) auto

lemma last_index_byte_None: "last_index_byte s c = None \<longleftrightarrow> c \<notin> set s"
  by (auto simp: last_index_byte_def index_byte_def index_where_None)

lemma last_index_byte_append:
  assumes "c \<notin> set b" shows "last_index_byte (a @ c # b) c = Some (length a)"
proof -
  have "index_where (\<lambda>x. x = c) (bs @ c # as) = Some (length bs)" if "c \<notin> set bs" for bs as
    using that by (induction bs) auto
  from this [of "rev b" "rev a"] assms
  have "index_byte (rev (a @ c # b)) c = Some (length b)"
    by (simp add: index_byte_def)
  then show ?thesis by (simp add: last_index_byte_def)
qed

lemma last_index_byte_Some:
  assumes "last_index_byte s c = Some i"
  shows "s = take i s @ c # drop (Suc i) s" "c \<notin> set (drop (Suc i) s)" "i < length s"
proof -
  have "c \<in> set s" using assms last_index_byte_None [of s c] by auto
  then obtain a b where ab: "s = a @ c # b" "c \<notin> set b" by (metis split_list_last)
  then have "i = length a" using assms last_index_byte_append by auto
  with ab show "s = take i s @ c # drop (Suc i) s" "c \<notin> set (drop (Suc i) s)" "i < length s" by simp_all
qed

lemma index_byte_takeWhile:
  "index_byte s c = (if c \<in> set s then Some (length (takeWhile (\<lambda>x. x \<noteq> c) s)) else None)"
  by (induction s) (auto simp: index_byte_def)

lemma take_takeWhile [simp]: "take (length (takeWhile P s)) s = takeWhile P s"
  by (metis append_eq_conv_conj takeWhile_dropWhile_id)

lemma takeWhile_split: "c \<in> set s \<Longrightarrow> s = takeWhile (\<lambda>x. x \<noteq> c) s @ c # drop (Suc (length (takeWhile (\<lambda>x. x \<noteq> c) s))) s"
  by (induction s) auto

lemma takeWhile_sep: "c \<notin> set h \<Longrightarrow> takeWhile (\<lambda>x. x \<noteq> c) (h @ c # t) = h"
  by (induction h) auto

subsection \<open>Splitting and joining\<close>

text \<open>\<open>strings.Split\<close> with a one-byte separator: always at least one piece.\<close>

fun split_char :: "char \<Rightarrow> string \<Rightarrow> string list" where
  "split_char c [] = [[]]"
| "split_char c (x # xs) =
     (if x = c then [] # split_char c xs
      else (case split_char c xs of [] \<Rightarrow> [[x]] | y # ys \<Rightarrow> (x # y) # ys))"

lemma split_char_not_Nil [simp]: "split_char c s \<noteq> []"
  by (induction s) (auto split: list.splits)

lemma split_char_no_sep: "p \<in> set (split_char c s) \<Longrightarrow> c \<notin> set p"
  by (induction s arbitrary: p) (auto split: list.splits if_splits)

lemma join_with_Cons_Cons: "ys \<noteq> [] \<Longrightarrow> join_with sep (x # ys) = x @ sep @ join_with sep ys"
  by (cases ys) auto

lemma join_with_Cons_head: "join_with sep ((x # y) # ys) = x # join_with sep (y # ys)"
  by (cases ys) auto

lemma join_split_char [simp]: "join_with [c] (split_char c s) = s"
proof (induction s)
  case (Cons x xs)
  then show ?case
    by (cases "split_char c xs") (auto simp: join_with_Cons_head)
qed simp

lemma split_char_free: "c \<notin> set s \<Longrightarrow> split_char c s = [s]"
  by (induction s) auto

lemma split_char_append: "c \<notin> set a \<Longrightarrow> split_char c (a @ c # b) = a # split_char c b"
  by (induction a) (auto split: list.splits)

lemma split_join_char:
  assumes "xs \<noteq> []" and "\<forall>x\<in>set xs. c \<notin> set x"
  shows "split_char c (join_with [c] xs) = xs"
  using assms
proof (induction "[c]" xs rule: join_with.induct)
  case (3 x y zs)
  then show ?case by (simp add: split_char_append)
qed (auto simp: split_char_free)

lemma split_char_inject: "split_char c s = split_char c t \<Longrightarrow> s = t"
  by (metis join_split_char)

lemma set_join_with: "set (join_with sep xs) \<subseteq> set sep \<union> (\<Union>x\<in>set xs. set x)"
  by (induction sep xs rule: join_with.induct) auto

lemma join_with_append:
  "xs \<noteq> [] \<Longrightarrow> ys \<noteq> [] \<Longrightarrow> join_with sep (xs @ ys) = join_with sep xs @ sep @ join_with sep ys"
proof (induction sep xs rule: join_with.induct)
  case (2 sep x)
  then show ?case by (simp add: join_with_Cons_Cons)
next
  case (3 sep x y zs)
  then show ?case by (simp add: join_with_Cons_Cons)
qed simp

subsection \<open>Trimming\<close>

text \<open>\<open>strings.TrimLeft\<close>, \<open>TrimRight\<close> and \<open>Trim\<close> with an ASCII cutset.\<close>

definition trim_left_cut :: "string \<Rightarrow> string \<Rightarrow> string" where
  "trim_left_cut s cs = dropWhile (\<lambda>c. c \<in> set cs) s"

definition trim_right_cut :: "string \<Rightarrow> string \<Rightarrow> string" where
  "trim_right_cut s cs = rev (dropWhile (\<lambda>c. c \<in> set cs) (rev s))"

definition trim_cut :: "string \<Rightarrow> string \<Rightarrow> string" where
  "trim_cut s cs = trim_right_cut (trim_left_cut s cs) cs"

text \<open>
  \<open>strings.TrimSpace\<close> removes Unicode white space: the UTF-8 encodings of the runes for which
  \<open>unicode.IsSpace\<close> holds.
\<close>

definition space_encodings :: "string list" where
  "space_encodings =
    [[CHR 0x09], [CHR 0x0A], [CHR 0x0B], [CHR 0x0C], [CHR 0x0D], [CHR 0x20],
     [CHR 0xC2, CHR 0x85], [CHR 0xC2, CHR 0xA0], [CHR 0xE1, CHR 0x9A, CHR 0x80],
     [CHR 0xE2, CHR 0x80, CHR 0x80], [CHR 0xE2, CHR 0x80, CHR 0x81], [CHR 0xE2, CHR 0x80, CHR 0x82],
     [CHR 0xE2, CHR 0x80, CHR 0x83], [CHR 0xE2, CHR 0x80, CHR 0x84], [CHR 0xE2, CHR 0x80, CHR 0x85],
     [CHR 0xE2, CHR 0x80, CHR 0x86], [CHR 0xE2, CHR 0x80, CHR 0x87], [CHR 0xE2, CHR 0x80, CHR 0x88],
     [CHR 0xE2, CHR 0x80, CHR 0x89], [CHR 0xE2, CHR 0x80, CHR 0x8A], [CHR 0xE2, CHR 0x80, CHR 0xA8],
     [CHR 0xE2, CHR 0x80, CHR 0xA9], [CHR 0xE2, CHR 0x80, CHR 0xAF], [CHR 0xE2, CHR 0x81, CHR 0x9F],
     [CHR 0xE3, CHR 0x80, CHR 0x80]]"

definition drop_encoding :: "string list \<Rightarrow> string \<Rightarrow> string option" where
  "drop_encoding encs s =
     (case List.find (\<lambda>e. e \<noteq> [] \<and> has_prefix s e) encs of
        None \<Rightarrow> None | Some e \<Rightarrow> Some (drop (length e) s))"

lemma drop_encoding_shorter: "drop_encoding encs s = Some t \<Longrightarrow> length t < length s"
  by (auto simp: drop_encoding_def has_prefix_iff find_Some_iff split: option.splits)

function trim_encodings :: "string list \<Rightarrow> string \<Rightarrow> string" where
  "trim_encodings encs s =
     (case drop_encoding encs s of None \<Rightarrow> s | Some t \<Rightarrow> trim_encodings encs t)"
  by pat_completeness auto
termination
  by (relation "measure (\<lambda>(encs, s). length s)") (auto dest: drop_encoding_shorter)

declare trim_encodings.simps [simp del]

definition trim_space :: "string \<Rightarrow> string" where
  "trim_space s =
     rev (trim_encodings (map rev space_encodings) (rev (trim_encodings space_encodings s)))"

lemma trim_encodings_suffix: "\<exists>p. s = p @ trim_encodings encs s"
proof (induction encs s rule: trim_encodings.induct)
  case (1 encs s)
  show ?case
  proof (cases "drop_encoding encs s")
    case None
    then show ?thesis by (simp add: trim_encodings.simps)
  next
    case (Some t)
    then obtain e where "s = e @ t"
      by (auto simp: drop_encoding_def has_prefix_iff find_Some_iff split: option.splits)
    with 1 [OF Some] Some show ?thesis
      by (metis append_assoc option.simps(5) trim_encodings.simps)
  qed
qed

lemma trim_space_infix: "\<exists>p q. s = p @ trim_space s @ q"
proof -
  obtain p where p: "s = p @ trim_encodings space_encodings s"
    using trim_encodings_suffix by blast
  obtain q where "rev (trim_encodings space_encodings s) =
      q @ trim_encodings (map rev space_encodings) (rev (trim_encodings space_encodings s))"
    using trim_encodings_suffix by blast
  then have "trim_encodings space_encodings s = trim_space s @ rev q"
    unfolding trim_space_def by (metis rev_append rev_rev_ident)
  with p show ?thesis by metis
qed

lemma length_trim_space: "length (trim_space s) \<le> length s"
  using trim_space_infix [of s] by (metis le_add1 length_append linorder_le_cases
      trans_le_add2 add_le_cancel_left)

lemma set_trim_space: "set (trim_space s) \<subseteq> set s"
  using trim_space_infix [of s] by (metis Un_iff set_append subsetI)

subsection \<open>ASCII case and character classes\<close>

definition to_lower_char :: "char \<Rightarrow> char" where
  "to_lower_char c = (if CHR ''A'' \<le> c \<and> c \<le> CHR ''Z'' then char_of (of_char c + 32 :: nat) else c)"

definition to_upper_char :: "char \<Rightarrow> char" where
  "to_upper_char c = (if CHR ''a'' \<le> c \<and> c \<le> CHR ''z'' then char_of (of_char c - 32 :: nat) else c)"

definition to_lower :: "string \<Rightarrow> string" where "to_lower s = map to_lower_char s"

definition to_upper :: "string \<Rightarrow> string" where "to_upper s = map to_upper_char s"

definition equal_fold :: "string \<Rightarrow> string \<Rightarrow> bool" where
  "equal_fold s t \<longleftrightarrow> to_lower s = to_lower t"

definition is_lower :: "char \<Rightarrow> bool" where "is_lower c \<longleftrightarrow> CHR ''a'' \<le> c \<and> c \<le> CHR ''z''"

definition is_upper :: "char \<Rightarrow> bool" where "is_upper c \<longleftrightarrow> CHR ''A'' \<le> c \<and> c \<le> CHR ''Z''"

definition is_digit :: "char \<Rightarrow> bool" where "is_digit c \<longleftrightarrow> CHR ''0'' \<le> c \<and> c \<le> CHR ''9''"

definition is_hex :: "char \<Rightarrow> bool" where
  "is_hex c \<longleftrightarrow> is_digit c \<or> (CHR ''a'' \<le> c \<and> c \<le> CHR ''f'') \<or> (CHR ''A'' \<le> c \<and> c \<le> CHR ''F'')"

lemma equal_fold_refl [simp]: "equal_fold s s"
  by (simp add: equal_fold_def)

lemma equal_fold_sym: "equal_fold s t \<longleftrightarrow> equal_fold t s"
  by (auto simp: equal_fold_def)

lemma equal_fold_length: "equal_fold s t \<Longrightarrow> length s = length t"
  unfolding equal_fold_def to_lower_def by (metis length_map)

lemma length_to_lower [simp]: "length (to_lower s) = length s"
  by (simp add: to_lower_def)

lemma to_lower_char_idem [simp]: "to_lower_char (to_lower_char c) = to_lower_char c"
  unfolding to_lower_char_def less_eq_char_def by (auto simp: of_char_of)

lemma to_lower_idem [simp]: "to_lower (to_lower s) = to_lower s"
  by (simp add: to_lower_def comp_def)

text \<open>\<open>sort.Strings\<close> sorts bytewise; the order on strings here is the same.\<close>

definition sort_strings :: "string list \<Rightarrow> string list" where
  "sort_strings xs = sort xs"

text \<open>
  The runes of a string, as \<open>[]rune(s)\<close> decodes it, each in its UTF-8 encoding again: a byte that is
  not part of a valid encoding becomes U+FFFD.
\<close>

definition in_range :: "nat \<Rightarrow> nat \<Rightarrow> char \<Rightarrow> bool" where
  "in_range lo hi c \<longleftrightarrow> lo \<le> (of_char c :: nat) \<and> (of_char c :: nat) \<le> hi"

definition cont_byte :: "char \<Rightarrow> bool" where "cont_byte = in_range 0x80 0xBF"

definition rune_length :: "string \<Rightarrow> nat option" where
  "rune_length s =
     (case s of
        [] \<Rightarrow> None
      | b # r \<Rightarrow>
          if in_range 0 0x7F b then Some 1
          else if in_range 0xC2 0xDF b \<and> length r \<ge> 1 \<and> cont_byte (r ! 0) then Some 2
          else if length r \<ge> 2 \<and> cont_byte (r ! 1) \<and>
            (in_range 0xE0 0xE0 b \<and> in_range 0xA0 0xBF (r ! 0) \<or>
             in_range 0xED 0xED b \<and> in_range 0x80 0x9F (r ! 0) \<or>
             in_range 0xE1 0xEF b \<and> \<not> in_range 0xED 0xED b \<and> cont_byte (r ! 0)) then Some 3
          else if length r \<ge> 3 \<and> cont_byte (r ! 1) \<and> cont_byte (r ! 2) \<and>
            (in_range 0xF0 0xF0 b \<and> in_range 0x90 0xBF (r ! 0) \<or>
             in_range 0xF4 0xF4 b \<and> in_range 0x80 0x8F (r ! 0) \<or>
             in_range 0xF1 0xF3 b \<and> cont_byte (r ! 0)) then Some 4
          else None)"

function utf8_runes :: "string \<Rightarrow> string list" where
  "utf8_runes s =
     (if s = [] then []
      else case rune_length s of
             None \<Rightarrow> [CHR 0xEF, CHR 0xBF, CHR 0xBD] # utf8_runes (tl s)
           | Some n \<Rightarrow> take n s # utf8_runes (drop (max 1 n) s))"
  by pat_completeness auto
termination
  by (relation "measure length") auto

declare utf8_runes.simps [simp del]


text \<open>Decimal text, as \<open>%d\<close> and \<open>strconv.Itoa\<close> print it.\<close>

definition digit_char :: "nat \<Rightarrow> char" where
  "digit_char n = char_of (48 + n)"

fun nat_text :: "nat \<Rightarrow> string" where
  "nat_text n = (if n < 10 then [digit_char n] else nat_text (n div 10) @ [digit_char (n mod 10)])"

declare nat_text.simps [simp del]

definition int_text :: "int \<Rightarrow> string" where
  "int_text i = (if i < 0 then ''-'' @ nat_text (nat (- i)) else nat_text (nat i))"

lemma nat_text_not_Nil [simp]: "nat_text n \<noteq> []"
  by (subst nat_text.simps) simp

lemma int_text_not_Nil [simp]: "int_text i \<noteq> []"
  by (simp add: int_text_def)

end
