(* ===== verification/Go_Paths.thy ===== *)
theory Go_Paths
  imports Go_Strings
begin

text \<open>
  Go's \<open>path\<close> and \<open>path/filepath\<close> on a Unix system, where the separator is the slash and
  \<open>FromSlash\<close> and \<open>ToSlash\<close> are the identity: \<open>Clean\<close>, \<open>Join\<close>, \<open>Rel\<close>, \<open>Dir\<close>, \<open>Base\<close>, \<open>Ext\<close>,
  \<open>IsAbs\<close>. A cleaned path is determined by whether it is rooted and by its list of components
  (\<open>path_render\<close> and \<open>comps\<close> are inverse on clean component lists), and the lemmas reduce every
  operation to that list.
\<close>

abbreviation slash :: char where "slash \<equiv> CHR 0x2F"
abbreviation dot :: string where "dot \<equiv> ''.''"
abbreviation dotdot :: string where "dotdot \<equiv> ''..''"

definition is_abs :: "string \<Rightarrow> bool" where
  "is_abs p \<longleftrightarrow> has_prefix p [slash]"

text \<open>The lexical rules of \<open>Clean\<close>, over the stack of components seen so far.\<close>

fun clean_stack :: "bool \<Rightarrow> string list \<Rightarrow> string list \<Rightarrow> string list" where
  "clean_stack rooted st [] = rev st"
| "clean_stack rooted st (c # cs) =
     (if c = [] \<or> c = dot then clean_stack rooted st cs
      else if c = dotdot then
        (case st of
           [] \<Rightarrow> if rooted then clean_stack rooted [] cs else clean_stack rooted [dotdot] cs
         | t # ts \<Rightarrow> if t = dotdot then clean_stack rooted (dotdot # st) cs
                     else clean_stack rooted ts cs)
      else clean_stack rooted (c # st) cs)"

definition comps :: "string \<Rightarrow> string list" where
  "comps p = clean_stack (is_abs p) [] (split_char slash p)"

definition path_render :: "bool \<Rightarrow> string list \<Rightarrow> string" where
  "path_render rooted cs =
     (if rooted then slash # join_with [slash] cs
      else if cs = [] then dot else join_with [slash] cs)"

definition path_clean :: "string \<Rightarrow> string" where
  "path_clean p = path_render (is_abs p) (comps p)"

text \<open>\<open>Join\<close> skips the leading empty elements and cleans the rest.\<close>

definition path_join :: "string list \<Rightarrow> string" where
  "path_join elems =
     (let rest = dropWhile (\<lambda>e. e = []) elems
      in if rest = [] then [] else path_clean (join_with [slash] rest))"

fun strip_common :: "'a list \<Rightarrow> 'a list \<Rightarrow> 'a list \<times> 'a list" where
  "strip_common (x # xs) (y # ys) = (if x = y then strip_common xs ys else (x # xs, y # ys))"
| "strip_common xs ys = (xs, ys)"

text \<open>A relative target that cleans to the current directory is spelled as one element ``.''.\<close>

definition rel_elems :: "string \<Rightarrow> string list" where
  "rel_elems p = (if \<not> is_abs p \<and> comps p = [] then [dot] else comps p)"

definition path_rel :: "string \<Rightarrow> string \<Rightarrow> string result" where
  "path_rel base targ =
     (if path_clean base = path_clean targ then Inr dot
      else if is_abs base \<noteq> is_abs targ then Inl (Err ''Rel: cannot make relative'')
      else case strip_common (comps base) (rel_elems targ) of (b, t) \<Rightarrow>
        if b \<noteq> [] \<and> hd b = dotdot then Inl (Err ''Rel: cannot make relative'')
        else Inr (join_with [slash] (replicate (length b) dotdot @ t)))"

definition path_base :: "string \<Rightarrow> string" where
  "path_base p =
     (let q = trim_right_cut p [slash]
      in if p = [] then dot else if q = [] then [slash] else last (split_char slash q))"

definition path_dir :: "string \<Rightarrow> string" where
  "path_dir p =
     path_clean (case last_index_byte p slash of None \<Rightarrow> [] | Some i \<Rightarrow> take (Suc i) p)"

definition path_ext :: "string \<Rightarrow> string" where
  "path_ext p =
     (let name = last (split_char slash p)
      in case last_index_byte name (CHR ''.'') of None \<Rightarrow> [] | Some i \<Rightarrow> drop i name)"

subsection \<open>Clean component lists\<close>

definition normal_name :: "string \<Rightarrow> bool" where
  "normal_name c \<longleftrightarrow> c \<noteq> [] \<and> c \<noteq> dot \<and> c \<noteq> dotdot \<and> slash \<notin> set c"

definition clean_form :: "bool \<Rightarrow> string list \<Rightarrow> bool" where
  "clean_form rooted cs \<longleftrightarrow>
     (\<exists>k ns. cs = replicate k dotdot @ ns \<and> (\<forall>n\<in>set ns. normal_name n) \<and> (rooted \<longrightarrow> k = 0))"

lemma normal_name_simps [simp]: "\<not> normal_name []" "\<not> normal_name dot" "\<not> normal_name dotdot"
  by (simp_all add: normal_name_def)

lemma clean_form_Nil [simp]: "clean_form r []"
  by (auto simp: clean_form_def intro: exI [of _ 0])

lemma clean_form_normal: "(\<forall>n\<in>set ns. normal_name n) \<Longrightarrow> clean_form r ns"
  unfolding clean_form_def by (metis append_Nil replicate_0)

lemma clean_form_rooted [simp]: "clean_form True cs \<longleftrightarrow> (\<forall>n\<in>set cs. normal_name n)"
  by (auto simp: clean_form_def)

lemma clean_form_butlast:
  assumes "clean_form r (cs @ [c])" shows "clean_form r cs"
proof -
  from assms obtain k ns where *: "cs @ [c] = replicate k dotdot @ ns"
    "\<forall>n\<in>set ns. normal_name n" "r \<longrightarrow> k = 0" by (auto simp: clean_form_def)
  show ?thesis
  proof (cases ns rule: rev_cases)
    case Nil
    with * obtain k' where "k = Suc k'" by (cases k) auto
    with * Nil have "cs = replicate k' dotdot" "\<not> r"
      by (auto simp: replicate_append_same [symmetric])
    then show ?thesis by (auto simp: clean_form_def intro!: exI [of _ k'] exI [of _ "[]"])
  next
    case (snoc ms m)
    with * have "cs = replicate k dotdot @ ms" by simp
    with * snoc show ?thesis by (auto simp: clean_form_def)
  qed
qed

lemma clean_form_snoc_normal: "clean_form r cs \<Longrightarrow> normal_name c \<Longrightarrow> clean_form r (cs @ [c])"
proof -
  assume "clean_form r cs" and c: "normal_name c"
  then obtain k ns where "cs = replicate k dotdot @ ns" "\<forall>n\<in>set ns. normal_name n" "r \<longrightarrow> k = 0"
    by (auto simp: clean_form_def)
  then show ?thesis using c unfolding clean_form_def
    by (intro exI [of _ k] exI [of _ "ns @ [c]"]) auto
qed

lemma clean_form_snoc_dotdot:
  assumes "clean_form False cs" and "cs = [] \<or> last cs = dotdot"
  shows "clean_form False (cs @ [dotdot])"
proof -
  from assms obtain k ns where *: "cs = replicate k dotdot @ ns" "\<forall>n\<in>set ns. normal_name n"
    by (auto simp: clean_form_def)
  have "ns = []"
  proof (rule ccontr)
    assume "ns \<noteq> []"
    with * assms(2) have "last ns = dotdot" by auto
    with * \<open>ns \<noteq> []\<close> show False by (metis last_in_set normal_name_simps(3))
  qed
  with * have "cs @ [dotdot] = replicate (Suc k) dotdot @ []" by (simp add: replicate_append_same)
  then show ?thesis unfolding clean_form_def
    by (intro exI [of _ "Suc k"] exI [of _ "[]"]) simp
qed

lemma clean_form_mem:
  "clean_form r cs \<Longrightarrow> c \<in> set cs \<Longrightarrow> c \<noteq> [] \<and> c \<noteq> dot \<and> slash \<notin> set c"
proof -
  assume "clean_form r cs" "c \<in> set cs"
  then obtain k ns where "cs = replicate k dotdot @ ns" "\<forall>n\<in>set ns. normal_name n"
    unfolding clean_form_def by blast
  with \<open>c \<in> set cs\<close> have "c = dotdot \<or> normal_name c"
    by (metis Un_iff in_set_replicate set_append)
  then show ?thesis by (auto simp: normal_name_def)
qed

lemmas clean_form_no_slash = clean_form_mem [THEN conjunct2, THEN conjunct2]

lemma clean_stack_form:
  "clean_form r (rev st) \<Longrightarrow> \<forall>c\<in>set cs. slash \<notin> set c \<Longrightarrow> clean_form r (clean_stack r st cs)"
proof (induction r st cs rule: clean_stack.induct)
  case (2 r st c cs)
  consider (skip) "c = [] \<or> c = dot" | (up) "c = dotdot" | (push) "normal_name c"
    using "2.prems"(2) by (auto simp: normal_name_def)
  then show ?case
  proof cases
    case skip
    then show ?thesis using 2 by auto
  next
    case push
    then have "clean_form r (rev (c # st))"
      using "2.prems"(1) by (simp add: clean_form_snoc_normal)
    then show ?thesis using push 2 by (auto simp: normal_name_def)
  next
    case up
    show ?thesis
    proof (cases st)
      case Nil
      then show ?thesis using 2 up clean_form_snoc_dotdot [of "[]"] by auto
    next
      case (Cons t ts)
      show ?thesis
      proof (cases "t = dotdot")
        case True
        then have "\<not> r" using "2.prems"(1) Cons by (auto simp: clean_form_def)
        with True Cons 2 up clean_form_snoc_dotdot [of "rev st"] show ?thesis by simp
      next
        case False
        with Cons 2 up clean_form_butlast [of r "rev ts" t] show ?thesis by auto
      qed
    qed
  qed
qed simp

lemma comps_form: "clean_form (is_abs p) (comps p)"
  unfolding comps_def by (rule clean_stack_form) (auto dest: split_char_no_sep)

lemma comps_abs_normal: "is_abs p \<Longrightarrow> n \<in> set (comps p) \<Longrightarrow> normal_name n"
  using comps_form [of p] by simp

lemma clean_stack_append:
  "clean_stack r st (xs @ ys) = clean_stack r (rev (clean_stack r st xs)) ys"
  by (induction r st xs rule: clean_stack.induct) (auto split: list.splits)

lemma clean_stack_normal:
  "\<forall>n\<in>set ns. normal_name n \<Longrightarrow> clean_stack r st ns = rev st @ ns"
  by (induction ns arbitrary: st) (auto simp: normal_name_def)

lemma clean_stack_dotdots:
  "clean_stack False (replicate j dotdot) (replicate k dotdot) = replicate (j + k) dotdot"
proof (induction k arbitrary: j)
  case (Suc k)
  have "clean_stack False (replicate j dotdot) (replicate (Suc k) dotdot) =
      clean_stack False (replicate (Suc j) dotdot) (replicate k dotdot)"
    by (cases j) auto
  with Suc [of "Suc j"] show ?case by simp
qed simp

lemma clean_stack_id: "clean_form r cs \<Longrightarrow> clean_stack r [] cs = cs"
proof -
  assume "clean_form r cs"
  then obtain k ns where *: "cs = replicate k dotdot @ ns" "\<forall>n\<in>set ns. normal_name n"
    "r \<longrightarrow> k = 0" by (auto simp: clean_form_def)
  have "clean_stack r [] (replicate k dotdot) = replicate k dotdot"
    using clean_stack_dotdots [of 0 k] *(3) by (cases r) auto
  with * show ?thesis by (simp add: clean_stack_append clean_stack_normal)
qed

subsection \<open>Rendering and components are inverse\<close>

lemma is_abs_Cons [simp]: "is_abs (c # s) \<longleftrightarrow> c = slash"
  by (auto simp: is_abs_def has_prefix_def)

lemma is_abs_Nil [simp]: "\<not> is_abs []"
  by (simp add: is_abs_def has_prefix_def)

lemma is_abs_append: "is_abs (p @ q) \<longleftrightarrow> (if p = [] then is_abs q else is_abs p)"
  by (cases p) auto

lemma not_abs_join: "clean_form False cs \<Longrightarrow> \<not> is_abs (join_with [slash] cs)"
proof (cases cs)
  case (Cons c cs')
  moreover assume "clean_form False cs"
  ultimately have "slash \<notin> set c" "c \<noteq> []"
    using clean_form_mem [of False cs c] by auto
  with Cons show ?thesis
    by (cases cs'; cases c) (auto simp: is_abs_append)
qed simp

lemma is_abs_render [simp]: "clean_form r cs \<Longrightarrow> is_abs (path_render r cs) \<longleftrightarrow> r"
  using not_abs_join by (auto simp: path_render_def)

lemma comps_render [simp]:
  assumes "clean_form r cs" shows "comps (path_render r cs) = cs"
proof (cases "cs = []")
  case True
  then show ?thesis
    using assms by (auto simp: path_render_def comps_def split_char_free)
next
  case False
  have split: "split_char slash (join_with [slash] cs) = cs"
    using False assms clean_form_no_slash by (intro split_join_char) auto
  show ?thesis
  proof (cases r)
    case True
    with split False assms show ?thesis
      by (simp add: comps_def path_render_def clean_stack_id)
  next
    case False
    with split \<open>cs \<noteq> []\<close> assms not_abs_join show ?thesis
      by (simp add: comps_def path_render_def clean_stack_id)
  qed
qed

lemma path_render_inject:
  "clean_form r cs \<Longrightarrow> clean_form r' cs' \<Longrightarrow> path_render r cs = path_render r' cs' \<Longrightarrow>
     r = r' \<and> cs = cs'"
  by (metis comps_render is_abs_render)

lemma is_abs_clean [simp]: "is_abs (path_clean p) = is_abs p"
  by (simp add: path_clean_def comps_form)

lemma comps_clean [simp]: "comps (path_clean p) = comps p"
  by (simp add: path_clean_def comps_form)

lemma path_clean_idem [simp]: "path_clean (path_clean p) = path_clean p"
  by (simp add: path_clean_def [of "path_clean p"]) (simp add: path_clean_def)

lemma path_clean_eq_iff: "path_clean p = path_clean q \<longleftrightarrow> is_abs p = is_abs q \<and> comps p = comps q"
  using path_render_inject [OF comps_form comps_form] by (auto simp: path_clean_def)

lemma path_clean_render [simp]: "clean_form r cs \<Longrightarrow> path_clean (path_render r cs) = path_render r cs"
  by (simp add: path_clean_def)

text \<open>Joining below a directory appends the components.\<close>

lemma comps_append:
  assumes "p \<noteq> []"
  shows "comps (p @ slash # q) = clean_stack (is_abs p) (rev (comps p)) (split_char slash q)"
proof -
  have "split_char slash (p @ slash # q) = split_char slash p @ split_char slash q"
    by (induction p) (auto split: list.splits)
  moreover have "is_abs (p @ slash # q) = is_abs p" using assms by (cases p) auto
  ultimately show ?thesis by (simp add: comps_def clean_stack_append)
qed

lemma comps_relative_normal:
  assumes "\<not> is_abs q" "\<forall>n\<in>set (comps q). normal_name n" "clean_form r (rev st)"
  shows "clean_stack r st (split_char slash q) = rev st @ comps q \<or> \<not> path_clean q = q"
proof (cases "path_clean q = q")
  case True
  show ?thesis
  proof (cases "comps q = []")
    case True
    with \<open>path_clean q = q\<close> assms have "q = dot" by (simp add: path_clean_def path_render_def)
    then show ?thesis using True by (simp add: split_char_free)
  next
    case False
    with \<open>path_clean q = q\<close> assms have "q = join_with [slash] (comps q)"
      by (simp add: path_clean_def path_render_def)
    then have "split_char slash q = comps q"
      using False assms(2) split_join_char [of "comps q" slash]
      by (metis normal_name_def)
    then show ?thesis using assms(2) by (simp add: clean_stack_normal)
  qed
qed simp

lemma path_join_below:
  assumes root: "is_abs root" and q: "q = path_render False ns" "\<forall>n\<in>set ns. normal_name n"
  shows "path_join [root, q] = path_render True (comps root @ ns)"
proof -
  have cf: "clean_form False ns" using q(2) by (rule clean_form_normal)
  have ne: "root \<noteq> []" using root by auto
  have "clean_stack True (rev (comps root)) (split_char slash q) = comps root @ ns"
    using comps_relative_normal [of q True "rev (comps root)"] root q cf comps_form [of root] by simp
  then have "comps (root @ slash # q) = comps root @ ns"
    using ne root by (simp add: comps_append)
  moreover have "is_abs (root @ slash # q)" using root ne by (simp add: is_abs_append)
  ultimately show ?thesis using ne by (simp add: path_join_def path_clean_def)
qed

subsection \<open>Relative paths\<close>

lemma strip_common_spec: "\<exists>cs. xs = cs @ fst (strip_common xs ys) \<and> ys = cs @ snd (strip_common xs ys)"
proof (induction xs ys rule: strip_common.induct)
  case (1 x xs y ys)
  show ?case
  proof (cases "x = y")
    case True
    with 1 obtain cs where "xs = cs @ fst (strip_common xs ys)" "ys = cs @ snd (strip_common xs ys)"
      by auto
    then show ?thesis using True by (auto intro!: exI [of _ "x # cs"])
  next
    case False
    then show ?thesis by simp
  qed
qed simp_all

lemma strip_common_prefix [simp]: "strip_common xs (xs @ ys) = ([], ys)"
  by (induction xs) simp_all

lemma path_rel_below:
  assumes "is_abs base" "\<forall>n\<in>set ns. normal_name n"
  shows "path_rel base (path_render True (comps base @ ns)) = Inr (path_render False ns)"
proof -
  have cf: "clean_form True (comps base @ ns)" using assms comps_form [of base] by auto
  show ?thesis
  proof (cases "ns = []")
    case True
    with assms cf have "path_clean base = path_render True (comps base @ ns)"
      by (simp add: path_clean_def)
    with cf True show ?thesis by (simp add: path_rel_def path_render_def [of False])
  next
    case False
    with assms cf have "path_clean base \<noteq> path_render True (comps base @ ns)"
      by (metis append_self_conv comps_clean comps_render)
    with assms cf False show ?thesis
      by (simp add: path_rel_def rel_elems_def path_render_def [of False])
  qed
qed

subsection \<open>Dir, Base\<close>

lemma join_with_snoc:
  "cs \<noteq> [] \<Longrightarrow> join_with [slash] (cs @ [c]) = join_with [slash] cs @ slash # c"
  by (simp add: join_with_append)

lemma comps_trailing_slash: "p \<noteq> [] \<Longrightarrow> comps (p @ [slash]) = comps p"
  using comps_append [of p "[]"] by simp

lemma join_with_Nil_iff: "clean_form r cs \<Longrightarrow> join_with [slash] cs = [] \<longleftrightarrow> cs = []"
  by (cases "([slash], cs)" rule: join_with.cases) (auto dest: clean_form_mem)

lemma path_dir_render:
  assumes "clean_form r (cs @ [c])"
  shows "path_dir (path_render r (cs @ [c])) = path_render r cs"
proof -
  have cf: "clean_form r cs" using assms by (rule clean_form_butlast)
  have nos: "slash \<notin> set c" using clean_form_no_slash [OF assms] by simp
  show ?thesis
  proof (cases "cs = []")
    case True
    show ?thesis
    proof (cases r)
      case True
      have "last_index_byte (slash # c) slash = Some 0"
        using last_index_byte_append [OF nos, of "[]"] by simp
      then show ?thesis using True \<open>cs = []\<close>
        by (simp add: path_dir_def path_render_def path_clean_def comps_def)
    next
      case False
      with nos \<open>cs = []\<close> show ?thesis
        by (simp add: path_dir_def path_render_def path_clean_def comps_def
            last_index_byte_None [THEN iffD2])
    qed
  next
    case False
    let ?p = "path_render r cs"
    have p: "path_render r (cs @ [c]) = ?p @ slash # c" "?p \<noteq> []"
      using False join_with_Nil_iff [OF cf] by (auto simp: path_render_def join_with_snoc)
    have "path_dir (path_render r (cs @ [c])) = path_clean (?p @ [slash])"
      using p nos by (simp add: path_dir_def last_index_byte_append)
    also have "\<dots> = ?p"
      using p(2) cf by (simp add: path_clean_def comps_trailing_slash is_abs_append)
    finally show ?thesis .
  qed
qed

lemma path_base_normal: "normal_name n \<Longrightarrow> path_base n = n"
proof -
  assume n: "normal_name n"
  then have "dropWhile (\<lambda>c. c = slash) (rev n) = rev n"
    by (cases "rev n") (auto simp: normal_name_def dest: arg_cong [where f = set])
  then show ?thesis using n
    by (simp add: path_base_def trim_right_cut_def normal_name_def split_char_free)
qed

lemma path_join_name:
  assumes "clean_form True (d @ [c])"
  shows "path_join [path_render True d, c] = path_render True (d @ [c])"
proof -
  have d: "clean_form True d" "normal_name c" using assms by auto
  then have "c = path_render False [c]" by (simp add: path_render_def)
  then show ?thesis
    using path_join_below [of "path_render True d" c "[c]"] d by simp
qed

lemma path_base_render:
  assumes "clean_form True (d @ [c])"
  shows "path_base (path_render True (d @ [c])) = c"
proof -
  have c: "normal_name c" using assms by simp
  have s: "split_char slash (path_render True (d @ [c])) = [] # d @ [c]"
    using assms clean_form_no_slash [OF assms] by (auto simp: path_render_def intro!: split_join_char)
  obtain p where p: "path_render True (d @ [c]) = p @ slash # c"
    by (cases "d = []") (simp_all add: path_render_def join_with_snoc)
  obtain c' x where x: "c = c' @ [x]" "x \<noteq> slash"
    using c by (cases c rule: rev_cases) (auto simp: normal_name_def)
  have "trim_right_cut (p @ slash # c) [slash] = p @ slash # c"
    by (simp add: x trim_right_cut_def)
  with s show ?thesis by (simp add: p path_base_def)
qed

end
