(* ===== verification/Filesystem.thy ===== *)
theory Filesystem
  imports Go_Paths "HOL-Library.AList"
begin

text \<open>
  The part of the Unix file system that the sources use through package \<open>os\<close>: inodes addressed by
  their physical path (a list of names from the root), path resolution with symbolic links, and
  the operations \<open>Lstat\<close>, \<open>Stat\<close>, \<open>Mkdir\<close>, \<open>MkdirAll\<close>, \<open>OpenFile\<close> with \<open>O_EXCL\<close>, \<open>WriteFile\<close>,
  \<open>Symlink\<close>, \<open>Chmod\<close>, \<open>Remove\<close>, \<open>RemoveAll\<close>, \<open>ReadDir\<close> and \<open>EvalSymlinks\<close>. Failures that come
  from the shape of the tree are modelled; the process is taken to have the access rights it needs,
  its umask to keep the requested bits, and its working directory to be the root.
\<close>

unbundle bit_operations_syntax

datatype node_kind = Directory | Regular bytes | Symlink string | Special

type_synonym perm_bits = "16 word"

text \<open>\<open>octal u g o\<close> is Go's literal \<open>0o\<close> followed by the three digits.\<close>

definition octal :: "nat \<Rightarrow> nat \<Rightarrow> nat \<Rightarrow> perm_bits" where
  "octal u g o' = word_of_nat (u * 64 + g * 8 + o')"

record inode =
  kind :: node_kind
  perm :: perm_bits
  setgid :: bool
  sticky :: bool
  uid :: "32 word"
  gid :: "32 word"

text \<open>The effective user and group of the running process.\<close>

record proc =
  proc_uid :: "32 word"
  proc_gid :: "32 word"

type_synonym fs = "(string list \<times> inode) list"

definition node_at :: "fs \<Rightarrow> string list \<Rightarrow> inode option" where
  "node_at fs p = map_of fs p"

definition put_node :: "string list \<Rightarrow> inode \<Rightarrow> fs \<Rightarrow> fs" where
  "put_node p nd fs = AList.update p nd fs"

definition del_node :: "string list \<Rightarrow> fs \<Rightarrow> fs" where
  "del_node p fs = AList.delete p fs"

definition del_tree :: "string list \<Rightarrow> fs \<Rightarrow> fs" where
  "del_tree p fs = filter (\<lambda>(q, nd). \<not> prefix p q) fs"

definition is_dir_at :: "fs \<Rightarrow> string list \<Rightarrow> bool" where
  "is_dir_at fs p = (case node_at fs p of Some nd \<Rightarrow> kind nd = Directory | None \<Rightarrow> False)"

lemma node_at_put [simp]: "node_at (put_node p nd fs) q = (if q = p then Some nd else node_at fs q)"
  by (simp add: node_at_def put_node_def AList.update_conv')

lemma node_at_del [simp]: "node_at (del_node p fs) q = (if q = p then None else node_at fs q)"
  by (simp add: node_at_def del_node_def AList.delete_conv')

lemma node_at_del_tree [simp]: "node_at (del_tree p fs) q = (if prefix p q then None else node_at fs q)"
  unfolding node_at_def del_tree_def by (induction fs) auto

subsection \<open>Errors of the operating system\<close>

definition errNotExist :: error where "errNotExist = Err ''file does not exist''"
definition errExist :: error where "errExist = Err ''file already exists''"
definition errNotDir :: error where "errNotDir = Err ''not a directory''"
definition errIsDir :: error where "errIsDir = Err ''is a directory''"
definition errLoop :: error where "errLoop = Err ''too many levels of symbolic links''"
definition errNotEmpty :: error where "errNotEmpty = Err ''directory not empty''"

lemmas errno_defs [go_simps] =
  errNotExist_def errExist_def errNotDir_def errIsDir_def errLoop_def errNotEmpty_def

subsection \<open>Path resolution\<close>

text \<open>
  \<open>walk n fs cur cs follow\<close> resolves the names \<open>cs\<close> from the physical directory \<open>cur\<close>, with at
  most \<open>n\<close> symbolic links on the way. The last name may be missing, and a symbolic link in last
  position is followed only when asked.
\<close>

fun walk :: "nat \<Rightarrow> fs \<Rightarrow> string list \<Rightarrow> string list \<Rightarrow> bool \<Rightarrow> string list result" where
  "walk n fs cur [] follow = Inr cur"
| "walk n fs cur (c # cs) follow =
     (if c = [] \<or> c = dot then walk n fs cur cs follow
      else if c = dotdot then walk n fs (butlast cur) cs follow
      else case node_at fs (cur @ [c]) of
        None \<Rightarrow> if cs = [] then Inr (cur @ [c]) else Inl errNotExist
      | Some nd \<Rightarrow> (case kind nd of
          Directory \<Rightarrow> walk n fs (cur @ [c]) cs follow
        | Symlink t \<Rightarrow>
            if cs = [] \<and> \<not> follow then Inr (cur @ [c])
            else if n = 0 then Inl errLoop
            else walk (n - 1) fs (if is_abs t then [] else cur) (split_char slash t @ cs) follow
        | _ \<Rightarrow> if cs = [] then Inr (cur @ [c]) else Inl errNotDir))"

definition max_links :: nat where "max_links = 40"

definition resolve :: "fs \<Rightarrow> string \<Rightarrow> bool \<Rightarrow> string list result" where
  "resolve fs p follow =
     (if p = [] then Inl errNotExist else walk max_links fs [] (split_char slash p) follow)"

definition lookup_path :: "fs \<Rightarrow> string \<Rightarrow> bool \<Rightarrow> inode result" where
  "lookup_path fs p follow =
     (case resolve fs p follow of
        Inl e \<Rightarrow> Inl e
      | Inr q \<Rightarrow> (case node_at fs q of None \<Rightarrow> Inl errNotExist | Some nd \<Rightarrow> Inr nd))"

definition os_lstat :: "fs \<Rightarrow> string \<Rightarrow> inode result" where "os_lstat fs p = lookup_path fs p False"
definition os_stat :: "fs \<Rightarrow> string \<Rightarrow> inode result" where "os_stat fs p = lookup_path fs p True"

definition is_dir :: "inode \<Rightarrow> bool" where "is_dir nd \<longleftrightarrow> kind nd = Directory"

definition is_regular :: "inode \<Rightarrow> bool" where
  "is_regular nd \<longleftrightarrow> (case kind nd of Regular _ \<Rightarrow> True | _ \<Rightarrow> False)"

definition is_symlink :: "inode \<Rightarrow> bool" where
  "is_symlink nd \<longleftrightarrow> (case kind nd of Symlink _ \<Rightarrow> True | _ \<Rightarrow> False)"

definition content_of :: "inode \<Rightarrow> bytes" where
  "content_of nd = (case kind nd of Regular b \<Rightarrow> b | _ \<Rightarrow> [])"

text \<open>\<open>EvalSymlinks\<close> follows up to 255 links and fails when the target does not exist.\<close>

definition eval_symlinks :: "fs \<Rightarrow> string \<Rightarrow> string result" where
  "eval_symlinks fs p =
     (case walk 255 fs [] (split_char slash p) True of
        Inl e \<Rightarrow> Inl e
      | Inr q \<Rightarrow> (case node_at fs q of None \<Rightarrow> Inl errNotExist | Some _ \<Rightarrow> Inr (path_render True q)))"

subsection \<open>Operations that change the tree\<close>

text \<open>
  A new inode belongs to the process; below a set-group-id directory it takes the directory's
  group, and a new directory is itself set-group-id.
\<close>

definition new_inode :: "fs \<Rightarrow> proc \<Rightarrow> string list \<Rightarrow> node_kind \<Rightarrow> perm_bits \<Rightarrow> inode" where
  "new_inode fs pr p k pm =
     (let inherits = (case node_at fs (butlast p) of Some d \<Rightarrow> setgid d | None \<Rightarrow> False)
      in \<lparr>kind = k, perm = pm, setgid = (inherits \<and> k = Directory), sticky = False,
          uid = proc_uid pr,
          gid = (case node_at fs (butlast p) of
                   Some d \<Rightarrow> if setgid d then gid d else proc_gid pr | None \<Rightarrow> proc_gid pr)\<rparr>)"

definition create_node ::
  "proc \<Rightarrow> fs \<Rightarrow> string \<Rightarrow> node_kind \<Rightarrow> perm_bits \<Rightarrow> fs \<times> error option" where
  "create_node pr fs p k pm =
     (case resolve fs p False of
        Inl e \<Rightarrow> (fs, Some e)
      | Inr q \<Rightarrow>
          if node_at fs q \<noteq> None \<or> q = [] then (fs, Some errExist)
          else (put_node q (new_inode fs pr q k pm) fs, None))"

definition os_mkdir :: "proc \<Rightarrow> fs \<Rightarrow> string \<Rightarrow> perm_bits \<Rightarrow> fs \<times> error option" where
  "os_mkdir pr fs p pm = create_node pr fs p Directory pm"

definition os_symlink :: "proc \<Rightarrow> fs \<Rightarrow> string \<Rightarrow> string \<Rightarrow> fs \<times> error option" where
  "os_symlink pr fs target p = create_node pr fs p (Symlink target) (octal 7 7 7)"

text \<open>\<open>OpenFile\<close> with \<open>O_CREATE|O_EXCL|O_WRONLY\<close>: a fresh empty file.\<close>

definition os_create_excl :: "proc \<Rightarrow> fs \<Rightarrow> string \<Rightarrow> perm_bits \<Rightarrow> fs \<times> error option" where
  "os_create_excl pr fs p pm = create_node pr fs p (Regular []) pm"

text \<open>What is written to an open file ends up in its inode.\<close>

definition write_content :: "fs \<Rightarrow> string \<Rightarrow> bytes \<Rightarrow> fs" where
  "write_content fs p b =
     (case resolve fs p True of
        Inl _ \<Rightarrow> fs
      | Inr q \<Rightarrow> (case node_at fs q of
          Some nd \<Rightarrow> if is_regular nd then put_node q (nd\<lparr>kind := Regular b\<rparr>) fs else fs
        | None \<Rightarrow> fs))"

text \<open>\<open>WriteFile\<close> truncates an existing file and keeps its mode, or creates it.\<close>

definition os_write_file :: "proc \<Rightarrow> fs \<Rightarrow> string \<Rightarrow> bytes \<Rightarrow> perm_bits \<Rightarrow> fs \<times> error option" where
  "os_write_file pr fs p b pm =
     (case resolve fs p True of
        Inl e \<Rightarrow> (fs, Some e)
      | Inr q \<Rightarrow> (case node_at fs q of
          None \<Rightarrow> if q = [] then (fs, Some errIsDir) else (put_node q (new_inode fs pr q (Regular b) pm) fs, None)
        | Some nd \<Rightarrow> if is_regular nd then (put_node q (nd\<lparr>kind := Regular b\<rparr>) fs, None) else (fs, Some errIsDir)))"

definition os_chmod :: "fs \<Rightarrow> string \<Rightarrow> perm_bits \<Rightarrow> bool \<Rightarrow> bool \<Rightarrow> fs \<times> error option" where
  "os_chmod fs p pm sg st =
     (case resolve fs p True of
        Inl e \<Rightarrow> (fs, Some e)
      | Inr q \<Rightarrow> (case node_at fs q of
          None \<Rightarrow> (fs, Some errNotExist)
        | Some nd \<Rightarrow> (put_node q (nd\<lparr>perm := pm, setgid := sg, sticky := st\<rparr>) fs, None)))"

definition children :: "fs \<Rightarrow> string list \<Rightarrow> string list" where
  "children fs p = sort (remdups [last q. (q, nd) \<leftarrow> fs, q \<noteq> [] \<and> butlast q = p])"

definition os_read_dir :: "fs \<Rightarrow> string \<Rightarrow> string list result" where
  "os_read_dir fs p =
     (case resolve fs p True of
        Inl e \<Rightarrow> Inl e
      | Inr q \<Rightarrow> if is_dir_at fs q then Inr (children fs q) else Inl errNotDir)"

definition os_remove :: "fs \<Rightarrow> string \<Rightarrow> fs \<times> error option" where
  "os_remove fs p =
     (case resolve fs p False of
        Inl e \<Rightarrow> (fs, Some e)
      | Inr q \<Rightarrow> (case node_at fs q of
          None \<Rightarrow> (fs, Some errNotExist)
        | Some nd \<Rightarrow> if is_dir nd \<and> (children fs q \<noteq> [] \<or> q = []) then (fs, Some errNotEmpty)
                     else (del_node q fs, None)))"

text \<open>\<open>RemoveAll\<close> deletes the whole tree below the path and does not follow a link at it; a path
  that does not exist is no error.\<close>

definition os_remove_all :: "fs \<Rightarrow> string \<Rightarrow> fs \<times> error option" where
  "os_remove_all fs p =
     (case resolve fs p False of
        Inl e \<Rightarrow> (fs, if e = errNotExist then None else Some e)
      | Inr q \<Rightarrow> if q = [] then (fs, Some errNotEmpty) else (del_tree q fs, None))"

text \<open>\<open>MkdirAll\<close>: the ancestors first; an existing directory is no error.\<close>

fun mkdir_all_elems ::
  "proc \<Rightarrow> fs \<Rightarrow> string list \<Rightarrow> string list \<Rightarrow> perm_bits \<Rightarrow> fs \<times> error option" where
  "mkdir_all_elems pr fs done [] pm = (fs, None)"
| "mkdir_all_elems pr fs done (c # cs) pm =
     (let p = path_render True (done @ [c])
      in case os_stat fs p of
           Inr nd \<Rightarrow> if is_dir nd then mkdir_all_elems pr fs (done @ [c]) cs pm
                     else (fs, Some errNotDir)
         | Inl _ \<Rightarrow> (case os_mkdir pr fs p pm of
             (fs', None) \<Rightarrow> mkdir_all_elems pr fs' (done @ [c]) cs pm
           | (fs', Some e) \<Rightarrow> (fs', Some e)))"

definition os_mkdir_all :: "proc \<Rightarrow> fs \<Rightarrow> string \<Rightarrow> perm_bits \<Rightarrow> fs \<times> error option" where
  "os_mkdir_all pr fs p pm = mkdir_all_elems pr fs [] (comps p) pm"

subsection \<open>Real directories\<close>

text \<open>A physical path all of whose ancestors, and itself, are directories.\<close>

definition real_dir :: "fs \<Rightarrow> string list \<Rightarrow> bool" where
  "real_dir fs p \<longleftrightarrow> (\<forall>q\<in>set (prefixes p). is_dir_at fs q)"

lemma real_dir_iff: "real_dir fs p \<longleftrightarrow> (\<forall>q. prefix q p \<longrightarrow> is_dir_at fs q)"
  by (auto simp: real_dir_def in_set_prefixes)

lemma real_dir_prefix: "real_dir fs p \<Longrightarrow> prefix q p \<Longrightarrow> real_dir fs q"
  by (meson prefix_order.trans real_dir_iff)

lemma real_dir_snoc: "real_dir fs (p @ [c]) \<longleftrightarrow> real_dir fs p \<and> is_dir_at fs (p @ [c])"
  by (auto simp: real_dir_iff prefix_snoc)

lemma real_dir_is_dir: "real_dir fs p \<Longrightarrow> is_dir_at fs p"
  by (simp add: real_dir_iff)

lemma real_dir_cong:
  "(\<And>q. prefix q p \<Longrightarrow> node_at fs' q = node_at fs q) \<Longrightarrow> real_dir fs p \<Longrightarrow> real_dir fs' p"
  by (auto simp: real_dir_iff is_dir_at_def)

text \<open>
  Resolving below a real directory: while every name on the way is a directory, the physical path
  is the path as written.
\<close>

lemma walk_dirs:
  assumes "\<forall>c\<in>set cs. normal_name c" and "\<And>k. 0 < k \<Longrightarrow> k < length cs \<Longrightarrow> is_dir_at fs (cur @ take k cs)"
    and "follow \<longrightarrow> (case node_at fs (cur @ cs) of Some nd \<Rightarrow> \<not> is_symlink nd | None \<Rightarrow> True)"
  shows "walk n fs cur cs follow = Inr (cur @ cs)"
  using assms
proof (induction cs arbitrary: cur)
  case (Cons c cs)
  have c: "c \<noteq> []" "c \<noteq> dot" "c \<noteq> dotdot" using Cons.prems(1) by (auto simp: normal_name_def)
  show ?case
  proof (cases "cs = []")
    case True
    with c Cons.prems(3) show ?thesis
      by (auto simp: is_symlink_def split: option.splits node_kind.splits)
  next
    case False
    then have dir: "is_dir_at fs (cur @ [c])" using Cons.prems(2) [of 1] by simp
    have "is_dir_at fs ((cur @ [c]) @ take k cs)" if "0 < k" "k < length cs" for k
      using Cons.prems(2) [of "Suc k"] that by simp
    with Cons.IH [of "cur @ [c]"] Cons.prems(1,3)
    have "walk n fs (cur @ [c]) cs follow = Inr (cur @ c # cs)" by simp
    with dir c show ?thesis by (auto simp: is_dir_at_def split: option.splits)
  qed
qed simp

lemma split_render_abs:
  "clean_form True cs \<Longrightarrow> cs \<noteq> [] \<Longrightarrow> split_char slash (path_render True cs) = [] # cs"
  using clean_form_no_slash [of True cs] by (auto simp: path_render_def intro!: split_join_char)

lemma resolve_render:
  assumes "clean_form True (d @ [c])" "real_dir fs d"
    and "follow \<longrightarrow> (case node_at fs (d @ [c]) of Some nd \<Rightarrow> \<not> is_symlink nd | None \<Rightarrow> True)"
  shows "resolve fs (path_render True (d @ [c])) follow = Inr (d @ [c])"
proof -
  have "is_dir_at fs (take k (d @ [c]))" if "0 < k" "k < length (d @ [c])" for k
    using assms(2) that by (auto simp: real_dir_iff take_is_prefix)
  then have "walk max_links fs [] (d @ [c]) follow = Inr (d @ [c])"
    using walk_dirs [of "d @ [c]" fs "[]" follow] assms by auto
  with assms(1) show ?thesis
    by (simp add: resolve_def split_render_abs) (simp add: path_render_def)
qed

lemma lstat_render:
  "clean_form True (d @ [c]) \<Longrightarrow> real_dir fs d \<Longrightarrow>
   os_lstat fs (path_render True (d @ [c])) =
     (case node_at fs (d @ [c]) of None \<Rightarrow> Inl errNotExist | Some nd \<Rightarrow> Inr nd)"
  by (simp add: os_lstat_def lookup_path_def resolve_render)

lemma create_node_render:
  "clean_form True (d @ [c]) \<Longrightarrow> real_dir fs d \<Longrightarrow>
   create_node pr fs (path_render True (d @ [c])) k pm =
     (if node_at fs (d @ [c]) \<noteq> None then (fs, Some errExist)
      else (put_node (d @ [c]) (new_inode fs pr (d @ [c]) k pm) fs, None))"
  by (simp add: create_node_def resolve_render)

lemma kind_new_inode [simp]: "kind (new_inode fs pr p k pm) = k"
  by (simp add: new_inode_def Let_def)

lemma remove_render:
  "clean_form True (d @ [c]) \<Longrightarrow> real_dir fs d \<Longrightarrow> node_at fs (d @ [c]) = Some nd \<Longrightarrow> \<not> is_dir nd \<Longrightarrow>
   os_remove fs (path_render True (d @ [c])) = (del_node (d @ [c]) fs, None)"
  by (simp add: os_remove_def resolve_render)

lemma write_content_render:
  "clean_form True (d @ [c]) \<Longrightarrow> real_dir fs d \<Longrightarrow> node_at fs (d @ [c]) = Some nd \<Longrightarrow> is_regular nd \<Longrightarrow>
   write_content fs (path_render True (d @ [c])) b = put_node (d @ [c]) (nd\<lparr>kind := Regular b\<rparr>) fs"
proof -
  assume *: "clean_form True (d @ [c])" "real_dir fs d" "node_at fs (d @ [c]) = Some nd" "is_regular nd"
  then have "\<not> is_symlink nd" by (auto simp: is_regular_def is_symlink_def split: node_kind.splits)
  with * show ?thesis by (simp add: write_content_def resolve_render)
qed

subsection \<open>Confined symbolic links\<close>

text \<open>
  A link target that goes up at most \<open>k\<close> levels, all at its start. Links of this form below a
  directory \<open>R\<close> never lead outside \<open>R\<close>: their parent is at depth at least \<open>k\<close> below \<open>R\<close>, and after
  the initial steps up the resolution only goes down or through another such link.
\<close>

definition confined_target :: "nat \<Rightarrow> string \<Rightarrow> bool" where
  "confined_target k t \<longleftrightarrow>
     \<not> is_abs t \<and> length (takeWhile (\<lambda>c. c = dotdot) (split_char slash t)) \<le> k \<and>
     dotdot \<notin> set (dropWhile (\<lambda>c. c = dotdot) (split_char slash t))"

definition links_confined :: "string list \<Rightarrow> fs \<Rightarrow> bool" where
  "links_confined R fs \<longleftrightarrow>
     (\<forall>d c nd t. node_at fs (R @ d @ [c]) = Some nd \<longrightarrow> kind nd = Symlink t \<longrightarrow>
        confined_target (length d) t)"

lemma takeWhile_replicate: "takeWhile (\<lambda>c. c = x) xs = replicate (length (takeWhile (\<lambda>c. c = x) xs)) x"
  by (induction xs) auto

text \<open>A position of the resolution that cannot leave \<open>R\<close>.\<close>

definition confined_pos :: "string list \<Rightarrow> string list \<Rightarrow> string list \<Rightarrow> bool" where
  "confined_pos R cur cs \<longleftrightarrow>
     (\<exists>d j ns. cur = R @ d \<and> cs = replicate j dotdot @ ns \<and> j \<le> length d \<and> dotdot \<notin> set ns)"

lemma confined_posI:
  "j \<le> length d \<Longrightarrow> dotdot \<notin> set ns \<Longrightarrow> confined_pos R (R @ d) (replicate j dotdot @ ns)"
  by (auto simp: confined_pos_def)

lemma confined_pos_up:
  assumes "confined_pos R cur (dotdot # cs)" shows "confined_pos R (butlast cur) cs"
proof -
  from assms obtain d j ns where *: "cur = R @ d" "dotdot # cs = replicate j dotdot @ ns"
    "j \<le> length d" "dotdot \<notin> set ns" by (auto simp: confined_pos_def)
  then obtain j' where j: "j = Suc j'" by (cases j) auto
  with * have "d \<noteq> []" "cs = replicate j' dotdot @ ns" by auto
  with * j show ?thesis using confined_posI [of j' "butlast d" ns R] by (simp add: butlast_append)
qed

lemma confined_pos_down:
  assumes "confined_pos R cur (c # cs)" "c \<noteq> dotdot"
  obtains d where "cur = R @ d" "dotdot \<notin> set cs"
proof -
  from assms(1) obtain d j ns where *: "cur = R @ d" "c # cs = replicate j dotdot @ ns"
    "dotdot \<notin> set ns" by (auto simp: confined_pos_def)
  with assms(2) have "j = 0" by (cases j) auto
  with * that show ?thesis by (metis append_Nil list.set_intros(2) replicate_0)
qed

lemma confined_pos_below: "dotdot \<notin> set cs \<Longrightarrow> confined_pos R (R @ d) cs"
  using confined_posI [of 0 d cs R] by simp

lemma confined_pos_link:
  assumes "confined_target (length d) t" "dotdot \<notin> set cs"
  shows "confined_pos R (R @ d) (split_char slash t @ cs)"
proof -
  let ?up = "takeWhile (\<lambda>c. c = dotdot) (split_char slash t)"
  let ?rest = "dropWhile (\<lambda>c. c = dotdot) (split_char slash t)"
  have "split_char slash t @ cs = replicate (length ?up) dotdot @ (?rest @ cs)"
    by (metis append_assoc takeWhile_dropWhile_id takeWhile_replicate)
  moreover have "length ?up \<le> length d" "dotdot \<notin> set (?rest @ cs)"
    using assms by (auto simp: confined_target_def)
  ultimately show ?thesis using confined_posI by presburger
qed

lemma walk_confined:
  "links_confined R fs \<Longrightarrow> walk n fs cur cs follow = Inr p \<Longrightarrow> confined_pos R cur cs \<Longrightarrow>
   prefix R p"
proof (induction n fs cur cs follow rule: walk.induct)
  case (1 n fs cur follow)
  then show ?case by (auto simp: confined_pos_def)
next
  case (2 n fs cur c cs follow)
  show ?case
  proof (cases "c = dotdot")
    case True
    then show ?thesis using 2 confined_pos_up by auto
  next
    case False
    obtain d where d: "cur = R @ d" "dotdot \<notin> set cs"
      using confined_pos_down [OF "2.prems"(3) False] .
    have below: "confined_pos R cur cs" "confined_pos R (cur @ [c]) cs"
      using confined_pos_below [OF d(2), of R d] confined_pos_below [OF d(2), of R "d @ [c]"] d(1)
      by auto
    have link: "\<not> is_abs t \<and> confined_pos R cur (split_char slash t @ cs)"
      if "node_at fs (cur @ [c]) = Some nd" "kind nd = Symlink t" for nd t
    proof -
      have "confined_target (length d) t"
        using "2.prems"(1) that d(1) by (auto simp: links_confined_def)
      then show ?thesis using confined_pos_link [OF _ d(2), of d t R] d(1)
        by (auto simp: confined_target_def)
    qed
    have stop: "prefix R (cur @ [c])" using d(1) by simp
    show ?thesis
    proof (cases "c = [] \<or> c = dot")
      case True
      then show ?thesis using 2 below by auto
    next
      case names: False
      show ?thesis
      proof (cases "node_at fs (cur @ [c])")
        case None
        with "2.prems"(2) names False have "p = cur @ [c]" by (simp split: if_splits)
        with stop show ?thesis by blast
      next
        case (Some nd)
        show ?thesis
        proof (cases "kind nd")
          case Directory
          then show ?thesis using 2 Some names False below by auto
        next
          case (Symlink t)
          then show ?thesis using 2 Some names False link [OF Some Symlink] stop
            by (auto split: if_splits)
        qed (use "2.prems"(2) Some names False stop in \<open>auto split: if_splits\<close>)
      qed
    qed
  qed
qed

end
