(* ===== verification/Model.thy ===== *)
theory Model
  imports Prelude
begin

text \<open>
  The data of package \<open>runner/internal/model\<close>: job states and operations, runner settings, the
  deployment profile with its scripts and health checks, the job, and what a pipeline step
  reports. Durations are integers (nanoseconds); a \<open>time.Time\<close> that may be zero is an option.
\<close>

datatype job_status =
    StatusQueued | StatusValidating | StatusPreCheck | StatusExtracting | StatusImageInspect
  | StatusImageLoad | StatusImageTag | StatusImagePush | StatusDeploying | StatusVerifying
  | StatusRollback | StatusRolledBack | StatusSuccess | StatusFailed

text \<open>An operation is read from the database as text; any other text is kept.\<close>

datatype job_operation = OperationDeploy | OperationRollback | OperationOther string

fun operation_text :: "job_operation \<Rightarrow> string" where
  "operation_text OperationDeploy = ''DEPLOY''"
| "operation_text OperationRollback = ''ROLLBACK''"
| "operation_text (OperationOther s) = s"

fun status_text :: "job_status \<Rightarrow> string" where
  "status_text StatusQueued = ''QUEUED''"
| "status_text StatusValidating = ''VALIDATING''"
| "status_text StatusPreCheck = ''PRE_CHECK''"
| "status_text StatusExtracting = ''EXTRACTING''"
| "status_text StatusImageInspect = ''IMAGE_INSPECT''"
| "status_text StatusImageLoad = ''IMAGE_LOAD''"
| "status_text StatusImageTag = ''IMAGE_TAG''"
| "status_text StatusImagePush = ''IMAGE_PUSH''"
| "status_text StatusDeploying = ''DEPLOYING''"
| "status_text StatusVerifying = ''VERIFYING''"
| "status_text StatusRollback = ''ROLLBACK''"
| "status_text StatusRolledBack = ''ROLLED_BACK''"
| "status_text StatusSuccess = ''SUCCESS''"
| "status_text StatusFailed = ''FAILED''"

type_synonym duration = int

record settings =
  PollInterval :: duration
  LockRetry :: duration
  SettingsRefresh :: duration
  HeartbeatInterval :: duration
  StaleJobAfter :: duration
  WorkspaceRoot :: string
  ArtifactRoot :: string
  CommandPath :: string
  LogChunkBytes :: int

record extraction_policy =
  MaxArchiveBytes :: int
  MaxExtractedBytes :: int
  MaxFiles :: int
  MaxImages :: int
  AllowSymlinks :: bool

record runtime_config =
  rt_Kind :: string
  rt_BinaryPath :: string
  rt_Namespace :: string
  rt_RegistryURL :: string
  rt_RegistryHost :: string
  rt_RegistryProject :: string
  rt_RegistryInsecure :: bool
  rt_RegistryCAPEM :: string
  rt_CredentialAAD :: string
  rt_CredentialCiphertext :: string

record health_check =
  hc_Type :: string
  hc_Address :: string
  hc_Method :: string
  hc_Headers :: "(string \<times> string) list"
  hc_ExpectedStatusMin :: int
  hc_ExpectedStatusMax :: int
  hc_ExpectedBody :: string
  hc_TimeoutSeconds :: int
  hc_Attempts :: int
  hc_IntervalSeconds :: int
  hc_InsecureSkipVerify :: bool
  hc_CAPEM :: string

record script =
  script_ID :: string
  script_Name :: string
  script_Version :: int
  script_Phase :: string
  script_InterpreterPath :: string
  script_SHA256 :: string
  script_Content :: bytes
  script_Args :: "string list"
  script_Timeout :: duration
  script_ApprovedAt :: "int option"

record profile =
  profile_ID :: string
  profile_Name :: string
  Extraction :: extraction_policy
  Runtime :: runtime_config
  HealthChecks :: "health_check list"
  Scripts :: "script list"
  CommandTimeout :: duration
  MaxLogBytes :: int
  AutoRollback :: bool
  CleanupWorkspace :: bool
  KeepFailedWorkspace :: bool

record target_credential =
  cred_ID :: string
  cred_Type :: string
  cred_Version :: int
  cred_Ciphertext :: string
  cred_AAD :: string

record image_record =
  img_FilePath :: string
  img_SourceRef :: string
  img_DestinationRef :: string
  img_Repository :: string
  img_Tag :: string
  img_Digest :: string

record job =
  job_ID :: string
  job_ReleaseID :: string
  RollbackSourceReleaseID :: string
  RollbackSourceJobID :: string
  job_Application :: string
  job_Version :: string
  job_Environment :: string
  job_LockKey :: string
  ArtifactPath :: string
  ExpectedSHA256 :: string
  ManifestPath :: string
  job_Operation :: job_operation
  job_Attempt :: int
  job_Profile :: profile
  TargetCredential :: target_credential
  RollbackImages :: "image_record list"

record step =
  step_ID :: int
  step_JobID :: string
  step_Name :: job_status
  step_Number :: int

record step_result =
  ExitCode :: int
  Message :: string
  Metadata :: string

text \<open>The three states in which a job is over.\<close>

definition terminal :: "job_status \<Rightarrow> bool" where
  "terminal st \<longleftrightarrow> st = StatusSuccess \<or> st = StatusFailed \<or> st = StatusRolledBack"

lemma terminal_simps [simp]:
  "terminal StatusSuccess" "terminal StatusFailed" "terminal StatusRolledBack"
  "\<not> terminal StatusQueued" "\<not> terminal StatusValidating" "\<not> terminal StatusPreCheck"
  "\<not> terminal StatusExtracting" "\<not> terminal StatusImageInspect" "\<not> terminal StatusImageLoad"
  "\<not> terminal StatusImageTag" "\<not> terminal StatusImagePush" "\<not> terminal StatusDeploying"
  "\<not> terminal StatusVerifying" "\<not> terminal StatusRollback"
  by (simp_all add: terminal_def)

lemma status_text_inject [simp]: "status_text a = status_text b \<longleftrightarrow> a = b"
  by (cases a; cases b) simp_all

end
