(* ===== verification/Archive.thy ===== *)
theory Archive
  imports Filesystem Model
begin

text \<open>
  Package \<open>runner/internal/archive\<close>: unpacking an uploaded release package into the job's
  workspace. The stream of headers and bodies that \<open>archive/tar\<close> (behind \<open>compress/gzip\<close>)
  delivers is a list; a body shorter than its header says, or a \<open>NextError\<close>, stands for a damaged
  stream and for the cancellation of the job's context alike.
\<close>

datatype typeflag = TypeReg | TypeRegA | TypeDir | TypeSymlink | TypeXGlobalHeader | TypeOther nat

record tar_header =
  hdr_Name :: string
  hdr_Typeflag :: typeflag
  hdr_Size :: int
  hdr_Linkname :: string

datatype tar_next = Entry tar_header bytes | NextError error

record extract_result =
  Files :: "string list"
  ExtractedBytes :: int

abbreviation empty_result :: extract_result where
  "empty_result \<equiv> \<lparr>Files = [], ExtractedBytes = 0\<rparr>"

definition validatePolicy :: "extraction_policy \<Rightarrow> error option" where
  "validatePolicy p =
     guard (MaxArchiveBytes p \<le> 0 \<or> MaxExtractedBytes p \<le> 0 \<or> MaxFiles p \<le> 0)
       ''archive byte, extracted byte, and file count limits must be positive''"

definition safeArchiveName :: "string \<Rightarrow> string result" where
  "safeArchiveName name =
     (if name = [] \<or> contains_char name (CHR 0x00) then Inl (Err ''empty name or NUL byte'')
      else if contains_char name (CHR 0x5C) then Inl (Err ''backslash paths are rejected'')
      else if is_abs name then Inl (Err ''absolute path'')
      else let cleaned = path_clean name in
        if cleaned = dotdot \<or> has_prefix cleaned ''../'' then Inl (Err ''path traversal'')
        else Inr cleaned)"

definition withinRoot :: "string \<Rightarrow> string \<Rightarrow> error option" where
  "withinRoot root candidate =
     (case path_rel root candidate of
        Inl e \<Rightarrow> Some e
      | Inr rel \<Rightarrow> guard (rel = dotdot \<or> has_prefix rel ''../'' \<or> is_abs rel)
                     ''path escapes extraction root'')"

fun ensureParents_loop :: "proc \<Rightarrow> fs \<Rightarrow> string \<Rightarrow> string list \<Rightarrow> fs \<times> error option" where
  "ensureParents_loop pr fs current [] = (fs, None)"
| "ensureParents_loop pr fs current (component # rest) =
     (let current' = path_join [current, component]
      in case os_lstat fs current' of
           Inl e \<Rightarrow>
             if errors_is e errNotExist then
               (case os_mkdir pr fs current' (octal 7 5 0) of
                  (fs', Some e') \<Rightarrow> if errors_is e' errExist then ensureParents_loop pr fs' current' rest
                                    else (fs', Some e')
                | (fs', None) \<Rightarrow> ensureParents_loop pr fs' current' rest)
             else (fs, Some e)
         | Inr info \<Rightarrow>
             if is_symlink info \<or> \<not> is_dir info then (fs, Some (Err ''parent is not a real directory''))
             else ensureParents_loop pr fs current' rest)"

definition ensureParents :: "proc \<Rightarrow> fs \<Rightarrow> string \<Rightarrow> string \<Rightarrow> fs \<times> error option" where
  "ensureParents pr fs root parent =
     (case withinRoot root parent of
        Some e \<Rightarrow> (fs, Some e)
      | None \<Rightarrow> (case path_rel root parent of
          Inl e \<Rightarrow> (fs, Some e)
        | Inr rel \<Rightarrow> if rel = dot then (fs, None)
                     else ensureParents_loop pr fs root (split_char slash rel)))"

definition makeDirectory :: "proc \<Rightarrow> fs \<Rightarrow> string \<Rightarrow> fs \<times> error option" where
  "makeDirectory pr fs target =
     (case os_lstat fs target of
        Inl e \<Rightarrow> if errors_is e errNotExist then os_mkdir pr fs target (octal 7 5 0) else (fs, Some e)
      | Inr info \<Rightarrow>
          if \<not> is_dir info \<or> is_symlink info
          then (fs, Some (Err ''directory entry conflicts with a non-directory'')) else (fs, None))"

definition removeNonDirectory :: "fs \<Rightarrow> string \<Rightarrow> fs \<times> error option" where
  "removeNonDirectory fs target =
     (case os_lstat fs target of
        Inl e \<Rightarrow> (fs, if errors_is e errNotExist then None else Some e)
      | Inr info \<Rightarrow>
          if is_dir info then (fs, Some (Err ''entry conflicts with an existing directory''))
          else os_remove fs target)"

text \<open>\<open>io.CopyN\<close>: the bytes copied, and \<open>EOF\<close> when the source ends early.\<close>

definition copy_n :: "bytes \<Rightarrow> int \<Rightarrow> bytes \<times> error option" where
  "copy_n body n =
     (take (nat n) body, if int (length body) < n then Some errEOF else None)"

definition writeRegularFile :: "proc \<Rightarrow> fs \<Rightarrow> bytes \<Rightarrow> string \<Rightarrow> int \<Rightarrow> fs \<times> error option" where
  "writeRegularFile pr fs body target sz =
     (case removeNonDirectory fs target of
        (fs1, Some e) \<Rightarrow> (fs1, Some e)
      | (fs1, None) \<Rightarrow> (case os_create_excl pr fs1 target (octal 6 4 0) of
          (fs2, Some e) \<Rightarrow> (fs2, Some e)
        | (fs2, None) \<Rightarrow>
            (case copy_n body sz of (written, copyErr) \<Rightarrow>
               let fs3 = write_content fs2 target written in
               case copyErr of
                 Some e \<Rightarrow> (fst (os_remove fs3 target), Some e)
               | None \<Rightarrow>
                   if int (length written) \<noteq> sz
                   then (fst (os_remove fs3 target), Some (Err ''unexpected EOF''))
                   else (fs3, None))))"

definition safeSymlinkTarget :: "string \<Rightarrow> string \<Rightarrow> string result" where
  "safeSymlinkTarget entryName linkName =
     (if linkName = [] \<or> is_abs linkName \<or> contains_char linkName (CHR 0x5C)
         \<or> contains_char linkName (CHR 0x00)
      then Inl (Err ''invalid symlink target'')
      else let resolved = path_clean (path_join [path_dir entryName, linkName]) in
        if resolved = dotdot \<or> has_prefix resolved ''../''
        then Inl (Err ''symlink target escapes extraction root'')
        else path_rel (path_dir entryName) resolved)"

text \<open>One header of the archive, after the entry count has been checked.\<close>

definition extract_entry ::
  "proc \<Rightarrow> fs \<Rightarrow> string \<Rightarrow> extraction_policy \<Rightarrow> extract_result \<Rightarrow> tar_header \<Rightarrow> bytes \<Rightarrow>
   fs \<times> extract_result \<times> error option" where
  "extract_entry pr fs root policy res header body =
     (case safeArchiveName (hdr_Name header) of
        Inl e \<Rightarrow> (fs, res, Some (Wrap ''unsafe tar entry'' e))
      | Inr name \<Rightarrow>
        if name = dot then (fs, res, None)
        else let target = path_join [root, name] in
        case withinRoot root target of
          Some e \<Rightarrow> (fs, res, Some (Wrap ''unsafe tar entry'' e))
        | None \<Rightarrow>
        (case ensureParents pr fs root (path_dir target) of
          (fs1, Some e) \<Rightarrow> (fs1, res, Some (Wrap ''unsafe parent'' e))
        | (fs1, None) \<Rightarrow>
          (case hdr_Typeflag header of
             TypeDir \<Rightarrow>
               (case makeDirectory pr fs1 target of
                  (fs2, Some e) \<Rightarrow> (fs2, res, Some (Wrap ''create directory'' e))
                | (fs2, None) \<Rightarrow> (fs2, res, None))
           | TypeXGlobalHeader \<Rightarrow> (fs1, res, None)
           | TypeSymlink \<Rightarrow>
               if \<not> AllowSymlinks policy then (fs1, res, Some (Err ''symlink is not allowed''))
               else (case safeSymlinkTarget name (hdr_Linkname header) of
                  Inl e \<Rightarrow> (fs1, res, Some (Wrap ''unsafe symlink'' e))
                | Inr linkTarget \<Rightarrow>
                  (case removeNonDirectory fs1 target of
                     (fs2, Some e) \<Rightarrow> (fs2, res, Some e)
                   | (fs2, None) \<Rightarrow>
                     (case os_symlink pr fs2 linkTarget target of
                        (fs3, Some e) \<Rightarrow> (fs3, res, Some (Wrap ''create symlink'' e))
                      | (fs3, None) \<Rightarrow> (fs3, res, None))))
           | TypeOther _ \<Rightarrow> (fs1, res, Some (Err ''tar entry has unsupported type''))
           | _ \<Rightarrow> \<comment> \<open>\<open>TypeReg\<close>, \<open>TypeRegA\<close>\<close>
               if hdr_Size header < 0 \<or> hdr_Size header > MaxExtractedBytes policy - ExtractedBytes res
               then (fs1, res, Some (Err ''extracted bytes exceed limit''))
               else (case writeRegularFile pr fs1 body target (hdr_Size header) of
                  (fs2, Some e) \<Rightarrow> (fs2, res, Some (Wrap ''extract'' e))
                | (fs2, None) \<Rightarrow>
                    (fs2, res\<lparr>ExtractedBytes := ExtractedBytes res + hdr_Size header,
                              Files := Files res @ [name]\<rparr>, None)))))"

fun extract_loop ::
  "proc \<Rightarrow> fs \<Rightarrow> string \<Rightarrow> extraction_policy \<Rightarrow> extract_result \<Rightarrow> int \<Rightarrow> tar_next list \<Rightarrow>
   fs \<times> extract_result \<times> error option" where
  "extract_loop pr fs root policy res entryCount [] = (fs, res, None)"
| "extract_loop pr fs root policy res entryCount (NextError e # rest) =
     (fs, res, Some (Wrap ''read tar entry'' e))"
| "extract_loop pr fs root policy res entryCount (Entry header body # rest) =
     (if entryCount + 1 > MaxFiles policy
      then (fs, res, Some (Err ''archive entry count exceeds limit''))
      else case extract_entry pr fs root policy res header body of
        (fs', res', Some e) \<Rightarrow> (fs', res', Some e)
      | (fs', res', None) \<Rightarrow> extract_loop pr fs' root policy res' (entryCount + 1) rest)"

text \<open>
  \<open>Extract\<close>. The decoders are arguments: \<open>untar\<close> gives the sequence of \<open>Next\<close> results of
  \<open>archive/tar\<close> on plain bytes, and \<open>gzip_untar\<close> the same behind \<open>compress/gzip\<close>, whose
  \<open>NewReader\<close> may fail first.
\<close>

definition Extract ::
  "(bytes \<Rightarrow> tar_next list result) \<Rightarrow> (bytes \<Rightarrow> tar_next list) \<Rightarrow> proc \<Rightarrow> fs \<Rightarrow> string \<Rightarrow> string \<Rightarrow>
   extraction_policy \<Rightarrow> fs \<times> extract_result \<times> error option" where
  "Extract gzip_untar untar pr fs archivePath destination policy =
     (case validatePolicy policy of
        Some e \<Rightarrow> (fs, empty_result, Some e)
      | None \<Rightarrow> (case os_lstat fs archivePath of
          Inl e \<Rightarrow> (fs, empty_result, Some (Wrap ''inspect archive'' e))
        | Inr info \<Rightarrow>
          if \<not> is_regular info
          then (fs, empty_result, Some (Err ''archive must be a regular file (symlinks are rejected)''))
          else if int (length (content_of info)) > MaxArchiveBytes policy
          then (fs, empty_result, Some (Err ''archive size exceeds limit''))
          else (case os_mkdir_all pr fs destination (octal 7 5 0) of
            (fs1, Some e) \<Rightarrow> (fs1, empty_result, Some (Wrap ''create extraction directory'' e))
          | (fs1, None) \<Rightarrow>
            (let root = path_clean (if is_abs destination then destination else slash # destination);
                 raw = content_of info;
                 magic = take 2 raw
             in if magic = [CHR 0x1F, CHR 0x8B]
                then (case gzip_untar raw of
                   Inl e \<Rightarrow> (fs1, empty_result, Some (Wrap ''open gzip stream'' e))
                 | Inr entries \<Rightarrow> extract_loop pr fs1 root policy empty_result 0 entries)
                else extract_loop pr fs1 root policy empty_result 0 (untar raw)))))"


subsection \<open>Names and link targets\<close>

text \<open>A clean relative path that is neither ``..'' nor below it has only ordinary names.\<close>

lemma clean_not_up_normal:
  assumes "\<not> is_abs p" "path_clean p \<noteq> dotdot" "\<not> has_prefix (path_clean p) ''../''"
  shows "\<forall>n\<in>set (comps p). normal_name n"
proof -
  obtain k ns where *: "comps p = replicate k dotdot @ ns" "\<forall>n\<in>set ns. normal_name n"
    using comps_form [of p] by (auto simp: clean_form_def)
  have "k = 0"
  proof (rule ccontr)
    assume "k \<noteq> 0"
    then obtain k' where k: "comps p = dotdot # (replicate k' dotdot @ ns)"
      using *(1) by (cases k) auto
    then have "path_clean p = join_with [slash] (dotdot # (replicate k' dotdot @ ns))"
      using assms(1) by (simp add: path_clean_def path_render_def)
    then have "path_clean p = dotdot \<or> has_prefix (path_clean p) ''../''"
      by (cases "replicate k' dotdot @ ns = []") (auto simp: join_with_Cons_Cons has_prefix_def)
    with assms show False by blast
  qed
  with * show ?thesis by simp
qed

lemma safeArchiveName_ok [guard_dests]:
  assumes "safeArchiveName name = Inr cleaned"
  obtains ns where "cleaned = path_render False ns" "\<forall>n\<in>set ns. normal_name n" "comps name = ns"
proof -
  from assms have "\<not> is_abs name" "cleaned = path_clean name"
    and "path_clean name \<noteq> dotdot" "\<not> has_prefix (path_clean name) ''../''"
    by (auto simp: safeArchiveName_def Let_def split: if_splits)
  with clean_not_up_normal [of name] that [of "comps name"] show ?thesis by (simp add: path_clean_def)
qed

lemma split_render_rel:
  "clean_form False ns \<Longrightarrow> ns \<noteq> [] \<Longrightarrow> split_char slash (path_render False ns) = ns"
  using clean_form_no_slash [of False ns] by (auto simp: path_render_def intro!: split_join_char)

lemma not_up_render_normal:
  "\<forall>n\<in>set ns. normal_name n \<Longrightarrow>
   path_render False ns \<noteq> dotdot \<and> \<not> has_prefix (path_render False ns) ''../'' \<and>
   \<not> is_abs (path_render False ns)"
proof (cases "ns = []")
  case True
  then show ?thesis by (simp add: path_render_def has_prefix_def)
next
  case False
  assume ns: "\<forall>n\<in>set ns. normal_name n"
  have cf: "clean_form False ns" by (rule clean_form_normal [OF ns])
  have split: "split_char slash (path_render False ns) = ns" by (rule split_render_rel [OF cf False])
  have "path_render False ns \<noteq> dotdot \<and> \<not> has_prefix (path_render False ns) ''../''"
  proof (rule ccontr)
    assume "\<not> ?thesis"
    then obtain t where "path_render False ns = dotdot \<or> path_render False ns = dotdot @ slash # t"
      by (auto simp: has_prefix_iff)
    then have "hd (split_char slash (path_render False ns)) = dotdot"
      using split_char_append [of slash dotdot t] by auto
    with split False ns show False by (metis hd_in_set normal_name_simps(3))
  qed
  with cf show ?thesis by simp
qed

lemma withinRoot_below [simp]:
  "is_abs root \<Longrightarrow> \<forall>n\<in>set ns. normal_name n \<Longrightarrow>
   withinRoot root (path_render True (comps root @ ns)) = None"
  using not_up_render_normal [of ns] by (simp add: withinRoot_def path_rel_below)

lemma clean_stack_pops:
  "\<forall>n\<in>set b. normal_name n \<Longrightarrow>
   clean_stack r (rev b @ st) (replicate (length b) dotdot @ cs) = clean_stack r st cs"
  by (induction b rule: rev_induct) (auto simp: normal_name_def)

lemma hd_split_abs: "is_abs p \<Longrightarrow> hd (split_char slash p) = []"
  by (cases p) auto

text \<open>The relative path between two clean relative directories, element by element.\<close>

lemma path_rel_between:
  assumes ds: "\<forall>n\<in>set ds. normal_name n" and rs: "\<forall>n\<in>set rs. normal_name n"
    and rel: "path_rel (path_render False ds) (path_render False rs) = Inr out"
  obtains j t where "split_char slash out = replicate j dotdot @ t" "j \<le> length ds"
    "\<forall>x\<in>set t. x = dot \<or> normal_name x" "clean_stack False (rev ds) (split_char slash out) = rs"
proof (cases "ds = rs")
  case True
  with rel have "out = dot" by (simp add: path_rel_def)
  with True that [of 0 "[dot]"] show ?thesis by (simp add: split_char_free)
next
  case False
  have cf: "clean_form False ds" "clean_form False rs" using ds rs by (auto intro: clean_form_normal)
  have neq: "path_render False ds \<noteq> path_render False rs"
    using False path_render_inject [OF cf] by blast
  define es where "es = (if rs = [] then [dot] else rs)"
  have es: "rel_elems (path_render False rs) = es" using cf by (simp add: rel_elems_def es_def)
  obtain b t where bt: "strip_common ds es = (b, t)" by fastforce
  then obtain common where com: "ds = common @ b" "es = common @ t"
    using strip_common_spec [of ds es] by auto
  have out: "out = join_with [slash] (replicate (length b) dotdot @ t)"
    using rel neq cf es bt by (auto simp: path_rel_def split: if_splits)
  have t_ok: "\<forall>x\<in>set t. x = dot \<or> normal_name x"
  proof
    fix x assume "x \<in> set t"
    then have "x \<in> set es" using com(2) by simp
    then show "x = dot \<or> normal_name x" using rs by (auto simp: es_def split: if_splits)
  qed
  have ne: "replicate (length b) dotdot @ t \<noteq> []"
  proof
    assume "replicate (length b) dotdot @ t = []"
    then have "ds = es" using com by auto
    with False ds show False by (auto simp: es_def split: if_splits)
  qed
  have "\<forall>x\<in>set (replicate (length b) dotdot @ t). slash \<notin> set x"
  proof
    fix x assume "x \<in> set (replicate (length b) dotdot @ t)"
    then have "x = dotdot \<or> x \<in> set t" by (metis Un_iff in_set_replicate set_append)
    with t_ok have "x = dotdot \<or> x = dot \<or> normal_name x" by blast
    then show "slash \<notin> set x" by (auto simp: normal_name_def)
  qed
  with ne have split: "split_char slash out = replicate (length b) dotdot @ t"
    unfolding out by (rule split_join_char)
  have "clean_stack False (rev ds) (split_char slash out) = clean_stack False (rev common) t"
    using split com(1) ds by (simp add: clean_stack_pops)
  also have "\<dots> = rs"
  proof (cases "rs = []")
    case True
    with com ds have "common = [] \<and> t = [dot]"
      by (auto simp: es_def Cons_eq_append_conv)
    with True show ?thesis by simp
  next
    case False
    with com(2) rs show ?thesis by (simp add: es_def clean_stack_normal)
  qed
  finally show ?thesis using that [OF split] t_ok com(1) by simp
qed

lemma confined_targetI:
  assumes "split_char slash out = replicate j dotdot @ t" "j \<le> k"
    "\<forall>x\<in>set t. x = dot \<or> normal_name x"
  shows "confined_target k out"
proof -
  have nodd: "dotdot \<notin> set t" using assms(3) by auto
  then have "takeWhile (\<lambda>c. c = dotdot) (replicate j dotdot @ t) = replicate j dotdot"
    "dropWhile (\<lambda>c. c = dotdot) (replicate j dotdot @ t) = t"
    by (induction j) (cases t; auto)+
  moreover have "\<not> is_abs out"
  proof
    assume "is_abs out"
    then have "hd (replicate j dotdot @ t) = []" using hd_split_abs assms(1) by metis
    then show False
      using assms(1,3) split_char_not_Nil [of slash out] by (cases j; cases t) auto
  qed
  ultimately show ?thesis using nodd assms by (simp add: confined_target_def)
qed

text \<open>
  What \<open>safeSymlinkTarget\<close> returns for an entry at depth \<open>length ds\<close>: it goes up at most that far,
  and from the entry's directory it names the same place as the archive's own link text.
\<close>

lemma safeSymlinkTarget_ok:
  assumes ns: "\<forall>n\<in>set (ds @ [c]). normal_name n"
    and ok: "safeSymlinkTarget (path_render False (ds @ [c])) link = Inr out"
  shows "confined_target (length ds) out"
    and "comps (path_join [path_render False ds, out]) = comps (path_join [path_render False ds, link])"
proof -
  let ?dir = "path_render False ds"
  have cf: "clean_form False ds" "\<forall>n\<in>set ds. normal_name n"
    using ns by (auto intro: clean_form_normal)
  have dir: "path_dir (path_render False (ds @ [c])) = ?dir"
    using clean_form_normal [OF ns] by (rule path_dir_render)
  have ne: "?dir \<noteq> []" using join_with_Nil_iff [OF cf(1)] by (simp add: path_render_def)
  let ?joined = "path_join [?dir, link]"
  from ok dir have up: "path_clean ?joined \<noteq> dotdot" "\<not> has_prefix (path_clean ?joined) ''../''"
    and rel: "path_rel ?dir (path_clean ?joined) = Inr out"
    by (auto simp: safeSymlinkTarget_def Let_def split: if_splits)
  have nabs: "\<not> is_abs ?joined" using cf ne by (simp add: path_join_def is_abs_append)
  have rs: "\<forall>n\<in>set (comps ?joined). normal_name n" by (rule clean_not_up_normal [OF nabs up])
  have "path_clean ?joined = path_render False (comps ?joined)" using nabs by (simp add: path_clean_def)
  with rel obtain j t where jt: "split_char slash out = replicate j dotdot @ t" "j \<le> length ds"
    "\<forall>x\<in>set t. x = dot \<or> normal_name x"
    "clean_stack False (rev ds) (split_char slash out) = comps ?joined"
    using path_rel_between [OF cf(2) rs] by metis
  show "confined_target (length ds) out" by (rule confined_targetI [OF jt(1-3)])
  show "comps (path_join [?dir, out]) = comps ?joined"
    using jt(4) cf ne by (simp add: path_join_def comps_append)
qed

subsection \<open>Confinement\<close>

text \<open>
  One change of the tree during an extraction below the physical directory \<open>R\<close>: nothing outside
  \<open>R\<close> (nor \<open>R\<close> itself) changes, directories stay directories, links stay confined, and unless
  links are allowed (\<open>A\<close>) none appears.
\<close>

definition confined_step :: "bool \<Rightarrow> string list \<Rightarrow> fs \<Rightarrow> fs \<Rightarrow> bool" where
  "confined_step A R fs fs' \<longleftrightarrow>
     (\<forall>q. \<not> strict_prefix R q \<longrightarrow> node_at fs' q = node_at fs q) \<and>
     (\<forall>q. is_dir_at fs q \<longrightarrow> is_dir_at fs' q) \<and>
     (links_confined R fs \<longrightarrow> links_confined R fs') \<and>
     (\<not> A \<longrightarrow> (\<forall>q nd. node_at fs' q = Some nd \<longrightarrow> is_symlink nd \<longrightarrow> node_at fs q = Some nd))"

lemma confined_step_refl [simp]: "confined_step A R fs fs"
  by (simp add: confined_step_def)

lemma confined_step_trans [trans]:
  "confined_step A R fs fs' \<Longrightarrow> confined_step A R fs' fs'' \<Longrightarrow> confined_step A R fs fs''"
  by (simp add: confined_step_def)

lemma confined_step_real_dir: "confined_step A R fs fs' \<Longrightarrow> real_dir fs p \<Longrightarrow> real_dir fs' p"
  by (simp add: confined_step_def real_dir_iff)

lemma confined_step_put:
  assumes "\<not> is_dir_at fs (R @ d @ [c]) \<or> kind nd = Directory"
    and "\<And>t. kind nd = Symlink t \<Longrightarrow> A \<and> confined_target (length d) t"
  shows "confined_step A R fs (put_node (R @ d @ [c]) nd fs)"
proof -
  have "\<not> strict_prefix R q \<Longrightarrow> q \<noteq> R @ d @ [c]" for q by (auto simp: strict_prefix_def)
  moreover have "is_dir_at fs q \<Longrightarrow> is_dir_at (put_node (R @ d @ [c]) nd fs) q" for q
    using assms(1) by (auto simp: is_dir_at_def)
  moreover have "links_confined R fs \<Longrightarrow> links_confined R (put_node (R @ d @ [c]) nd fs)"
    using assms(2) unfolding links_confined_def by auto
  moreover have "A" if "is_symlink nd"
    using assms(2) that by (auto simp: is_symlink_def split: node_kind.splits)
  ultimately show ?thesis by (auto simp: confined_step_def)
qed

lemma confined_step_del:
  assumes "\<not> is_dir_at fs (R @ d @ [c])"
  shows "confined_step A R fs (del_node (R @ d @ [c]) fs)"
proof -
  have "\<not> strict_prefix R q \<Longrightarrow> q \<noteq> R @ d @ [c]" for q by (auto simp: strict_prefix_def)
  moreover have "is_dir_at fs q \<Longrightarrow> is_dir_at (del_node (R @ d @ [c]) fs) q" for q
    using assms by (auto simp: is_dir_at_def)
  moreover have "links_confined R fs \<Longrightarrow> links_confined R (del_node (R @ d @ [c]) fs)"
    unfolding links_confined_def by auto
  ultimately show ?thesis by (simp add: confined_step_def)
qed

text \<open>
  The operations on a target \<open>R @ d @ [c]\<close> whose parent is a real directory act on exactly that
  inode.
\<close>

lemma create_node_confined:
  assumes "clean_form True (R @ d @ [c])" "real_dir fs (R @ d)"
    and "create_node pr fs (path_render True (R @ d @ [c])) k pm = (fs', e)"
    and "\<And>t. k = Symlink t \<Longrightarrow> A \<and> confined_target (length d) t"
  shows "confined_step A R fs fs'"
    and "e = None \<Longrightarrow> node_at fs' (R @ d @ [c]) = Some (new_inode fs pr (R @ d @ [c]) k pm)"
proof -
  from assms(1-3) have *: "(if node_at fs (R @ d @ [c]) \<noteq> None then (fs, Some errExist)
      else (put_node (R @ d @ [c]) (new_inode fs pr (R @ d @ [c]) k pm) fs, None)) = (fs', e)"
    using create_node_render [of "R @ d" c fs pr k pm, unfolded append_assoc] by simp
  have "confined_step A R fs (put_node (R @ d @ [c]) (new_inode fs pr (R @ d @ [c]) k pm) fs)"
    if "node_at fs (R @ d @ [c]) = None"
    using that assms(4) by (intro confined_step_put) (auto simp: is_dir_at_def)
  with * show "confined_step A R fs fs'" by (auto split: if_splits)
  from * show "e = None \<Longrightarrow> node_at fs' (R @ d @ [c]) = Some (new_inode fs pr (R @ d @ [c]) k pm)"
    by (auto split: if_splits)
qed

lemma create_nonlink_confined:
  assumes "clean_form True (R @ d @ [c])" "real_dir fs (R @ d)"
    and "create_node pr fs (path_render True (R @ d @ [c])) k pm = (fs', e)" "\<forall>t. k \<noteq> Symlink t"
  shows "confined_step A R fs fs'"
    and "e = None \<Longrightarrow> node_at fs' (R @ d @ [c]) = Some (new_inode fs pr (R @ d @ [c]) k pm)"
proof -
  have nl: "\<And>t. k = Symlink t \<Longrightarrow> A \<and> confined_target (length d) t" using assms(4) by simp
  show "confined_step A R fs fs'"
    by (rule create_node_confined(1) [OF assms(1-3) nl])
  show "e = None \<Longrightarrow> node_at fs' (R @ d @ [c]) = Some (new_inode fs pr (R @ d @ [c]) k pm)"
    by (rule create_node_confined(2) [OF assms(1-3) nl])
qed

lemma removeNonDirectory_confined:
  assumes "clean_form True (R @ d @ [c])" "real_dir fs (R @ d)"
    and "removeNonDirectory fs (path_render True (R @ d @ [c])) = (fs', e)"
  shows "confined_step A R fs fs'" and "e = None \<Longrightarrow> node_at fs' (R @ d @ [c]) = None"
proof -
  have l: "os_lstat fs (path_render True (R @ d @ [c])) =
      (case node_at fs (R @ d @ [c]) of None \<Rightarrow> Inl errNotExist | Some nd \<Rightarrow> Inr nd)"
    using assms(1,2) lstat_render [of "R @ d" c fs, unfolded append_assoc] by simp
  consider (none) "node_at fs (R @ d @ [c]) = None" "fs' = fs"
    | (dir) "fs' = fs" "e \<noteq> None"
    | (del) nd where "node_at fs (R @ d @ [c]) = Some nd" "\<not> is_dir nd"
        "fs' = del_node (R @ d @ [c]) fs"
    using assms(3) l remove_render [of "R @ d" c fs, unfolded append_assoc] assms(1,2)
    by (auto simp: removeNonDirectory_def errNotExist_def split: option.splits if_splits)
  then show "confined_step A R fs fs'" and "e = None \<Longrightarrow> node_at fs' (R @ d @ [c]) = None"
    by (cases; auto intro!: confined_step_del simp: is_dir_at_def is_dir_def)+
qed

lemma makeDirectory_confined:
  assumes "clean_form True (R @ d @ [c])" "real_dir fs (R @ d)"
    and "makeDirectory pr fs (path_render True (R @ d @ [c])) = (fs', e)"
  shows "confined_step A R fs fs'"
proof -
  have l: "os_lstat fs (path_render True (R @ d @ [c])) =
      (case node_at fs (R @ d @ [c]) of None \<Rightarrow> Inl errNotExist | Some nd \<Rightarrow> Inr nd)"
    using assms(1,2) lstat_render [of "R @ d" c fs, unfolded append_assoc] by simp
  then consider "fs' = fs"
    | "create_node pr fs (path_render True (R @ d @ [c])) Directory (octal 7 5 0) = (fs', e)"
    using assms(3)
    by (auto simp: makeDirectory_def os_mkdir_def errNotExist_def split: option.splits if_splits)
  then show ?thesis
  proof cases
    case 2
    then show ?thesis using create_nonlink_confined(1) [OF assms(1,2)] by blast
  qed simp
qed

lemma writeRegularFile_confined:
  assumes R: "clean_form True (R @ d @ [c])" "real_dir fs (R @ d)"
    and w: "writeRegularFile pr fs body (path_render True (R @ d @ [c])) sz = (fs', e)"
  shows "confined_step A R fs fs'"
proof -
  let ?t = "path_render True (R @ d @ [c])"
  obtain fs1 e1 where 1: "removeNonDirectory fs ?t = (fs1, e1)" by fastforce
  note s1 = removeNonDirectory_confined [OF R 1]
  have r1: "real_dir fs1 (R @ d)" using confined_step_real_dir [OF s1(1) R(2)] .
  obtain fs2 e2 where 2: "os_create_excl pr fs1 ?t (octal 6 4 0) = (fs2, e2)" by fastforce
  have nl: "\<forall>t. Regular [] \<noteq> Symlink t" by simp
  note s2 = create_nonlink_confined [OF R(1) r1 2 [unfolded os_create_excl_def] nl]
  have s12: "confined_step A R fs fs2" using s1(1) s2(1) confined_step_trans by blast
  have r2: "real_dir fs2 (R @ d)" using confined_step_real_dir [OF s12 R(2)] .
  have "confined_step A R fs2 fs3 \<and> confined_step A R fs3 (fst (os_remove fs3 ?t))"
    if "e2 = None" and fs3: "fs3 = write_content fs2 ?t b" for fs3 b
  proof -
    from s2(2) that(1) obtain nd where nd: "node_at fs2 (R @ d @ [c]) = Some nd" "is_regular nd"
      by (auto simp: is_regular_def)
    then have w3: "fs3 = put_node (R @ d @ [c]) (nd\<lparr>kind := Regular b\<rparr>) fs2"
      using write_content_render [of "R @ d" c fs2, unfolded append_assoc] R(1) r2 fs3 by simp
    have s3: "confined_step A R fs2 fs3" unfolding w3
      using nd by (intro confined_step_put) (auto simp: is_dir_at_def is_regular_def)
    have "os_remove fs3 ?t = (del_node (R @ d @ [c]) fs3, None)"
      using remove_render [of "R @ d" c fs3, unfolded append_assoc] R(1)
        confined_step_real_dir [OF s3 r2] w3 by (simp add: is_dir_def)
    moreover have "confined_step A R fs3 (del_node (R @ d @ [c]) fs3)"
      by (rule confined_step_del) (simp add: w3 is_dir_at_def)
    ultimately show ?thesis using s3 by simp
  qed
  note s3 = this
  from w 1 2 consider "fs' = fs1" | "fs' = fs2"
    | b where "e2 = None" "fs' = write_content fs2 ?t b"
    | b where "e2 = None" "fs' = fst (os_remove (write_content fs2 ?t b) ?t)"
    by (auto simp: writeRegularFile_def Let_def split: option.splits prod.splits if_splits)
  then show ?thesis
  proof cases
    case (3 b)
    then show ?thesis using s3 [OF 3(1) refl] confined_step_trans [OF s12] by blast
  next
    case (4 b)
    then show ?thesis
      using s3 [OF 4(1) refl, of b] confined_step_trans [OF s12] confined_step_trans by metis
  qed (use s1(1) s12 in simp_all)
qed

text \<open>
  Walking down from a real directory, \<open>ensureParents\<close> either stops with an error or leaves the
  whole parent path as real directories.
\<close>

lemma ensureParents_loop_confined:
  assumes "clean_form True (R @ d @ cs)" "real_dir fs (R @ d)"
    and "ensureParents_loop pr fs (path_render True (R @ d)) cs = (fs', e)"
  shows "confined_step A R fs fs' \<and> (e = None \<longrightarrow> real_dir fs' (R @ d @ cs))"
  using assms
proof (induction cs arbitrary: fs d)
  case (Cons c cs)
  let ?t = "path_render True (R @ d @ [c])"
  have cf: "clean_form True (R @ d @ [c])" using Cons.prems(1) by auto
  have join: "path_join [path_render True (R @ d), c] = ?t"
    using path_join_name [of "R @ d" c] cf by simp
  have l: "os_lstat fs ?t =
      (case node_at fs (R @ d @ [c]) of None \<Rightarrow> Inl errNotExist | Some nd \<Rightarrow> Inr nd)"
    using cf Cons.prems(2) lstat_render [of "R @ d" c fs, unfolded append_assoc] by simp
  have IH: "confined_step A R fs1 fs' \<and> (e = None \<longrightarrow> real_dir fs' (R @ d @ c # cs))"
    if "confined_step A R fs fs1" "is_dir_at fs1 (R @ d @ [c])"
      "ensureParents_loop pr fs1 ?t cs = (fs', e)" for fs1
    using Cons.IH [of "d @ [c]" fs1] Cons.prems(1) that
      real_dir_snoc [of fs1 "R @ d" c] confined_step_real_dir [OF that(1) Cons.prems(2)] by simp
  show ?case
  proof (cases "node_at fs (R @ d @ [c])")
    case None
    obtain fs1 e1 where mk: "os_mkdir pr fs ?t (octal 7 5 0) = (fs1, e1)" by fastforce
    have nl: "\<forall>t. Directory \<noteq> Symlink t" by simp
    note step = create_nonlink_confined [OF cf Cons.prems(2) mk [unfolded os_mkdir_def] nl]
    have "e1 = None"
      using mk None cf Cons.prems(2) create_node_render [of "R @ d" c fs, unfolded append_assoc]
      by (simp add: os_mkdir_def)
    with step have "confined_step A R fs fs1" "is_dir_at fs1 (R @ d @ [c])"
      by (auto simp: is_dir_at_def)
    moreover have "ensureParents_loop pr fs1 ?t cs = (fs', e)"
      using Cons.prems(3) join l None mk \<open>e1 = None\<close>
      by (simp add: Let_def errNotExist_def)
    ultimately show ?thesis using IH confined_step_trans by blast
  next
    case (Some nd)
    then show ?thesis
      using Cons.prems(3) join l IH [of fs]
      by (auto simp: Let_def is_dir_at_def is_dir_def split: if_splits)
  qed
qed simp

lemma ensureParents_confined:
  assumes R: "clean_form True (R @ d)" "real_dir fs R"
    and e: "ensureParents pr fs (path_render True R) (path_render True (R @ d)) = (fs', e)"
  shows "confined_step A R fs fs' \<and> (e = None \<longrightarrow> real_dir fs' (R @ d))"
proof -
  let ?root = "path_render True R"
  have cf: "clean_form True R" "\<forall>n\<in>set d. normal_name n" using R(1) by auto
  have root: "is_abs ?root" "comps ?root = R" using cf(1) by simp_all
  have rel: "path_rel ?root (path_render True (R @ d)) = Inr (path_render False d)"
    using path_rel_below [OF root(1) cf(2)] root(2) by simp
  have within: "withinRoot ?root (path_render True (R @ d)) = None"
    using withinRoot_below [OF root(1) cf(2)] root(2) by simp
  show ?thesis
  proof (cases "d = []")
    case True
    with e within rel R(2) show ?thesis by (simp add: ensureParents_def path_render_def [of False])
  next
    case False
    have cfd: "clean_form False d" by (rule clean_form_normal [OF cf(2)])
    have "path_render False d \<noteq> dot"
      using path_render_inject [OF cfd clean_form_Nil, of False] False by (auto simp: path_render_def)
    with e within rel split_render_rel [OF cfd False]
    have "ensureParents_loop pr fs (path_render True (R @ [])) d = (fs', e)"
      by (simp add: ensureParents_def)
    from ensureParents_loop_confined [OF _ _ this] R show ?thesis by simp
  qed
qed

lemma extract_entry_confined:
  assumes R: "clean_form True R" "real_dir fs R"
    and x: "extract_entry pr fs (path_render True R) policy res header body = (fs', res', e)"
  shows "confined_step (AllowSymlinks policy) R fs fs'"
proof (cases "safeArchiveName (hdr_Name header)")
  case (Inl err)
  with x show ?thesis by (simp add: extract_entry_def)
next
  case (Inr name)
  then obtain ns where ns: "name = path_render False ns" "\<forall>n\<in>set ns. normal_name n"
    by (rule safeArchiveName_ok)
  show ?thesis
  proof (cases ns rule: rev_cases)
    case Nil
    with Inr x ns show ?thesis by (simp add: extract_entry_def path_render_def)
  next
    case (snoc d c)
    let ?root = "path_render True R" and ?t = "path_render True (R @ d @ [c])"
    have cf: "clean_form True (R @ d @ [c])" "clean_form True (R @ d)" using R ns snoc by auto
    have ndot: "name \<noteq> dot"
      using path_render_inject [OF clean_form_normal [OF ns(2)] clean_form_Nil, of False False] ns snoc
      by (auto simp: path_render_def)
    have t: "path_join [?root, name] = ?t" "withinRoot ?root ?t = None"
      "path_dir ?t = path_render True (R @ d)"
      using path_join_below [of ?root name ns] path_dir_render [of True "R @ d" c]
        withinRoot_below [of ?root ns, unfolded comps_render [OF R(1)]] R ns snoc cf by simp_all
    obtain fs1 e1 where 1: "ensureParents pr fs ?root (path_render True (R @ d)) = (fs1, e1)" by fastforce
    have s1: "confined_step (AllowSymlinks policy) R fs fs1" "e1 = None \<Longrightarrow> real_dir fs1 (R @ d)"
      using ensureParents_confined [OF cf(2) R(2) 1] by auto
    obtain fs2 e2 where 2: "removeNonDirectory fs1 ?t = (fs2, e2)" by fastforce
    have "confined_step (AllowSymlinks policy) R fs1 fs'" if e1: "e1 = None"
    proof -
      note r1 = s1(2) [OF e1]
      note s2 = removeNonDirectory_confined(1) [OF cf(1) r1 2]
      have link: "confined_step (AllowSymlinks policy) R fs2 fs3"
        if "AllowSymlinks policy" "safeSymlinkTarget name (hdr_Linkname header) = Inr lt" "os_symlink pr fs2 lt ?t = (fs3, e3)"
        for lt fs3 e3
        using create_node_confined(1) [OF cf(1) confined_step_real_dir [OF s2 r1]
            that(3) [unfolded os_symlink_def]] safeSymlinkTarget_ok(1) [of d c] that(1,2) ns snoc by simp
      from x Inr ndot t 1 2 e1
      consider "fs' = fs1" | e3 where "makeDirectory pr fs1 ?t = (fs', e3)"
        | e3 where "writeRegularFile pr fs1 body ?t (hdr_Size header) = (fs', e3)"
        | "fs' = fs2"
        | lt e3 where "AllowSymlinks policy" "safeSymlinkTarget name (hdr_Linkname header) = Inr lt"
            "os_symlink pr fs2 lt ?t = (fs', e3)"
        by (auto simp: extract_entry_def Let_def split: typeflag.splits option.splits prod.splits
            if_splits sum.splits)
      then show ?thesis
      proof cases
        case (5 lt e3)
        then show ?thesis using link s2 confined_step_trans by blast
      next
        case (2 e3)
        then show ?thesis by (rule makeDirectory_confined [OF cf(1) r1])
      next
        case (3 e3)
        then show ?thesis by (rule writeRegularFile_confined [OF cf(1) r1])
      qed (use s2 in simp_all)
    qed
    moreover have "fs' = fs1" if "e1 \<noteq> None"
      using that x Inr ndot t 1 by (auto simp: extract_entry_def Let_def)
    ultimately show ?thesis using s1(1) confined_step_trans by blast
  qed
qed

lemma extract_loop_confined:
  "clean_form True R \<Longrightarrow> real_dir fs R \<Longrightarrow>
   extract_loop pr fs (path_render True R) policy res n entries = (fs', res', e) \<Longrightarrow>
   confined_step (AllowSymlinks policy) R fs fs'"
proof (induction pr fs "path_render True R" policy res n entries
    arbitrary: fs' res' e rule: extract_loop.induct)
  case (3 pr fs policy res n header body rest)
  obtain fs1 res1 e1 where 1: "extract_entry pr fs (path_render True R) policy res header body =
      (fs1, res1, e1)" by (metis surj_pair)
  note s1 = extract_entry_confined [OF "3.prems"(1,2) 1]
  show ?case
  proof (cases "n + 1 > MaxFiles policy \<or> e1 \<noteq> None")
    case True
    with "3.prems"(3) 1 s1 show ?thesis by (auto split: if_splits option.splits)
  next
    case False
    with "3.prems"(3) 1
    have "extract_loop pr fs1 (path_render True R) policy res1 (n + 1) rest = (fs', res', e)"
      by simp
    with 3(1) [OF _ 1 [symmetric], of res1 e1] False "3.prems"(1,2) confined_step_real_dir [OF s1]
    have "confined_step (AllowSymlinks policy) R fs1 fs'" by simp
    then show ?thesis using s1 confined_step_trans by blast
  qed
qed auto

text \<open>\<open>MkdirAll\<close> on a path without symbolic links only adds missing directories of the path.\<close>

definition plain_path :: "fs \<Rightarrow> string list \<Rightarrow> bool" where
  "plain_path fs p \<longleftrightarrow>
     (\<forall>q\<in>set (prefixes p). case node_at fs q of Some nd \<Rightarrow> \<not> is_symlink nd | None \<Rightarrow> True)"

definition only_new_dirs :: "string list \<Rightarrow> fs \<Rightarrow> fs \<Rightarrow> bool" where
  "only_new_dirs p fs fs' \<longleftrightarrow>
     (\<forall>q. node_at fs' q = node_at fs q \<or> (prefix q p \<and> node_at fs q = None \<and> is_dir_at fs' q))"

lemma only_new_dirs_refl [simp]: "only_new_dirs p fs fs"
  by (simp add: only_new_dirs_def)

lemma only_new_dirs_trans:
  assumes "only_new_dirs p fs fs1" "only_new_dirs p fs1 fs2" shows "only_new_dirs p fs fs2"
  unfolding only_new_dirs_def
proof
  fix q
  show "node_at fs2 q = node_at fs q \<or> (prefix q p \<and> node_at fs q = None \<and> is_dir_at fs2 q)"
    using assms [unfolded only_new_dirs_def, rule_format, of q] by (auto simp: is_dir_at_def)
qed

lemma only_new_dirs_plain: "only_new_dirs p fs fs' \<Longrightarrow> plain_path fs r \<Longrightarrow> plain_path fs' r"
  unfolding plain_path_def
proof
  fix q assume *: "only_new_dirs p fs fs'"
    "\<forall>q\<in>set (prefixes r). case node_at fs q of Some nd \<Rightarrow> \<not> is_symlink nd | None \<Rightarrow> True"
    "q \<in> set (prefixes r)"
  from *(1) have "node_at fs' q = node_at fs q \<or> is_dir_at fs' q" by (auto simp: only_new_dirs_def)
  with *(2,3) show "case node_at fs' q of Some nd \<Rightarrow> \<not> is_symlink nd | None \<Rightarrow> True"
    by (auto simp: is_dir_at_def is_symlink_def split: option.splits)
qed

lemma mkdir_all_elems_spec:
  assumes "real_dir fs d" "clean_form True (d @ cs)" "plain_path fs (d @ cs)"
    and "mkdir_all_elems pr fs d cs pm = (fs', e)"
  shows "only_new_dirs (d @ cs) fs fs' \<and> (e = None \<longrightarrow> real_dir fs' (d @ cs))"
  using assms
proof (induction cs arbitrary: fs d)
  case (Cons c cs)
  let ?p = "path_render True (d @ [c])"
  have cf: "clean_form True (d @ [c])" using Cons.prems(2) by auto
  have nl: "case node_at fs (d @ [c]) of Some nd \<Rightarrow> \<not> is_symlink nd | None \<Rightarrow> True"
    using Cons.prems(3) by (simp add: plain_path_def)
  have stat: "os_stat fs ?p =
      (case node_at fs (d @ [c]) of None \<Rightarrow> Inl errNotExist | Some nd \<Rightarrow> Inr nd)"
    using resolve_render [OF cf Cons.prems(1), of True] nl
    by (simp add: os_stat_def lookup_path_def split: option.splits)
  have IH: "only_new_dirs (d @ c # cs) fs fs' \<and> (e = None \<longrightarrow> real_dir fs' (d @ c # cs))"
    if new: "only_new_dirs (d @ c # cs) fs fs1" and dir: "real_dir fs1 (d @ [c])"
      and rest: "mkdir_all_elems pr fs1 (d @ [c]) cs pm = (fs', e)" for fs1
    using Cons.IH [OF dir] Cons.prems(2) only_new_dirs_plain [OF new Cons.prems(3)] rest
      only_new_dirs_trans [OF new] by simp
  show ?case
  proof (cases "node_at fs (d @ [c])")
    case None
    let ?fs1 = "put_node (d @ [c]) (new_inode fs pr (d @ [c]) Directory pm) fs"
    have mk: "os_mkdir pr fs ?p pm = (?fs1, None)"
      using create_node_render [OF cf Cons.prems(1)] None by (simp add: os_mkdir_def)
    have "only_new_dirs (d @ c # cs) fs ?fs1"
      using None by (auto simp: only_new_dirs_def is_dir_at_def)
    moreover have "real_dir ?fs1 d"
      by (rule real_dir_cong [OF _ Cons.prems(1)]) (auto dest: prefix_length_le)
    then have "real_dir ?fs1 (d @ [c])"
      by (simp add: real_dir_snoc is_dir_at_def)
    ultimately show ?thesis
      using IH Cons.prems(4) stat None mk by (simp add: Let_def)
  next
    case (Some nd)
    show ?thesis
    proof (cases "is_dir nd")
      case True
      then have "real_dir fs (d @ [c])"
        using Cons.prems(1) Some by (simp add: real_dir_snoc is_dir_at_def is_dir_def)
      with IH [of fs] True Cons.prems(4) stat Some show ?thesis by (simp add: Let_def)
    next
      case False
      with Cons.prems(4) stat Some show ?thesis by (auto simp: Let_def)
    qed
  qed
qed simp

subsection \<open>Limits\<close>

definition within_limits :: "extraction_policy \<Rightarrow> int \<Rightarrow> extract_result \<Rightarrow> bool" where
  "within_limits policy n res \<longleftrightarrow>
     0 \<le> ExtractedBytes res \<and> ExtractedBytes res \<le> max 0 (MaxExtractedBytes policy) \<and>
     int (length (Files res)) \<le> n"

lemma extract_entry_limits:
  "within_limits policy n res \<Longrightarrow>
   extract_entry pr fs root policy res header body = (fs', res', e) \<Longrightarrow>
   within_limits policy (n + 1) res'"
  by (auto simp: extract_entry_def within_limits_def Let_def
      split: sum.splits if_splits option.splits prod.splits typeflag.splits)

lemma extract_loop_limits:
  "within_limits policy n res \<Longrightarrow> n \<le> MaxFiles policy \<Longrightarrow>
   extract_loop pr fs root policy res n entries = (fs', res', e) \<Longrightarrow>
   within_limits policy (MaxFiles policy) res'"
proof (induction pr fs root policy res n entries arbitrary: fs' res' e rule: extract_loop.induct)
  case (3 pr fs root policy res n header body rest)
  obtain fs1 res1 e1 where 1: "extract_entry pr fs root policy res header body = (fs1, res1, e1)"
    by (metis surj_pair)
  note lim = extract_entry_limits [OF "3.prems"(1) 1]
  show ?case
  proof (cases "n + 1 > MaxFiles policy")
    case True
    with 3 show ?thesis by (auto simp: within_limits_def)
  next
    case False
    show ?thesis
    proof (cases e1)
      case None
      with 3(1) [OF False 1 [symmetric], of res1 e1] 3(4) 1 False lim show ?thesis by simp
    next
      case (Some err)
      with 3(4) 1 False lim show ?thesis by (auto simp: within_limits_def)
    qed
  qed
qed (auto simp: within_limits_def)

subsection \<open>Properties of \<open>Extract\<close>\<close>

lemma Extract_cases:
  assumes x: "Extract gzip_untar untar pr fs archivePath destination policy = (fs', res, e)"
    and abs: "is_abs destination"
  obtains (early) "fs' = fs" "res = empty_result" "e \<noteq> None"
  | (mkdir) e1 where "os_mkdir_all pr fs destination (octal 7 5 0) = (fs', e1)" "res = empty_result"
      "e \<noteq> None"
  | (loop) fs1 entries where "os_mkdir_all pr fs destination (octal 7 5 0) = (fs1, None)"
      "extract_loop pr fs1 (path_clean destination) policy empty_result 0 entries = (fs', res, e)"
      "validatePolicy policy = None"
proof (cases "validatePolicy policy")
  case (Some err)
  with x have "fs' = fs" "res = empty_result" "e = Some err" by (simp_all add: Extract_def)
  then show ?thesis by (simp add: early)
next
  case None
  with x abs show ?thesis using early mkdir loop unfolding Extract_def
    by (auto simp: Let_def split: sum.splits if_splits prod.splits option.splits)
qed

lemma Extract_confined_step:
  assumes x: "Extract gzip_untar untar pr fs archivePath destination policy = (fs', res, e)"
    and abs: "is_abs destination" and R: "R = comps destination"
    and top: "is_dir_at fs []" and plain: "plain_path fs R"
  obtains fs1 where "only_new_dirs R fs fs1" "confined_step (AllowSymlinks policy) R fs1 fs'"
proof -
  have cf: "clean_form True R" using comps_form [of destination] abs R by simp
  have root: "path_clean destination = path_render True R" using abs R by (simp add: path_clean_def)
  have real: "real_dir fs []" using top by (simp add: real_dir_iff)
  have mk: "only_new_dirs R fs fs1 \<and> (e1 = None \<longrightarrow> real_dir fs1 R)"
    if "os_mkdir_all pr fs destination (octal 7 5 0) = (fs1, e1)" for fs1 e1
    using mkdir_all_elems_spec [OF real, of R] cf plain that R by (simp add: os_mkdir_all_def)
  from x abs show thesis
  proof (cases rule: Extract_cases)
    case early
    then show ?thesis using that [of fs] by simp
  next
    case (mkdir e1)
    then show ?thesis using that [of fs'] mk by simp
  next
    case (loop fs1 entries)
    with mk [OF loop(1)] extract_loop_confined [OF cf] root show ?thesis using that by metis
  qed
qed

lemma links_confined_new_dirs:
  assumes "only_new_dirs R fs fs1" "links_confined R fs" shows "links_confined R fs1"
  unfolding links_confined_def
proof (intro allI impI)
  fix d c nd t
  assume *: "node_at fs1 (R @ d @ [c]) = Some nd" "kind nd = Symlink t"
  then have "node_at fs1 (R @ d @ [c]) = node_at fs (R @ d @ [c])"
    using assms(1) [unfolded only_new_dirs_def, rule_format, of "R @ d @ [c]"]
    by (auto dest: prefix_length_le)
  with * assms(2) show "confined_target (length d) t" by (simp add: links_confined_def)
qed

text \<open>
  C3 (extract_confined): unpacking a release package, whatever the archive holds and whether it
  succeeds or fails, never touches a path outside the extraction directory: every other inode is as
  before, but for missing ancestors of that directory, which become directories.
\<close>

theorem extract_confined:
  assumes "Extract gzip_untar untar pr fs archivePath destination policy = (fs', res, e)"
    and "is_abs destination" and "is_dir_at fs []" and "plain_path fs (comps destination)"
    and "\<not> strict_prefix (comps destination) q"
  shows "node_at fs' q = node_at fs q \<or>
    (prefix q (comps destination) \<and> node_at fs q = None \<and> is_dir_at fs' q)"
proof -
  obtain fs1 where "only_new_dirs (comps destination) fs fs1"
    and step: "confined_step (AllowSymlinks policy) (comps destination) fs1 fs'"
    using Extract_confined_step [OF assms(1,2) refl assms(3,4)] .
  then have "node_at fs1 q = node_at fs q \<or>
      (prefix q (comps destination) \<and> node_at fs q = None \<and> is_dir_at fs1 q)"
    by (simp add: only_new_dirs_def)
  moreover have "node_at fs' q = node_at fs1 q"
    using step assms(5) by (simp add: confined_step_def)
  ultimately show ?thesis by (simp add: is_dir_at_def)
qed

text \<open>
  After an extraction into a directory without escaping links, no
  path below the directory, written without ``..'', resolves to a place outside it, however many
  symbolic links of the archive are followed on the way.
\<close>

theorem extract_links_stay_inside:
  assumes "Extract gzip_untar untar pr fs archivePath destination policy = (fs', res, e)"
    and "is_abs destination" and "is_dir_at fs []" and "plain_path fs (comps destination)"
    and "links_confined (comps destination) fs"
    and "dotdot \<notin> set names" and "walk n fs' (comps destination) names follow = Inr p"
  shows "prefix (comps destination) p"
proof -
  obtain fs1 where "only_new_dirs (comps destination) fs fs1"
    and "confined_step (AllowSymlinks policy) (comps destination) fs1 fs'"
    using Extract_confined_step [OF assms(1,2) refl assms(3,4)] .
  then have "links_confined (comps destination) fs'"
    using links_confined_new_dirs [OF _ assms(5)] by (simp add: confined_step_def)
  then show ?thesis
    using walk_confined [OF _ assms(7)] confined_pos_below [OF assms(6), of _ "[]"] by simp
qed

text \<open>
  An extraction never accounts for more bytes than \<open>MaxExtractedBytes\<close> nor for
  more files than \<open>MaxFiles\<close>, also when it stops with an error.
\<close>

theorem extract_limits:
  assumes "Extract gzip_untar untar pr fs archivePath destination policy = (fs', res, e)"
    and "is_abs destination"
  shows "0 \<le> ExtractedBytes res \<and> ExtractedBytes res \<le> max 0 (MaxExtractedBytes policy) \<and>
    int (length (Files res)) \<le> max 0 (MaxFiles policy)"
  using assms
proof (cases rule: Extract_cases)
  case (loop fs1 entries)
  then have "0 \<le> MaxFiles policy" by (simp add: validatePolicy_def)
  with extract_loop_limits [OF _ this loop(2)] show ?thesis by (simp add: within_limits_def)
qed simp_all

text \<open>
  When the profile does not allow symbolic links, an extraction creates none;
  every link in the resulting tree was there before.
\<close>

theorem extract_no_links:
  assumes "Extract gzip_untar untar pr fs archivePath destination policy = (fs', res, e)"
    and "is_abs destination" and "is_dir_at fs []" and "plain_path fs (comps destination)"
    and "\<not> AllowSymlinks policy" and "node_at fs' q = Some nd" and "is_symlink nd"
  shows "node_at fs q = Some nd"
proof -
  obtain fs1 where new: "only_new_dirs (comps destination) fs fs1"
    and "confined_step (AllowSymlinks policy) (comps destination) fs1 fs'"
    using Extract_confined_step [OF assms(1,2) refl assms(3,4)] .
  then have "node_at fs1 q = Some nd" using assms(5-7) by (simp add: confined_step_def)
  moreover have "\<not> is_dir_at fs1 q"
    using calculation assms(7) by (auto simp: is_dir_at_def is_symlink_def)
  ultimately show ?thesis using new unfolding only_new_dirs_def by metis
qed

subsection \<open>Witnesses\<close>

text \<open>
  A package with a directory, a file in it, a link back to the file and an entry that climbs out
  of the extraction directory.
\<close>

definition dir_inode :: inode where
  "dir_inode = \<lparr>kind = Directory, perm = octal 7 5 0, setgid = False, sticky = False, uid = 7, gid = 7\<rparr>"

definition file_inode :: "bytes \<Rightarrow> inode" where
  "file_inode b = \<lparr>kind = Regular b, perm = octal 6 4 0, setgid = False, sticky = False, uid = 7, gid = 7\<rparr>"

definition link_inode :: inode where
  "link_inode = \<lparr>kind = Symlink ''/usr/lib'', perm = octal 7 7 7, setgid = False, sticky = False,
     uid = 0, gid = 0\<rparr>"

definition demo_fs :: fs where
  "demo_fs = [([], dir_inode), ([''etc''], dir_inode), ([''lib''], link_inode), ([''w''], dir_inode),
     ([''w'', ''pkg''], file_inode ''tar'')]"

definition demo_proc :: proc where "demo_proc = \<lparr>proc_uid = 7, proc_gid = 7\<rparr>"

definition demo_policy :: "bool \<Rightarrow> extraction_policy" where
  "demo_policy links = \<lparr>MaxArchiveBytes = 100, MaxExtractedBytes = 10, MaxFiles = 5, MaxImages = 2,
     AllowSymlinks = links\<rparr>"

definition demo_entries :: "tar_next list" where
  "demo_entries =
    [Entry \<lparr>hdr_Name = ''images/'', hdr_Typeflag = TypeDir, hdr_Size = 0, hdr_Linkname = []\<rparr> [],
     Entry \<lparr>hdr_Name = ''images/a.tar'', hdr_Typeflag = TypeReg, hdr_Size = 2, hdr_Linkname = []\<rparr> ''ab'',
     Entry \<lparr>hdr_Name = ''images/l'', hdr_Typeflag = TypeSymlink, hdr_Size = 0, hdr_Linkname = ''../images/a.tar''\<rparr> [],
     Entry \<lparr>hdr_Name = ''x/../../etc/passwd'', hdr_Typeflag = TypeReg, hdr_Size = 1, hdr_Linkname = []\<rparr> ''z'']"

definition demo_extract :: "bool \<Rightarrow> fs \<times> extract_result \<times> error option" where
  "demo_extract links = Extract (\<lambda>_. Inl (Err ''gzip'')) (\<lambda>_. demo_entries) demo_proc demo_fs
     ''/w/pkg'' ''/w/package'' (demo_policy links)"

lemma demo_unfold:
  "Extract (\<lambda>_. Inl (Err ''gzip'')) (\<lambda>_. demo_entries) demo_proc demo_fs ''/w/pkg'' ''/w/package''
     (demo_policy links) = (fst (demo_extract links), fst (snd (demo_extract links)), snd (snd (demo_extract links)))"
  by (simp add: demo_extract_def)

lemma demo_hyps:
  "is_abs ''/w/package''" "is_dir_at demo_fs []" "plain_path demo_fs (comps ''/w/package'')"
  "comps ''/w/package'' = [''w'', ''package'']"
  by code_simp+

lemma demo_links: "links_confined (comps ''/w/package'') demo_fs"
  by (simp add: demo_hyps(4) links_confined_def demo_fs_def node_at_def)

theorem extract_confined_witness:
  "snd (snd (demo_extract True)) \<noteq> None \<and>
   node_at (fst (demo_extract True)) [''etc''] = node_at demo_fs [''etc''] \<and>
   node_at (fst (demo_extract True)) [''etc'', ''passwd''] = None"
proof -
  have e: "snd (snd (demo_extract True)) \<noteq> None" by code_simp
  have "\<not> strict_prefix (comps ''/w/package'') [''etc'']"
    "\<not> strict_prefix (comps ''/w/package'') [''etc'', ''passwd'']" by code_simp+
  note extract_confined [OF demo_unfold demo_hyps(1-3) this(1)]
    extract_confined [OF demo_unfold demo_hyps(1-3) this(2)]
  moreover have "node_at demo_fs [''etc'', ''passwd''] = None"
    "\<not> prefix [''etc''] (comps ''/w/package'')" "\<not> prefix [''etc'', ''passwd''] (comps ''/w/package'')"
    by code_simp+
  ultimately show ?thesis using e by metis
qed

theorem extract_links_stay_inside_witness:
  "walk 5 (fst (demo_extract True)) [''w'', ''package''] [''images'', ''l''] True =
     Inr [''w'', ''package'', ''images'', ''a.tar''] \<and>
   prefix [''w'', ''package''] [''w'', ''package'', ''images'', ''a.tar'']"
proof -
  have w: "walk 5 (fst (demo_extract True)) (comps ''/w/package'') [''images'', ''l''] True =
      Inr [''w'', ''package'', ''images'', ''a.tar'']" by code_simp
  have "prefix (comps ''/w/package'') [''w'', ''package'', ''images'', ''a.tar'']"
    by (rule extract_links_stay_inside [OF demo_unfold demo_hyps(1-3) demo_links _ w]) simp
  with w show ?thesis by (simp add: demo_hyps(4))
qed

theorem extract_limits_witness:
  "ExtractedBytes (fst (snd (demo_extract True))) = 2 \<and>
   ExtractedBytes (fst (snd (demo_extract True))) \<le> max 0 (MaxExtractedBytes (demo_policy True))"
proof
  show "ExtractedBytes (fst (snd (demo_extract True))) = 2" by code_simp
  show "ExtractedBytes (fst (snd (demo_extract True))) \<le> max 0 (MaxExtractedBytes (demo_policy True))"
    using extract_limits [OF demo_unfold demo_hyps(1)] by blast
qed

theorem extract_no_links_witness:
  "node_at (fst (demo_extract False)) [''lib''] = Some link_inode \<and> is_symlink link_inode \<and>
   node_at demo_fs [''lib''] = Some link_inode"
proof -
  have h: "\<not> AllowSymlinks (demo_policy False)"
    "node_at (fst (demo_extract False)) [''lib''] = Some link_inode" "is_symlink link_inode"
    by code_simp+
  show ?thesis
    using h(2,3) extract_no_links [OF demo_unfold demo_hyps(1-3) h] by blast
qed

end
