(* ===== verification/Manifest.thy ===== *)
theory Manifest
  imports Archive
begin

text \<open>
  Package \<open>runner/internal/manifest\<close>: the release manifest, the image archives it names and their
  destinations. The YAML decoder is third-party code and an argument; so are the decoded forms of
  the two JSON documents of an image archive and the entry sequence of \<open>archive/tar\<close>.
\<close>

subsection \<open>Patterns\<close>

definition alnum :: "char \<Rightarrow> bool" where "alnum c \<longleftrightarrow> is_lower c \<or> is_upper c \<or> is_digit c"

definition tagPattern :: "string \<Rightarrow> bool" where
  "tagPattern s \<longleftrightarrow>
     (case s of
        [] \<Rightarrow> False
      | c # cs \<Rightarrow> (alnum c \<or> c = CHR ''_'') \<and> length cs \<le> 127 \<and>
          (\<forall>x\<in>set cs. alnum x \<or> x = CHR ''_'' \<or> x = CHR ''.'' \<or> x = CHR ''-''))"

definition repo_char :: "char \<Rightarrow> bool" where "repo_char c \<longleftrightarrow> is_lower c \<or> is_digit c"

definition repo_sep :: "char \<Rightarrow> bool" where "repo_sep c \<longleftrightarrow> c = CHR ''.'' \<or> c = CHR ''_'' \<or> c = CHR ''-''"

text \<open>
  \<open>[a-z0-9]+(?:[._-][a-z0-9]+)*\<close> and the same again after every slash, as an automaton: \<open>sep\<close> says
  that the last character was a separator or a slash (or that there is none yet), so a letter or
  digit must follow.
\<close>

fun repo_match :: "bool \<Rightarrow> string \<Rightarrow> bool" where
  "repo_match sep [] = (\<not> sep)"
| "repo_match sep (c # cs) =
     (if repo_char c then repo_match False cs
      else if repo_sep c \<or> c = slash then \<not> sep \<and> repo_match True cs
      else False)"

definition repositoryPattern :: "string \<Rightarrow> bool" where "repositoryPattern s = repo_match True s"

subsection \<open>Data\<close>

record image_spec =
  spec_File :: string
  spec_Source :: string
  spec_Repository :: string
  spec_Tag :: string

record release =
  rel_Application :: string
  rel_Version :: string
  rel_Images :: "image_spec list"

record resolved_image =
  ri_FilePath :: string
  ri_SourceRef :: string
  ri_Repository :: string
  ri_Tag :: string
  ri_FoundTags :: "string list"

definition maxManifestBytes :: int where "maxManifestBytes = 1048576"
definition maxImageMetadataBytes :: int where "maxImageMetadataBytes = 8388608"

subsection \<open>Files below the package root\<close>

definition path_abs :: "string \<Rightarrow> string" where
  "path_abs p = path_clean (if is_abs p then p else slash # p)"

text \<open>\<open>os.Open\<close> and reading to the end.\<close>

definition os_read_file :: "fs \<Rightarrow> string \<Rightarrow> bytes result" where
  "os_read_file fs p =
     (case os_stat fs p of
        Inl e \<Rightarrow> Inl e
      | Inr info \<Rightarrow> if is_dir info then Inl errIsDir else Inr (content_of info))"

definition ensureWithin :: "string \<Rightarrow> string \<Rightarrow> error option" where
  "ensureWithin root candidate =
     (case path_rel root candidate of
        Inl e \<Rightarrow> Some e
      | Inr rel \<Rightarrow> guard (rel = dotdot \<or> has_prefix rel ''../'' \<or> is_abs rel) ''path escapes workspace'')"

definition safeFile :: "fs \<Rightarrow> string \<Rightarrow> string \<Rightarrow> string result" where
  "safeFile fs root relative =
     (if relative = [] \<or> is_abs relative \<or> contains_char relative (CHR 0x5C) \<or> contains_char relative (CHR 0x00)
      then Inl (Err ''path must be a non-empty relative slash path'')
      else let cleaned = path_clean relative in
        if cleaned = dotdot \<or> has_prefix cleaned ''../'' then Inl (Err ''path traversal'')
        else let rootAbs = path_abs root; fullPath = path_join [rootAbs, cleaned] in
          case eval_symlinks fs fullPath of
            Inl e \<Rightarrow> Inl e
          | Inr realPath \<Rightarrow>
              (case ensureWithin rootAbs realPath of
                 Some e \<Rightarrow> Inl e
               | None \<Rightarrow>
                   (case os_lstat fs fullPath of
                      Inl e \<Rightarrow> Inl e
                    | Inr info \<Rightarrow>
                        if \<not> is_regular info then Inl (Err ''path is not a regular file'')
                        else Inr fullPath)))"

subsection \<open>The manifest\<close>

fun check_images :: "image_spec list \<Rightarrow> error option" where
  "check_images [] = None"
| "check_images (img # rest) =
     (if spec_File img = [] then Some (Err ''images[].file is required'')
      else if spec_Repository img \<noteq> [] \<and> \<not> repositoryPattern (spec_Repository img)
      then Some (Err ''images[].repository is invalid'')
      else if spec_Tag img \<noteq> [] \<and> \<not> tagPattern (spec_Tag img)
      then Some (Err ''images[].tag is invalid'')
      else check_images rest)"

definition Load :: "(bytes \<Rightarrow> release result) \<Rightarrow> fs \<Rightarrow> string \<Rightarrow> string \<Rightarrow> release result" where
  "Load yaml_decode fs root relativePath =
     (let path = (if relativePath = [] then ''manifest.yaml'' else relativePath) in
      case safeFile fs root path of
        Inl e \<Rightarrow> Inl (Wrap ''manifest path'' e)
      | Inr fullPath \<Rightarrow>
          (case os_read_file fs fullPath of
             Inl e \<Rightarrow> Inl (Wrap ''open manifest'' e)
           | Inr content \<Rightarrow>
               \<comment> \<open>the reader is limited to one byte more than the maximum, which is enough for the test\<close>
               if int (length content) > maxManifestBytes then Inl (Err ''manifest exceeds maximum bytes'')
               else case yaml_decode content of
                 Inl e \<Rightarrow> Inl (Wrap ''parse manifest YAML'' e)
               | Inr release \<Rightarrow>
                   if rel_Application release = [] \<or> rel_Version release = []
                   then Inl (Err ''manifest application and version are required'')
                   else (case check_images (rel_Images release) of
                           Some e \<Rightarrow> Inl e | None \<Rightarrow> Inr release)))"

subsection \<open>Image archives\<close>

text \<open>\<open>uniqueStrings\<close>: drop empty strings and repetitions, then sort.\<close>

fun unique_loop :: "string list \<Rightarrow> string list \<Rightarrow> string list" where
  "unique_loop result [] = result"
| "unique_loop result (v # vs) =
     (if v \<in> set result \<or> v = [] then unique_loop result vs else unique_loop (result @ [v]) vs)"

definition uniqueStrings :: "string list \<Rightarrow> string list" where
  "uniqueStrings values = sort_strings (unique_loop [] values)"

fun containsString :: "string list \<Rightarrow> string \<Rightarrow> bool" where
  "containsString [] target = False"
| "containsString (v # vs) target = (if v = target then True else containsString vs target)"

definition readSmallTarEntry :: "bytes \<Rightarrow> int \<Rightarrow> bytes result" where
  "readSmallTarEntry body size' =
     (if size' < 0 \<or> size' > maxImageMetadataBytes then Inl (Err ''image metadata entry exceeds maximum bytes'')
      else if int (length body) < size' then Inl (Err ''unexpected EOF'')
      else Inr (take (nat size') body))"

text \<open>
  The decoders of the two JSON documents: \<open>docker\<close> gives the \<open>RepoTags\<close> of every item of
  \<open>manifest.json\<close>, \<open>oci\<close> the reference annotation of every manifest of \<open>index.json\<close> (empty when absent).
\<close>

fun inspect_loop ::
  "(bytes \<Rightarrow> string list list result) \<Rightarrow> (bytes \<Rightarrow> string list result) \<Rightarrow> int \<Rightarrow> string list \<Rightarrow> tar_next list \<Rightarrow>
   string list result" where
  "inspect_loop docker oci entryCount tags [] =
     (if entryCount > 100000 then Inl (Err ''image archive has too many entries'') else Inr tags)"
| "inspect_loop docker oci entryCount tags (NextError e # rest) =
     (if entryCount > 100000 then Inl (Err ''image archive has too many entries'') else Inl e)"
| "inspect_loop docker oci entryCount tags (Entry header body # rest) =
     (if entryCount > 100000 then Inl (Err ''image archive has too many entries'')
      else let cleaned = path_clean (hdr_Name header) in
        if cleaned = ''manifest.json'' then
          (case readSmallTarEntry body (hdr_Size header) of
             Inl e \<Rightarrow> Inl e
           | Inr data \<Rightarrow>
               (case docker data of
                  Inl e \<Rightarrow> Inl (Wrap ''parse Docker manifest.json'' e)
                | Inr items \<Rightarrow> inspect_loop docker oci (entryCount + 1) (tags @ concat items) rest))
        else if cleaned = ''index.json'' then
          (case readSmallTarEntry body (hdr_Size header) of
             Inl e \<Rightarrow> Inl e
           | Inr data \<Rightarrow>
               (case oci data of
                  Inl e \<Rightarrow> Inl (Wrap ''parse OCI index.json'' e)
                | Inr refs \<Rightarrow> inspect_loop docker oci (entryCount + 1) (tags @ filter (\<lambda>r. r \<noteq> []) refs) rest))
        else inspect_loop docker oci (entryCount + 1) tags rest)"

definition InspectImageTar ::
  "(bytes \<Rightarrow> string list list result) \<Rightarrow> (bytes \<Rightarrow> string list result) \<Rightarrow> (bytes \<Rightarrow> tar_next list) \<Rightarrow> fs \<Rightarrow> string \<Rightarrow>
   string list result" where
  "InspectImageTar docker oci untar fs name =
     (case os_read_file fs name of
        Inl e \<Rightarrow> Inl e
      | Inr content \<Rightarrow>
          (case inspect_loop docker oci 0 [] (untar content) of
             Inl e \<Rightarrow> Inl e
           | Inr found \<Rightarrow>
               let tags = uniqueStrings found in
               if tags = [] then Inl (Err ''no image tags found in Docker manifest.json or OCI index.json'')
               else Inr tags))"

definition ref_space :: string where
  "ref_space = ''@ '' @ [CHR 0x09, CHR 0x0D, CHR 0x0A]"

definition splitImageRef :: "string \<Rightarrow> (string \<times> string) result" where
  "splitImageRef ref =
     (if contains_any ref ref_space
      then Inl (Err ''digest and whitespace references are not accepted as a tag source'')
      else case last_index_byte ref (CHR '':'') of
        None \<Rightarrow> Inl (Err ''image source must include a tag'')
      | Some lastColon \<Rightarrow>
          if (case last_index_byte ref slash of None \<Rightarrow> False | Some lastSlash \<Rightarrow> lastColon \<le> lastSlash) \<or>
             lastColon = length ref - 1
          then Inl (Err ''image source must include a tag'')
          else let repository0 = take lastColon ref;
                   repository = (case index_byte repository0 slash of
                      None \<Rightarrow> repository0
                    | Some k \<Rightarrow>
                        let first = take k repository0 in
                        if contains_sub first ''.'' \<or> contains_sub first '':'' \<or> first = ''localhost''
                        then drop (k + 1) repository0 else repository0);
                   tag = drop (lastColon + 1) ref
               in if \<not> repositoryPattern repository \<or> \<not> tagPattern tag
                  then Inl (Err ''invalid image repository or tag'') else Inr (repository, tag))"

text \<open>
  \<open>WalkDir\<close> below a directory: the regular files, in lexical order, without following links. The
  fuel is larger than the length of every path of the tree, so it is never used up.
\<close>

fun walk_files :: "nat \<Rightarrow> fs \<Rightarrow> string list \<Rightarrow> string list list" where
  "walk_files 0 fs p = []"
| "walk_files (Suc n) fs p =
     (case node_at fs p of
        None \<Rightarrow> []
      | Some nd \<Rightarrow>
          if is_dir nd then concat (map (\<lambda>c. walk_files n fs (p @ [c])) (children fs p))
          else if is_regular nd then [p] else [])"

definition tree_depth :: "fs \<Rightarrow> nat" where
  "tree_depth fs = fold max (map (length \<circ> fst) fs) 0"

fun discover_loop :: "string \<Rightarrow> int \<Rightarrow> string list \<Rightarrow> string list \<Rightarrow> string list result" where
  "discover_loop root maxImages files [] = Inr files"
| "discover_loop root maxImages files (name # names) =
     (if to_lower (path_ext name) \<noteq> ''.tar'' then discover_loop root maxImages files names
      else case path_rel root name of
        Inl e \<Rightarrow> Inl e
      | Inr relative \<Rightarrow>
          if int (length (files @ [relative])) > maxImages
          then Inl (Err ''discovered image count exceeds limit'')
          else discover_loop root maxImages (files @ [relative]) names)"

definition discoverImageTars :: "fs \<Rightarrow> string \<Rightarrow> int \<Rightarrow> string list result" where
  "discoverImageTars fs root maxImages =
     (let imagesRoot = path_join [root, ''images''] in
      case os_lstat fs imagesRoot of
        Inl e \<Rightarrow> if errors_is e errNotExist then Inr []
                 else Inl (Wrap ''inspect images directory'' e)
      | Inr info \<Rightarrow>
          if \<not> is_dir info \<or> is_symlink info then Inl (Err ''images must be a real directory'')
          else case resolve fs imagesRoot False of
            Inl e \<Rightarrow> Inl e
          | Inr p \<Rightarrow>
              let names = map (\<lambda>q. path_join (imagesRoot # drop (length p) q))
                            (walk_files (Suc (tree_depth fs)) fs p)
              in (case discover_loop root maxImages [] names of
                    Inl e \<Rightarrow> Inl (Wrap ''discover image archives'' e)
                  | Inr files \<Rightarrow> Inr (sort_strings files)))"

subsection \<open>Resolving the images\<close>

record image_tools =
  it_docker :: "bytes \<Rightarrow> string list list result"
  it_oci :: "bytes \<Rightarrow> string list result"
  it_untar :: "bytes \<Rightarrow> tar_next list"

definition resolve_image ::
  "image_tools \<Rightarrow> fs \<Rightarrow> string \<Rightarrow> string list \<Rightarrow> image_spec \<Rightarrow> resolved_image result" where
  "resolve_image tools fs root seenFiles spec =
     (case safeFile fs root (spec_File spec) of
        Inl e \<Rightarrow> Inl (Wrap ''images[].file'' e)
      | Inr fullPath \<Rightarrow>
          if to_lower (path_ext fullPath) \<noteq> ''.tar'' then Inl (Err ''images[].file must be a .tar archive'')
          else if fullPath \<in> set seenFiles then Inl (Err ''duplicate image file'')
          else case InspectImageTar (it_docker tools) (it_oci tools) (it_untar tools) fs fullPath of
            Inl e \<Rightarrow> Inl (Wrap ''inspect image'' e)
          | Inr tags \<Rightarrow>
              let source = (if spec_Source spec = [] \<and> tags \<noteq> [] then hd tags else spec_Source spec) in
              if source = [] then Inl (Err ''image has no source reference; set images[].source'')
              else if \<not> containsString tags source
              then Inl (Err ''image source is not present in the uploaded image archive'')
              else case (if spec_Repository spec = [] \<or> spec_Tag spec = []
                         then (case splitImageRef source of
                                 Inl e \<Rightarrow> Inl (Wrap ''derive destination for image'' e)
                               | Inr (pr, pt) \<Rightarrow>
                                   Inr (if spec_Repository spec = [] then pr else spec_Repository spec,
                                        if spec_Tag spec = [] then pt else spec_Tag spec))
                         else Inr (spec_Repository spec, spec_Tag spec)) of
                Inl e \<Rightarrow> Inl e
              | Inr (repository, tag) \<Rightarrow>
                  if \<not> repositoryPattern repository \<or> \<not> tagPattern tag
                  then Inl (Err ''image has invalid destination repository or tag'')
                  else Inr \<lparr>ri_FilePath = fullPath, ri_SourceRef = source, ri_Repository = repository,
                            ri_Tag = tag, ri_FoundTags = tags\<rparr>)"

fun resolve_loop ::
  "image_tools \<Rightarrow> fs \<Rightarrow> string \<Rightarrow> resolved_image list \<Rightarrow> image_spec list \<Rightarrow> resolved_image list result" where
  "resolve_loop tools fs root resolved [] = Inr resolved"
| "resolve_loop tools fs root resolved (spec # specs) =
     (case resolve_image tools fs root (map ri_FilePath resolved) spec of
        Inl e \<Rightarrow> Inl e
      | Inr img \<Rightarrow> resolve_loop tools fs root (resolved @ [img]) specs)"

definition ResolveImages ::
  "image_tools \<Rightarrow> fs \<Rightarrow> string \<Rightarrow> release \<Rightarrow> int \<Rightarrow> resolved_image list result" where
  "ResolveImages tools fs root release maxImages =
     (if maxImages \<le> 0 then Inl (Err ''max images must be positive'')
      else case (if rel_Images release = []
                 then (case discoverImageTars fs root maxImages of
                         Inl e \<Rightarrow> Inl e
                       | Inr names \<Rightarrow> Inr (map (\<lambda>n. \<lparr>spec_File = n, spec_Source = [], spec_Repository = [], spec_Tag = []\<rparr>) names))
                 else Inr (rel_Images release)) of
        Inl e \<Rightarrow> Inl e
      | Inr specs \<Rightarrow>
          if int (length specs) > maxImages then Inl (Err ''image count exceeds limit'')
          else resolve_loop tools fs root [] specs)"

subsection \<open>Patterns and references\<close>

lemma repo_match_chars: "repo_match b s \<Longrightarrow> c \<in> set s \<Longrightarrow> repo_char c \<or> repo_sep c \<or> c = slash"
  by (induction b s rule: repo_match.induct) (auto split: if_splits)

lemma repo_match_not_Nil: "repo_match True s \<Longrightarrow> s \<noteq> []"
  by (cases s) auto

lemma tagPattern_chars:
  "tagPattern s \<Longrightarrow> c \<in> set s \<Longrightarrow> alnum c \<or> c = CHR ''_'' \<or> c = CHR ''.'' \<or> c = CHR ''-''"
  by (cases s) (auto simp: tagPattern_def)

text \<open>The characters that structure a reference are in neither pattern.\<close>

definition ref_chars :: string where
  "ref_chars = CHR '':'' # ref_space"

lemma special_chars:
  "c \<in> set ref_chars \<Longrightarrow> \<not> repo_char c \<and> \<not> repo_sep c \<and> c \<noteq> slash \<and> \<not> alnum c"
proof -
  have "list_all (\<lambda>c. \<not> repo_char c \<and> \<not> repo_sep c \<and> c \<noteq> slash \<and> \<not> alnum c) ref_chars" by code_simp
  then show "c \<in> set ref_chars \<Longrightarrow> ?thesis" by (simp add: list_all_iff)
qed

lemma repositoryPattern_special: "repositoryPattern s \<Longrightarrow> c \<in> set ref_chars \<Longrightarrow> c \<notin> set s"
  using repo_match_chars [of True s c] special_chars [of c] by (auto simp: repositoryPattern_def)

lemma tagPattern_special: "tagPattern s \<Longrightarrow> c \<in> set ref_chars \<Longrightarrow> c \<notin> set s"
  using tagPattern_chars [of s c] special_chars [of c] by (auto simp: repo_sep_def)

lemma tagPattern_no_slash: "tagPattern s \<Longrightarrow> slash \<notin> set s"
proof -
  have "\<not> alnum slash" by code_simp
  then show "tagPattern s \<Longrightarrow> ?thesis" using tagPattern_chars [of s slash] by auto
qed

lemma tagPattern_not_Nil: "tagPattern s \<Longrightarrow> s \<noteq> []"
  by (auto simp: tagPattern_def)

lemma contains_any_take: "contains_any (take i s) cs \<Longrightarrow> contains_any s cs"
  unfolding contains_any_def by (meson in_set_takeD)

text \<open>Reference texts with a registry host in front, or none.\<close>

definition host_like :: "string \<Rightarrow> bool" where
  "host_like h \<longleftrightarrow> contains_sub h ''.'' \<or> contains_sub h '':'' \<or> h = ''localhost''"

definition ref_host :: "string \<Rightarrow> string \<Rightarrow> bool" where
  "ref_host pre repo \<longleftrightarrow>
     (\<exists>h. pre = h @ [slash] \<and> host_like h \<and> slash \<notin> set h \<and>
        \<not> contains_any h ref_space) \<or>
     pre = [] \<and> (slash \<in> set repo \<longrightarrow> \<not> host_like (takeWhile (\<lambda>c. c \<noteq> slash) repo))"

text \<open>What \<open>splitImageRef\<close> does with the part before the tag.\<close>

definition strip_host :: "string \<Rightarrow> string" where
  "strip_host r = (if slash \<in> set r \<and> host_like (takeWhile (\<lambda>c. c \<noteq> slash) r)
     then drop (Suc (length (takeWhile (\<lambda>c. c \<noteq> slash) r))) r else r)"

lemma splitImageRef_alt:
  assumes "ref = r @ CHR '':'' # tag" "CHR '':'' \<notin> set tag"
  shows "splitImageRef ref =
    (if contains_any ref ref_space
     then Inl (Err ''digest and whitespace references are not accepted as a tag source'')
     else if slash \<in> set tag \<or> tag = [] then Inl (Err ''image source must include a tag'')
     else if \<not> repositoryPattern (strip_host r) \<or> \<not> tagPattern tag
     then Inl (Err ''invalid image repository or tag'') else Inr (strip_host r, tag))"
proof -
  have colon: "last_index_byte ref (CHR '':'') = Some (length r)"
    using assms by (simp add: last_index_byte_append)
  have "(case last_index_byte ref slash of None \<Rightarrow> False | Some k \<Rightarrow> length r \<le> k) \<longleftrightarrow> slash \<in> set tag"
  proof (cases "last_index_byte ref slash")
    case None
    then have "slash \<notin> set tag" using assms(1) last_index_byte_None [of ref slash] by simp
    with None show ?thesis by simp
  next
    case (Some k)
    note split = last_index_byte_Some [OF Some]
    show ?thesis
    proof (cases "slash \<in> set tag")
      case True
      then obtain a b where "tag = a @ slash # b" "slash \<notin> set b" by (metis split_list_last)
      then have "k = length (r @ CHR '':'' # a)"
        using Some last_index_byte_append [of slash b "r @ CHR '':'' # a"] assms(1) by simp
      then show ?thesis using True Some by simp
    next
      case False
      have "\<not> length r \<le> k"
      proof
        assume "length r \<le> k"
        then have "ref ! k = (CHR '':'' # tag) ! (k - length r)" by (simp add: assms(1) nth_append)
        moreover have "(CHR '':'' # tag) ! (k - length r) \<in> set (CHR '':'' # tag)"
          using split(3) \<open>length r \<le> k\<close> by (intro nth_mem) (simp add: assms(1))
        ultimately have "ref ! k \<in> set (CHR '':'' # tag)" by simp
        moreover have "ref ! k = slash" using split(1,3) by (metis nth_append_length length_take min.absorb2 less_imp_le)
        ultimately show False using False by auto
      qed
      then show ?thesis using False Some by simp
    qed
  qed
  moreover have "length r = length ref - 1 \<longleftrightarrow> tag = []" using assms(1) by auto
  moreover have "(case index_byte r slash of None \<Rightarrow> r | Some k \<Rightarrow>
        let first = take k r in
        if contains_sub first ''.'' \<or> contains_sub first '':'' \<or> first = ''localhost'' then drop (k + 1) r else r) =
      strip_host r"
    by (simp add: index_byte_takeWhile strip_host_def host_like_def Let_def)
  ultimately show ?thesis
    using colon assms(1) by (simp add: splitImageRef_def Let_def)
qed

lemma strip_host_inverse:
  assumes "ref_host pre repo"
  shows "strip_host (pre @ repo) = repo"
  using assms by (auto simp: ref_host_def strip_host_def takeWhile_sep)

lemma strip_host_split:
  assumes "\<not> contains_any r ref_space"
  shows "\<exists>pre. r = pre @ strip_host r \<and> ref_host pre (strip_host r)"
proof (cases "slash \<in> set r \<and> host_like (takeWhile (\<lambda>c. c \<noteq> slash) r)")
  case True
  let ?h = "takeWhile (\<lambda>c. c \<noteq> slash) r"
  have "r = (?h @ [slash]) @ strip_host r"
    using True takeWhile_split [of slash r] by (simp add: strip_host_def)
  moreover have "ref_host (?h @ [slash]) (strip_host r)"
    using True assms set_takeWhileD [of _ "\<lambda>c. c \<noteq> slash" r]
    unfolding ref_host_def contains_any_def by fastforce
  ultimately show ?thesis by blast
next
  case False
  then show ?thesis by (intro exI [of _ "[]"]) (auto simp: strip_host_def ref_host_def)
qed

text \<open>
  \<open>splitImageRef\<close> accepts exactly the references
  \<open>[host/]repository:tag\<close> whose repository and tag match the patterns and whose host (a first
  component with a dot or colon, or \<open>localhost\<close>) is stripped, and returns exactly that repository and
  tag.
\<close>

theorem image_reference_split:
  "splitImageRef ref = Inr (repo, tag) \<longleftrightarrow>
     (\<exists>pre. ref = pre @ repo @ CHR '':'' # tag \<and> ref_host pre repo \<and> repositoryPattern repo \<and> tagPattern tag)"
proof
  assume ok: "splitImageRef ref = Inr (repo, tag)"
  then obtain i where i: "last_index_byte ref (CHR '':'') = Some i"
    by (cases "last_index_byte ref (CHR '':'')") (auto simp: splitImageRef_def split: if_splits)
  note s = last_index_byte_Some [OF i]
  let ?r = "take i ref" and ?t = "drop (Suc i) ref"
  note alt = splitImageRef_alt [OF s(1,2)]
  have none: "\<not> contains_any ref ref_space"
    and parts: "repo = strip_host ?r" "tag = ?t" "repositoryPattern repo" "tagPattern tag"
    using ok unfolding alt by (auto split: if_splits)
  have "\<not> contains_any ?r ref_space"
    using none contains_any_take by blast
  from strip_host_split [OF this] obtain pre where pre: "?r = pre @ repo" "ref_host pre repo"
    unfolding parts(1) by blast
  have "ref = ?r @ CHR '':'' # tag" unfolding parts(2) by (rule s(1))
  also have "\<dots> = pre @ repo @ CHR '':'' # tag" by (simp only: pre(1) append.assoc)
  finally show "\<exists>pre. ref = pre @ repo @ CHR '':'' # tag \<and> ref_host pre repo \<and> repositoryPattern repo \<and> tagPattern tag"
    using pre(2) parts(3,4) by blast
next
  assume "\<exists>pre. ref = pre @ repo @ CHR '':'' # tag \<and> ref_host pre repo \<and> repositoryPattern repo \<and> tagPattern tag"
  then obtain pre where p: "ref = (pre @ repo) @ CHR '':'' # tag" "ref_host pre repo" "repositoryPattern repo"
    "tagPattern tag" by auto
  have tag: "CHR '':'' \<notin> set tag" using tagPattern_special [OF p(4)] by (simp add: ref_chars_def)
  have "\<not> contains_any ref ref_space"
  proof -
    have "c \<notin> set repo \<and> c \<notin> set tag" if "c \<in> set ref_space" for c
      using that repositoryPattern_special [OF p(3)] tagPattern_special [OF p(4)]
      by (auto simp: ref_chars_def)
    moreover have "slash \<notin> set ref_space" by code_simp
    moreover have "c \<notin> set ref_space" if "c \<in> set pre" for c
      using that p(2) \<open>slash \<notin> set ref_space\<close> unfolding contains_any_def ref_host_def by auto
    moreover have "CHR '':'' \<notin> set ref_space" by code_simp
    ultimately show ?thesis unfolding contains_any_def p(1) by auto
  qed
  then show "splitImageRef ref = Inr (repo, tag)"
    using splitImageRef_alt [OF p(1) tag] strip_host_inverse [OF p(2)] p(3,4)
      tagPattern_not_Nil [OF p(4)] tagPattern_no_slash [OF p(4)] by simp
qed

subsection \<open>Resolved images\<close>

lemma unique_loop_props:
  assumes "distinct result" "[] \<notin> set result"
  shows "distinct (unique_loop result vs) \<and> set (unique_loop result vs) = set result \<union> (set vs - {[]})"
  using assms by (induction result vs rule: unique_loop.induct) auto

lemma uniqueStrings_props:
  "sorted (uniqueStrings vs)" "distinct (uniqueStrings vs)" "set (uniqueStrings vs) = set vs - {[]}"
  using unique_loop_props [of "[]" vs] by (simp_all add: uniqueStrings_def sort_strings_def)

lemma containsString_iff: "containsString vs t \<longleftrightarrow> t \<in> set vs"
  by (induction vs) auto

lemma safeFile_ok:
  assumes "safeFile fs root relative = Inr full"
  shows "full = path_join [path_abs root, path_clean relative]"
    "\<exists>info. os_lstat fs full = Inr info \<and> is_regular info"
    "\<exists>real. eval_symlinks fs full = Inr real \<and> ensureWithin (path_abs root) real = None"
  using assms by (auto simp: safeFile_def Let_def split: if_splits sum.splits option.splits)

definition image_ok :: "fs \<Rightarrow> string \<Rightarrow> resolved_image \<Rightarrow> bool" where
  "image_ok fs root r \<longleftrightarrow>
     repositoryPattern (ri_Repository r) \<and> tagPattern (ri_Tag r) \<and> ri_SourceRef r \<in> set (ri_FoundTags r) \<and>
     (\<exists>info. os_lstat fs (ri_FilePath r) = Inr info \<and> is_regular info) \<and>
     (\<exists>real. eval_symlinks fs (ri_FilePath r) = Inr real \<and> ensureWithin (path_abs root) real = None)"

lemma resolve_image_ok:
  assumes "resolve_image tools fs root seen spec = Inr r"
  shows "image_ok fs root r \<and> ri_FilePath r \<notin> set seen"
proof -
  obtain full where full: "safeFile fs root (spec_File spec) = Inr full"
    using assms by (cases "safeFile fs root (spec_File spec)") (auto simp: resolve_image_def)
  have "ri_FilePath r = full \<and> full \<notin> set seen \<and> repositoryPattern (ri_Repository r) \<and> tagPattern (ri_Tag r) \<and>
      ri_SourceRef r \<in> set (ri_FoundTags r)"
    using assms full
    by (auto simp: resolve_image_def Let_def containsString_iff split: if_splits sum.splits prod.splits)
  then show ?thesis using safeFile_ok(2,3) [OF full] by (simp add: image_ok_def)
qed

lemma resolve_loop_ok:
  assumes "resolve_loop tools fs root acc specs = Inr imgs" "distinct (map ri_FilePath acc)"
    "\<forall>r\<in>set acc. image_ok fs root r"
  shows "length imgs = length acc + length specs \<and> distinct (map ri_FilePath imgs) \<and>
    (\<forall>r\<in>set imgs. image_ok fs root r)"
  using assms
proof (induction tools fs root acc specs rule: resolve_loop.induct)
  case (2 tools fs root acc spec specs)
  obtain r where r: "resolve_image tools fs root (map ri_FilePath acc) spec = Inr r"
    using "2.prems"(1) by (cases "resolve_image tools fs root (map ri_FilePath acc) spec") auto
  from resolve_image_ok [OF r] have "distinct (map ri_FilePath (acc @ [r]))" "\<forall>x\<in>set (acc @ [r]). image_ok fs root x"
    using "2.prems"(2,3) by auto
  from "2.IH" [OF r _ this] "2.prems"(1) r show ?case by simp
qed simp

text \<open>
  When \<open>ResolveImages\<close> succeeds there are at most \<open>maxImages\<close> images,
  no image file appears twice, every image file is a regular file whose real path lies below the
  package root, its source reference is one of the references found in that archive, and its
  destination repository and tag match the patterns.
\<close>

theorem resolved_images_are_sound:
  assumes "ResolveImages tools fs root release maxImages = Inr imgs"
  shows "int (length imgs) \<le> maxImages \<and> distinct (map ri_FilePath imgs) \<and> (\<forall>r\<in>set imgs. image_ok fs root r)"
proof -
  obtain specs where specs: "\<not> int (length specs) > maxImages" "resolve_loop tools fs root [] specs = Inr imgs"
    using assms by (auto simp: ResolveImages_def split: if_splits sum.splits)
  from resolve_loop_ok [OF specs(2)] specs(1) show ?thesis by simp
qed

text \<open>A package with one image archive that holds one reference.\<close>

definition demo_package :: fs where
  "demo_package = [([], dir_inode), ([''pkg''], dir_inode), ([''pkg'', ''images''], dir_inode),
     ([''pkg'', ''images'', ''app.tar''], file_inode ''x'')]"

definition demo_tools :: image_tools where
  "demo_tools = \<lparr>it_docker = (\<lambda>_. Inr [[''hub.io/shop:1.0'']]), it_oci = (\<lambda>_. Inr []),
     it_untar = (\<lambda>_. [Entry \<lparr>hdr_Name = ''manifest.json'', hdr_Typeflag = TypeReg, hdr_Size = 2, hdr_Linkname = []\<rparr> ''[]''])\<rparr>"

theorem resolved_images_are_sound_witness:
  "\<exists>img. ResolveImages demo_tools demo_package ''/pkg''
      \<lparr>rel_Application = ''shop'', rel_Version = ''1'', rel_Images = []\<rparr> 5 = Inr [img] \<and>
     ri_Repository img = ''shop'' \<and> ri_Tag img = ''1.0'' \<and> image_ok demo_package ''/pkg'' img"
proof -
  let ?r = "ResolveImages demo_tools demo_package ''/pkg''
      \<lparr>rel_Application = ''shop'', rel_Version = ''1'', rel_Images = []\<rparr> 5"
  have "?r = Inr [\<lparr>ri_FilePath = ''/pkg/images/app.tar'', ri_SourceRef = ''hub.io/shop:1.0'',
      ri_Repository = ''shop'', ri_Tag = ''1.0'', ri_FoundTags = [''hub.io/shop:1.0'']\<rparr>]" by code_simp
  with resolved_images_are_sound [OF this] show ?thesis by simp
qed

end
