(* ===== verification/Logstream.thy ===== *)
theory Logstream
  imports Go_Strings
begin

text \<open>
  Package \<open>runner/internal/logstream\<close>: the byte budget shared by the output streams of a job and
  the writer that stores command output in numbered chunks. The database behind \<open>Sink.AppendLog\<close> is
  an argument of the definitions. A chunk size that is not positive makes the loop of
  \<open>appendChunks\<close> panic or run forever; then the model returns \<open>None\<close>.
\<close>

definition truncationNotice :: bytes where
  "truncationNotice = [CHR 0x0A] @ ''[releasedock: command output truncated by profile limit]'' @ [CHR 0x0A]"

subsection \<open>The budget\<close>

record budget =
  maximum :: int
  used :: int
  truncated :: bool

definition NewBudget :: "int \<Rightarrow> budget" where
  "NewBudget m = \<lparr>maximum = m, used = 0, truncated = False\<rparr>"

text \<open>\<open>reserve\<close> as one atomic action; the compare-and-swap loop below refines it.\<close>

definition reserve :: "budget \<Rightarrow> int \<Rightarrow> budget \<times> int" where
  "reserve b requested =
     (let remaining = maximum b - used b
      in if remaining \<le> 0 then (b, 0)
         else let allowed = (if requested > remaining then remaining else requested)
              in (b\<lparr>used := used b + allowed\<rparr>, allowed))"

text \<open>
  The loop itself, for any number of goroutines: a goroutine loads \<open>used\<close>, decides, and tries to
  swap; when another goroutine was faster it starts again.
\<close>

datatype reserve_pc = Enter int | Loaded int int | Granted int

record reserve_state =
  shared :: budget
  goroutines :: "nat \<Rightarrow> reserve_pc option"

inductive reserve_step :: "reserve_state \<Rightarrow> reserve_state \<Rightarrow> bool" where
  call: "goroutines s i = None \<Longrightarrow> 0 \<le> n \<Longrightarrow>
     reserve_step s (s\<lparr>goroutines := (goroutines s)(i \<mapsto> Enter n)\<rparr>)"
| load: "goroutines s i = Some (Enter n) \<Longrightarrow>
     reserve_step s (s\<lparr>goroutines := (goroutines s)(i \<mapsto> Loaded n (used (shared s)))\<rparr>)"
| exhausted: "goroutines s i = Some (Loaded n u) \<Longrightarrow> maximum (shared s) - u \<le> 0 \<Longrightarrow>
     reserve_step s (s\<lparr>goroutines := (goroutines s)(i \<mapsto> Granted 0)\<rparr>)"
| swapped: "goroutines s i = Some (Loaded n u) \<Longrightarrow> maximum (shared s) - u > 0 \<Longrightarrow>
     used (shared s) = u \<Longrightarrow> a = (if n > maximum (shared s) - u then maximum (shared s) - u else n) \<Longrightarrow>
     reserve_step s (s\<lparr>shared := (shared s)\<lparr>used := u + a\<rparr>, goroutines := (goroutines s)(i \<mapsto> Granted a)\<rparr>)"
| lost: "goroutines s i = Some (Loaded n u) \<Longrightarrow> maximum (shared s) - u > 0 \<Longrightarrow>
     used (shared s) \<noteq> u \<Longrightarrow>
     reserve_step s (s\<lparr>goroutines := (goroutines s)(i \<mapsto> Enter n)\<rparr>)"

inductive_cases reserve_stepE: "reserve_step s t"

inductive reserve_reachable :: "int \<Rightarrow> reserve_state \<Rightarrow> bool" for m where
  start: "reserve_reachable m \<lparr>shared = NewBudget m, goroutines = Map.empty\<rparr>"
| step: "reserve_reachable m s \<Longrightarrow> reserve_step s t \<Longrightarrow> reserve_reachable m t"

text \<open>What has been granted so far.\<close>

definition granted :: "reserve_state \<Rightarrow> nat \<Rightarrow> int" where
  "granted s i = (case goroutines s i of Some (Granted a) \<Rightarrow> a | _ \<Rightarrow> 0)"

definition active_set :: "reserve_state \<Rightarrow> nat set" where
  "active_set s = dom (goroutines s)"

subsection \<open>The writer\<close>

record writer =
  w_jobID :: string
  w_stepID :: int
  w_stream :: string
  w_chunkSize :: int
  w_sequence :: int
  w_err :: "error option"

definition NewWriter :: "string \<Rightarrow> int \<Rightarrow> string \<Rightarrow> int \<Rightarrow> writer" where
  "NewWriter jobID stepID stream chunkSize =
     \<lparr>w_jobID = jobID, w_stepID = stepID, w_stream = stream, w_chunkSize = chunkSize,
      w_sequence = 0, w_err = None\<rparr>"

type_synonym 's append_log = "'s \<Rightarrow> string \<Rightarrow> int \<Rightarrow> string \<Rightarrow> int \<Rightarrow> bytes \<Rightarrow> 's \<times> error option"

function appendChunks :: "'s append_log \<Rightarrow> 's \<Rightarrow> writer \<Rightarrow> bytes \<Rightarrow> ('s \<times> writer) option" where
  "appendChunks appendLog s w payload =
     (if payload = [] then Some (s, w)
      else if w_chunkSize w \<le> 0 then None
      else let n = min (nat (w_chunkSize w)) (length payload);
               seqno = w_sequence w + 1;
               (s', err) = appendLog s (w_jobID w) (w_stepID w) (w_stream w) seqno (take n payload);
               w' = w\<lparr>w_sequence := seqno,
                      w_err := (case err of None \<Rightarrow> w_err w | Some _ \<Rightarrow> errors_join [w_err w, err])\<rparr>
           in appendChunks appendLog s' w' (drop n payload))"
  by pat_completeness auto
termination
  by (relation "measure (\<lambda>(appendLog, s, w, payload). length payload)") auto

declare appendChunks.simps [simp del]

text \<open>\<open>Write\<close> always reports the whole payload as written and never fails.\<close>

definition writer_Write ::
  "'s append_log \<Rightarrow> budget \<Rightarrow> 's \<Rightarrow> writer \<Rightarrow> bytes \<Rightarrow> (budget \<times> 's \<times> writer \<times> int) option" where
  "writer_Write appendLog b s w payload =
     (let originalLength = int (length payload);
          (b1, allowed) = reserve b originalLength
      in case (if allowed > 0 then appendChunks appendLog s w (take (nat allowed) payload)
               else Some (s, w)) of
           None \<Rightarrow> None
         | Some (s1, w1) \<Rightarrow>
             if allowed < originalLength \<and> \<not> truncated b1
             then (case appendChunks appendLog s1 w1 truncationNotice of
                     None \<Rightarrow> None
                   | Some (s2, w2) \<Rightarrow> Some (b1\<lparr>truncated := True\<rparr>, s2, w2, originalLength))
             else Some (b1, s1, w1, originalLength))"

definition writer_Err :: "writer \<Rightarrow> error option" where
  "writer_Err w = w_err w"

subsection \<open>The budget is never exceeded\<close>

definition budget_ok :: "budget \<Rightarrow> bool" where
  "budget_ok b \<longleftrightarrow> 0 \<le> used b \<and> used b \<le> max 0 (maximum b)"

lemma budget_ok_New [simp]: "budget_ok (NewBudget m)"
  by (simp add: budget_ok_def NewBudget_def)

lemma reserve_props:
  assumes "reserve b n = (b', a)" "0 \<le> n" "budget_ok b"
  shows "0 \<le> a" "a \<le> n" "used b' = used b + a" "budget_ok b'" "maximum b' = maximum b"
    "truncated b' = truncated b" "a < n \<Longrightarrow> maximum b \<le> used b'"
  using assms by (auto simp: reserve_def budget_ok_def Let_def split: if_splits)

text \<open>A successful swap is the atomic \<open>reserve\<close> of the current budget; the other steps leave it.\<close>

lemma reserve_step_refines:
  assumes "reserve_step s t"
  shows "shared t = shared s \<or>
    (\<exists>i n a. 0 < maximum (shared s) - used (shared s) \<and> reserve (shared s) n = (shared t, a) \<and>
       goroutines t i = Some (Granted a))"
  using assms
proof (cases rule: reserve_step.cases)
  case (swapped i n u a)
  then have "reserve (shared s) n = (shared t, a)"
    by (simp add: reserve_def Let_def)
  moreover have "goroutines t i = Some (Granted a)" using swapped by simp
  moreover have "0 < maximum (shared s) - used (shared s)" using swapped by simp
  ultimately show ?thesis by blast
qed auto

text \<open>
  The inductive invariant: the grants add up to what is used, requests are not negative, the
  budget is kept, and only finitely many goroutines have called.
\<close>

definition reserve_inv :: "int \<Rightarrow> reserve_state \<Rightarrow> bool" where
  "reserve_inv m s \<longleftrightarrow>
     finite (active_set s) \<and> maximum (shared s) = m \<and> budget_ok (shared s) \<and>
     (\<Sum>i\<in>active_set s. granted s i) = used (shared s) \<and>
     (\<forall>i n u. goroutines s i = Some (Enter n) \<or> goroutines s i = Some (Loaded n u) \<longrightarrow> 0 \<le> n)"

lemma sum_granted_upd:
  assumes "finite (active_set s)" "granted s i = 0"
    and "goroutines t = (goroutines s)(i \<mapsto> pc)"
  shows "(\<Sum>j\<in>active_set t. granted t j) =
    (\<Sum>j\<in>active_set s. granted s j) + (case pc of Granted a \<Rightarrow> a | _ \<Rightarrow> 0)"
proof -
  have dom: "active_set t = insert i (active_set s)" using assms(3) by (simp add: active_set_def)
  have eq: "granted t j = granted s j" if "j \<noteq> i" for j using assms(3) that by (simp add: granted_def)
  have ti: "granted t i = (case pc of Granted a \<Rightarrow> a | _ \<Rightarrow> 0)" using assms(3) by (simp add: granted_def)
  have "(\<Sum>j\<in>active_set t. granted t j) = granted t i + (\<Sum>j\<in>active_set s - {i}. granted t j)"
    unfolding dom by (rule sum.insert_remove) (rule assms(1))
  also have "(\<Sum>j\<in>active_set s - {i}. granted t j) = (\<Sum>j\<in>active_set s - {i}. granted s j)"
    using eq by (intro sum.cong) auto
  also have "\<dots> = (\<Sum>j\<in>active_set s. granted s j)"
    using sum.insert_remove [of "active_set s" "granted s" i] assms(1,2)
    by (cases "i \<in> active_set s") (simp_all add: insert_absorb)
  finally show ?thesis using ti by simp
qed

lemma reserve_inv_step: "reserve_step s t \<Longrightarrow> reserve_inv m s \<Longrightarrow> reserve_inv m t"
proof (induction rule: reserve_step.induct)
  case (swapped s i n u a)
  have g0: "granted s i = 0" using swapped by (simp add: granted_def)
  have sum: "(\<Sum>j\<in>active_set s. granted s j) = u" using swapped by (simp add: reserve_inv_def)
  let ?t = "s\<lparr>shared := (shared s)\<lparr>used := u + a\<rparr>, goroutines := (goroutines s)(i \<mapsto> Granted a)\<rparr>"
  have "(\<Sum>j\<in>active_set ?t. granted ?t j) = u + a"
    using sum_granted_upd [of s i ?t "Granted a"] g0 swapped sum by (simp add: reserve_inv_def)
  moreover have "0 \<le> n" using swapped by (auto simp: reserve_inv_def)
  ultimately show ?case using swapped
    by (auto simp: reserve_inv_def active_set_def budget_ok_def)
next
  case (call s i n)
  have "granted s i = 0" using call by (simp add: granted_def)
  with call sum_granted_upd [of s i "s\<lparr>goroutines := (goroutines s)(i \<mapsto> Enter n)\<rparr>" "Enter n"]
  show ?case by (auto simp: reserve_inv_def active_set_def)
next
  case (load s i n)
  let ?pc = "Loaded n (used (shared s))"
  have "granted s i = 0" using load by (simp add: granted_def)
  with load sum_granted_upd [of s i "s\<lparr>goroutines := (goroutines s)(i \<mapsto> ?pc)\<rparr>" ?pc]
  show ?case by (auto simp: reserve_inv_def active_set_def)
next
  case (exhausted s i n u)
  have "granted s i = 0" using exhausted by (simp add: granted_def)
  with exhausted sum_granted_upd [of s i "s\<lparr>goroutines := (goroutines s)(i \<mapsto> Granted 0)\<rparr>" "Granted 0"]
  show ?case by (auto simp: reserve_inv_def active_set_def)
next
  case (lost s i n u)
  have "granted s i = 0" using lost by (simp add: granted_def)
  with lost sum_granted_upd [of s i "s\<lparr>goroutines := (goroutines s)(i \<mapsto> Enter n)\<rparr>" "Enter n"]
  show ?case by (auto simp: reserve_inv_def active_set_def)
qed

lemma reserve_inv_reachable: "reserve_reachable m s \<Longrightarrow> reserve_inv m s"
proof (induction rule: reserve_reachable.induct)
  case start
  show ?case
    by (simp add: reserve_inv_def active_set_def) (simp add: NewBudget_def)
next
  case (step s t)
  then show ?case by (blast intro: reserve_inv_step)
qed


text \<open>
  However the goroutines that share a job's log budget interleave in the
  lock-free loop of \<open>Budget.reserve\<close>, the bytes granted to them add up to exactly \<open>used\<close>, and
  never to more than the configured maximum.
\<close>

theorem budget_never_exceeded:
  assumes "reserve_reachable m s"
  shows "(\<Sum>i\<in>active_set s. granted s i) = used (shared s) \<and>
    0 \<le> used (shared s) \<and> used (shared s) \<le> max 0 m"
  using reserve_inv_reachable [OF assms] by (auto simp: reserve_inv_def budget_ok_def)

text \<open>Two goroutines race for a budget of 5 bytes: the second loses its swap and gets the rest.\<close>

lemma race_reachable:
  "\<exists>s. reserve_reachable 5 s \<and> goroutines s = [2 \<mapsto> Granted 3, 3 \<mapsto> Granted 2]"
proof -
  note twist = fun_upd_twist [of "2::nat" "3::nat"]
  let ?b = "\<lambda>u. \<lparr>maximum = 5, used = u, truncated = False\<rparr>"
  let ?s = "\<lambda>u g. \<lparr>shared = ?b u, goroutines = g\<rparr>"
  have "reserve_reachable 5 (?s 0 Map.empty)"
    using reserve_reachable.start [of 5] by (simp add: NewBudget_def)
  then have "reserve_reachable 5 (?s 0 [2 \<mapsto> Enter 3])"
    by (rule reserve_reachable.step) (use reserve_step.call [of "?s 0 Map.empty" 2 3] in simp)
  then have "reserve_reachable 5 (?s 0 [2 \<mapsto> Enter 3, 3 \<mapsto> Enter 4])"
    by (rule reserve_reachable.step) (use reserve_step.call [of "?s 0 [2 \<mapsto> Enter 3]" 3 4] in simp)
  then have "reserve_reachable 5 (?s 0 [2 \<mapsto> Loaded 3 0, 3 \<mapsto> Enter 4])"
    by (rule reserve_reachable.step)
      (use reserve_step.load [of "?s 0 [2 \<mapsto> Enter 3, 3 \<mapsto> Enter 4]" 2 3] in \<open>simp add: twist\<close>)
  then have "reserve_reachable 5 (?s 0 [2 \<mapsto> Loaded 3 0, 3 \<mapsto> Loaded 4 0])"
    by (rule reserve_reachable.step)
      (use reserve_step.load [of "?s 0 [2 \<mapsto> Loaded 3 0, 3 \<mapsto> Enter 4]" 3 4] in simp)
  then have "reserve_reachable 5 (?s 3 [2 \<mapsto> Granted 3, 3 \<mapsto> Loaded 4 0])"
    by (rule reserve_reachable.step)
      (use reserve_step.swapped [of "?s 0 [2 \<mapsto> Loaded 3 0, 3 \<mapsto> Loaded 4 0]" 2 3 0 3]
        in \<open>simp add: twist\<close>)
  then have "reserve_reachable 5 (?s 3 [2 \<mapsto> Granted 3, 3 \<mapsto> Enter 4])"
    by (rule reserve_reachable.step)
      (use reserve_step.lost [of "?s 3 [2 \<mapsto> Granted 3, 3 \<mapsto> Loaded 4 0]" 3 4 0] in simp)
  then have "reserve_reachable 5 (?s 3 [2 \<mapsto> Granted 3, 3 \<mapsto> Loaded 4 3])"
    by (rule reserve_reachable.step)
      (use reserve_step.load [of "?s 3 [2 \<mapsto> Granted 3, 3 \<mapsto> Enter 4]" 3 4] in simp)
  moreover let ?r = "?s 3 [2 \<mapsto> Granted 3, 3 \<mapsto> Loaded 4 3]"
  have "reserve_step ?r
      (?r\<lparr>shared := (shared ?r)\<lparr>used := 3 + 2\<rparr>, goroutines := (goroutines ?r)(3 \<mapsto> Granted 2)\<rparr>)"
    by (rule reserve_step.swapped [where n = 4]) (simp, simp, simp, subst if_P, simp_all)
  ultimately have "reserve_reachable 5 (?s 5 [2 \<mapsto> Granted 3, 3 \<mapsto> Granted 2])"
    using reserve_reachable.step by fastforce
  then show ?thesis by (intro exI [of _ "?s 5 [2 \<mapsto> Granted 3, 3 \<mapsto> Granted 2]"]) simp
qed

theorem budget_never_exceeded_witness:
  "\<exists>s. reserve_reachable 5 s \<and> granted s 2 = 3 \<and> granted s 3 = 2 \<and> used (shared s) = 5"
proof -
  obtain s where s: "reserve_reachable 5 s" "goroutines s = [2 \<mapsto> Granted 3, 3 \<mapsto> Granted 2]"
    using race_reachable by blast
  have "active_set s = {2, 3}" "granted s 2 = 3" "granted s 3 = 2"
    using s(2) by (auto simp: active_set_def granted_def)
  with budget_never_exceeded [OF s(1)] s(1) show ?thesis by auto
qed

subsection \<open>Chunks\<close>

text \<open>The reference: cut the payload into pieces of the chunk size and number them.\<close>

function chunks_of :: "nat \<Rightarrow> bytes \<Rightarrow> bytes list" where
  "chunks_of n p = (if p = [] \<or> n = 0 then [] else take n p # chunks_of n (drop n p))"
  by pat_completeness auto
termination
  by (relation "measure (\<lambda>(n, p). length p)") auto

declare chunks_of.simps [simp del]

lemma chunks_of_Nil [simp]: "chunks_of n [] = []"
  by (subst chunks_of.simps) simp

lemma concat_chunks_of: "0 < n \<Longrightarrow> concat (chunks_of n p) = p"
proof (induction n p rule: chunks_of.induct)
  case (1 n p)
  then show ?case by (subst chunks_of.simps) auto
qed

lemma chunks_of_bounds: "c \<in> set (chunks_of n p) \<Longrightarrow> 0 < length c \<and> length c \<le> n"
proof (induction n p rule: chunks_of.induct)
  case (1 n p)
  from 1(2) show ?case
    by (subst (asm) chunks_of.simps) (use 1(1) in \<open>auto split: if_splits\<close>)
qed

text \<open>One call of \<open>AppendLog\<close> for one numbered chunk.\<close>

definition append_chunk :: "'s append_log \<Rightarrow> bytes \<Rightarrow> 's \<times> writer \<Rightarrow> 's \<times> writer" where
  "append_chunk appendLog c sw =
     (let (s, w) = sw; (s', err) = appendLog s (w_jobID w) (w_stepID w) (w_stream w) (w_sequence w + 1) c
      in (s', w\<lparr>w_sequence := w_sequence w + 1,
              w_err := (case err of None \<Rightarrow> w_err w | Some _ \<Rightarrow> errors_join [w_err w, err])\<rparr>))"

lemma append_chunk_fields [simp]:
  "w_chunkSize (snd (append_chunk al c sw)) = w_chunkSize (snd sw)"
  "w_jobID (snd (append_chunk al c sw)) = w_jobID (snd sw)"
  "w_stepID (snd (append_chunk al c sw)) = w_stepID (snd sw)"
  "w_stream (snd (append_chunk al c sw)) = w_stream (snd sw)"
  "w_sequence (snd (append_chunk al c sw)) = w_sequence (snd sw) + 1"
  by (auto simp: append_chunk_def Let_def split: prod.splits)

lemma take_min_length: "take (min k (length p)) p = take k p"
  by (simp add: min_def)

lemma drop_min_length: "drop (min k (length p)) p = drop k p"
  by (simp add: min_def)

lemma appendChunks_fold:
  assumes "0 < w_chunkSize w"
  shows "appendChunks appendLog s w payload =
    Some (fold (append_chunk appendLog) (chunks_of (nat (w_chunkSize w)) payload) (s, w))"
  using assms
proof (induction appendLog s w payload rule: appendChunks.induct)
  case (1 al s w p)
  show ?case
  proof (cases "p = []")
    case True
    then show ?thesis by (subst appendChunks.simps) simp
  next
    case False
    let ?k = "nat (w_chunkSize w)"
    let ?sw = "append_chunk al (take ?k p) (s, w)"
    have "appendChunks al s w p = appendChunks al (fst ?sw) (snd ?sw) (drop ?k p)"
      using False 1(2) by (subst appendChunks.simps)
        (simp add: append_chunk_def Let_def take_min_length drop_min_length split: prod.splits)
    also have "\<dots> = Some (fold (append_chunk al) (chunks_of ?k (drop ?k p)) ?sw)"
    proof -
      obtain s' err where al: "al s (w_jobID w) (w_stepID w) (w_stream w) (w_sequence w + 1) (take ?k p) = (s', err)"
        by (cases "al s (w_jobID w) (w_stepID w) (w_stream w) (w_sequence w + 1) (take ?k p)")
      have sw: "?sw = (s', w\<lparr>w_sequence := w_sequence w + 1,
          w_err := (case err of None \<Rightarrow> w_err w | Some _ \<Rightarrow> errors_join [w_err w, err])\<rparr>)"
        using al by (simp add: append_chunk_def)
      show ?thesis
        using 1(1) [OF False _ refl refl al [folded take_min_length [of ?k p], symmetric] refl refl] 1(2) False sw
        by (simp add: drop_min_length)
    qed
    also have "\<dots> = Some (fold (append_chunk al) (chunks_of ?k p) (s, w))"
      using False 1(2) by (subst (2) chunks_of.simps) simp
    finally show ?thesis .
  qed
qed

subsection \<open>What the sink holds afterwards\<close>

text \<open>
  The contract the writer relies on: a call of \<open>AppendLog\<close> that succeeds appends exactly one row, one
  that fails appends none. The runner's store provides it.
\<close>

type_synonym log_row = "string \<times> int \<times> string \<times> int \<times> bytes"

definition row_payload :: "log_row \<Rightarrow> bytes" where
  "row_payload r = (case r of (_, _, _, _, p) \<Rightarrow> p)"

definition stored_bytes :: "log_row list \<Rightarrow> nat" where
  "stored_bytes rows = sum_list (map (length \<circ> row_payload) rows)"

lemma stored_bytes_append [simp]: "stored_bytes (xs @ ys) = stored_bytes xs + stored_bytes ys"
  by (simp add: stored_bytes_def)

text \<open>The rows a writer means to store for a list of chunks.\<close>

fun numbered_rows :: "writer \<Rightarrow> int \<Rightarrow> bytes list \<Rightarrow> log_row list" where
  "numbered_rows w q [] = []"
| "numbered_rows w q (c # cs) = (w_jobID w, w_stepID w, w_stream w, q + 1, c) # numbered_rows w (q + 1) cs"

lemma map_payload_numbered_rows [simp]: "map row_payload (numbered_rows w q cs) = cs"
  by (induction cs arbitrary: q) (simp_all add: row_payload_def)

lemma numbered_rows_sequence:
  "map (\<lambda>(_, _, _, q', _). q') (numbered_rows w q cs) = map (\<lambda>k. q + 1 + int k) [0..<length cs]"
proof (induction cs arbitrary: q)
  case (Cons c cs)
  have "[0..<length (c # cs)] = 0 # map Suc [0..<length cs]"
    by (simp add: upt_conv_Cons map_Suc_upt del: upt_Suc)
  with Cons show ?case by simp
qed simp

lemma numbered_rows_cong:
  assumes "w_jobID v = w_jobID w" "w_stepID v = w_stepID w" "w_stream v = w_stream w"
  shows "numbered_rows v q cs = numbered_rows w q cs"
  using assms by (induction cs arbitrary: q) simp_all

lemma stored_bytes_subseq: "subseq xs ys \<Longrightarrow> stored_bytes xs \<le> stored_bytes ys"
  by (induction rule: list_emb.induct) (auto simp: stored_bytes_def)

lemma stored_bytes_numbered_rows [simp]:
  "stored_bytes (numbered_rows w q cs) = length (concat cs)"
proof -
  have "stored_bytes (numbered_rows w q cs) = sum_list (map length (map row_payload (numbered_rows w q cs)))"
    unfolding stored_bytes_def by (simp only: map_map)
  then show ?thesis by (simp only: map_payload_numbered_rows length_concat)
qed

locale log_sink =
  fixes appendLog :: "'s append_log"
    and rows :: "'s \<Rightarrow> log_row list"
  assumes accepted: "appendLog s j st str q p = (s', None) \<Longrightarrow> rows s' = rows s @ [(j, st, str, q, p)]"
    and refused: "appendLog s j st str q p = (s', Some e) \<Longrightarrow> rows s' = rows s"
begin

lemma append_chunk_rows:
  "rows (fst (append_chunk appendLog c (s, w))) = rows s @
     (if w_err (snd (append_chunk appendLog c (s, w))) = w_err w \<and>
         snd (appendLog s (w_jobID w) (w_stepID w) (w_stream w) (w_sequence w + 1) c) = None
      then [(w_jobID w, w_stepID w, w_stream w, w_sequence w + 1, c)] else [])"
  by (cases "appendLog s (w_jobID w) (w_stepID w) (w_stream w) (w_sequence w + 1) c")
    (auto simp: append_chunk_def Let_def accepted refused split: option.splits)

lemma append_chunk_err_mono:
  "w_err (snd (append_chunk appendLog c sw)) = None \<Longrightarrow> w_err (snd sw) = None"
  by (cases sw) (auto simp: append_chunk_def Let_def errors_join_def List.map_filter_def
      split: prod.splits option.splits if_splits)

lemma fold_err_mono:
  "w_err (snd (fold (append_chunk appendLog) cs sw)) = None \<Longrightarrow> w_err (snd sw) = None"
proof (induction cs arbitrary: sw)
  case (Cons c cs)
  have "w_err (snd (append_chunk appendLog c sw)) = None" 
    using Cons.prems Cons.IH [of "append_chunk appendLog c sw"] by simp
  then show ?case by (rule append_chunk_err_mono)
qed simp

lemma append_chunk_ok:
  assumes "w_err (snd (append_chunk appendLog c (s, w))) = None"
  shows "rows (fst (append_chunk appendLog c (s, w))) =
    rows s @ [(w_jobID w, w_stepID w, w_stream w, w_sequence w + 1, c)]"
  using assms
  by (cases "appendLog s (w_jobID w) (w_stepID w) (w_stream w) (w_sequence w + 1) c")
    (auto simp: append_chunk_def Let_def accepted errors_join_def List.map_filter_def
      split: option.splits if_splits)

lemma fold_rows_ok:
  assumes "w_err (snd (fold (append_chunk appendLog) cs (s, w))) = None"
  shows "rows (fst (fold (append_chunk appendLog) cs (s, w))) =
    rows s @ numbered_rows w (w_sequence w) cs"
  using assms
proof (induction cs arbitrary: s w)
  case (Cons c cs)
  obtain s1 w1 where one: "append_chunk appendLog c (s, w) = (s1, w1)" by fastforce
  have err: "w_err (snd (fold (append_chunk appendLog) cs (s1, w1))) = None"
    using Cons.prems by (simp add: one)
  have err1: "w_err (snd (append_chunk appendLog c (s, w))) = None"
    using fold_err_mono [OF err] one by simp
  have fields: "w_jobID w1 = w_jobID w" "w_stepID w1 = w_stepID w" "w_stream w1 = w_stream w"
    "w_sequence w1 = w_sequence w + 1"
    using append_chunk_fields [of appendLog c "(s, w)"] one by simp_all
  show ?case
    using Cons.IH [OF err] append_chunk_ok [OF err1] one fields numbered_rows_cong [OF fields(1-3)]
    by simp
qed simp

lemma fold_rows_subseq:
  "\<exists>new. subseq new (numbered_rows w (w_sequence w) cs) \<and>
     rows (fst (fold (append_chunk appendLog) cs (s, w))) = rows s @ new"
proof (induction cs arbitrary: s w)
  case (Cons c cs)
  obtain s1 w1 where one: "append_chunk appendLog c (s, w) = (s1, w1)" by fastforce
  have fields: "w_jobID w1 = w_jobID w" "w_stepID w1 = w_stepID w" "w_stream w1 = w_stream w"
    "w_sequence w1 = w_sequence w + 1"
    using append_chunk_fields [of appendLog c "(s, w)"] one by simp_all
  obtain new where new: "subseq new (numbered_rows w1 (w_sequence w1) cs)"
    "rows (fst (fold (append_chunk appendLog) cs (s1, w1))) = rows s1 @ new"
    using Cons.IH by blast
  have sub: "subseq new (numbered_rows w (w_sequence w + 1) cs)"
    using new(1) fields(4) numbered_rows_cong [OF fields(1-3)] by simp
  let ?r = "(w_jobID w, w_stepID w, w_stream w, w_sequence w + 1, c)"
  have "rows s1 = rows s @ [?r] \<or> rows s1 = rows s"
    using append_chunk_rows [of c s w] one by (auto split: if_splits)
  then show ?case
  proof
    assume "rows s1 = rows s @ [?r]"
    then show ?thesis using new(2) sub one by (intro exI [of _ "?r # new"]) simp
  next
    assume "rows s1 = rows s"
    then show ?thesis using new(2) sub one by (intro exI [of _ new]) (simp add: list_emb_Cons)
  qed
qed simp

lemma appendChunks_stored:
  assumes "appendChunks appendLog s w payload = Some (s', w')" "0 < w_chunkSize w"
  shows "stored_bytes (rows s') \<le> stored_bytes (rows s) + length payload"
    and "w_chunkSize w' = w_chunkSize w"
    and "w_err w' = None \<Longrightarrow> w_err w = None"
    and "w_err w' = None \<Longrightarrow> rows s' =
       rows s @ numbered_rows w (w_sequence w) (chunks_of (nat (w_chunkSize w)) payload)"
proof -
  let ?cs = "chunks_of (nat (w_chunkSize w)) payload"
  have res: "fold (append_chunk appendLog) ?cs (s, w) = (s', w')"
    using assms appendChunks_fold [of w appendLog s payload] by simp
  obtain new where new: "subseq new (numbered_rows w (w_sequence w) ?cs)" "rows s' = rows s @ new"
    using fold_rows_subseq [of w ?cs s] res by auto
  show "stored_bytes (rows s') \<le> stored_bytes (rows s) + length payload"
    using new(2) stored_bytes_subseq [OF new(1)] assms(2) by (simp add: concat_chunks_of)
  have "w_chunkSize (snd (fold (append_chunk appendLog) cs sw)) = w_chunkSize (snd sw)" for cs sw
    by (induction cs arbitrary: sw) simp_all
  then show "w_chunkSize w' = w_chunkSize w" using res by (metis snd_conv)
  show "w_err w = None" if "w_err w' = None"
    using that fold_err_mono [of ?cs "(s, w)"] res by simp
  show "rows s' = rows s @ numbered_rows w (w_sequence w) ?cs" if "w_err w' = None"
    using that fold_rows_ok [of ?cs s w] res by simp
qed

text \<open>A write stores at most what it reserved, and the notice once.\<close>

lemma Write_stored:
  assumes "writer_Write appendLog b s w payload = Some (b', s', w', n)"
    and "0 < w_chunkSize w" "budget_ok b"
  shows "n = int (length payload)" "budget_ok b'" "maximum b' = maximum b"
    "w_chunkSize w' = w_chunkSize w" "truncated b \<Longrightarrow> truncated b'"
    "int (stored_bytes (rows s')) \<le> int (stored_bytes (rows s)) + (used b' - used b) +
       (if truncated b' \<and> \<not> truncated b then int (length truncationNotice) else 0)"
proof -
  obtain b1 a where r: "reserve b (int (length payload)) = (b1, a)" by fastforce
  note props = reserve_props [OF r _ assms(3)]
  obtain s1 w1 where c: "(if a > 0 then appendChunks appendLog s w (take (nat a) payload)
      else Some (s, w)) = Some (s1, w1)"
    using assms(1) r by (auto simp: writer_Write_def Let_def split: option.splits)
  have first: "stored_bytes (rows s1) \<le> stored_bytes (rows s) + nat a \<and> w_chunkSize w1 = w_chunkSize w"
  proof (cases "a > 0")
    case True
    then have "appendChunks appendLog s w (take (nat a) payload) = Some (s1, w1)" using c by simp
    from appendChunks_stored [OF this assms(2)] show ?thesis by auto
  next
    case False
    then show ?thesis using c by simp
  qed
  have a: "0 \<le> a" "a \<le> int (length payload)" "used b1 = used b + a" using props by simp_all
  show "n = int (length payload)" "budget_ok b'" "maximum b' = maximum b" "truncated b \<Longrightarrow> truncated b'"
    using assms(1) r c props
    by (auto simp: writer_Write_def Let_def budget_ok_def split: if_splits option.splits)
  show "w_chunkSize w' = w_chunkSize w"
    "int (stored_bytes (rows s')) \<le> int (stored_bytes (rows s)) + (used b' - used b) +
       (if truncated b' \<and> \<not> truncated b then int (length truncationNotice) else 0)"
  proof -
    consider (full) "b' = b1" "s' = s1" "w' = w1"
      | (cut) "b' = b1\<lparr>truncated := True\<rparr>" "\<not> truncated b1"
          "appendChunks appendLog s1 w1 truncationNotice = Some (s', w')"
      using assms(1) r c by (auto simp: writer_Write_def Let_def split: if_splits option.splits)
    then have "w_chunkSize w' = w_chunkSize w \<and>
      int (stored_bytes (rows s')) \<le> int (stored_bytes (rows s)) + (used b' - used b) +
       (if truncated b' \<and> \<not> truncated b then int (length truncationNotice) else 0)"
    proof cases
      case full
      then show ?thesis using first a by auto
    next
      case cut
      have "0 < w_chunkSize w1" using first assms(2) by simp
      from appendChunks_stored [OF cut(3) this] first a cut(1,2) props(6)
      show ?thesis by auto
    qed
    then show "w_chunkSize w' = w_chunkSize w"
      "int (stored_bytes (rows s')) \<le> int (stored_bytes (rows s)) + (used b' - used b) +
       (if truncated b' \<and> \<not> truncated b then int (length truncationNotice) else 0)" by auto
  qed
qed

text \<open>Under the limit, with a sink that accepts everything, nothing is lost.\<close>

lemma Write_complete:
  assumes "int (length payload) \<le> maximum b - used b" "0 < w_chunkSize w"
  shows "\<exists>b' s' w'. writer_Write appendLog b s w payload = Some (b', s', w', int (length payload)) \<and>
    truncated b' = truncated b \<and>
    (w_err w' = None \<longrightarrow> rows s' =
       rows s @ numbered_rows w (w_sequence w) (chunks_of (nat (w_chunkSize w)) payload))"
proof (cases "payload = []")
  case True
  then show ?thesis by (auto simp: writer_Write_def reserve_def Let_def)
next
  case False
  then have len: "0 < int (length payload)" by simp
  have r: "reserve b (int (length payload)) =
      (b\<lparr>used := used b + int (length payload)\<rparr>, int (length payload))"
  proof -
    have "\<not> maximum b - used b \<le> 0" "\<not> int (length payload) > maximum b - used b"
      using assms(1) len by linarith+
    then show ?thesis unfolding reserve_def Let_def by (simp only: if_False)
  qed
  obtain s' w' where sw: "appendChunks appendLog s w payload = Some (s', w')"
    using appendChunks_fold [OF assms(2)] by (metis surj_pair)
  have "writer_Write appendLog b s w payload =
      Some (b\<lparr>used := used b + int (length payload)\<rparr>, s', w', int (length payload))"
    using r sw len by (simp add: writer_Write_def Let_def)
  then show ?thesis using appendChunks_stored(4) [OF sw assms(2)] by simp
qed

end

end
