(* ===== verification/Redact.thy ===== *)
theory Redact
  imports Go_Strings Logstream
begin

text \<open>
  The exact-secret redactor of \<open>runner/internal/pipeline/redact.go\<close>, which keeps a target credential
  out of the stored command output even when it is cut into arbitrary pieces. The destination is an
  \<open>io.Writer\<close> given by its \<open>Write\<close> method on a state \<open>'d\<close>; a nil destination is \<open>None\<close>.
\<close>

definition targetCredentialRedaction :: bytes where
  "targetCredentialRedaction = ''[REDACTED TARGET CREDENTIAL]''"

record exactSecretRedactor =
  r_secret :: bytes
  r_pending :: bytes
  r_err :: "error option"

definition newExactSecretRedactor :: "bytes \<Rightarrow> exactSecretRedactor" where
  "newExactSecretRedactor secret = \<lparr>r_secret = secret, r_pending = [], r_err = None\<rparr>"

function writeRedacted_loop :: "'d io_write \<Rightarrow> 'd \<Rightarrow> bytes \<Rightarrow> 'd \<times> error option" where
  "writeRedacted_loop write d value =
     (if value = [] then (d, None)
      else let (d', written, err) = write d value
           in case err of
                Some e \<Rightarrow> (d', Some e)
              | None \<Rightarrow>
                  if written \<le> 0 \<or> written > int (length value) then (d', Some ErrShortWrite)
                  else writeRedacted_loop write d' (drop (nat written) value))"
  by pat_completeness auto
termination
  by (relation "measure (\<lambda>(write, d, value). length value)") auto

declare writeRedacted_loop.simps [simp del]

definition writeRedactedBytes :: "'d io_write option \<Rightarrow> 'd \<Rightarrow> bytes \<Rightarrow> 'd \<times> error option" where
  "writeRedactedBytes destination d value =
     (case destination of
        None \<Rightarrow> (d, None)
      | Some write \<Rightarrow> if value = [] then (d, None) else writeRedacted_loop write d value)"

lemma cursor_advances:
  "secret \<noteq> [] \<Longrightarrow> cursor < n \<Longrightarrow> n - (cursor + i + length secret) < n - cursor"
  by (cases secret) auto

text \<open>
  The search loop of \<open>drain\<close>, from \<open>cursor\<close> on; it returns the cursor where it stops. The caller has
  rejected an empty secret, for which the loop would not advance.
\<close>

function drain_loop ::
  "'d io_write option \<Rightarrow> bytes \<Rightarrow> bytes \<Rightarrow> bool \<Rightarrow> int \<Rightarrow> 'd \<Rightarrow> nat \<Rightarrow> 'd \<times> (error + nat)" where
  "drain_loop destination secret pending final limit d cursor =
     (if cursor < length pending \<and> secret \<noteq> [] then
        case index_of (drop cursor pending) secret of
          None \<Rightarrow> (d, Inr cursor)
        | Some relative \<Rightarrow>
            let index = cursor + relative
            in if \<not> final \<and> int index \<ge> limit then (d, Inr cursor)
               else case writeRedactedBytes destination d (take (index - cursor) (drop cursor pending)) of
                      (d1, Some e) \<Rightarrow> (d1, Inl e)
                    | (d1, None) \<Rightarrow>
                        case writeRedactedBytes destination d1 targetCredentialRedaction of
                          (d2, Some e) \<Rightarrow> (d2, Inl e)
                        | (d2, None) \<Rightarrow>
                            drain_loop destination secret pending final limit d2 (index + length secret)
      else (d, Inr cursor))"
  by pat_completeness auto
termination
  by (relation "measure (\<lambda>(destination, secret, pending, final, limit, d, cursor). length pending - cursor)")
    (auto intro: cursor_advances)

declare drain_loop.simps [simp del]

definition drain ::
  "'d io_write option \<Rightarrow> 'd \<Rightarrow> exactSecretRedactor \<Rightarrow> bool \<Rightarrow> 'd \<times> exactSecretRedactor \<times> error option" where
  "drain destination d w final =
     (let pending = r_pending w; secret = r_secret w in
      if pending = [] then (d, w, None)
      else if secret = [] then (d, w, Some (Err ''secret redactor requires a non-empty pattern''))
      else let limit = (if final then int (length pending) + 1
                        else int (length pending) - int (length secret) + 1)
           in if \<not> final \<and> limit \<le> 0 then (d, w, None)
              else case drain_loop destination secret pending final limit d 0 of
                     (d1, Inl e) \<Rightarrow> (d1, w, Some e)
                   | (d1, Inr cursor) \<Rightarrow>
                       let flushThrough = (if final then length pending
                                           else if cursor > nat limit then cursor else nat limit)
                       in case writeRedactedBytes destination d1
                                 (take (flushThrough - cursor) (drop cursor pending)) of
                            (d2, Some e) \<Rightarrow> (d2, w, Some e)
                          | (d2, None) \<Rightarrow> (d2, w\<lparr>r_pending := drop flushThrough pending\<rparr>, None))"

definition redactor_Write ::
  "'d io_write option \<Rightarrow> 'd \<Rightarrow> exactSecretRedactor \<Rightarrow> bytes \<Rightarrow> 'd \<times> exactSecretRedactor \<times> int \<times> error option" where
  "redactor_Write destination d w value =
     (case r_err w of
        Some e \<Rightarrow> (d, w, 0, Some e)
      | None \<Rightarrow>
          case drain destination d (w\<lparr>r_pending := r_pending w @ value\<rparr>) False of
            (d1, w1, Some e) \<Rightarrow> (d1, w1\<lparr>r_err := Some e\<rparr>, 0, Some e)
          | (d1, w1, None) \<Rightarrow> (d1, w1, int (length value), None))"

definition redactor_Flush ::
  "'d io_write option \<Rightarrow> 'd \<Rightarrow> exactSecretRedactor \<Rightarrow> 'd \<times> exactSecretRedactor \<times> error option" where
  "redactor_Flush destination d w =
     (let (d1, w1) = (case r_err w of
                        Some e \<Rightarrow> (d, w)
                      | None \<Rightarrow> let (d', w', e) = drain destination d w True in (d', w'\<lparr>r_err := e\<rparr>))
      in (d1, w1\<lparr>r_secret := [], r_pending := []\<rparr>, r_err w1))"

subsection \<open>The specification\<close>

text \<open>Replace the leftmost occurrences of the secret, from left to right, in the whole text at once.\<close>

function redact_all :: "bytes \<Rightarrow> bytes \<Rightarrow> bytes" where
  "redact_all secret s =
     (if secret = [] then s
      else case index_of s secret of
             None \<Rightarrow> s
           | Some i \<Rightarrow> take i s @ targetCredentialRedaction @ redact_all secret (drop (i + length secret) s))"
  by pat_completeness auto
termination
proof (relation "measure (\<lambda>(secret, s). length s)")
  fix secret s :: bytes and i
  assume "secret \<noteq> []" "index_of s secret = Some i"
  then have "0 < length secret" "i + length secret \<le> length s"
    by (simp_all add: index_of_Some_bound)
  then have "length s - (i + length secret) < length s" by linarith
  then show "((secret, drop (i + length secret) s), secret, s) \<in> measure (\<lambda>(secret, s). length s)"
    by simp
qed simp

declare redact_all.simps [simp del]

lemma redact_all_None: "index_of s secret = None \<Longrightarrow> redact_all secret s = s"
  by (subst redact_all.simps) simp

lemma redact_all_Some:
  "secret \<noteq> [] \<Longrightarrow> index_of s secret = Some i \<Longrightarrow>
   redact_all secret s = take i s @ targetCredentialRedaction @ redact_all secret (drop (i + length secret) s)"
  by (subst redact_all.simps) simp

lemma redact_all_Nil [simp]: "redact_all secret [] = []"
  by (subst redact_all.simps) simp

text \<open>The leftmost occurrence does not move when the text grows on the right.\<close>

lemma index_of_extend: "index_of p secret = Some i \<Longrightarrow> index_of (p @ rest) secret = Some i"
proof -
  assume i: "index_of p secret = Some i"
  have len: "length (take i p) = i" using index_of_Some_bound [OF i] by simp
  have "index_of (p @ rest) secret = Some (length (take i p))"
  proof (rule index_of_eqI)
    show "p @ rest = take i p @ secret @ (drop (i + length secret) p @ rest)"
      using index_of_Some_split [OF i] by (metis append.assoc)
  next
    fix a b assume ab: "p @ rest = a @ secret @ b"
    show "length (take i p) \<le> length a"
    proof (rule ccontr)
      assume "\<not> length (take i p) \<le> length a"
      then have "length (a @ secret) \<le> length p"
        using len index_of_Some_bound [OF i] by simp
      then have "take (length (a @ secret)) p = a @ secret"
        using ab by (metis append.assoc append_eq_conv_conj take_append take_all_iff diff_is_0_eq
            take0 append_Nil2)
      then have "p = a @ secret @ drop (length (a @ secret)) p"
        by (metis append.assoc append_take_drop_id)
      then have "i \<le> length a" by (rule index_of_leftmost [OF i])
      with \<open>\<not> length (take i p) \<le> length a\<close> len show False by simp
    qed
  qed
  then show ?thesis using len by simp
qed

text \<open>A prefix in which the secret cannot begin passes through unchanged.\<close>

lemma index_of_drop:
  assumes "index_of s secret = Some i" "k \<le> i"
  shows "index_of (drop k s) secret = Some (i - k)"
proof -
  have bound: "i + length secret \<le> length s" by (rule index_of_Some_bound [OF assms(1)])
  have "index_of (drop k s) secret = Some (length (take (i - k) (drop k s)))"
  proof (rule index_of_eqI)
    have "drop k s = drop k (take i s @ secret @ drop (i + length secret) s)"
      using index_of_Some_split [OF assms(1)] by simp
    also have "\<dots> = take (i - k) (drop k s) @ secret @ drop (i + length secret) s"
      using assms(2) bound by (simp add: drop_take)
    finally show "drop k s = take (i - k) (drop k s) @ secret @ drop (i + length secret) s" .
  next
    fix a b assume "drop k s = a @ secret @ b"
    then have "s = (take k s @ a) @ secret @ b" by (metis append.assoc append_take_drop_id)
    from index_of_leftmost [OF assms(1) this] show "length (take (i - k) (drop k s)) \<le> length a"
      using bound assms(2) by simp
  qed
  then show ?thesis using bound by simp
qed

text \<open>An occurrence that ends inside the first part is an occurrence in it.\<close>

lemma index_of_within:
  assumes "index_of (y @ rest) secret = Some i" "i + length secret \<le> length y"
  shows "index_of y secret \<noteq> None"
proof -
  let ?a = "take i (y @ rest)" and ?b = "drop (i + length secret) (y @ rest)"
  have "take (i + length secret) (y @ rest) = take (i + length secret) (?a @ secret @ ?b)"
    by (rule arg_cong [OF index_of_Some_split [OF assms(1)]])
  also have "\<dots> = ?a @ secret" using assms(2) by simp
  finally have "take (i + length secret) y = ?a @ secret" using assms(2) by simp
  then have "y = ?a @ secret @ drop (i + length secret) y" by (metis append.assoc append_take_drop_id)
  then show ?thesis unfolding index_of_None_iff by blast
qed

lemma redact_all_skip:
  assumes "k \<le> length s" "\<And>i. index_of s secret = Some i \<Longrightarrow> k \<le> i"
  shows "redact_all secret s = take k s @ redact_all secret (drop k s)"
proof (cases "index_of s secret")
  case None
  then have "index_of (drop k s) secret = None"
    unfolding index_of_None_iff by (metis append.assoc append_take_drop_id)
  with None show ?thesis by (simp add: redact_all_None)
next
  case (Some i)
  show ?thesis
  proof (cases "secret = []")
    case True
    then show ?thesis by (simp add: redact_all.simps [of "[]"])
  next
    case False
    have k: "k \<le> i" using assms(2) Some .
    have "take i s = take k s @ take (i - k) (drop k s)"
      using k by (metis append_take_drop_id le_add_diff_inverse take_add)
    with False Some index_of_drop [OF Some k] k show ?thesis
      by (simp add: redact_all_Some)
  qed
qed

subsection \<open>Streaming\<close>

text \<open>What a list of writes leaves at a destination.\<close>

definition puts :: "'d io_write \<Rightarrow> bytes list \<Rightarrow> 'd \<Rightarrow> 'd" where
  "puts write vs d = fold (\<lambda>v d. fst (write d v)) vs d"

lemma puts_simps [simp]: "puts write [] d = d" "puts write (v # vs) d = puts write vs (fst (write d v))"
  "puts write (vs @ us) d = puts write us (puts write vs d)"
  by (simp_all add: puts_def)

fun redactor_Writes ::
  "'d io_write option \<Rightarrow> 'd \<Rightarrow> exactSecretRedactor \<Rightarrow> bytes list \<Rightarrow>
   'd \<times> exactSecretRedactor \<times> (int \<times> error option) list" where
  "redactor_Writes destination d w [] = (d, w, [])"
| "redactor_Writes destination d w (c # cs) =
     (let (d1, w1, n, e) = redactor_Write destination d w c;
          (d2, w2, rs) = redactor_Writes destination d1 w1 cs
      in (d2, w2, (n, e) # rs))"

text \<open>
  The contract of the destination: in the states it can be in, \<open>Write\<close> takes everything it is given
  and does not fail.
\<close>

locale full_writer =
  fixes put :: "'d io_write"
    and valid :: "'d \<Rightarrow> bool"
  assumes full: "valid d \<Longrightarrow> \<exists>d'. put d v = (d', int (length v), None) \<and> valid d'"
begin

lemma valid_put: "valid d \<Longrightarrow> valid (fst (put d v))"
  using full [of d v] by auto

lemma valid_puts: "valid d \<Longrightarrow> valid (puts put vs d)"
  by (induction vs arbitrary: d) (simp_all add: valid_put)

lemma writeRedactedBytes_full:
  assumes "valid d"
  shows "writeRedactedBytes (Some put) d v = (puts put (if v = [] then [] else [v]) d, None)"
proof (cases "v = []")
  case False
  obtain d' where "put d v = (d', int (length v), None)" using full [OF assms] by blast
  with False show ?thesis
    by (simp add: writeRedactedBytes_def writeRedacted_loop.simps [of _ _ v] writeRedacted_loop.simps [of _ _ "[]"])
qed (simp add: writeRedactedBytes_def)

lemma concat_single [simp]: "concat (if v = [] then [] else [v]) = v"
  by simp

lemma drain_loop_full:
  assumes "valid d" "secret \<noteq> []" "cursor \<le> length p"
    and "final \<or> limit = int (length p) - int (length secret) + 1"
  shows "\<exists>pieces cursor'.
    drain_loop (Some put) secret p final limit d cursor = (puts put pieces d, Inr cursor') \<and>
    cursor' \<le> length p \<and> index_of (drop cursor' p) secret = None \<and>
    (\<forall>rest. redact_all secret (drop cursor p @ rest) =
       concat pieces @ redact_all secret (drop cursor' p @ rest))"
  using assms
proof (induction "length p - cursor" arbitrary: d cursor rule: less_induct)
  case less
  show ?case
  proof (cases "index_of (drop cursor p) secret")
    case None
    then have "drain_loop (Some put) secret p final limit d cursor = (puts put [] d, Inr cursor)"
      by (subst drain_loop.simps) simp
    with None less.prems(3) show ?thesis by (intro exI [of _ "[]"] exI [of _ cursor]) simp
  next
    case (Some i)
    let ?v = "take i (drop cursor p)" and ?m = targetCredentialRedaction
    let ?next = "cursor + i + length secret"
    let ?d = "puts put ((if ?v = [] then [] else [?v]) @ [?m]) d"
    have bound: "?next \<le> length p"
      using index_of_Some_bound [OF Some] less.prems(3) by simp
    have cur: "cursor < length p" using bound less.prems(2) by (cases secret) auto
    have lim: "\<not> (\<not> final \<and> int (cursor + i) \<ge> limit)"
      using less.prems(4) bound by auto
    have "drain_loop (Some put) secret p final limit d cursor =
        drain_loop (Some put) secret p final limit ?d ?next"
      using Some cur lim less.prems(1,2)
      by (subst drain_loop.simps)
        (auto simp: Let_def writeRedactedBytes_full valid_puts valid_put targetCredentialRedaction_def)
    moreover have "valid ?d" using less.prems(1) by (rule valid_puts)
    moreover have "length p - ?next < length p - cursor"
      using cur less.prems(2) by (rule cursor_advances [rotated])
    ultimately obtain pieces c' where ih:
      "drain_loop (Some put) secret p final limit d cursor = (puts put pieces ?d, Inr c')"
      "c' \<le> length p" "index_of (drop c' p) secret = None"
      "\<And>rest. redact_all secret (drop ?next p @ rest) = concat pieces @ redact_all secret (drop c' p @ rest)"
      using less.hyps [of ?next ?d] less.prems bound by auto
    have red: "redact_all secret (drop cursor p @ rest) =
        ?v @ ?m @ redact_all secret (drop ?next p @ rest)" for rest
    proof -
      have b: "i + length secret \<le> length (drop cursor p)" by (rule index_of_Some_bound [OF Some])
      have "redact_all secret (drop cursor p @ rest) = take i (drop cursor p @ rest) @ ?m @
          redact_all secret (drop (i + length secret) (drop cursor p @ rest))"
        by (rule redact_all_Some [OF less.prems(2) index_of_extend [OF Some]])
      also have "take i (drop cursor p @ rest) = ?v" using b by simp
      also have "drop (i + length secret) (drop cursor p @ rest) = drop ?next p @ rest"
        using b by (simp add: add.commute add.left_commute)
      finally show ?thesis .
    qed
    show ?thesis
      using ih red by (intro exI [of _ "(if ?v = [] then [] else [?v]) @ [?m] @ pieces"] exI [of _ c'])
        (simp add: targetCredentialRedaction_def)
  qed
qed

text \<open>One \<open>drain\<close>: what it writes and keeps back is as good as the pending bytes.\<close>

lemma drain_full:
  assumes "valid d" "r_secret w \<noteq> []"
  shows "\<exists>pieces p'. drain (Some put) d w final = (puts put pieces d, w\<lparr>r_pending := p'\<rparr>, None) \<and>
    (final \<longrightarrow> p' = []) \<and>
    (\<forall>rest. (final \<longrightarrow> rest = []) \<longrightarrow>
       redact_all (r_secret w) (r_pending w @ rest) = concat pieces @ redact_all (r_secret w) (p' @ rest))"
proof -
  let ?p = "r_pending w" and ?s = "r_secret w"
  let ?limit = "if final then int (length ?p) + 1 else int (length ?p) - int (length ?s) + 1"
  show ?thesis
  proof (cases "?p = [] \<or> (\<not> final \<and> ?limit \<le> 0)")
    case True
    then have "drain (Some put) d w final = (puts put [] d, w\<lparr>r_pending := ?p\<rparr>, None)"
      using assms(2) by (auto simp: drain_def Let_def)
    with True show ?thesis by (intro exI [of _ "[]"] exI [of _ ?p]) auto
  next
    case False
    have lim: "final \<or> ?limit = int (length ?p) - int (length ?s) + 1" by simp
    obtain pieces c where dl:
      "drain_loop (Some put) ?s ?p final ?limit d 0 = (puts put pieces d, Inr c)"
      "c \<le> length ?p" "index_of (drop c ?p) ?s = None"
      "\<And>rest. redact_all ?s (?p @ rest) = concat pieces @ redact_all ?s (drop c ?p @ rest)"
      using drain_loop_full [OF assms le0 lim] unfolding drop_0 by blast
    let ?f = "if final then length ?p else if c > nat ?limit then c else nat ?limit"
    let ?v = "take (?f - c) (drop c ?p)"
    have f: "c \<le> ?f" "?f \<le> length ?p"
      using dl(2) False assms(2) by (cases "r_secret w"; auto)+
    have tail: "redact_all ?s (drop c ?p @ rest) = ?v @ redact_all ?s (drop ?f ?p @ rest)"
      if "final \<longrightarrow> rest = []" for rest
    proof -
      let ?x = "drop c ?p @ rest"
      have k: "?f - c \<le> i" if i: "index_of ?x ?s = Some i" for i
      proof (rule ccontr)
        assume "\<not> ?f - c \<le> i"
        then have "i + length ?s \<le> length (drop c ?p)"
          using False f dl(2) \<open>final \<longrightarrow> rest = []\<close> index_of_Some_bound [OF i]
          by (auto split: if_splits)
        from index_of_within [OF i this] dl(3) show False by simp
      qed
      have "redact_all ?s ?x = take (?f - c) ?x @ redact_all ?s (drop (?f - c) ?x)"
        using f k by (intro redact_all_skip) auto
      then show ?thesis using f by simp
    qed
    have "drain (Some put) d w final =
        (puts put (pieces @ (if ?v = [] then [] else [?v])) d, w\<lparr>r_pending := drop ?f ?p\<rparr>, None)"
      using False assms dl(1) by (auto simp: drain_def Let_def writeRedactedBytes_full valid_puts)
    then show ?thesis using dl(4) tail
      by (intro exI [of _ "pieces @ (if ?v = [] then [] else [?v])"] exI [of _ "drop ?f ?p"]) auto
  qed
qed

lemma Write_full:
  assumes "valid d" "r_secret w \<noteq> []" "r_err w = None"
  shows "\<exists>pieces p'. redactor_Write (Some put) d w v =
      (puts put pieces d, w\<lparr>r_pending := p'\<rparr>, int (length v), None) \<and>
    (\<forall>rest. redact_all (r_secret w) (r_pending w @ v @ rest) =
       concat pieces @ redact_all (r_secret w) (p' @ rest))"
proof -
  obtain pieces p' where "drain (Some put) d (w\<lparr>r_pending := r_pending w @ v\<rparr>) False =
      (puts put pieces d, w\<lparr>r_pending := p'\<rparr>, None)"
    "\<And>rest. redact_all (r_secret w) ((r_pending w @ v) @ rest) =
       concat pieces @ redact_all (r_secret w) (p' @ rest)"
    using drain_full [OF assms(1), of "w\<lparr>r_pending := r_pending w @ v\<rparr>" False] assms(2) by auto
  then show ?thesis
    using assms(3) by (intro exI [of _ pieces] exI [of _ p']) (simp add: redactor_Write_def)
qed

lemma Writes_full:
  assumes "valid d" "r_secret w \<noteq> []" "r_err w = None"
  shows "\<exists>pieces p'. redactor_Writes (Some put) d w cs =
      (puts put pieces d, w\<lparr>r_pending := p'\<rparr>, map (\<lambda>c. (int (length c), None)) cs) \<and>
    (\<forall>rest. redact_all (r_secret w) (r_pending w @ concat cs @ rest) =
       concat pieces @ redact_all (r_secret w) (p' @ rest))"
  using assms
proof (induction cs arbitrary: d w)
  case Nil
  show ?case by (intro exI [of _ "[]"] exI [of _ "r_pending w"]) simp
next
  case (Cons c cs)
  obtain ps1 p1 where one: "redactor_Write (Some put) d w c =
      (puts put ps1 d, w\<lparr>r_pending := p1\<rparr>, int (length c), None)"
    "\<And>rest. redact_all (r_secret w) (r_pending w @ c @ rest) =
       concat ps1 @ redact_all (r_secret w) (p1 @ rest)"
    using Write_full [OF Cons.prems] by blast
  obtain ps2 p2 where two: "redactor_Writes (Some put) (puts put ps1 d) (w\<lparr>r_pending := p1\<rparr>) cs =
      (puts put ps2 (puts put ps1 d), w\<lparr>r_pending := p2\<rparr>, map (\<lambda>c. (int (length c), None)) cs)"
    "\<And>rest. redact_all (r_secret w) (p1 @ concat cs @ rest) =
       concat ps2 @ redact_all (r_secret w) (p2 @ rest)"
    using Cons.IH [of "puts put ps1 d" "w\<lparr>r_pending := p1\<rparr>"] Cons.prems valid_puts by auto
  show ?case
    using one two by (intro exI [of _ "ps1 @ ps2"] exI [of _ p2]) simp
qed

lemma Flush_full:
  assumes "valid d" "r_secret w \<noteq> []" "r_err w = None"
  shows "\<exists>pieces w'. redactor_Flush (Some put) d w = (puts put pieces d, w', None) \<and>
    r_secret w' = [] \<and> r_pending w' = [] \<and> concat pieces = redact_all (r_secret w) (r_pending w)"
proof -
  obtain pieces where "drain (Some put) d w True = (puts put pieces d, w\<lparr>r_pending := []\<rparr>, None)"
    "redact_all (r_secret w) (r_pending w) = concat pieces"
    using drain_full [OF assms(1,2), of True] by fastforce
  then show ?thesis using assms(3)
    by (intro exI [of _ pieces] exI [of _ "w\<lparr>r_secret := [], r_pending := []\<rparr>"])
      (simp add: redactor_Flush_def)
qed

theorem streaming:
  assumes "valid d" "secret \<noteq> []"
  shows "\<exists>d1 w1 pieces w2.
    redactor_Writes (Some put) d (newExactSecretRedactor secret) chunks =
      (d1, w1, map (\<lambda>c. (int (length c), None)) chunks) \<and>
    redactor_Flush (Some put) d1 w1 = (puts put pieces d, w2, None) \<and>
    r_secret w2 = [] \<and> r_pending w2 = [] \<and>
    concat pieces = redact_all secret (concat chunks)"
proof -
  let ?w = "newExactSecretRedactor secret"
  have new: "r_secret ?w = secret" "r_err ?w = None" "r_pending ?w = []"
    by (simp_all add: newExactSecretRedactor_def)
  obtain ps p' where wr: "redactor_Writes (Some put) d ?w chunks =
      (puts put ps d, ?w\<lparr>r_pending := p'\<rparr>, map (\<lambda>c. (int (length c), None)) chunks)"
    "\<And>rest. redact_all secret (concat chunks @ rest) = concat ps @ redact_all secret (p' @ rest)"
    using Writes_full [OF assms(1), of ?w chunks] assms(2) new by auto
  obtain qs w2 where fl: "redactor_Flush (Some put) (puts put ps d) (?w\<lparr>r_pending := p'\<rparr>) =
      (puts put qs (puts put ps d), w2, None)"
    "r_secret w2 = []" "r_pending w2 = []" "concat qs = redact_all secret p'"
    using Flush_full [OF valid_puts [OF assms(1)], of "?w\<lparr>r_pending := p'\<rparr>" ps] assms(2) new by auto
  show ?thesis
    using wr fl wr(2) [of "[]"]
    by (intro exI [of _ "puts put ps d"] exI [of _ "?w\<lparr>r_pending := p'\<rparr>"] exI [of _ "ps @ qs"]
        exI [of _ w2]) simp
qed

end

subsection \<open>The log writer as a destination\<close>

text \<open>
  The log writer takes everything as long as its chunk size is positive, which the runner settings
  guarantee. (With another chunk size its loop does not return; \<open>valid_log_stream\<close> excludes it.)
\<close>

type_synonym 's log_stream = "budget \<times> 's \<times> writer"

definition log_stream_write :: "'s append_log \<Rightarrow> 's log_stream io_write" where
  "log_stream_write appendLog d payload =
     (case d of (b, s, w) \<Rightarrow>
        case writer_Write appendLog b s w payload of
          Some (b', s', w', n) \<Rightarrow> ((b', s', w'), n, None)
        | None \<Rightarrow> (d, 0, Some (Err ''the log writer does not return'')))"

definition valid_log_stream :: "'s log_stream \<Rightarrow> bool" where
  "valid_log_stream d = (case d of (b, s, w) \<Rightarrow> 0 < w_chunkSize w)"

lemma appendChunks_chunkSize:
  assumes "appendChunks appendLog s w payload = Some (s', w')" "0 < w_chunkSize w"
  shows "w_chunkSize w' = w_chunkSize w"
proof -
  have "w_chunkSize (snd (fold (append_chunk appendLog) cs sw)) = w_chunkSize (snd sw)" for cs sw
    by (induction cs arbitrary: sw) simp_all
  then show ?thesis using assms appendChunks_fold [OF assms(2)] by (metis option.inject snd_conv)
qed

lemma writer_Write_total:
  assumes "0 < w_chunkSize w"
  shows "\<exists>b' s' w'. writer_Write appendLog b s w payload = Some (b', s', w', int (length payload)) \<and>
    w_chunkSize w' = w_chunkSize w"
proof -
  obtain b1 a where r: "reserve b (int (length payload)) = (b1, a)" by fastforce
  obtain s1 w1 where c: "(if a > 0 then appendChunks appendLog s w (take (nat a) payload)
      else Some (s, w)) = Some (s1, w1)" "w_chunkSize w1 = w_chunkSize w"
    using appendChunks_fold [OF assms] appendChunks_chunkSize [OF _ assms] by (metis surj_pair)
  obtain s2 w2 where n: "appendChunks appendLog s1 w1 truncationNotice = Some (s2, w2)"
    "w_chunkSize w2 = w_chunkSize w"
    using appendChunks_fold [of w1] appendChunks_chunkSize [of _ _ w1] assms c(2) by (metis surj_pair)
  show ?thesis using r c n by (auto simp: writer_Write_def Let_def)
qed

interpretation log_writer: full_writer "log_stream_write appendLog" valid_log_stream
  for appendLog :: "'s append_log"
proof
  fix d :: "'s log_stream" and v :: bytes
  obtain b s w where d: "d = (b, s, w)" by (cases d)
  assume "valid_log_stream d"
  then have "0 < w_chunkSize w" by (simp add: d valid_log_stream_def)
  from writer_Write_total [OF this, of appendLog b s v]
  show "\<exists>d'. log_stream_write appendLog d v = (d', int (length v), None) \<and> valid_log_stream d'"
    using \<open>0 < w_chunkSize w\<close> by (auto simp: d log_stream_write_def valid_log_stream_def)
qed

text \<open>
  C11 (redaction_streaming): however a command's output is cut into chunks, writing it through the
  redactor to the log writer and flushing stores exactly what redacting the whole output at once would
  give; every \<open>Write\<close> reports its full length, no call fails, and the secret is wiped at the end.
\<close>

theorem redaction_streaming:
  assumes "valid_log_stream d" "secret \<noteq> []"
  shows "\<exists>d1 w1 pieces w2.
    redactor_Writes (Some (log_stream_write appendLog)) d (newExactSecretRedactor secret) chunks =
      (d1, w1, map (\<lambda>c. (int (length c), None)) chunks) \<and>
    redactor_Flush (Some (log_stream_write appendLog)) d1 w1 =
      (puts (log_stream_write appendLog) pieces d, w2, None) \<and>
    r_secret w2 = [] \<and> r_pending w2 = [] \<and>
    concat pieces = redact_all secret (concat chunks)"
  by (rule log_writer.streaming [OF assms])

text \<open>A credential cut in two by the chunking, with a sink that keeps the rows it is given.\<close>

theorem redaction_streaming_witness:
  "\<exists>d1 w1 pieces w2.
    redactor_Writes (Some (log_stream_write (\<lambda>s j st str q p. (s @ [p], None))))
      (NewBudget 100, [], NewWriter ''job'' 1 ''stdout'' 1024) (newExactSecretRedactor ''s3cret'')
      [''key=s3'', ''cret'', '' done''] = (d1, w1, [(6, None), (4, None), (5, None)]) \<and>
    redactor_Flush (Some (log_stream_write (\<lambda>s j st str q p. (s @ [p], None)))) d1 w1 =
      (puts (log_stream_write (\<lambda>s j st str q p. (s @ [p], None))) pieces
         (NewBudget 100, [], NewWriter ''job'' 1 ''stdout'' 1024), w2, None) \<and>
    r_secret w2 = [] \<and> concat pieces = ''key=[REDACTED TARGET CREDENTIAL] done''"
proof -
  let ?al = "\<lambda>s j st str q p. (s @ [p], None)"
  let ?d = "(NewBudget 100, [], NewWriter ''job'' 1 ''stdout'' 1024)"
  have v: "valid_log_stream ?d" by (simp add: valid_log_stream_def NewWriter_def)
  have red: "redact_all ''s3cret'' (concat [''key=s3'', ''cret'', '' done'']) =
      ''key=[REDACTED TARGET CREDENTIAL] done''" by code_simp
  have "map (\<lambda>c. (int (length c), None :: error option)) [''key=s3'', ''cret'', '' done''] =
      [(6, None), (4, None), (5, None)]" by simp
  with redaction_streaming [OF v, of "''s3cret''" ?al "[''key=s3'', ''cret'', '' done'']"] red
  show ?thesis by (metis list.distinct(1))
qed

subsection \<open>The secret does not get through\<close>

lemma sublist_cut:
  assumes "c \<notin> set s" "sublist s (xs @ c # ys)"
  shows "sublist s xs \<or> sublist s ys"
proof -
  consider "sublist s xs" | "sublist s (c # ys)"
    | s1 s2 where "s = s1 @ s2" "suffix s1 xs" "prefix s2 (c # ys)"
    using assms(2) by (auto simp: sublist_append)
  then show ?thesis
  proof cases
    case 2
    then show ?thesis using assms(1) by (cases s) (auto simp: sublist_Cons_right)
  next
    case 3
    then have "s2 = []" using assms(1) by (cases s2) auto
    with 3 show ?thesis by (auto simp: suffix_imp_sublist)
  qed simp
qed

lemma contains_sub_sublist: "contains_sub s sub \<longleftrightarrow> sublist sub s"
  by (auto simp: contains_sub_iff sublist_def)

text \<open>
  The marker is bracketed, so a text without brackets can only occur inside it or beside it.
\<close>

lemma sublist_bracketed:
  assumes "l \<notin> set s" "r \<notin> set s" "sublist s (xs @ (l # m @ [r]) @ ys)"
  shows "sublist s xs \<or> sublist s (l # m @ [r]) \<or> sublist s ys"
proof -
  have "sublist s xs \<or> sublist s (m @ r # ys)"
    using sublist_cut [OF assms(1), of xs "m @ r # ys"] assms(3) by simp
  then have "sublist s xs \<or> sublist s m \<or> sublist s ys"
    using sublist_cut [OF assms(2), of m ys] by blast
  moreover have "sublist s m \<Longrightarrow> sublist s (l # m @ [r])"
    using sublist_appendI [of m "[l]" "[r]"] by (auto intro: sublist_order.order.trans)
  ultimately show ?thesis by blast
qed

lemma marker_bracketed:
  "targetCredentialRedaction = CHR ''['' # ''REDACTED TARGET CREDENTIAL'' @ [CHR '']'']"
  by (simp add: targetCredentialRedaction_def)



text \<open>
  The condition on brackets is needed: a secret that begins with the marker's last byte can be put
  together again from the marker and the byte after it.
\<close>

lemma redaction_reassembles:
  "contains_sub (redact_all '']x'' '']xx'') '']x''"
  by code_simp

end
