(* ===== verification/Store.thy ===== *)
theory Store
  imports Go_Strings Model Logstream "HOL-Library.Product_Lexorder"
begin

text \<open>
  Package \<open>runner/internal/store\<close>: the queue of release jobs, the deployment locks and the audit
  tables in PostgreSQL. A table is the list of its rows; a statement is a function on the tables that
  also returns the number of rows affected, or the error of a violated constraint of
  \<open>runner/schema.sql\<close>. A transaction is one function: it returns the old tables on every path that
  rolls back. \<open>clock_timestamp()\<close> is the argument \<open>now\<close>, in milliseconds, one value per
  transaction. \<open>FOR UPDATE SKIP LOCKED\<close> is the argument \<open>skip\<close>, the rows that a concurrent
  transaction has locked. Text ids stand for UUIDs; the JSON columns hold the decoded value, with
  \<open>None\<close> for a text that \<open>json.Unmarshal\<close> rejects. Failures of the connection are not modelled.
\<close>

definition ErrNoJob :: error where "ErrNoJob = Err ''no queued release job''"
definition ErrLockBusy :: error where "ErrLockBusy = Err ''release lock is busy''"
definition ErrLostLease :: error where "ErrLostLease = Err ''runner no longer owns the job lease''"
definition ErrInactive :: error where "ErrInactive = Err ''runner is disabled by an administrator''"

lemmas store_errors = ErrNoJob_def ErrLockBusy_def ErrLostLease_def ErrInactive_def ErrNoRows_def

subsection \<open>The tables\<close>

record job_row =
  jr_id :: string
  jr_release_id :: string
  jr_rollback_source_release_id :: "string option"
  jr_rollback_source_job_id :: "string option"
  jr_target_credential_id :: "string option"
  jr_target_credential_version :: "int option"
  jr_application :: string
  jr_version :: string
  jr_environment :: string
  jr_lock_key :: string
  jr_artifact_path :: string
  jr_expected_sha256 :: string
  jr_manifest_path :: string
  jr_operation :: job_operation
  jr_attempts :: int
  jr_profile_id :: string
  jr_status :: job_status
  jr_available_at :: int
  jr_runner_labels :: "string list"
  jr_priority :: int
  jr_created_at :: int
  jr_locked_by :: "string option"
  jr_locked_at :: "int option"
  jr_heartbeat_at :: "int option"
  jr_started_at :: "int option"
  jr_finished_at :: "int option"
  jr_updated_at :: "int option"
  jr_failure_message :: "string option"

record lock_row =
  lk_lock_key :: string
  lk_job_id :: string
  lk_worker_id :: string
  lk_acquired_at :: int
  lk_heartbeat_at :: int

record step_row =
  sr_id :: int
  sr_job_id :: string
  sr_attempt :: int
  sr_step_order :: int
  sr_name :: job_status
  sr_status :: string
  sr_exit_code :: "int option"
  sr_message :: "string option"
  sr_metadata :: string
  sr_started_at :: int
  sr_finished_at :: "int option"

record log_entry =
  lg_job_id :: string
  lg_step_id :: int
  lg_stream :: string
  lg_sequence :: int
  lg_payload :: bytes
  lg_created_at :: int

record image_row =
  ir_job_id :: string
  ir_file_path :: string
  ir_source_ref :: string
  ir_destination_ref :: string
  ir_repository :: string
  ir_tag :: string
  ir_digest :: "string option"
  ir_created_at :: int

record release_row =
  rl_id :: string
  rl_application_id :: string
  rl_environment_id :: string
  rl_status :: string
  rl_updated_at :: int

record runner_row =
  rn_id :: string
  rn_worker_id :: string
  rn_name :: string
  rn_address :: string
  rn_labels :: "string list"
  rn_max_concurrent_jobs :: int
  rn_active :: bool
  rn_managed_by_runner :: bool
  rn_last_heartbeat_at :: "int option"
  rn_updated_at :: "int option"

record head_row =
  hd_application_id :: string
  hd_environment_id :: string
  hd_current_release_id :: string
  hd_current_job_id :: string
  hd_updated_at :: int

record target_credential_row =
  tc_id :: string
  tc_version :: int
  tc_type :: string
  tc_ciphertext :: string
  tc_active :: bool
  tc_approved_at :: "int option"
  tc_revoked_at :: "int option"

record runner_credential_row =
  rc_id :: string
  rc_version :: int
  rc_ciphertext :: string
  rc_active :: bool
  rc_approved_at :: "int option"
  rc_revoked_at :: "int option"

record profile_row =
  pf_id :: string
  pf_name :: string
  pf_extraction :: extraction_policy
  pf_runtime_kind :: string
  pf_runtime_binary_path :: string
  pf_containerd_namespace :: string
  pf_registry_url :: string
  pf_registry_host :: string
  pf_registry_project :: string
  pf_registry_insecure :: bool
  pf_registry_ca_pem :: string
  pf_registry_credential_id :: "string option"
  pf_health_checks :: "health_check list option"
  pf_command_timeout_seconds :: int
  pf_max_log_bytes :: int
  pf_auto_rollback :: bool
  pf_cleanup_workspace :: bool
  pf_keep_failed_workspace :: bool
  pf_active :: bool
  pf_revoked_at :: "int option"

record script_row =
  sv_id :: string
  sv_name :: string
  sv_version :: int
  sv_interpreter_path :: string
  sv_sha256 :: string
  sv_content :: string
  sv_timeout_seconds :: "int option"
  sv_approved_at :: "int option"
  sv_revoked_at :: "int option"

record profile_script_row =
  ps_profile_id :: string
  ps_phase :: string
  ps_execution_order :: int
  ps_script_version_id :: string
  ps_args :: "string list option"
  ps_timeout_seconds :: "int option"

record settings_row =
  st_poll_interval_ms :: int
  st_lock_retry_ms :: int
  st_settings_refresh_ms :: int
  st_heartbeat_interval_ms :: int
  st_stale_job_after_ms :: int
  st_workspace_root :: string
  st_artifact_storage_path :: string
  st_command_path :: string
  st_log_chunk_bytes :: int

record db =
  release_jobs :: "job_row list"
  release_locks :: "lock_row list"
  release_job_steps :: "step_row list"
  next_step_id :: int
  release_job_logs :: "log_entry list"
  release_images :: "image_row list"
  releases :: "release_row list"
  runner_instances :: "runner_row list"
  deployment_heads :: "head_row list"
  target_credentials :: "target_credential_row list"
  runner_credentials :: "runner_credential_row list"
  deployment_profiles :: "profile_row list"
  script_versions :: "script_row list"
  deployment_profile_scripts :: "profile_script_row list"
  runner_settings :: "settings_row list"

text \<open>\<open>UPDATE ... SET f WHERE P\<close> and the rows it affects.\<close>

definition update_where :: "('a \<Rightarrow> bool) \<Rightarrow> ('a \<Rightarrow> 'a) \<Rightarrow> 'a list \<Rightarrow> 'a list" where
  "update_where P f = map (\<lambda>x. if P x then f x else x)"

definition rows_affected :: "('a \<Rightarrow> bool) \<Rightarrow> 'a list \<Rightarrow> nat" where
  "rows_affected P xs = length (filter P xs)"

record pg_store =
  workerID :: string
  runnerIdentity :: string

definition milliseconds :: "duration \<Rightarrow> int" where
  "milliseconds d = sgn d * (\<bar>d\<bar> div 1000000)"

definition nullif_empty :: "string \<Rightarrow> string option" where
  "nullif_empty s = (if s = [] then None else Some s)"

definition truncate :: "string \<Rightarrow> nat \<Rightarrow> string" where
  "truncate value limit =
     (let runes = utf8_runes value in if length runes \<le> limit then value else concat (take limit runes))"

text \<open>
  The \<open>UPDATE releases ... FROM release_jobs\<close> statement that keeps the release in step with its job.
\<close>

definition sync_release :: "int \<Rightarrow> string \<Rightarrow> string \<Rightarrow> db \<Rightarrow> db" where
  "sync_release now jobID status d =
     d\<lparr>releases := update_where
         (\<lambda>r. \<exists>j\<in>set (release_jobs d). jr_id j = jobID \<and> jr_release_id j = rl_id r)
         (\<lambda>r. r\<lparr>rl_status := status, rl_updated_at := now\<rparr>) (releases d)\<rparr>"

definition delete_locks :: "(lock_row \<Rightarrow> bool) \<Rightarrow> db \<Rightarrow> db" where
  "delete_locks P d = d\<lparr>release_locks := filter (\<lambda>l. \<not> P l) (release_locks d)\<rparr>"

definition update_jobs :: "(job_row \<Rightarrow> bool) \<Rightarrow> (job_row \<Rightarrow> job_row) \<Rightarrow> db \<Rightarrow> db" where
  "update_jobs P f d = d\<lparr>release_jobs := update_where P f (release_jobs d)\<rparr>"

subsection \<open>Stale jobs\<close>

definition stale_job :: "(string \<Rightarrow> bool) \<Rightarrow> int \<Rightarrow> duration \<Rightarrow> job_row \<Rightarrow> bool" where
  "stale_job skip now staleAfter j \<longleftrightarrow>
     jr_status j \<noteq> StatusQueued \<and> \<not> terminal (jr_status j) \<and>
     (case jr_heartbeat_at j of None \<Rightarrow> False | Some t \<Rightarrow> t < now - milliseconds staleAfter) \<and>
     \<not> skip (jr_id j)"

definition stale_row :: "int \<Rightarrow> job_row \<Rightarrow> job_row" where
  "stale_row now j =
     j\<lparr>jr_status := StatusFailed, jr_failure_message := Some ''runner lease expired; manual retry required'',
       jr_finished_at := Some now, jr_updated_at := Some now, jr_locked_by := None, jr_locked_at := None\<rparr>"

definition fail_stale :: "int \<Rightarrow> string \<Rightarrow> db \<Rightarrow> db" where
  "fail_stale now i d =
     sync_release now i ''FAILED''
       (delete_locks (\<lambda>l. lk_job_id l = i)
         (update_jobs (\<lambda>j. jr_id j = i) (stale_row now) d))"

definition RecoverStaleJobs ::
  "(string \<Rightarrow> bool) \<Rightarrow> int \<Rightarrow> duration \<Rightarrow> db \<Rightarrow> db \<times> int result" where
  "RecoverStaleJobs skip now staleAfter d =
     (if staleAfter \<le> 0 then (d, Inl (Err ''stale job interval must be positive''))
      else let ids = map jr_id (filter (stale_job skip now staleAfter) (release_jobs d))
           in (fold (fail_stale now) ids d, Inr (int (length ids))))"

subsection \<open>The runner inventory\<close>

definition hex_digit :: "nat \<Rightarrow> char" where
  "hex_digit n = ''0123456789abcdef'' ! n"

definition hex_byte :: "8 word \<Rightarrow> string" where
  "hex_byte b = [hex_digit (unat b div 16), hex_digit (unat b mod 16)]"

definition hex_bytes :: "8 word list \<Rightarrow> string" where
  "hex_bytes bs = concat (map hex_byte bs)"

text \<open>\<open>random\<close> is what \<open>rand.Read\<close> gives: sixteen bytes or an error.\<close>

definition uuid_text :: "8 word list \<Rightarrow> string" where
  "uuid_text value =
     hex_bytes (take 4 value) @ ''-'' @ hex_bytes (take 2 (drop 4 value)) @ ''-'' @
     hex_bytes (take 2 (drop 6 value)) @ ''-'' @ hex_bytes (take 2 (drop 8 value)) @ ''-'' @
     hex_bytes (take 6 (drop 10 value))"

unbundle bit_operations_syntax

definition randomUUID :: "8 word list result \<Rightarrow> string result" where
  "randomUUID random =
     (case random of
        Inl e \<Rightarrow> Inl (Wrap ''generate runner id'' e)
      | Inr value \<Rightarrow>
          let v6 = value[6 := ((value ! 6) AND 0x0f) OR 0x40];
              v8 = v6[8 := ((v6 ! 8) AND 0x3f) OR 0x80]
          in Inr (uuid_text v8))"

definition RegisterRunner ::
  "8 word list result \<Rightarrow> int \<Rightarrow> string \<Rightarrow> string \<Rightarrow> string \<Rightarrow> pg_store \<Rightarrow> db \<Rightarrow>
   db \<times> pg_store \<times> bool result" where
  "RegisterRunner random now identity name address s d =
     (if identity = [] \<or> name = [] \<or> address = []
      then (d, s, Inl (Err ''runner identity, name, and address are required''))
      else case randomUUID random of
             Inl e \<Rightarrow> (d, s, Inl e)
           | Inr i \<Rightarrow>
               (case find (\<lambda>r. rn_worker_id r = identity) (runner_instances d) of
                  None \<Rightarrow>
                    (d\<lparr>runner_instances := runner_instances d @
                        [\<lparr>rn_id = i, rn_worker_id = identity, rn_name = name, rn_address = address,
                          rn_labels = [], rn_max_concurrent_jobs = 1, rn_active = True,
                          rn_managed_by_runner = True, rn_last_heartbeat_at = Some now,
                          rn_updated_at = None\<rparr>]\<rparr>,
                     s\<lparr>runnerIdentity := identity\<rparr>, Inr True)
                | Some r \<Rightarrow>
                    (d\<lparr>runner_instances := update_where (\<lambda>r. rn_worker_id r = identity)
                        (\<lambda>r. r\<lparr>rn_address := address, rn_managed_by_runner := True,
                               rn_last_heartbeat_at := Some now, rn_updated_at := Some now\<rparr>)
                        (runner_instances d)\<rparr>,
                     s\<lparr>runnerIdentity := identity\<rparr>, Inr (rn_active r))))"

definition touch_runner :: "int \<Rightarrow> string \<Rightarrow> db \<Rightarrow> db" where
  "touch_runner now identity d =
     d\<lparr>runner_instances := update_where (\<lambda>r. rn_worker_id r = identity \<and> rn_managed_by_runner r)
         (\<lambda>r. r\<lparr>rn_last_heartbeat_at := Some now, rn_updated_at := Some now\<rparr>) (runner_instances d)\<rparr>"

definition HeartbeatRunner :: "int \<Rightarrow> pg_store \<Rightarrow> db \<Rightarrow> db \<times> bool result" where
  "HeartbeatRunner now s d =
     (if runnerIdentity s = [] then (d, Inl (Err ''runner is not registered''))
      else case find (\<lambda>r. rn_worker_id r = runnerIdentity s \<and> rn_managed_by_runner r) (runner_instances d) of
             None \<Rightarrow> (d, Inl (Err ''runner registration no longer exists''))
           | Some r \<Rightarrow> (touch_runner now (runnerIdentity s) d, Inr (rn_active r)))"

subsection \<open>Settings\<close>

definition validateSettings :: "settings \<Rightarrow> error option" where
  "validateSettings s = first_error
     [guard (PollInterval s \<le> 0 \<or> LockRetry s \<le> 0 \<or> SettingsRefresh s \<le> 0 \<or> HeartbeatInterval s \<le> 0)
        ''poll, lock retry, refresh, and heartbeat intervals must be positive'',
      guard (StaleJobAfter s \<le> HeartbeatInterval s * 2)
        ''stale job interval must exceed twice the heartbeat interval'',
      guard (WorkspaceRoot s = [] \<or> ArtifactRoot s = [] \<or> CommandPath s = [])
        ''workspace_root, artifact_root, and command_path are required'',
      guard (LogChunkBytes s < 1024 \<or> LogChunkBytes s > 1048576)
        ''log_chunk_bytes must be between 1024 and 1048576'']"

definition LoadSettings :: "db \<Rightarrow> settings result" where
  "LoadSettings d =
     (case runner_settings d of
        [] \<Rightarrow> Inl (Wrap ''load runner settings'' ErrNoRows)
      | r # _ \<Rightarrow>
          let settings = \<lparr>PollInterval = st_poll_interval_ms r * 1000000,
                LockRetry = st_lock_retry_ms r * 1000000,
                SettingsRefresh = st_settings_refresh_ms r * 1000000,
                HeartbeatInterval = st_heartbeat_interval_ms r * 1000000,
                StaleJobAfter = st_stale_job_after_ms r * 1000000,
                WorkspaceRoot = st_workspace_root r, ArtifactRoot = st_artifact_storage_path r,
                CommandPath = st_command_path r, LogChunkBytes = st_log_chunk_bytes r\<rparr>
          in case validateSettings settings of
               Some e \<Rightarrow> Inl (Wrap ''invalid runner settings'' e)
             | None \<Rightarrow> Inr settings)"


subsection \<open>Loading a job's dependencies\<close>

definition loadTargetCredential :: "db \<Rightarrow> job \<Rightarrow> job result" where
  "loadTargetCredential d jb =
     (let credential = TargetCredential jb in
      if cred_ID credential = [] \<and> cred_Version credential = 0 then Inr jb
      else if cred_ID credential = [] \<or> cred_Version credential \<le> 0
      then Inl (Err ''target credential snapshot is incomplete'')
      else case find (\<lambda>r. tc_id r = cred_ID credential \<and> tc_version r = cred_Version credential \<and>
                         tc_active r \<and> tc_approved_at r \<noteq> None \<and> tc_revoked_at r = None)
                  (target_credentials d) of
             None \<Rightarrow> Inl (Wrap ''load active immutable target credential'' ErrNoRows)
           | Some r \<Rightarrow>
               Inr (jb\<lparr>TargetCredential := credential\<lparr>cred_Type := tc_type r,
                     cred_Ciphertext := tc_ciphertext r,
                     cred_AAD := ''target-credential:'' @ cred_ID credential @ '':v'' @
                       int_text (cred_Version credential)\<rparr>\<rparr>))"

text \<open>The credential joined to a profile: \<open>Some None\<close> when the profile has none (a LEFT JOIN).\<close>

definition joined_credential :: "db \<Rightarrow> profile_row \<Rightarrow> runner_credential_row option option" where
  "joined_credential d p =
     (case pf_registry_credential_id p of
        None \<Rightarrow> Some None
      | Some c \<Rightarrow>
          (case find (\<lambda>r. rc_id r = c) (runner_credentials d) of
             None \<Rightarrow> Some None
           | Some r \<Rightarrow> if rc_active r \<and> rc_approved_at r \<noteq> None \<and> rc_revoked_at r = None
                       then Some (Some r) else None))"

definition load_script :: "db \<Rightarrow> int \<Rightarrow> profile_script_row \<Rightarrow> script_row \<Rightarrow> script result" where
  "load_script d commandTimeoutSeconds ps s =
     (case ps_args ps of
        None \<Rightarrow> Inl (Wrap ''decode args for script'' (Err ''invalid JSON''))
      | Some args \<Rightarrow>
          Inr \<lparr>script_ID = sv_id s, script_Name = sv_name s, script_Version = sv_version s,
               script_Phase = ps_phase ps, script_InterpreterPath = sv_interpreter_path s,
               script_SHA256 = sv_sha256 s, script_Content = sv_content s, script_Args = args,
               script_Timeout = 1000000000 *
                 (case ps_timeout_seconds ps of
                    Some t \<Rightarrow> t
                  | None \<Rightarrow> (case sv_timeout_seconds s of Some t \<Rightarrow> t | None \<Rightarrow> commandTimeoutSeconds)),
               script_ApprovedAt = sv_approved_at s\<rparr>)"

text \<open>The joined rows of the script query, in execution order.\<close>

definition approved_scripts :: "db \<Rightarrow> string \<Rightarrow> (profile_script_row \<times> script_row) list" where
  "approved_scripts d profileID =
     sort_key (\<lambda>(ps, s). ps_execution_order ps)
       [(ps, s). ps \<leftarrow> deployment_profile_scripts d, s \<leftarrow> script_versions d,
                 ps_profile_id ps = profileID, sv_id s = ps_script_version_id ps,
                 sv_approved_at s \<noteq> None, sv_revoked_at s = None]"

fun load_scripts ::
  "db \<Rightarrow> int \<Rightarrow> (profile_script_row \<times> script_row) list \<Rightarrow> script list \<Rightarrow> script list result" where
  "load_scripts d t [] acc = Inr acc"
| "load_scripts d t ((ps, s) # rows) acc =
     (case load_script d t ps s of
        Inl e \<Rightarrow> Inl e
      | Inr sc \<Rightarrow> load_scripts d t rows (acc @ [sc]))"

definition loadProfile :: "db \<Rightarrow> job \<Rightarrow> job result" where
  "loadProfile d jb =
     (let pid = profile_ID (job_Profile jb) in
      case find (\<lambda>p. pf_id p = pid \<and> pf_active p \<and> pf_revoked_at p = None \<and> joined_credential d p \<noteq> None)
             (deployment_profiles d) of
        None \<Rightarrow> Inl (Wrap ''load enabled immutable deployment profile'' ErrNoRows)
      | Some p \<Rightarrow>
          let cred = (case joined_credential d p of Some c \<Rightarrow> c | None \<Rightarrow> None);
              rt = \<lparr>rt_Kind = pf_runtime_kind p, rt_BinaryPath = pf_runtime_binary_path p,
                    rt_Namespace = pf_containerd_namespace p, rt_RegistryURL = pf_registry_url p,
                    rt_RegistryHost = pf_registry_host p, rt_RegistryProject = pf_registry_project p,
                    rt_RegistryInsecure = pf_registry_insecure p,
                    rt_RegistryCAPEM = pf_registry_ca_pem p,
                    rt_CredentialAAD = (case cred of None \<Rightarrow> [] | Some c \<Rightarrow>
                       ''credential:'' @ rc_id c @ '':v'' @ int_text (rc_version c)),
                    rt_CredentialCiphertext = (case cred of None \<Rightarrow> [] | Some c \<Rightarrow> rc_ciphertext c)\<rparr>
          in case pf_health_checks p of
               None \<Rightarrow> Inl (Wrap ''decode health checks'' (Err ''invalid JSON''))
             | Some checks \<Rightarrow>
                 (case load_scripts d (pf_command_timeout_seconds p) (approved_scripts d pid)
                         (Scripts (job_Profile jb)) of
                    Inl e \<Rightarrow> Inl e
                  | Inr scripts \<Rightarrow>
                      Inr (jb\<lparr>job_Profile :=
                        \<lparr>profile_ID = pid, profile_Name = pf_name p, Extraction = pf_extraction p,
                         Runtime = rt, HealthChecks = checks, Scripts = scripts,
                         CommandTimeout = pf_command_timeout_seconds p * 1000000000,
                         MaxLogBytes = pf_max_log_bytes p, AutoRollback = pf_auto_rollback p,
                         CleanupWorkspace = pf_cleanup_workspace p,
                         KeepFailedWorkspace = pf_keep_failed_workspace p\<rparr>\<rparr>)))"

definition rollback_source :: "db \<Rightarrow> string \<Rightarrow> string \<Rightarrow> bool" where
  "rollback_source d jobID releaseID \<longleftrightarrow>
     (\<exists>j\<in>set (release_jobs d). jr_id j = jobID \<and> jr_release_id j = releaseID \<and>
        jr_operation j = OperationDeploy \<and> jr_status j = StatusSuccess)"

definition loadRollbackImages :: "db \<Rightarrow> job \<Rightarrow> job result" where
  "loadRollbackImages d jb =
     (if RollbackSourceReleaseID jb = [] \<or> RollbackSourceJobID jb = []
      then Inl (Err ''manual rollback job has no immutable source release and DEPLOY basis job'')
      else let rows = (if rollback_source d (RollbackSourceJobID jb) (RollbackSourceReleaseID jb)
                       then sort_key ir_file_path
                         (filter (\<lambda>i. ir_job_id i = RollbackSourceJobID jb) (release_images d))
                       else []);
               images = RollbackImages jb @
                 map (\<lambda>i. \<lparr>img_FilePath = ir_file_path i, img_SourceRef = ir_source_ref i,
                           img_DestinationRef = ir_destination_ref i, img_Repository = ir_repository i,
                           img_Tag = ir_tag i,
                           img_Digest = (case ir_digest i of None \<Rightarrow> [] | Some g \<Rightarrow> g)\<rparr>) rows
           in if images = [] then Inl (Err ''rollback source has no successful deployment image records'')
              else Inr (jb\<lparr>RollbackImages := images\<rparr>))"

definition allowedTargetCredentialType :: "string \<Rightarrow> bool" where
  "allowedTargetCredentialType value \<longleftrightarrow>
     value \<in> set [''SSH_PRIVATE_KEY'', ''KUBECONFIG'', ''TOKEN'', ''OPAQUE_FILE'']"

fun hasScriptPhase :: "script list \<Rightarrow> string \<Rightarrow> bool" where
  "hasScriptPhase [] phase = False"
| "hasScriptPhase (s # ss) phase = (if script_Phase s = phase then True else hasScriptPhase ss phase)"

definition incomplete_image :: "image_record \<Rightarrow> bool" where
  "incomplete_image i \<longleftrightarrow> img_FilePath i = [] \<or> img_DestinationRef i = [] \<or> img_Repository i = [] \<or>
     img_Tag i = [] \<or> img_Digest i = []"

definition validateJob :: "job \<Rightarrow> error option" where
  "validateJob jb =
     (let p = job_Profile jb; ex = Extraction p; rt = Runtime p; op = job_Operation jb;
          credential = TargetCredential jb;
          requiredPhase = (if op = OperationRollback then ''ROLLBACK'' else ''DEPLOY'')
      in first_error
        [guard (AutoRollback p)
           ''automatic rollback is disabled in v0.1; use an explicit digest-verified manual rollback'',
         guard (op \<noteq> OperationDeploy \<and> op \<noteq> OperationRollback) ''unsupported job operation'',
         guard (MaxImages ex \<le> 0 \<or> (op = OperationDeploy \<and>
             (MaxArchiveBytes ex \<le> 0 \<or> MaxExtractedBytes ex \<le> 0 \<or> MaxFiles ex \<le> 0)))
           ''deployment profile has invalid extraction limits'',
         guard (CommandTimeout p \<le> 0 \<or> MaxLogBytes p \<le> 0) ''deployment profile has invalid command limits'',
         guard (rt_Kind rt \<noteq> ''docker'' \<and> rt_Kind rt \<noteq> ''podman'' \<and> rt_Kind rt \<noteq> ''containerd'')
           ''unsupported runtime kind'',
         guard (rt_BinaryPath rt = [] \<or> rt_RegistryHost rt = [] \<or> rt_RegistryProject rt = [] \<or>
             rt_RegistryURL rt = [])
           ''runtime binary and registry settings are required'',
         (if cred_ID credential = []
          then guard (cred_Type credential \<noteq> [] \<or> cred_Version credential \<noteq> 0 \<or>
                 cred_Ciphertext credential \<noteq> [] \<or> cred_AAD credential \<noteq> [])
               ''target credential snapshot is incomplete''
          else guard (cred_Version credential \<le> 0 \<or> cred_Ciphertext credential = [] \<or>
                 cred_AAD credential = [] \<or> \<not> allowedTargetCredentialType (cred_Type credential))
               ''target credential snapshot is invalid''),
         guard (\<not> hasScriptPhase (Scripts p) requiredPhase) ''operation requires an approved script'',
         (if op = OperationRollback
          then first_error
            [guard (RollbackSourceReleaseID jb = [] \<or> RollbackSourceJobID jb = [])
               ''manual rollback requires an immutable source release and DEPLOY basis job'',
             guard (length (RollbackImages jb) = 0 \<or> int (length (RollbackImages jb)) > MaxImages ex)
               ''manual rollback source image count is out of range'',
             guard (\<exists>i\<in>set (RollbackImages jb). incomplete_image i)
               ''manual rollback source contains an incomplete image record'']
          else None)])"

subsection \<open>Claiming a job\<close>

definition runner_fresh :: "int \<Rightarrow> runner_row \<Rightarrow> bool" where
  "runner_fresh now r \<longleftrightarrow> (case rn_last_heartbeat_at r of None \<Rightarrow> False | Some t \<Rightarrow> t \<ge> now - 60000)"

definition eligible :: "(string \<Rightarrow> bool) \<Rightarrow> int \<Rightarrow> runner_row \<Rightarrow> job_row \<Rightarrow> bool" where
  "eligible skip now r j \<longleftrightarrow>
     jr_status j = StatusQueued \<and> jr_available_at j \<le> now \<and>
     set (jr_runner_labels j) \<subseteq> set (rn_labels r) \<and> \<not> skip (jr_id j)"

definition queue_order :: "job_row \<Rightarrow> int \<times> int" where
  "queue_order j = (- jr_priority j, jr_created_at j)"

definition next_queued :: "(string \<Rightarrow> bool) \<Rightarrow> int \<Rightarrow> runner_row \<Rightarrow> db \<Rightarrow> job_row option" where
  "next_queued skip now r d =
     (case sort_key queue_order (filter (eligible skip now r) (release_jobs d)) of
        [] \<Rightarrow> None | j # _ \<Rightarrow> Some j)"

definition empty_profile :: "string \<Rightarrow> profile" where
  "empty_profile pid =
     \<lparr>profile_ID = pid, profile_Name = [],
      Extraction = \<lparr>MaxArchiveBytes = 0, MaxExtractedBytes = 0, MaxFiles = 0, MaxImages = 0, AllowSymlinks = False\<rparr>,
      Runtime = \<lparr>rt_Kind = [], rt_BinaryPath = [], rt_Namespace = [], rt_RegistryURL = [], rt_RegistryHost = [],
        rt_RegistryProject = [], rt_RegistryInsecure = False, rt_RegistryCAPEM = [], rt_CredentialAAD = [],
        rt_CredentialCiphertext = []\<rparr>,
      HealthChecks = [], Scripts = [], CommandTimeout = 0, MaxLogBytes = 0, AutoRollback = False,
      CleanupWorkspace = False, KeepFailedWorkspace = False\<rparr>"

definition coalesce :: "'a \<Rightarrow> 'a option \<Rightarrow> 'a" where
  "coalesce x v = (case v of None \<Rightarrow> x | Some y \<Rightarrow> y)"

definition scan_job :: "job_row \<Rightarrow> job" where
  "scan_job j =
     \<lparr>job_ID = jr_id j, job_ReleaseID = jr_release_id j,
      RollbackSourceReleaseID = coalesce [] (jr_rollback_source_release_id j),
      RollbackSourceJobID = coalesce [] (jr_rollback_source_job_id j),
      job_Application = jr_application j, job_Version = jr_version j, job_Environment = jr_environment j,
      job_LockKey = jr_lock_key j, ArtifactPath = jr_artifact_path j, ExpectedSHA256 = jr_expected_sha256 j,
      ManifestPath = jr_manifest_path j, job_Operation = jr_operation j, job_Attempt = jr_attempts j + 1,
      job_Profile = empty_profile (jr_profile_id j),
      TargetCredential = \<lparr>cred_ID = coalesce [] (jr_target_credential_id j), cred_Type = [],
        cred_Version = coalesce 0 (jr_target_credential_version j), cred_Ciphertext = [], cred_AAD = []\<rparr>,
      RollbackImages = []\<rparr>"

definition load_dependencies :: "db \<Rightarrow> job \<Rightarrow> job result" where
  "load_dependencies d jb =
     (case loadProfile d jb of
        Inl e \<Rightarrow> Inl e
      | Inr j1 \<Rightarrow>
          (case loadTargetCredential d j1 of
             Inl e \<Rightarrow> Inl e
           | Inr j2 \<Rightarrow>
               (case (if job_Operation j2 = OperationRollback then loadRollbackImages d j2 else Inr j2) of
                  Inl e \<Rightarrow> Inl e
                | Inr j3 \<Rightarrow> (case validateJob j3 of Some e \<Rightarrow> Inl e | None \<Rightarrow> Inr j3))))"

definition insert_lock :: "int \<Rightarrow> string \<Rightarrow> string \<Rightarrow> string \<Rightarrow> db \<Rightarrow> error + (db \<times> nat)" where
  "insert_lock now key jobID worker d =
     (if \<exists>l\<in>set (release_locks d). lk_lock_key l = key then Inr (d, 0)
      else if \<exists>l\<in>set (release_locks d). lk_job_id l = jobID
      then Inl (Err ''duplicate key value violates unique constraint on release_locks.job_id'')
      else Inr (d\<lparr>release_locks := release_locks d @
        [\<lparr>lk_lock_key = key, lk_job_id = jobID, lk_worker_id = worker, lk_acquired_at = now,
          lk_heartbeat_at = now\<rparr>]\<rparr>, 1))"

definition defer_job :: "int \<Rightarrow> duration \<Rightarrow> string \<Rightarrow> db \<Rightarrow> db" where
  "defer_job now lockRetry i =
     update_jobs (\<lambda>j. jr_id j = i) (\<lambda>j. j\<lparr>jr_available_at := now + milliseconds lockRetry\<rparr>)"

definition reject_row :: "int \<Rightarrow> error \<Rightarrow> job_row \<Rightarrow> job_row" where
  "reject_row now e j =
     j\<lparr>jr_status := StatusFailed, jr_failure_message := Some (truncate (error_text e) 4000),
       jr_finished_at := Some now, jr_updated_at := Some now\<rparr>"

definition reject_job :: "int \<Rightarrow> string \<Rightarrow> error \<Rightarrow> db \<Rightarrow> db" where
  "reject_job now i e d =
     sync_release now i ''FAILED''
       (delete_locks (\<lambda>l. lk_job_id l = i)
         (update_jobs (\<lambda>j. jr_id j = i) (reject_row now e) d))"

definition claim_row :: "int \<Rightarrow> int \<Rightarrow> string \<Rightarrow> job_row \<Rightarrow> job_row" where
  "claim_row now attempt worker j =
     j\<lparr>jr_status := StatusValidating, jr_attempts := attempt, jr_locked_by := Some worker,
       jr_locked_at := Some now, jr_heartbeat_at := Some now,
       jr_started_at := Some (coalesce now (jr_started_at j)), jr_failure_message := None\<rparr>"

definition mark_claimed :: "int \<Rightarrow> string \<Rightarrow> int \<Rightarrow> string \<Rightarrow> db \<Rightarrow> db" where
  "mark_claimed now i attempt worker =
     update_jobs (\<lambda>j. jr_id j = i) (claim_row now attempt worker)"

definition ClaimJob ::
  "(string \<Rightarrow> bool) \<Rightarrow> int \<Rightarrow> duration \<Rightarrow> pg_store \<Rightarrow> db \<Rightarrow> db \<times> job result" where
  "ClaimJob skip now lockRetry s d =
     (if runnerIdentity s = [] then (d, Inl (Err ''runner is not registered''))
      else case find (\<lambda>r. rn_worker_id r = runnerIdentity s) (runner_instances d) of
        None \<Rightarrow> (d, Inl (Err ''runner registration no longer exists''))
      | Some r \<Rightarrow>
          if \<not> rn_active r then (d, Inl ErrInactive)
          else if \<not> runner_fresh now r then (d, Inl ErrNoJob)
          else case next_queued skip now r d of
            None \<Rightarrow> (d, Inl ErrNoJob)
          | Some row \<Rightarrow>
              let jb = scan_job row in
              case insert_lock now (job_LockKey jb) (job_ID jb) (workerID s) d of
                Inl e \<Rightarrow> (d, Inl (Wrap ''acquire release lock'' e))
              | Inr (d1, n) \<Rightarrow>
                  if n \<noteq> 1 then (defer_job now lockRetry (job_ID jb) d1, Inl ErrLockBusy)
                  else case load_dependencies d1 jb of
                    Inl e \<Rightarrow> (reject_job now (job_ID jb) e d1, Inl (Wrap ''reject invalid queued job'' e))
                  | Inr jb' \<Rightarrow>
                      if rows_affected (\<lambda>j. jr_id j = job_ID jb) (release_jobs d1) \<noteq> 1
                      then (d, Inl (Wrap ''mark job claimed'' ErrLostLease))
                      else (mark_claimed now (job_ID jb) (job_Attempt jb) (workerID s) d1, Inr jb'))"

subsection \<open>Mutations under the lease\<close>

text \<open>The \<open>WHERE\<close> clauses: the job is locked by the worker and not over; the lock row is held.\<close>

definition lease_row :: "string \<Rightarrow> string \<Rightarrow> job_row \<Rightarrow> bool" where
  "lease_row jobID worker j \<longleftrightarrow>
     jr_id j = jobID \<and> jr_locked_by j = Some worker \<and> \<not> terminal (jr_status j)"

definition lock_of :: "string \<Rightarrow> string \<Rightarrow> lock_row \<Rightarrow> bool" where
  "lock_of jobID worker l \<longleftrightarrow> lk_job_id l = jobID \<and> lk_worker_id l = worker"

definition holds_lock :: "db \<Rightarrow> string \<Rightarrow> string \<Rightarrow> bool" where
  "holds_lock d jobID worker \<longleftrightarrow> (\<exists>l\<in>set (release_locks d). lock_of jobID worker l)"

definition owns_job :: "db \<Rightarrow> string \<Rightarrow> string \<Rightarrow> bool" where
  "owns_job d jobID worker \<longleftrightarrow>
     (\<exists>j\<in>set (release_jobs d). lease_row jobID worker j) \<and> holds_lock d jobID worker"

definition Heartbeat :: "int \<Rightarrow> pg_store \<Rightarrow> string \<Rightarrow> db \<Rightarrow> db \<times> error option" where
  "Heartbeat now s jobID d =
     (let w = workerID s in
      if rows_affected (lease_row jobID w) (release_jobs d) \<noteq> 1 then (d, Some ErrLostLease)
      else if rows_affected (lock_of jobID w) (release_locks d) \<noteq> 1 then (d, Some ErrLostLease)
      else let d1 = update_jobs (lease_row jobID w) (\<lambda>j. j\<lparr>jr_heartbeat_at := Some now\<rparr>) d;
               d2 = d1\<lparr>release_locks := update_where (lock_of jobID w)
                        (\<lambda>l. l\<lparr>lk_heartbeat_at := now\<rparr>) (release_locks d1)\<rparr>
           in (if runnerIdentity s \<noteq> [] then touch_runner now (runnerIdentity s) d2 else d2, None))"

definition next_step_order :: "db \<Rightarrow> string \<Rightarrow> int" where
  "next_step_order d jobID =
     (case map sr_step_order (filter (\<lambda>s. sr_job_id s = jobID) (release_job_steps d)) of
        [] \<Rightarrow> 1 | n # ns \<Rightarrow> fold max ns n + 1)"

definition insert_step :: "int \<Rightarrow> string \<Rightarrow> job_status \<Rightarrow> job_row \<Rightarrow> db \<Rightarrow> db" where
  "insert_step now jobID status j d =
     d\<lparr>release_job_steps := release_job_steps d @
         [\<lparr>sr_id = next_step_id d, sr_job_id = jobID, sr_attempt = jr_attempts j,
           sr_step_order = next_step_order d jobID, sr_name = status, sr_status = ''RUNNING'',
           sr_exit_code = None, sr_message = None, sr_metadata = ''{}'', sr_started_at = now,
           sr_finished_at = None\<rparr>],
       next_step_id := next_step_id d + 1\<rparr>"

definition BeginStep :: "int \<Rightarrow> pg_store \<Rightarrow> string \<Rightarrow> job_status \<Rightarrow> db \<Rightarrow> db \<times> step result" where
  "BeginStep now s jobID status d =
     (let w = workerID s in
      if rows_affected (lease_row jobID w) (release_jobs d) \<noteq> 1 then (d, Inl ErrLostLease)
      else let d1 = update_jobs (lease_row jobID w)
                      (\<lambda>j. j\<lparr>jr_status := status, jr_updated_at := Some now\<rparr>) d;
               d2 = sync_release now jobID (status_text status) d1
           in case find (\<lambda>j. jr_id j = jobID) (release_jobs d2) of
                None \<Rightarrow> (d, Inl (Wrap ''insert job step'' ErrNoRows))
              | Some j \<Rightarrow>
                  (insert_step now jobID status j d2,
                   Inr \<lparr>step_ID = next_step_id d2, step_JobID = jobID, step_Name = status,
                        step_Number = next_step_order d2 jobID\<rparr>))"

text \<open>
  A single statement: the tables it leaves and the rows it affected, or the error of a constraint.
  \<open>executeLeaseMutation\<close> turns a count other than one into a lost lease.
\<close>

type_synonym sql_result = "error + (db \<times> nat)"

definition executeLeaseMutation :: "string \<Rightarrow> sql_result \<Rightarrow> db \<Rightarrow> db \<times> error option" where
  "executeLeaseMutation action r d =
     (case r of
        Inl e \<Rightarrow> (d, Some (Wrap action e))
      | Inr (d', n) \<Rightarrow> if n \<noteq> 1 then (d', Some ErrLostLease) else (d', None))"

definition nullableJSON :: "string \<Rightarrow> string option" where
  "nullableJSON value = (if value = [] then None else Some value)"

definition finishStepSQL ::
  "int \<Rightarrow> int \<Rightarrow> string \<Rightarrow> int \<Rightarrow> string \<Rightarrow> string option \<Rightarrow> string \<Rightarrow> string \<Rightarrow> db \<Rightarrow> sql_result" where
  "finishStepSQL now stepID status exitCode message metadata jobID worker d =
     (let P = (\<lambda>s. sr_id s = stepID \<and> sr_job_id s = jobID \<and> owns_job d jobID worker)
      in Inr (d\<lparr>release_job_steps := update_where P
                (\<lambda>s. s\<lparr>sr_status := status, sr_exit_code := Some exitCode, sr_message := nullif_empty message,
                       sr_metadata := coalesce ''{}'' metadata, sr_finished_at := Some now\<rparr>)
                (release_job_steps d)\<rparr>, rows_affected P (release_job_steps d)))"

definition FinishStep :: "int \<Rightarrow> pg_store \<Rightarrow> step \<Rightarrow> bool \<Rightarrow> step_result \<Rightarrow> db \<Rightarrow> db \<times> error option" where
  "FinishStep now s step success result d =
     executeLeaseMutation (''finish job step '' @ status_text (step_Name step))
       (finishStepSQL now (step_ID step) (if success then ''SUCCESS'' else ''FAILED'') (ExitCode result)
          (Message result) (nullableJSON (Metadata result)) (step_JobID step) (workerID s) d) d"

definition appendLogSQL ::
  "int \<Rightarrow> string \<Rightarrow> int \<Rightarrow> string \<Rightarrow> int \<Rightarrow> bytes \<Rightarrow> string \<Rightarrow> db \<Rightarrow> sql_result" where
  "appendLogSQL now jobID stepID stream sequence payload worker d =
     (if \<not> (owns_job d jobID worker \<and>
            (\<exists>s\<in>set (release_job_steps d). sr_id s = stepID \<and> sr_job_id s = jobID))
      then Inr (d, 0)
      else if stream \<notin> set [''stdout'', ''stderr'', ''system'']
      then Inl (Err ''violates check constraint on release_job_logs.stream'')
      else if \<exists>l\<in>set (release_job_logs d).
                lg_step_id l = stepID \<and> lg_stream l = stream \<and> lg_sequence l = sequence
      then Inl (Err ''duplicate key value violates unique constraint on release_job_logs'')
      else Inr (d\<lparr>release_job_logs := release_job_logs d @
                  [\<lparr>lg_job_id = jobID, lg_step_id = stepID, lg_stream = stream, lg_sequence = sequence,
                    lg_payload = payload, lg_created_at = now\<rparr>]\<rparr>, 1))"

definition AppendLog ::
  "int \<Rightarrow> pg_store \<Rightarrow> db \<Rightarrow> string \<Rightarrow> int \<Rightarrow> string \<Rightarrow> int \<Rightarrow> bytes \<Rightarrow> db \<times> error option" where
  "AppendLog now s d jobID stepID stream sequence payload =
     executeLeaseMutation ''append job log''
       (appendLogSQL now jobID stepID stream sequence payload (workerID s) d) d"

definition recordImageSQL :: "int \<Rightarrow> string \<Rightarrow> image_record \<Rightarrow> string \<Rightarrow> db \<Rightarrow> sql_result" where
  "recordImageSQL now jobID img worker d =
     (if \<not> owns_job d jobID worker then Inr (d, 0)
      else let P = (\<lambda>i. ir_job_id i = jobID \<and> ir_file_path i = img_FilePath img);
               digest = nullif_empty (img_Digest img)
           in if \<exists>i\<in>set (release_images d). P i
              then Inr (d\<lparr>release_images := update_where P
                     (\<lambda>i. i\<lparr>ir_source_ref := img_SourceRef img, ir_destination_ref := img_DestinationRef img,
                            ir_repository := img_Repository img, ir_tag := img_Tag img,
                            ir_digest := (case digest of None \<Rightarrow> ir_digest i | Some g \<Rightarrow> Some g)\<rparr>)
                     (release_images d)\<rparr>, rows_affected P (release_images d))
              else Inr (d\<lparr>release_images := release_images d @
                     [\<lparr>ir_job_id = jobID, ir_file_path = img_FilePath img,
                       ir_source_ref = img_SourceRef img, ir_destination_ref = img_DestinationRef img,
                       ir_repository = img_Repository img, ir_tag = img_Tag img, ir_digest = digest,
                       ir_created_at = now\<rparr>]\<rparr>, 1))"

definition RecordImage :: "int \<Rightarrow> pg_store \<Rightarrow> string \<Rightarrow> image_record \<Rightarrow> db \<Rightarrow> db \<times> error option" where
  "RecordImage now s jobID img d =
     executeLeaseMutation ''record release image'' (recordImageSQL now jobID img (workerID s) d) d"

text \<open>The rows of \<open>deployment_basis\<close>: application, environment, release and job of the new head.\<close>

definition basis_rows :: "db \<Rightarrow> job_status \<Rightarrow> job_row \<Rightarrow> release_row \<Rightarrow> (string \<times> string \<times> string \<times> string) list" where
  "basis_rows d status j r =
     (if status = StatusSuccess \<and> jr_operation j = OperationDeploy
      then [(rl_application_id r, rl_environment_id r, jr_release_id j, jr_id j)]
      else if status = StatusRolledBack \<and> jr_operation j = OperationRollback then
        (case (jr_rollback_source_release_id j, jr_rollback_source_job_id j) of
           (Some srcRelease, Some srcJob) \<Rightarrow>
             if rollback_source d srcJob srcRelease
             then [(rl_application_id r, rl_environment_id r, srcRelease, srcJob)] else []
         | _ \<Rightarrow> [])
      else [])"

definition deployment_basis :: "db \<Rightarrow> string \<Rightarrow> job_status \<Rightarrow> (string \<times> string \<times> string \<times> string) list" where
  "deployment_basis d jobID status =
     concat (map (\<lambda>j. concat (map (\<lambda>r.
       if jr_id j = jobID \<and> rl_id r = jr_release_id j then basis_rows d status j r else [])
       (releases d))) (release_jobs d))"

definition upsert_head :: "int \<Rightarrow> string \<times> string \<times> string \<times> string \<Rightarrow> db \<Rightarrow> error + db" where
  "upsert_head now row d =
     (case row of (app, env, rel, jb) \<Rightarrow>
        let P = (\<lambda>h. hd_application_id h = app \<and> hd_environment_id h = env) in
        if \<exists>h\<in>set (deployment_heads d). \<not> P h \<and> hd_current_job_id h = jb
        then Inl (Err ''duplicate key value violates unique constraint on deployment_heads.current_job_id'')
        else if \<exists>h\<in>set (deployment_heads d). P h
        then Inr (d\<lparr>deployment_heads := update_where P
               (\<lambda>h. h\<lparr>hd_current_release_id := rel, hd_current_job_id := jb, hd_updated_at := now\<rparr>)
               (deployment_heads d)\<rparr>)
        else Inr (d\<lparr>deployment_heads := deployment_heads d @
               [\<lparr>hd_application_id = app, hd_environment_id = env, hd_current_release_id = rel,
                 hd_current_job_id = jb, hd_updated_at = now\<rparr>]\<rparr>))"

definition syncDeploymentHeadSQL :: "int \<Rightarrow> string \<Rightarrow> job_status \<Rightarrow> db \<Rightarrow> sql_result" where
  "syncDeploymentHeadSQL now jobID status d =
     (case deployment_basis d jobID status of
        [] \<Rightarrow> Inr (d, 0)
      | row # rows \<Rightarrow>
          (case upsert_head now row d of
             Inl e \<Rightarrow> Inl e
           | Inr d' \<Rightarrow> Inr (d', Suc (length rows))))"

definition finish_row :: "int \<Rightarrow> job_status \<Rightarrow> string \<Rightarrow> job_row \<Rightarrow> job_row" where
  "finish_row now status failure j =
     j\<lparr>jr_status := status, jr_failure_message := nullif_empty failure,
       jr_finished_at := Some now, jr_updated_at := Some now\<rparr>"

definition FinishJob ::
  "int \<Rightarrow> pg_store \<Rightarrow> string \<Rightarrow> job_status \<Rightarrow> string \<Rightarrow> db \<Rightarrow> db \<times> error option" where
  "FinishJob now s jobID status failure d =
     (let w = workerID s; P = (\<lambda>j. lease_row jobID w j \<and> holds_lock d jobID w) in
      if status \<noteq> StatusSuccess \<and> status \<noteq> StatusFailed \<and> status \<noteq> StatusRolledBack
      then (d, Some (Err ''invalid terminal status''))
      else if rows_affected P (release_jobs d) \<noteq> 1 then (d, Some ErrLostLease)
      else let d1 = update_jobs P (finish_row now status failure) d;
               d2 = sync_release now jobID (status_text status) d1;
               (d3, err) = (if status = StatusSuccess \<or> status = StatusRolledBack
                            then executeLeaseMutation ''synchronize deployment head''
                                   (syncDeploymentHeadSQL now jobID status d2) d2
                            else (d2, None))
           in case err of
                Some e \<Rightarrow> (d, Some e)
              | None \<Rightarrow> (delete_locks (lock_of jobID w) d3, None))"

end
