(* ===== verification/Leases.thy ===== *)
theory Leases
  imports Store
begin

text \<open>
  What the store guarantees whatever its clients do: the invariant that ties the lock table to the
  running jobs, kept by every operation of every runner in every order, and what follows from it: one
  running job per deployment target, jobs that are over stay as they are, and a runner that lost its
  lease cannot change anything.
\<close>

definition running :: "job_status \<Rightarrow> bool" where
  "running st \<longleftrightarrow> st \<noteq> StatusQueued \<and> \<not> terminal st"

subsection \<open>Updates of a table\<close>

lemma map_update_where:
  "(\<And>x. P x \<Longrightarrow> h (f x) = h x) \<Longrightarrow> map h (update_where P f xs) = map h xs"
  by (simp add: update_where_def)

lemma set_update_where:
  "set (update_where P f xs) = {x \<in> set xs. \<not> P x} \<union> f ` {x \<in> set xs. P x}"
  by (auto simp: update_where_def)

lemma update_where_none: "(\<And>x. x \<in> set xs \<Longrightarrow> \<not> P x) \<Longrightarrow> update_where P f xs = xs"
  by (induction xs) (simp_all add: update_where_def)

lemma rows_affected_1: "rows_affected P xs = 1 \<Longrightarrow> \<exists>x\<in>set xs. P x"
  by (metis filter_empty_conv length_0_conv rows_affected_def zero_neq_one)

lemma rows_affected_0: "\<not> (\<exists>x\<in>set xs. P x) \<Longrightarrow> rows_affected P xs = 0"
  by (simp add: rows_affected_def filter_empty_conv)

lemma distinct_key_unique:
  "distinct (map k xs) \<Longrightarrow> x \<in> set xs \<Longrightarrow> y \<in> set xs \<Longrightarrow> k x = k y \<Longrightarrow> x = y"
  by (metis distinct_map inj_onD)

lemma rows_affected_key:
  assumes "distinct (map k xs)" "\<And>x. P x \<Longrightarrow> k x = v" "\<exists>x\<in>set xs. P x"
  shows "rows_affected P xs = 1"
proof -
  obtain x where x: "x \<in> set (filter P xs)" using assms(3) by auto
  have "y = x" if "y \<in> set (filter P xs)" for y
    using distinct_key_unique [OF assms(1), of y x] that x assms(2) by auto
  then have "set (filter P xs) = {x}" using x by blast
  moreover have "distinct (filter P xs)" using assms(1) by (simp add: distinct_map)
  ultimately show ?thesis by (metis One_nat_def card.empty card.insert distinct_card empty_iff
        finite.emptyI rows_affected_def)
qed

subsection \<open>The invariant\<close>

definition lock_view :: "db \<Rightarrow> (string \<times> string \<times> string option) set" where
  "lock_view d = (\<lambda>l. (lk_job_id l, lk_lock_key l, Some (lk_worker_id l))) ` set (release_locks d)"

definition run_view :: "db \<Rightarrow> (string \<times> string \<times> string option) set" where
  "run_view d = (\<lambda>j. (jr_id j, jr_lock_key j, jr_locked_by j)) `
     {j \<in> set (release_jobs d). running (jr_status j)}"

definition lease_inv :: "db \<Rightarrow> bool" where
  "lease_inv d \<longleftrightarrow>
     distinct (map jr_id (release_jobs d)) \<and>
     distinct (map lk_lock_key (release_locks d)) \<and> distinct (map lk_job_id (release_locks d)) \<and>
     lock_view d = run_view d \<and>
     (\<forall>j\<in>set (release_jobs d). jr_status j = StatusQueued \<longrightarrow> jr_locked_by j = None)"

text \<open>Only the two tables matter.\<close>

lemma lease_inv_cong:
  "release_jobs d' = release_jobs d \<Longrightarrow> release_locks d' = release_locks d \<Longrightarrow> lease_inv d' = lease_inv d"
  by (simp add: lease_inv_def lock_view_def run_view_def)

lemma sync_release_tables [simp]:
  "release_jobs (sync_release now i st d) = release_jobs d"
  "release_locks (sync_release now i st d) = release_locks d"
  "release_job_steps (sync_release now i st d) = release_job_steps d"
  "release_job_logs (sync_release now i st d) = release_job_logs d"
  "release_images (sync_release now i st d) = release_images d"
  "deployment_heads (sync_release now i st d) = deployment_heads d"
  by (simp_all add: sync_release_def)

lemma touch_runner_tables [simp]:
  "release_jobs (touch_runner now i d) = release_jobs d"
  "release_locks (touch_runner now i d) = release_locks d"
  "release_job_steps (touch_runner now i d) = release_job_steps d"
  "release_job_logs (touch_runner now i d) = release_job_logs d"
  "release_images (touch_runner now i d) = release_images d"
  by (simp_all add: touch_runner_def)

lemma update_jobs_tables [simp]:
  "release_jobs (update_jobs P f d) = update_where P f (release_jobs d)"
  "release_locks (update_jobs P f d) = release_locks d"
  "release_job_steps (update_jobs P f d) = release_job_steps d"
  "release_job_logs (update_jobs P f d) = release_job_logs d"
  "release_images (update_jobs P f d) = release_images d"
  "releases (update_jobs P f d) = releases d"
  "deployment_heads (update_jobs P f d) = deployment_heads d"
  by (simp_all add: update_jobs_def)

lemma delete_locks_tables [simp]:
  "release_jobs (delete_locks P d) = release_jobs d"
  "release_locks (delete_locks P d) = filter (\<lambda>l. \<not> P l) (release_locks d)"
  "release_job_steps (delete_locks P d) = release_job_steps d"
  "release_job_logs (delete_locks P d) = release_job_logs d"
  "release_images (delete_locks P d) = release_images d"
  "deployment_heads (delete_locks P d) = deployment_heads d"
  by (simp_all add: delete_locks_def)

text \<open>An update that keeps id, key, owner and phase of every row keeps the invariant.\<close>

lemma lease_inv_keep:
  assumes "lease_inv d"
    and "release_jobs d' = update_where P f (release_jobs d)"
    and "map lk_lock_key (release_locks d') = map lk_lock_key (release_locks d)"
    and "map lk_job_id (release_locks d') = map lk_job_id (release_locks d)"
    and "lock_view d' = lock_view d"
    and "\<And>j. P j \<Longrightarrow> jr_id (f j) = jr_id j \<and> jr_lock_key (f j) = jr_lock_key j \<and>
           jr_locked_by (f j) = jr_locked_by j"
    and "\<And>j. j \<in> set (release_jobs d) \<Longrightarrow> P j \<Longrightarrow>
           (jr_status (f j) = StatusQueued) = (jr_status j = StatusQueued) \<and>
           running (jr_status (f j)) = running (jr_status j)"
  shows "lease_inv d'"
proof -
  have ids: "map jr_id (release_jobs d') = map jr_id (release_jobs d)"
    using assms(2,6) by (simp add: map_update_where)
  have "run_view d' = run_view d"
  proof -
    let ?g = "\<lambda>j. if P j then f j else j" and ?v = "\<lambda>j. (jr_id j, jr_lock_key j, jr_locked_by j)"
    have "run_view d' = (?v \<circ> ?g) ` {j \<in> set (release_jobs d). running (jr_status (?g j))}"
      by (auto simp: run_view_def assms(2) update_where_def image_image)
    also have "\<dots> = ?v ` {j \<in> set (release_jobs d). running (jr_status j)}"
      using assms(6,7) by (intro image_cong) auto
    finally show ?thesis by (simp add: run_view_def)
  qed
  moreover have "\<forall>j\<in>set (release_jobs d'). jr_status j = StatusQueued \<longrightarrow> jr_locked_by j = None"
    using assms(1,6,7) unfolding assms(2) set_update_where lease_inv_def by fastforce
  ultimately show ?thesis using assms(1,3,4,5) ids by (simp add: lease_inv_def)
qed

text \<open>Ending a job and deleting its lock.\<close>

lemma lease_inv_end:
  assumes inv: "lease_inv d"
    and jobs: "release_jobs d' = update_where (\<lambda>j. jr_id j = i) f (release_jobs d)"
    and locks: "release_locks d' = filter (\<lambda>l. lk_job_id l \<noteq> i) (release_locks d)"
    and f: "\<And>j. jr_id (f j) = jr_id j" "\<And>j. terminal (jr_status (f j))"
  shows "lease_inv d'"
proof -
  have ids: "map jr_id (release_jobs d') = map jr_id (release_jobs d)"
    using jobs f by (simp add: map_update_where)
  have "run_view d' = {v \<in> run_view d. fst v \<noteq> i}"
    using f by (auto simp: run_view_def jobs set_update_where running_def)
  moreover have "lock_view d' = {v \<in> lock_view d. fst v \<noteq> i}"
    unfolding lock_view_def locks by (force simp: image_iff)
  moreover have "jr_status j = StatusQueued \<longrightarrow> jr_locked_by j = None" if "j \<in> set (release_jobs d')" for j
  proof -
    have "jr_status (f x) \<noteq> StatusQueued" for x using f(2) [of x] by auto
    with that inv show ?thesis by (auto simp: lease_inv_def jobs set_update_where)
  qed
  ultimately show ?thesis
    using inv ids locks by (simp add: lease_inv_def distinct_map_filter)
qed

text \<open>Taking the lock for a queued job.\<close>

lemma lease_inv_claim:
  assumes inv: "lease_inv d" and row: "row \<in> set (release_jobs d)" "jr_status row = StatusQueued"
    and jobs: "release_jobs d' = update_where (\<lambda>j. jr_id j = jr_id row) f (release_jobs d)"
    and locks: "release_locks d' = release_locks d @ [l]"
    and l: "lk_lock_key l = jr_lock_key row" "lk_job_id l = jr_id row"
    and free: "\<forall>k\<in>set (release_locks d). lk_lock_key k \<noteq> jr_lock_key row \<and> lk_job_id k \<noteq> jr_id row"
    and f: "\<And>j. jr_id (f j) = jr_id j" "\<And>j. jr_lock_key (f j) = jr_lock_key j"
      "\<And>j. jr_locked_by (f j) = Some (lk_worker_id l)" "\<And>j. running (jr_status (f j))"
  shows "lease_inv d'"
proof -
  have one: "x = row" if "x \<in> set (release_jobs d)" "jr_id x = jr_id row" for x
    using inv row(1) that distinct_key_unique [of jr_id "release_jobs d"] by (auto simp: lease_inv_def)
  then have only: "{j \<in> set (release_jobs d). jr_id j = jr_id row} = {row}" using row(1) by auto
  have set': "set (release_jobs d') = insert (f row) {j \<in> set (release_jobs d). jr_id j \<noteq> jr_id row}"
    unfolding jobs set_update_where only by auto
  have ids: "map jr_id (release_jobs d') = map jr_id (release_jobs d)"
    using jobs f by (simp add: map_update_where)
  let ?v = "(jr_id row, jr_lock_key row, Some (lk_worker_id l))"
  have "{j \<in> set (release_jobs d'). running (jr_status j)} =
      insert (f row) {j \<in> set (release_jobs d). running (jr_status j)}"
    using f(4) row one unfolding set' by (auto simp: running_def)
  then have "run_view d' = insert ?v (run_view d)"
    using f by (simp add: run_view_def)
  moreover have "lock_view d' = insert ?v (lock_view d)" by (simp add: lock_view_def locks l)
  moreover have "jr_status (f x) \<noteq> StatusQueued" for x using f(4) [of x] by (simp add: running_def)
  ultimately show ?thesis
    using inv ids locks l free unfolding lease_inv_def set' by auto
qed

lemma insert_lock_cases:
  assumes "insert_lock now key i w d = Inr (d1, n)"
  shows "(n = 0 \<and> d1 = d) \<or> (n = 1 \<and>
    d1 = d\<lparr>release_locks := release_locks d @ [\<lparr>lk_lock_key = key, lk_job_id = i, lk_worker_id = w,
      lk_acquired_at = now, lk_heartbeat_at = now\<rparr>]\<rparr> \<and>
    (\<forall>k\<in>set (release_locks d). lk_lock_key k \<noteq> key \<and> lk_job_id k \<noteq> i))"
  using assms by (auto simp: insert_lock_def split: if_splits)

lemma next_queued_Some:
  assumes "next_queued skip now r d = Some row"
  shows "row \<in> set (release_jobs d)" "eligible skip now r row"
    "\<And>j. j \<in> set (release_jobs d) \<Longrightarrow> eligible skip now r j \<Longrightarrow> queue_order row \<le> queue_order j"
proof -
  let ?q = "sort_key queue_order (filter (eligible skip now r) (release_jobs d))"
  obtain rest where q: "?q = row # rest"
    using assms by (auto simp: next_queued_def split: list.splits)
  have mem: "set ?q = {j \<in> set (release_jobs d). eligible skip now r j}" by simp
  then show "row \<in> set (release_jobs d)" "eligible skip now r row" using q by auto
  have "sorted (map queue_order (row # rest))" using sorted_sort_key [of queue_order] q by metis
  then show "queue_order row \<le> queue_order j"
    if "j \<in> set (release_jobs d)" "eligible skip now r j" for j
    using that mem q by (metis (no_types, lifting) dual_order.refl list.simps(9) mem_Collect_eq
        set_ConsD sorted_simps(2) image_eqI set_map)
qed

lemma scan_job_fields [simp]:
  "job_ID (scan_job j) = jr_id j" "job_LockKey (scan_job j) = jr_lock_key j"
  "job_Attempt (scan_job j) = jr_attempts j + 1" "job_Operation (scan_job j) = jr_operation j"
  by (simp_all add: scan_job_def)

text \<open>The four ways a claim can end, with the tables it leaves.\<close>

lemma ClaimJob_cases:
  assumes "ClaimJob skip now lockRetry s d = (d', res)"
  obtains (idle) e where "d' = d" "res = Inl e"
  | (busy) r row where "next_queued skip now r d = Some row" "res = Inl ErrLockBusy"
      "d' = defer_job now lockRetry (jr_id row) d" "\<exists>l\<in>set (release_locks d). lk_lock_key l = jr_lock_key row"
  | (rejected) r row d1 e where "next_queued skip now r d = Some row"
      "insert_lock now (jr_lock_key row) (jr_id row) (workerID s) d = Inr (d1, 1)"
      "load_dependencies d1 (scan_job row) = Inl e" "res = Inl (Wrap ''reject invalid queued job'' e)"
      "d' = reject_job now (jr_id row) e d1"
  | (claimed) r row d1 jb where
      "find (\<lambda>r. rn_worker_id r = runnerIdentity s) (runner_instances d) = Some r" "rn_active r" "runner_fresh now r"
      "next_queued skip now r d = Some row"
      "insert_lock now (jr_lock_key row) (jr_id row) (workerID s) d = Inr (d1, 1)"
      "load_dependencies d1 (scan_job row) = Inr jb" "res = Inr jb"
      "d' = mark_claimed now (jr_id row) (jr_attempts row + 1) (workerID s) d1"
proof (cases "runnerIdentity s = []")
  case True
  then have "d' = d" "\<exists>e. res = Inl e" using assms by (auto simp: ClaimJob_def)
  then show ?thesis using idle by blast
next
  case registered: False
  show ?thesis
  proof (cases "find (\<lambda>r. rn_worker_id r = runnerIdentity s) (runner_instances d)")
    case None
    then have "d' = d" "\<exists>e. res = Inl e" using assms registered by (auto simp: ClaimJob_def)
    then show ?thesis using idle by blast
  next
    case (Some r)
    show ?thesis
    proof (cases "rn_active r \<and> runner_fresh now r \<and> next_queued skip now r d \<noteq> None")
      case False
      then have "d' = d" "\<exists>e. res = Inl e"
        using assms registered Some by (auto simp: ClaimJob_def split: if_splits)
      then show ?thesis using idle by blast
    next
      case True
      then obtain row where row: "next_queued skip now r d = Some row" by auto
      let ?il = "insert_lock now (jr_lock_key row) (jr_id row) (workerID s) d"
      have eq: "(d', res) = (case ?il of
          Inl e \<Rightarrow> (d, Inl (Wrap ''acquire release lock'' e))
        | Inr (d1, n) \<Rightarrow>
            if n \<noteq> 1 then (defer_job now lockRetry (jr_id row) d1, Inl ErrLockBusy)
            else case load_dependencies d1 (scan_job row) of
              Inl e \<Rightarrow> (reject_job now (jr_id row) e d1, Inl (Wrap ''reject invalid queued job'' e))
            | Inr jb' \<Rightarrow>
                if rows_affected (\<lambda>j. jr_id j = jr_id row) (release_jobs d1) \<noteq> 1
                then (d, Inl (Wrap ''mark job claimed'' ErrLostLease))
                else (mark_claimed now (jr_id row) (jr_attempts row + 1) (workerID s) d1, Inr jb'))"
        using assms registered Some True row unfolding ClaimJob_def Let_def scan_job_fields by simp
      show ?thesis
      proof (cases ?il)
        case (Inl e)
        then show ?thesis using eq idle by simp
      next
        case (Inr p)
        obtain d1 n where p: "p = (d1, n)" by (cases p)
        consider (zero) "n = 0" "d1 = d" | (one) "n = 1"
          using insert_lock_cases [of now "jr_lock_key row" "jr_id row" "workerID s" d d1 n] Inr p by auto
        then show ?thesis
        proof cases
          case zero
          then have "\<exists>l\<in>set (release_locks d). lk_lock_key l = jr_lock_key row"
            using Inr p by (auto simp: insert_lock_def split: if_splits)
          then show ?thesis using busy [OF row] eq Inr p zero by simp
        next
          case one
          then have il: "?il = Inr (d1, 1)" using Inr p by simp
          show ?thesis
          proof (cases "load_dependencies d1 (scan_job row)")
            case (Inl e)
            then show ?thesis using rejected [OF row il Inl] eq il by simp
          next
            case (Inr jb)
            show ?thesis
            proof (cases "rows_affected (\<lambda>j. jr_id j = jr_id row) (release_jobs d1) \<noteq> 1")
              case True
              then show ?thesis using idle eq il Inr by simp
            next
              case False
              then show ?thesis using claimed [OF Some _ _ row il Inr] True eq il Inr by simp
            qed
          qed
        qed
      qed
    qed
  qed
qed

subsection \<open>The operations keep the invariant\<close>

lemma update_where_const [simp]: "update_where (\<lambda>_. False) f xs = xs"
  by (simp add: update_where_def)

lemma defer_inv: "lease_inv d \<Longrightarrow> lease_inv (defer_job now lr i d)"
  by (rule lease_inv_keep [of d _ "\<lambda>j. jr_id j = i" "\<lambda>j. j\<lparr>jr_available_at := now + milliseconds lr\<rparr>"])
    (simp_all add: defer_job_def lock_view_def)

lemma fail_stale_inv: "lease_inv d \<Longrightarrow> lease_inv (fail_stale now i d)"
  by (erule lease_inv_end [of d _ i "stale_row now"]) (simp_all add: fail_stale_def stale_row_def)

lemma reject_inv:
  assumes "lease_inv d" "release_jobs d1 = release_jobs d"
    and "release_locks d1 = release_locks d @ [l]" "lk_job_id l = i"
    and "\<forall>k\<in>set (release_locks d). lk_job_id k \<noteq> i"
  shows "lease_inv (reject_job now i e d1)"
proof -
  have "filter (\<lambda>l. lk_job_id l \<noteq> i) (release_locks d1) = filter (\<lambda>l. lk_job_id l \<noteq> i) (release_locks d)"
    using assms(3,4) by simp
  then show ?thesis
    using assms(2) by (intro lease_inv_end [OF assms(1), of _ i "reject_row now e"])
      (simp_all add: reject_job_def reject_row_def)
qed

lemma ClaimJob_inv:
  assumes inv: "lease_inv d" and c: "ClaimJob skip now lockRetry s d = (d', res)"
  shows "lease_inv d'"
  using c
proof (cases rule: ClaimJob_cases)
  case idle
  then show ?thesis using inv by simp
next
  case busy
  then show ?thesis using inv by (simp add: defer_inv)
next
  case (rejected r row d1 e)
  then show ?thesis
    using insert_lock_cases [OF rejected(2)] inv by (auto intro!: reject_inv [of d])
next
  case (claimed r row d1 jb)
  let ?l = "\<lparr>lk_lock_key = jr_lock_key row, lk_job_id = jr_id row, lk_worker_id = workerID s,
      lk_acquired_at = now, lk_heartbeat_at = now\<rparr>"
  have d1: "d1 = d\<lparr>release_locks := release_locks d @ [?l]\<rparr>"
    and free: "\<forall>k\<in>set (release_locks d). lk_lock_key k \<noteq> jr_lock_key row \<and> lk_job_id k \<noteq> jr_id row"
    using insert_lock_cases [OF claimed(5)] by auto
  have row: "row \<in> set (release_jobs d)" "jr_status row = StatusQueued"
    using next_queued_Some(1,2) [OF claimed(4)] by (simp_all add: eligible_def)
  show ?thesis
    by (rule lease_inv_claim [OF inv row, of d' "claim_row now (jr_attempts row + 1) (workerID s)" ?l])
      (use free in \<open>simp_all add: claimed(8) d1 mark_claimed_def claim_row_def running_def\<close>)
qed

lemma fold_fail_stale_inv: "lease_inv d \<Longrightarrow> lease_inv (fold (fail_stale now) ids d)"
  by (induction ids arbitrary: d) (simp_all add: fail_stale_inv)

lemma RecoverStaleJobs_inv:
  "lease_inv d \<Longrightarrow> lease_inv (fst (RecoverStaleJobs skip now sa d))"
  by (simp add: RecoverStaleJobs_def Let_def fold_fail_stale_inv)

lemma lock_heartbeat_view:
  "(\<lambda>l. (lk_job_id l, lk_lock_key l, Some (lk_worker_id l))) `
     set (update_where P (\<lambda>l. l\<lparr>lk_heartbeat_at := now\<rparr>) ls) =
   (\<lambda>l. (lk_job_id l, lk_lock_key l, Some (lk_worker_id l))) ` set ls"
  unfolding set_map [symmetric] by (simp add: map_update_where)

lemma Heartbeat_inv:
  assumes "lease_inv d"
  shows "lease_inv (fst (Heartbeat now s i d))"
proof (cases "fst (Heartbeat now s i d) = d")
  case False
  let ?P = "lease_row i (workerID s)" and ?f = "\<lambda>j. j\<lparr>jr_heartbeat_at := Some now\<rparr>"
  have t: "release_jobs (fst (Heartbeat now s i d)) = update_where ?P ?f (release_jobs d)"
    "release_locks (fst (Heartbeat now s i d)) =
      update_where (lock_of i (workerID s)) (\<lambda>l. l\<lparr>lk_heartbeat_at := now\<rparr>) (release_locks d)"
    using False by (auto simp: Heartbeat_def Let_def split: if_splits)
  show ?thesis
    by (rule lease_inv_keep [OF assms t(1)])
      (simp_all add: t map_update_where lock_view_def lock_heartbeat_view)
qed (simp add: assms)

text \<open>A job that is locked is not queued any more.\<close>

lemma lease_row_running:
  "lease_inv d \<Longrightarrow> j \<in> set (release_jobs d) \<Longrightarrow> lease_row i w j \<Longrightarrow> running (jr_status j)"
  by (auto simp: lease_inv_def lease_row_def running_def)

lemma BeginStep_tables:
  assumes "BeginStep now s i st d = (d', res)" "d' \<noteq> d"
  shows "release_jobs d' = update_where (lease_row i (workerID s))
      (\<lambda>j. j\<lparr>jr_status := st, jr_updated_at := Some now\<rparr>) (release_jobs d)"
    "release_locks d' = release_locks d" "release_job_logs d' = release_job_logs d"
    "release_images d' = release_images d"
    "\<exists>r. release_job_steps d' = release_job_steps d @ [r] \<and> sr_job_id r = i"
    "rows_affected (lease_row i (workerID s)) (release_jobs d) = 1"
  using assms by (auto simp: BeginStep_def Let_def insert_step_def split: if_splits option.splits)

lemma BeginStep_inv:
  assumes "lease_inv d" "running st"
  shows "lease_inv (fst (BeginStep now s i st d))"
proof (cases "fst (BeginStep now s i st d) = d")
  case False
  obtain d' res where b: "BeginStep now s i st d = (d', res)" by fastforce
  note t = BeginStep_tables [OF b] False [simplified b, simplified]
  show ?thesis
    unfolding b fst_conv
    by (rule lease_inv_keep [OF assms(1) t(1)])
      (use t assms lease_row_running [OF assms(1)] in \<open>auto simp: lock_view_def running_def\<close>)
qed (simp add: assms)

lemma executeLeaseMutation_fst:
  "fst (executeLeaseMutation a r d) = (case r of Inl e \<Rightarrow> d | Inr (d', n) \<Rightarrow> d')"
  by (simp add: executeLeaseMutation_def split: sum.splits)

lemma FinishStep_tables [simp]:
  "release_jobs (fst (FinishStep now s st ok r d)) = release_jobs d"
  "release_locks (fst (FinishStep now s st ok r d)) = release_locks d"
  "release_job_logs (fst (FinishStep now s st ok r d)) = release_job_logs d"
  "release_images (fst (FinishStep now s st ok r d)) = release_images d"
  by (simp_all add: FinishStep_def executeLeaseMutation_fst finishStepSQL_def Let_def)

lemma AppendLog_tables [simp]:
  "release_jobs (fst (AppendLog now s d i st str q p)) = release_jobs d"
  "release_locks (fst (AppendLog now s d i st str q p)) = release_locks d"
  "release_job_steps (fst (AppendLog now s d i st str q p)) = release_job_steps d"
  "release_images (fst (AppendLog now s d i st str q p)) = release_images d"
  by (simp_all add: AppendLog_def executeLeaseMutation_fst appendLogSQL_def)

lemma RecordImage_tables [simp]:
  "release_jobs (fst (RecordImage now s i img d)) = release_jobs d"
  "release_locks (fst (RecordImage now s i img d)) = release_locks d"
  "release_job_steps (fst (RecordImage now s i img d)) = release_job_steps d"
  "release_job_logs (fst (RecordImage now s i img d)) = release_job_logs d"
  by (simp_all add: RecordImage_def executeLeaseMutation_fst recordImageSQL_def Let_def)

lemma syncDeploymentHead_tables:
  assumes "syncDeploymentHeadSQL now i st d = Inr (d', n)"
  shows "release_jobs d' = release_jobs d" "release_locks d' = release_locks d"
    "release_job_steps d' = release_job_steps d" "release_job_logs d' = release_job_logs d"
    "release_images d' = release_images d" "releases d' = releases d"
  using assms by (auto simp: syncDeploymentHeadSQL_def upsert_head_def Let_def
      split: list.splits sum.splits prod.splits if_splits)

lemma FinishJob_cases:
  assumes "FinishJob now s i st failure d = (d', err)"
  obtains (failed) e where "d' = d" "err = Some e"
  | (finished) d2 d3 where "err = None" "terminal st" "holds_lock d i (workerID s)"
      "rows_affected (lease_row i (workerID s)) (release_jobs d) = 1"
      "d2 = sync_release now i (status_text st)
         (update_jobs (lease_row i (workerID s)) (finish_row now st failure) d)"
      "if st = StatusSuccess \<or> st = StatusRolledBack
       then syncDeploymentHeadSQL now i st d2 = Inr (d3, 1) else d3 = d2"
      "d' = delete_locks (lock_of i (workerID s)) d3"
proof (cases err)
  case (Some e)
  then show ?thesis using failed assms
    by (auto simp: FinishJob_def Let_def split: if_splits prod.splits option.splits)
next
  case None
  let ?w = "workerID s"
  let ?P = "\<lambda>j. lease_row i ?w j \<and> holds_lock d i ?w"
  have n: "rows_affected ?P (release_jobs d) = 1" and t: "terminal st"
    using assms None by (auto simp: FinishJob_def Let_def terminal_def split: if_splits)
  have h: "holds_lock d i ?w" using rows_affected_1 [OF n] by blast
  then have P: "?P = lease_row i ?w" by auto
  define d2 where "d2 = sync_release now i (status_text st) (update_jobs (lease_row i ?w) (finish_row now st failure) d)"
  obtain d3 where d3: "if st = StatusSuccess \<or> st = StatusRolledBack
       then syncDeploymentHeadSQL now i st d2 = Inr (d3, 1) else d3 = d2"
      "d' = delete_locks (lock_of i ?w) d3"
    using assms None n t unfolding FinishJob_def Let_def P d2_def [symmetric]
    by (auto simp: executeLeaseMutation_def terminal_def split: if_splits prod.splits option.splits sum.splits)
  show ?thesis using finished [OF None t h _ d2_def d3] n unfolding P by simp
qed

lemma FinishJob_tables:
  assumes "FinishJob now s i st failure d = (d', None)"
  shows "release_jobs d' = update_where (lease_row i (workerID s)) (finish_row now st failure) (release_jobs d)"
    "release_locks d' = filter (\<lambda>l. \<not> lock_of i (workerID s) l) (release_locks d)"
    "release_job_steps d' = release_job_steps d" "release_job_logs d' = release_job_logs d"
    "release_images d' = release_images d" "terminal st" "holds_lock d i (workerID s)"
    "rows_affected (lease_row i (workerID s)) (release_jobs d) = 1"
  using assms
  by (cases rule: FinishJob_cases; auto dest: syncDeploymentHead_tables split: if_splits)+

text \<open>Under the invariant the worker that holds the lease is the only one with a lock on the job.\<close>

lemma lease_unique:
  assumes "lease_inv d" "j \<in> set (release_jobs d)" "lease_row i w j"
  shows "\<And>j'. j' \<in> set (release_jobs d) \<Longrightarrow> (lease_row i w j' \<longleftrightarrow> jr_id j' = i)"
    and "\<And>l. l \<in> set (release_locks d) \<Longrightarrow> (lock_of i w l \<longleftrightarrow> lk_job_id l = i)"
    and "holds_lock d i w"
proof -
  have one: "j' = j" if "j' \<in> set (release_jobs d)" "jr_id j' = i" for j'
    using assms that distinct_key_unique [of jr_id "release_jobs d" j' j]
    by (simp add: lease_inv_def lease_row_def)
  then show "\<And>j'. j' \<in> set (release_jobs d) \<Longrightarrow> (lease_row i w j' \<longleftrightarrow> jr_id j' = i)"
    using assms(3) by (auto simp: lease_row_def)
  have "running (jr_status j)" using lease_row_running [OF assms] .
  then have "(jr_id j, jr_lock_key j, jr_locked_by j) \<in> run_view d"
    using assms(2) by (simp add: run_view_def)
  then have "(i, jr_lock_key j, Some w) \<in> lock_view d"
    using assms by (simp add: lease_inv_def lease_row_def)
  then obtain l0 where l0: "l0 \<in> set (release_locks d)" "lk_job_id l0 = i" "lk_worker_id l0 = w"
    by (auto simp: lock_view_def)
  then show "holds_lock d i w" by (auto simp: holds_lock_def lock_of_def)
  have dist: "distinct (map lk_job_id (release_locks d))" using assms(1) by (simp add: lease_inv_def)
  show "lock_of i w l \<longleftrightarrow> lk_job_id l = i" if "l \<in> set (release_locks d)" for l
  proof
    assume "lk_job_id l = i"
    then have "l = l0" using distinct_key_unique [OF dist that l0(1)] l0(2) by simp
    then show "lock_of i w l" using l0 by (simp add: lock_of_def)
  qed (simp add: lock_of_def)
qed

lemma update_where_cong: "(\<And>x. x \<in> set xs \<Longrightarrow> P x = Q x) \<Longrightarrow> update_where P f xs = update_where Q f xs"
  by (simp add: update_where_def)

lemma FinishJob_inv:
  assumes "lease_inv d"
  shows "lease_inv (fst (FinishJob now s i st failure d))"
proof -
  obtain d' err where f: "FinishJob now s i st failure d = (d', err)" by fastforce
  show ?thesis
  proof (cases err)
    case (Some e)
    have "d' = d" using f Some by (cases rule: FinishJob_cases) auto
    then show ?thesis using f assms by simp
  next
    case None
    note t = FinishJob_tables [OF f [unfolded None]]
    obtain j where j: "j \<in> set (release_jobs d)" "lease_row i (workerID s) j"
      using rows_affected_1 [OF t(8)] by blast
    note u = lease_unique [OF assms j]
    have "release_jobs d' = update_where (\<lambda>j. jr_id j = i) (finish_row now st failure) (release_jobs d)"
      using t(1) u(1) by (simp cong: update_where_cong)
    moreover have "release_locks d' = filter (\<lambda>l. lk_job_id l \<noteq> i) (release_locks d)"
      using t(2) u(2) by (simp cong: filter_cong)
    ultimately show ?thesis
      unfolding f fst_conv
      by (rule lease_inv_end [OF assms]) (use t(6) in \<open>simp_all add: finish_row_def\<close>)
  qed
qed

subsection \<open>Every sequence of operations\<close>

text \<open>
  A step of the system: the control plane queues a job or changes its own tables, or some runner
  performs an operation. \<open>BeginStep\<close> is called with the states of the pipeline only.
\<close>

inductive store_step :: "db \<Rightarrow> db \<Rightarrow> bool" where
  enqueue: "jr_id j \<notin> set (map jr_id (release_jobs d)) \<Longrightarrow> jr_status j = StatusQueued \<Longrightarrow>
     jr_locked_by j = None \<Longrightarrow> store_step d (d\<lparr>release_jobs := release_jobs d @ [j]\<rparr>)"
| control_plane: "release_jobs d' = release_jobs d \<Longrightarrow> release_locks d' = release_locks d \<Longrightarrow>
     release_job_steps d' = release_job_steps d \<Longrightarrow> release_job_logs d' = release_job_logs d \<Longrightarrow>
     release_images d' = release_images d \<Longrightarrow> store_step d d'"
| recover: "store_step d (fst (RecoverStaleJobs skip now staleAfter d))"
| claim: "store_step d (fst (ClaimJob skip now lockRetry s d))"
| heartbeat: "store_step d (fst (Heartbeat now s jobID d))"
| begin_step: "running st \<Longrightarrow> store_step d (fst (BeginStep now s jobID st d))"
| finish_step: "store_step d (fst (FinishStep now s step ok result d))"
| append_log: "store_step d (fst (AppendLog now s d jobID stepID stream sequence payload))"
| record_image: "store_step d (fst (RecordImage now s jobID img d))"
| finish_job: "store_step d (fst (FinishJob now s jobID st failure d))"

inductive store_reachable :: "db \<Rightarrow> bool" where
  initial: "release_jobs d = [] \<Longrightarrow> release_locks d = [] \<Longrightarrow> store_reachable d"
| next_op: "store_reachable d \<Longrightarrow> store_step d d' \<Longrightarrow> store_reachable d'"

lemma enqueue_inv:
  assumes "lease_inv d" "jr_id j \<notin> set (map jr_id (release_jobs d))" "jr_status j = StatusQueued"
    "jr_locked_by j = None"
  shows "lease_inv (d\<lparr>release_jobs := release_jobs d @ [j]\<rparr>)"
proof -
  have "run_view (d\<lparr>release_jobs := release_jobs d @ [j]\<rparr>) = run_view d"
    using assms(3) by (auto simp: run_view_def running_def)
  then show ?thesis using assms by (auto simp: lease_inv_def lock_view_def)
qed

lemma lease_inv_step: "store_step d d' \<Longrightarrow> lease_inv d \<Longrightarrow> lease_inv d'"
proof (induction rule: store_step.induct)
  case (enqueue j d)
  then show ?case by (intro enqueue_inv)
next
  case (control_plane d' d)
  then show ?case using lease_inv_cong [of d' d] by simp
next
  case (claim d skip now lockRetry s)
  then show ?case using ClaimJob_inv [OF claim prod.collapse [symmetric]] by simp
next
  case (finish_step d now s step ok result)
  then show ?case by (subst lease_inv_cong [of _ d]) simp_all
next
  case (append_log d now s jobID stepID stream sequence payload)
  then show ?case by (subst lease_inv_cong [of _ d]) simp_all
next
  case (record_image d now s jobID img)
  then show ?case by (subst lease_inv_cong [of _ d]) simp_all
qed (simp_all only: RecoverStaleJobs_inv Heartbeat_inv BeginStep_inv FinishJob_inv)

lemma lease_inv_reachable: "store_reachable d \<Longrightarrow> lease_inv d"
proof (induction rule: store_reachable.induct)
  case (initial d)
  then show ?case by (simp add: lease_inv_def lock_view_def run_view_def)
next
  case (next_op d d')
  then show ?case by (blast intro: lease_inv_step)
qed

subsection \<open>A concrete system\<close>

text \<open>One runner, one profile with an approved script, one release and its queued job.\<close>

definition demo_profile :: profile_row where
  "demo_profile =
     \<lparr>pf_id = ''p1'', pf_name = ''prod'',
      pf_extraction = \<lparr>MaxArchiveBytes = 1000, MaxExtractedBytes = 1000, MaxFiles = 10, MaxImages = 2,
        AllowSymlinks = False\<rparr>,
      pf_runtime_kind = ''docker'', pf_runtime_binary_path = ''/usr/bin/docker'',
      pf_containerd_namespace = ''default'', pf_registry_url = ''https://r'', pf_registry_host = ''r'',
      pf_registry_project = ''p'', pf_registry_insecure = False, pf_registry_ca_pem = [],
      pf_registry_credential_id = None, pf_health_checks = Some [], pf_command_timeout_seconds = 60,
      pf_max_log_bytes = 1000, pf_auto_rollback = False, pf_cleanup_workspace = True,
      pf_keep_failed_workspace = False, pf_active = True, pf_revoked_at = None\<rparr>"

definition demo_job :: job_row where
  "demo_job =
     \<lparr>jr_id = ''j1'', jr_release_id = ''r1'', jr_rollback_source_release_id = None,
      jr_rollback_source_job_id = None, jr_target_credential_id = None,
      jr_target_credential_version = None, jr_application = ''shop'', jr_version = ''1.2.0'',
      jr_environment = ''prod'', jr_lock_key = ''shop/prod'', jr_artifact_path = ''/a/shop.tar.gz'',
      jr_expected_sha256 = [], jr_manifest_path = ''manifest.yaml'', jr_operation = OperationDeploy,
      jr_attempts = 0, jr_profile_id = ''p1'', jr_status = StatusQueued, jr_available_at = 0,
      jr_runner_labels = [], jr_priority = 0, jr_created_at = 0, jr_locked_by = None,
      jr_locked_at = None, jr_heartbeat_at = None, jr_started_at = None, jr_finished_at = None,
      jr_updated_at = None, jr_failure_message = None\<rparr>"

definition demo_empty :: db where
  "demo_empty =
     \<lparr>release_jobs = [], release_locks = [], release_job_steps = [], next_step_id = 1,
      release_job_logs = [], release_images = [],
      releases = [\<lparr>rl_id = ''r1'', rl_application_id = ''a1'', rl_environment_id = ''e1'',
        rl_status = ''QUEUED'', rl_updated_at = 0\<rparr>],
      runner_instances = [\<lparr>rn_id = ''u'', rn_worker_id = ''host'', rn_name = ''host'',
        rn_address = ''10.0.0.1'', rn_labels = [], rn_max_concurrent_jobs = 1, rn_active = True,
        rn_managed_by_runner = True, rn_last_heartbeat_at = Some 1000, rn_updated_at = None\<rparr>],
      deployment_heads = [], target_credentials = [], runner_credentials = [],
      deployment_profiles = [demo_profile],
      script_versions = [\<lparr>sv_id = ''s1'', sv_name = ''deploy'', sv_version = 1,
        sv_interpreter_path = ''/bin/sh'', sv_sha256 = [], sv_content = ''true'',
        sv_timeout_seconds = None, sv_approved_at = Some 1, sv_revoked_at = None\<rparr>],
      deployment_profile_scripts = [\<lparr>ps_profile_id = ''p1'', ps_phase = ''DEPLOY'',
        ps_execution_order = 0, ps_script_version_id = ''s1'', ps_args = Some [],
        ps_timeout_seconds = None\<rparr>],
      runner_settings = []\<rparr>"

definition demo_store :: pg_store where
  "demo_store = \<lparr>workerID = ''w1'', runnerIdentity = ''host''\<rparr>"

definition demo_queued :: db where
  "demo_queued = demo_empty\<lparr>release_jobs := [demo_job]\<rparr>"

definition demo_claimed :: db where
  "demo_claimed = fst (ClaimJob (\<lambda>_. False) 2000 5000000000 demo_store demo_queued)"

definition demo_deploying :: db where
  "demo_deploying = fst (BeginStep 3000 demo_store ''j1'' StatusDeploying demo_claimed)"

definition demo_finished :: db where
  "demo_finished = fst (FinishJob 4000 demo_store ''j1'' StatusSuccess [] demo_deploying)"

lemma demo_queued_reachable: "store_reachable demo_queued"
proof -
  have "store_reachable demo_empty" by (rule store_reachable.initial) (simp_all add: demo_empty_def)
  moreover have "store_step demo_empty (demo_empty\<lparr>release_jobs := release_jobs demo_empty @ [demo_job]\<rparr>)"
    by (rule store_step.enqueue) (simp_all add: demo_empty_def demo_job_def)
  ultimately show ?thesis
    by (auto dest: store_reachable.next_op simp: demo_queued_def demo_empty_def)
qed

lemma demo_claimed_reachable: "store_reachable demo_claimed"
  unfolding demo_claimed_def by (rule store_reachable.next_op [OF demo_queued_reachable store_step.claim])

lemma demo_deploying_reachable: "store_reachable demo_deploying"
  unfolding demo_deploying_def
  by (rule store_reachable.next_op [OF demo_claimed_reachable store_step.begin_step]) (simp add: running_def)

lemma demo_finished_reachable: "store_reachable demo_finished"
  unfolding demo_finished_def
  by (rule store_reachable.next_op [OF demo_deploying_reachable store_step.finish_job])

subsection \<open>Mutual exclusion\<close>

text \<open>
  C1 (one_running_job_per_target): in every state that any number of runners and the control plane
  can reach, two jobs that are running on the same deployment target (lock key) are the same job, and
  exactly one worker holds its lock.
\<close>

theorem one_running_job_per_target:
  assumes "store_reachable d" "j \<in> set (release_jobs d)" "k \<in> set (release_jobs d)"
    and "running (jr_status j)" "running (jr_status k)" "jr_lock_key j = jr_lock_key k"
  shows "j = k \<and> (\<exists>!l. l \<in> set (release_locks d) \<and> lk_job_id l = jr_id j \<and>
    lk_lock_key l = jr_lock_key j \<and> jr_locked_by j = Some (lk_worker_id l))"
proof -
  note inv = lease_inv_reachable [OF assms(1)]
  have lock: "\<exists>l\<in>set (release_locks d). lk_job_id l = jr_id x \<and> lk_lock_key l = jr_lock_key x \<and>
      jr_locked_by x = Some (lk_worker_id l)"
    if "x \<in> set (release_jobs d)" "running (jr_status x)" for x
  proof -
    have "(jr_id x, jr_lock_key x, jr_locked_by x) \<in> lock_view d"
      using that inv by (auto simp: lease_inv_def run_view_def)
    then show ?thesis by (auto simp: lock_view_def)
  qed
  obtain l m where l: "l \<in> set (release_locks d)" "lk_job_id l = jr_id j" "lk_lock_key l = jr_lock_key j"
      "jr_locked_by j = Some (lk_worker_id l)"
    and m: "m \<in> set (release_locks d)" "lk_job_id m = jr_id k" "lk_lock_key m = jr_lock_key k"
    using lock [OF assms(2,4)] lock [OF assms(3,5)] by blast
  have keys: "distinct (map lk_lock_key (release_locks d))" and ids: "distinct (map jr_id (release_jobs d))"
    using inv by (simp_all add: lease_inv_def)
  have "l = m" using distinct_key_unique [OF keys l(1) m(1)] l(3) m(3) assms(6) by simp
  then have "j = k" using distinct_key_unique [OF ids assms(2,3)] l(2) m(2) by simp
  moreover have "l' = l" if "l' \<in> set (release_locks d)" "lk_lock_key l' = jr_lock_key j" for l'
    using distinct_key_unique [OF keys that(1) l(1)] that(2) l(3) by simp
  ultimately show ?thesis using l by blast
qed

theorem one_running_job_per_target_witness:
  "store_reachable demo_claimed \<and> running (jr_status (hd (release_jobs demo_claimed))) \<and>
   (\<exists>!l. l \<in> set (release_locks demo_claimed) \<and> lk_job_id l = ''j1'' \<and> lk_lock_key l = ''shop/prod'' \<and>
     ''w1'' = lk_worker_id l)"
proof -
  let ?j = "hd (release_jobs demo_claimed)"
  have r: "running (jr_status ?j)" "release_jobs demo_claimed \<noteq> []" "jr_id ?j = ''j1''"
    "jr_lock_key ?j = ''shop/prod''" "jr_locked_by ?j = Some ''w1''" by code_simp+
  then have "?j \<in> set (release_jobs demo_claimed)" by simp
  from one_running_job_per_target [OF demo_claimed_reachable this this r(1) r(1) refl] r
  show ?thesis using demo_claimed_reachable by simp
qed

subsection \<open>A finished job stays as it is\<close>

text \<open>Everything the store keeps about a job.\<close>

definition job_record :: "db \<Rightarrow> string \<Rightarrow> step_row list \<times> log_entry list \<times> image_row list" where
  "job_record d i = (filter (\<lambda>s. sr_job_id s = i) (release_job_steps d),
     filter (\<lambda>l. lg_job_id l = i) (release_job_logs d), filter (\<lambda>r. ir_job_id r = i) (release_images d))"

definition frozen :: "db \<Rightarrow> db \<Rightarrow> job_row \<Rightarrow> bool" where
  "frozen d d' j \<longleftrightarrow> j \<in> set (release_jobs d') \<and> job_record d' (jr_id j) = job_record d (jr_id j)"

lemma frozenI:
  assumes "j \<in> set (release_jobs d')" "release_job_steps d' = release_job_steps d"
    "release_job_logs d' = release_job_logs d" "release_images d' = release_images d"
  shows "frozen d d' j"
  using assms by (simp add: frozen_def job_record_def)

lemma mem_update_where: "x \<in> set xs \<Longrightarrow> \<not> P x \<Longrightarrow> x \<in> set (update_where P f xs)"
  by (simp add: set_update_where)

text \<open>The lease of another job is not the lease of a job that is over.\<close>

lemma owns_job_other:
  assumes "lease_inv d" "j \<in> set (release_jobs d)" "terminal (jr_status j)" "owns_job d i w"
  shows "i \<noteq> jr_id j"
proof
  assume "i = jr_id j"
  obtain k where "k \<in> set (release_jobs d)" "lease_row i w k" using assms(4) by (auto simp: owns_job_def)
  moreover from this have "k = j"
    using assms(1,2) \<open>i = jr_id j\<close> distinct_key_unique [of jr_id "release_jobs d" k j]
    by (simp add: lease_inv_def lease_row_def)
  ultimately show False using assms(3) by (simp add: lease_row_def)
qed

lemma filter_update_where_other:
  "(\<And>x. P x \<Longrightarrow> \<not> Q x \<and> \<not> Q (f x)) \<Longrightarrow> filter Q (update_where P f xs) = filter Q xs"
  by (induction xs) (auto simp: update_where_def)

lemma FinishStep_frozen:
  assumes "lease_inv d" "j \<in> set (release_jobs d)" "terminal (jr_status j)"
  shows "frozen d (fst (FinishStep now s st ok r d)) j"
proof -
  let ?Q = "\<lambda>x. sr_job_id x = jr_id j"
  have "filter ?Q (release_job_steps (fst (FinishStep now s st ok r d))) = filter ?Q (release_job_steps d)"
    using owns_job_other [OF assms, of "step_JobID st" "workerID s"]
    by (auto simp: FinishStep_def executeLeaseMutation_fst finishStepSQL_def Let_def
        intro!: filter_update_where_other)
  then show ?thesis using assms(2) by (simp add: frozen_def job_record_def)
qed

lemma AppendLog_frozen:
  assumes "lease_inv d" "j \<in> set (release_jobs d)" "terminal (jr_status j)"
  shows "frozen d (fst (AppendLog now s d i st str q p)) j"
proof -
  let ?Q = "\<lambda>x. lg_job_id x = jr_id j"
  have "filter ?Q (release_job_logs (fst (AppendLog now s d i st str q p))) = filter ?Q (release_job_logs d)"
    using owns_job_other [OF assms, of i "workerID s"]
    by (auto simp: AppendLog_def executeLeaseMutation_fst appendLogSQL_def)
  then show ?thesis using assms(2) by (simp add: frozen_def job_record_def)
qed

lemma RecordImage_frozen:
  assumes "lease_inv d" "j \<in> set (release_jobs d)" "terminal (jr_status j)"
  shows "frozen d (fst (RecordImage now s i img d)) j"
proof -
  let ?Q = "\<lambda>x. ir_job_id x = jr_id j"
  have "filter ?Q (release_images (fst (RecordImage now s i img d))) = filter ?Q (release_images d)"
    using owns_job_other [OF assms, of i "workerID s"]
    by (auto simp: RecordImage_def executeLeaseMutation_fst recordImageSQL_def Let_def
        intro!: filter_update_where_other)
  then show ?thesis using assms(2) by (simp add: frozen_def job_record_def)
qed

lemma fail_stale_tables:
  "release_jobs (fail_stale now i d) = update_where (\<lambda>j. jr_id j = i) (stale_row now) (release_jobs d)"
  "release_job_steps (fail_stale now i d) = release_job_steps d"
  "release_job_logs (fail_stale now i d) = release_job_logs d"
  "release_images (fail_stale now i d) = release_images d"
  "release_locks (fail_stale now i d) = filter (\<lambda>l. lk_job_id l \<noteq> i) (release_locks d)"
  by (simp_all add: fail_stale_def)

lemma fold_fail_stale_frozen:
  assumes "j \<in> set (release_jobs d)" "jr_id j \<notin> set ids"
  shows "frozen d (fold (fail_stale now) ids d) j"
  using assms
proof (induction ids arbitrary: d)
  case Nil
  then show ?case by (simp add: frozenI)
next
  case (Cons i ids)
  let ?d = "fail_stale now i d"
  have "j \<in> set (release_jobs ?d)" using Cons.prems by (simp add: fail_stale_tables mem_update_where)
  from Cons.IH [OF this] Cons.prems(2) show ?case
    by (simp add: frozen_def job_record_def fail_stale_tables)
qed

lemma RecoverStaleJobs_frozen:
  assumes "lease_inv d" "j \<in> set (release_jobs d)" "terminal (jr_status j)"
  shows "frozen d (fst (RecoverStaleJobs skip now sa d)) j"
proof -
  have "jr_id j \<notin> jr_id ` {k \<in> set (release_jobs d). stale_job skip now sa k}"
    using assms distinct_key_unique [of jr_id "release_jobs d"]
    by (auto simp: lease_inv_def stale_job_def)
  then show ?thesis
    using assms(2) fold_fail_stale_frozen [OF assms(2)]
    by (simp add: RecoverStaleJobs_def Let_def frozenI)
qed

lemma ClaimJob_frozen:
  assumes inv: "lease_inv d" "j \<in> set (release_jobs d)" "terminal (jr_status j)"
    and c: "ClaimJob skip now lr s d = (d', res)"
  shows "frozen d d' j"
proof -
  have other: "jr_id j \<noteq> jr_id row" if "next_queued skip now r d = Some row" for r row
    using next_queued_Some(1,2) [OF that] inv distinct_key_unique [of jr_id "release_jobs d" j row]
    by (auto simp: lease_inv_def eligible_def)
  from c show ?thesis
  proof (cases rule: ClaimJob_cases)
    case idle
    then show ?thesis using inv by (simp add: frozenI)
  next
    case (busy r row)
    then show ?thesis using inv other [OF busy(1)]
      by (intro frozenI) (simp_all add: defer_job_def mem_update_where)
  next
    case (rejected r row d1 e)
    then show ?thesis using inv other [OF rejected(1)] insert_lock_cases [OF rejected(2)]
      by (intro frozenI) (auto simp: reject_job_def mem_update_where)
  next
    case (claimed r row d1 jb)
    then show ?thesis using inv other [OF claimed(4)] insert_lock_cases [OF claimed(5)]
      by (intro frozenI) (auto simp: mark_claimed_def mem_update_where)
  qed
qed

lemma BeginStep_frozen:
  assumes inv: "lease_inv d" "j \<in> set (release_jobs d)" "terminal (jr_status j)"
  shows "frozen d (fst (BeginStep now s i st d)) j"
proof (cases "fst (BeginStep now s i st d) = d")
  case True
  then show ?thesis using inv by (simp add: frozenI)
next
  case False
  obtain d' res where b: "BeginStep now s i st d = (d', res)" by fastforce
  note t = BeginStep_tables [OF b False [unfolded b fst_conv]]
  obtain k where k: "k \<in> set (release_jobs d)" "lease_row i (workerID s) k"
    using rows_affected_1 [OF t(6)] by blast
  have "i \<noteq> jr_id j"
    using owns_job_other [OF inv, of i "workerID s"] k lease_unique(3) [OF inv(1) k]
    by (auto simp: owns_job_def)
  then show ?thesis using t inv b
    by (auto simp: frozen_def job_record_def mem_update_where lease_row_def)
qed

lemma Heartbeat_frozen:
  assumes "j \<in> set (release_jobs d)" "terminal (jr_status j)"
  shows "frozen d (fst (Heartbeat now s i d)) j"
  using assms by (intro frozenI) (auto simp: Heartbeat_def Let_def mem_update_where lease_row_def)

lemma FinishJob_frozen:
  assumes "j \<in> set (release_jobs d)" "terminal (jr_status j)"
  shows "frozen d (fst (FinishJob now s i st failure d)) j"
proof -
  obtain d' err where f: "FinishJob now s i st failure d = (d', err)" by fastforce
  show ?thesis
  proof (cases err)
    case (Some e)
    have "d' = d" using f Some by (cases rule: FinishJob_cases) auto
    then show ?thesis using f assms by (simp add: frozenI)
  next
    case None
    note t = FinishJob_tables [OF f [unfolded None]]
    show ?thesis unfolding f fst_conv
      by (rule frozenI) (use t assms in \<open>simp_all add: mem_update_where lease_row_def\<close>)
  qed
qed



subsection \<open>A lost lease is fenced\<close>

lemma no_lease_row:
  assumes "lease_inv d" "\<not> owns_job d i w"
  shows "rows_affected (lease_row i w) (release_jobs d) = 0"
  using assms lease_unique(3) [OF assms(1)] by (intro rows_affected_0) (auto simp: owns_job_def)

text \<open>
  C6 (lost_lease_is_fenced): in every reachable state, a runner that does not own a job (it was
  recovered as stale, finished, or claimed by another worker) gets \<open>ErrLostLease\<close> from every call that
  would change something about that job, and the database stays as it is.
\<close>

theorem lost_lease_is_fenced:
  assumes "store_reachable d" "\<not> owns_job d i (workerID s)" "terminal fin" "step_JobID st = i"
  shows "Heartbeat now s i d = (d, Some ErrLostLease) \<and>
    BeginStep now s i status d = (d, Inl ErrLostLease) \<and>
    FinishStep now s st ok r d = (d, Some ErrLostLease) \<and>
    AppendLog now s d i stepID stream sequence payload = (d, Some ErrLostLease) \<and>
    RecordImage now s i img d = (d, Some ErrLostLease) \<and>
    FinishJob now s i fin failure d = (d, Some ErrLostLease)"
proof -
  note none = no_lease_row [OF lease_inv_reachable [OF assms(1)] assms(2)]
  have "rows_affected (\<lambda>j. lease_row i (workerID s) j \<and> holds_lock d i (workerID s)) (release_jobs d) = 0"
    using assms(2) by (intro rows_affected_0) (auto simp: owns_job_def)
  then have "FinishJob now s i fin failure d = (d, Some ErrLostLease)"
    using assms(3) by (auto simp: FinishJob_def Let_def terminal_def)
  moreover have "FinishStep now s st ok r d = (d, Some ErrLostLease)"
    using assms(2,4) by (simp add: FinishStep_def executeLeaseMutation_def finishStepSQL_def rows_affected_def)
  moreover have "Heartbeat now s i d = (d, Some ErrLostLease)" "BeginStep now s i status d = (d, Inl ErrLostLease)"
    using none by (simp_all add: Heartbeat_def BeginStep_def Let_def)
  moreover have "AppendLog now s d i stepID stream sequence payload = (d, Some ErrLostLease)"
    "RecordImage now s i img d = (d, Some ErrLostLease)"
    using assms(2) by (simp_all add: AppendLog_def appendLogSQL_def RecordImage_def recordImageSQL_def
        executeLeaseMutation_def)
  ultimately show ?thesis by blast
qed

text \<open>The lease of the demo job expires and is recovered; its runner then tries to go on.\<close>

definition demo_recovered :: db where
  "demo_recovered = fst (RecoverStaleJobs (\<lambda>_. False) 100000 60000000000 demo_deploying)"

theorem lost_lease_is_fenced_witness:
  "store_reachable demo_recovered \<and> owns_job demo_deploying ''j1'' ''w1'' \<and>
   \<not> owns_job demo_recovered ''j1'' ''w1'' \<and>
   FinishJob 100001 demo_store ''j1'' StatusSuccess [] demo_recovered = (demo_recovered, Some ErrLostLease)"
proof -
  have r: "store_reachable demo_recovered" unfolding demo_recovered_def
    by (rule store_reachable.next_op [OF demo_deploying_reachable store_step.recover])
  have o: "owns_job demo_deploying ''j1'' ''w1''" "\<not> owns_job demo_recovered ''j1'' (workerID demo_store)"
    "workerID demo_store = ''w1''" by code_simp+
  show ?thesis
    using lost_lease_is_fenced [OF r o(2), of StatusSuccess
        "\<lparr>step_ID = 1, step_JobID = ''j1'', step_Name = StatusDeploying, step_Number = 1\<rparr>"] r o by simp
qed

subsection \<open>Claiming\<close>

lemma loadProfile_keeps:
  "loadProfile d jb = Inr jb' \<Longrightarrow> job_ID jb' = job_ID jb \<and> job_Attempt jb' = job_Attempt jb"
  by (auto simp: loadProfile_def Let_def split: sum.splits option.splits)

lemma loadTargetCredential_keeps:
  "loadTargetCredential d jb = Inr jb' \<Longrightarrow> job_ID jb' = job_ID jb \<and> job_Attempt jb' = job_Attempt jb"
  by (auto simp: loadTargetCredential_def Let_def split: option.splits if_splits)

lemma loadRollbackImages_keeps:
  "loadRollbackImages d jb = Inr jb' \<Longrightarrow> job_ID jb' = job_ID jb \<and> job_Attempt jb' = job_Attempt jb"
  by (auto simp: loadRollbackImages_def Let_def split: if_splits)

lemma load_dependencies_ok:
  assumes "load_dependencies d jb = Inr jb'"
  shows "job_ID jb' = job_ID jb \<and> job_Attempt jb' = job_Attempt jb \<and> validateJob jb' = None"
proof -
  obtain j1 where j1: "loadProfile d jb = Inr j1"
    using assms by (cases "loadProfile d jb") (simp_all add: load_dependencies_def)
  obtain j2 where j2: "loadTargetCredential d j1 = Inr j2"
    using assms j1 by (cases "loadTargetCredential d j1") (simp_all add: load_dependencies_def)
  have "(if job_Operation j2 = OperationRollback then loadRollbackImages d j2 else Inr j2) = Inr jb'"
    "validateJob jb' = None"
    using assms j1 j2 by (auto simp: load_dependencies_def split: sum.splits option.splits)
  then show ?thesis
    using loadProfile_keeps [OF j1] loadTargetCredential_keeps [OF j2] loadRollbackImages_keeps [of d j2 jb']
    by (auto split: if_splits)
qed

text \<open>
  C24 (claim_is_correct): a successful claim takes the queued, available job with the highest priority
  (the oldest among equals) that this active, fresh runner's labels allow; the job passed every
  validation; afterwards exactly this worker holds the lock of its target and the job is being
  validated under a new attempt, while no other job changed.
\<close>

theorem claim_is_correct:
  assumes "store_reachable d" "ClaimJob skip now lockRetry s d = (d', Inr jb)"
  shows "\<exists>row r. row \<in> set (release_jobs d) \<and> jr_status row = StatusQueued \<and> jr_available_at row \<le> now \<and>
    r \<in> set (runner_instances d) \<and> rn_worker_id r = runnerIdentity s \<and> rn_active r \<and> runner_fresh now r \<and>
    set (jr_runner_labels row) \<subseteq> set (rn_labels r) \<and>
    (\<forall>k\<in>set (release_jobs d). eligible skip now r k \<longrightarrow> queue_order row \<le> queue_order k) \<and>
    (\<forall>l\<in>set (release_locks d). lk_lock_key l \<noteq> jr_lock_key row) \<and>
    job_ID jb = jr_id row \<and> job_Attempt jb = jr_attempts row + 1 \<and> validateJob jb = None \<and>
    owns_job d' (jr_id row) (workerID s) \<and>
    release_jobs d' = update_where (\<lambda>j. jr_id j = jr_id row)
      (claim_row now (jr_attempts row + 1) (workerID s)) (release_jobs d)"
  using assms(2)
proof (cases rule: ClaimJob_cases)
  case (claimed r row d1 jb')
  note q = next_queued_Some [OF claimed(4)]
  have jb: "jb' = jb" using claimed(7) by simp
  have d1: "release_jobs d1 = release_jobs d" "release_locks d1 = release_locks d @
      [\<lparr>lk_lock_key = jr_lock_key row, lk_job_id = jr_id row, lk_worker_id = workerID s,
        lk_acquired_at = now, lk_heartbeat_at = now\<rparr>]"
    "\<forall>k\<in>set (release_locks d). lk_lock_key k \<noteq> jr_lock_key row"
    using insert_lock_cases [OF claimed(5)] by auto
  have deps: "job_ID jb = jr_id row" "job_Attempt jb = jr_attempts row + 1" "validateJob jb = None"
    using load_dependencies_ok [OF claimed(6)] jb by simp_all
  have "claim_row now (jr_attempts row + 1) (workerID s) row \<in> set (release_jobs d')"
    "lease_row (jr_id row) (workerID s) (claim_row now (jr_attempts row + 1) (workerID s) row)"
    using q(1) by (auto simp: claimed(8) mark_claimed_def d1 set_update_where lease_row_def claim_row_def)
  then have "owns_job d' (jr_id row) (workerID s)"
    by (auto simp: owns_job_def holds_lock_def lock_of_def claimed(8) mark_claimed_def d1)
  moreover have "r \<in> set (runner_instances d)" "rn_worker_id r = runnerIdentity s"
    using claimed(1) by (auto simp: find_Some_iff)
  moreover have "release_jobs d' = update_where (\<lambda>j. jr_id j = jr_id row)
      (claim_row now (jr_attempts row + 1) (workerID s)) (release_jobs d)"
    by (simp add: claimed(8) mark_claimed_def d1)
  ultimately show ?thesis using q claimed(2,3) d1(3) deps by (auto simp: eligible_def)
qed simp_all

theorem claim_is_correct_witness:
  "\<exists>jb. ClaimJob (\<lambda>_. False) 2000 5000000000 demo_store demo_queued = (demo_claimed, Inr jb) \<and>
     job_ID jb = ''j1'' \<and> job_Attempt jb = 1 \<and> validateJob jb = None"
proof -
  have ok: "is_ok (snd (ClaimJob (\<lambda>_. False) 2000 5000000000 demo_store demo_queued))" by code_simp
  then obtain jb where c: "ClaimJob (\<lambda>_. False) 2000 5000000000 demo_store demo_queued = (demo_claimed, Inr jb)"
    by (auto simp: is_ok_iff demo_claimed_def prod_eq_iff)
  have "set (release_jobs demo_queued) = {demo_job}" by (simp add: demo_queued_def)
  moreover have "jr_id demo_job = ''j1''" "jr_attempts demo_job = 0" by (simp_all add: demo_job_def)
  ultimately show ?thesis
    using claim_is_correct [OF demo_queued_reachable c] c by auto
qed

text \<open>
  C25 (invalid_job_is_not_poison): when the job at the head of the queue cannot be claimed because a
  dependency was revoked or is invalid, the claim fails that job and its release, leaves no lock on
  it, and the job is not eligible for any later claim.
\<close>

theorem invalid_job_is_not_poison:
  assumes "store_reachable d" "next_queued skip now r d = Some row"
    and "find (\<lambda>r. rn_worker_id r = runnerIdentity s) (runner_instances d) = Some r"
    and "runnerIdentity s \<noteq> []" "rn_active r" "runner_fresh now r"
    and "insert_lock now (jr_lock_key row) (jr_id row) (workerID s) d = Inr (d1, 1)"
    and "load_dependencies d1 (scan_job row) = Inl e"
  shows "\<exists>d'. ClaimJob skip now lockRetry s d = (d', Inl (Wrap ''reject invalid queued job'' e)) \<and>
    (\<forall>l\<in>set (release_locks d'). lk_job_id l \<noteq> jr_id row) \<and>
    (\<exists>j\<in>set (release_jobs d'). jr_id j = jr_id row \<and> jr_status j = StatusFailed) \<and>
    (\<forall>j\<in>set (release_jobs d'). jr_id j = jr_id row \<longrightarrow> \<not> eligible skip' now' r' j) \<and>
    (\<forall>x\<in>set (releases d'). rl_id x = jr_release_id row \<longrightarrow> rl_status x = ''FAILED'')"
proof -
  let ?d = "reject_job now (jr_id row) e d1"
  have c: "ClaimJob skip now lockRetry s d = (?d, Inl (Wrap ''reject invalid queued job'' e))"
    using assms(2-) by (simp add: ClaimJob_def Let_def)
  have d1: "release_jobs d1 = release_jobs d" using insert_lock_cases [OF assms(7)] by auto
  have row: "row \<in> set (release_jobs d)" using next_queued_Some(1) [OF assms(2)] .
  have jobs: "release_jobs ?d = update_where (\<lambda>j. jr_id j = jr_id row) (reject_row now e) (release_jobs d)"
    by (simp add: reject_job_def d1)
  have "reject_row now e row \<in> set (release_jobs ?d)" using row by (simp add: jobs set_update_where)
  moreover have "\<not> eligible skip' now' r' j" if "j \<in> set (release_jobs ?d)" "jr_id j = jr_id row" for j
    using that by (auto simp: jobs set_update_where reject_row_def eligible_def)
  moreover have "rl_status x = ''FAILED''" if "x \<in> set (releases ?d)" "rl_id x = jr_release_id row" for x
  proof -
    have "\<exists>j\<in>set (update_where (\<lambda>j. jr_id j = jr_id row) (reject_row now e) (release_jobs d1)).
        jr_id j = jr_id row \<and> jr_release_id j = jr_release_id row"
      using row d1 by (intro bexI [of _ "reject_row now e row"]) (simp_all add: set_update_where reject_row_def)
    with that show ?thesis
      by (auto simp: reject_job_def sync_release_def set_update_where reject_row_def)
  qed
  moreover have "jr_id (reject_row now e row) = jr_id row" "jr_status (reject_row now e row) = StatusFailed"
    "\<forall>l\<in>set (release_locks ?d). lk_job_id l \<noteq> jr_id row"
    by (simp_all add: reject_row_def reject_job_def)
  ultimately show ?thesis using c by blast
qed

text \<open>The demo job with a profile that was revoked after the job was queued.\<close>

definition demo_revoked :: db where
  "demo_revoked = demo_queued\<lparr>deployment_profiles := [demo_profile\<lparr>pf_active := False\<rparr>]\<rparr>"

theorem invalid_job_is_not_poison_witness:
  "\<exists>d' e. ClaimJob (\<lambda>_. False) 2000 5000000000 demo_store demo_revoked =
       (d', Inl (Wrap ''reject invalid queued job'' e)) \<and>
     (\<exists>j\<in>set (release_jobs d'). jr_id j = ''j1'' \<and> jr_status j = StatusFailed)"
proof -
  have reach: "store_reachable demo_revoked"
    by (rule store_reachable.next_op [OF demo_queued_reachable store_step.control_plane])
      (simp_all add: demo_revoked_def)
  let ?r = "hd (runner_instances demo_revoked)"
  let ?d1 = "demo_revoked\<lparr>release_locks := [\<lparr>lk_lock_key = ''shop/prod'', lk_job_id = ''j1'',
      lk_worker_id = ''w1'', lk_acquired_at = 2000, lk_heartbeat_at = 2000\<rparr>]\<rparr>"
  have ids: "jr_id demo_job = ''j1''" "jr_lock_key demo_job = ''shop/prod''" by (simp_all add: demo_job_def)
  have q: "next_queued (\<lambda>_. False) 2000 ?r demo_revoked = Some demo_job"
    by (simp add: next_queued_def eligible_def demo_revoked_def demo_queued_def demo_empty_def demo_job_def)
  have f: "find (\<lambda>r. rn_worker_id r = runnerIdentity demo_store) (runner_instances demo_revoked) = Some ?r"
    "runnerIdentity demo_store \<noteq> []" "rn_active ?r" "runner_fresh 2000 ?r"
    by (simp_all add: demo_store_def demo_revoked_def demo_queued_def demo_empty_def runner_fresh_def)
  have l: "insert_lock 2000 (jr_lock_key demo_job) (jr_id demo_job) (workerID demo_store) demo_revoked = Inr (?d1, 1)"
    by (simp add: insert_lock_def ids demo_store_def demo_revoked_def demo_queued_def demo_empty_def)
  have "\<not> is_ok (load_dependencies ?d1 (scan_job demo_job))" by code_simp
  then obtain e where e: "load_dependencies ?d1 (scan_job demo_job) = Inl e"
    by (cases "load_dependencies ?d1 (scan_job demo_job)") auto
  show ?thesis using invalid_job_is_not_poison [OF reach q f l e] ids by metis
qed

subsection \<open>Recovery of stale jobs\<close>

lemma stale_row_keep [simp]:
  "jr_id (stale_row now j) = jr_id j" "stale_row now (stale_row now j) = stale_row now j"
  by (simp_all add: stale_row_def)

lemma fold_fail_stale_jobs:
  "release_jobs (fold (fail_stale now) ids d) =
     update_where (\<lambda>j. jr_id j \<in> set ids) (stale_row now) (release_jobs d)"
proof (induction ids arbitrary: d)
  case (Cons i ids)
  show ?case
    unfolding fold_simps Cons.IH by (simp add: fail_stale_tables update_where_def)
qed (simp add: update_where_def)

lemma fold_fail_stale_locks:
  "release_locks (fold (fail_stale now) ids d) = filter (\<lambda>l. lk_job_id l \<notin> set ids) (release_locks d)"
  by (induction ids arbitrary: d) (auto simp: fail_stale_tables intro: filter_cong)

text \<open>
  Recovery never puts a job back into the queue: every abandoned job (its
  heartbeat older than the stale interval) is failed and its lock is gone, no job that was not
  abandoned changes, and the number reported is the number of jobs failed.
\<close>

theorem stale_jobs_fail_once:
  assumes "store_reachable d" "0 < staleAfter"
  shows "\<exists>d'. RecoverStaleJobs skip now staleAfter d =
      (d', Inr (int (card {j \<in> set (release_jobs d). stale_job skip now staleAfter j}))) \<and>
    set (release_jobs d') = {j \<in> set (release_jobs d). \<not> stale_job skip now staleAfter j} \<union>
      stale_row now ` {j \<in> set (release_jobs d). stale_job skip now staleAfter j} \<and>
    (\<forall>j\<in>set (release_jobs d). stale_job skip now staleAfter j \<longrightarrow>
       (\<forall>l\<in>set (release_locks d'). lk_job_id l \<noteq> jr_id j \<and> lk_lock_key l \<noteq> jr_lock_key j))"
proof -
  note inv = lease_inv_reachable [OF assms(1)]
  let ?P = "stale_job skip now staleAfter"
  let ?ids = "map jr_id (filter ?P (release_jobs d))"
  let ?d = "fold (fail_stale now) ?ids d"
  have ids: "distinct (map jr_id (release_jobs d))" using inv by (simp add: lease_inv_def)
  have mem: "jr_id j \<in> set ?ids \<longleftrightarrow> ?P j" if "j \<in> set (release_jobs d)" for j
    using that distinct_key_unique [OF ids that] by auto
  have "distinct (filter ?P (release_jobs d))" using ids by (simp add: distinct_map)
  then have card: "length ?ids = card {j \<in> set (release_jobs d). ?P j}"
    using distinct_card [of "filter ?P (release_jobs d)"] by (simp add: Collect_conj_eq inf_commute)
  have jobs: "set (release_jobs ?d) = {j \<in> set (release_jobs d). \<not> ?P j} \<union>
      stale_row now ` {j \<in> set (release_jobs d). ?P j}"
    using mem unfolding fold_fail_stale_jobs set_update_where by blast
  have "lk_job_id l \<noteq> jr_id j \<and> lk_lock_key l \<noteq> jr_lock_key j"
    if j: "j \<in> set (release_jobs d)" "?P j" and l: "l \<in> set (release_locks ?d)" for j l
  proof -
    have l': "l \<in> set (release_locks d)" "lk_job_id l \<notin> set ?ids"
      using l by (auto simp: fold_fail_stale_locks)
    have "running (jr_status j)" using j(2) by (simp add: stale_job_def running_def)
    then have "(jr_id j, jr_lock_key j, jr_locked_by j) \<in> lock_view d"
      using j(1) inv by (auto simp: lease_inv_def run_view_def)
    then obtain m where m: "m \<in> set (release_locks d)" "lk_job_id m = jr_id j" "lk_lock_key m = jr_lock_key j"
      by (auto simp: lock_view_def)
    have keys: "distinct (map lk_lock_key (release_locks d))" using inv by (simp add: lease_inv_def)
    have "l \<noteq> m" using l'(2) m(2) mem [OF j(1)] j(2) by auto
    then show ?thesis
      using l' m j mem [OF j(1)] distinct_key_unique [OF keys l'(1) m(1)] by auto
  qed
  moreover have "RecoverStaleJobs skip now staleAfter d = (?d, Inr (int (length ?ids)))"
    using assms(2) by (simp add: RecoverStaleJobs_def Let_def)
  ultimately show ?thesis using jobs card by (intro exI [of _ ?d]) simp
qed

theorem stale_jobs_fail_once_witness:
  "stale_job (\<lambda>_. False) 100000 60000000000 (hd (release_jobs demo_deploying)) \<and>
   (\<exists>d'. RecoverStaleJobs (\<lambda>_. False) 100000 60000000000 demo_deploying = (d', Inr 1) \<and>
     (\<forall>l\<in>set (release_locks d'). lk_job_id l \<noteq> ''j1''))"
proof -
  have j: "stale_job (\<lambda>_. False) 100000 60000000000 (hd (release_jobs demo_deploying))"
    "length (release_jobs demo_deploying) = 1" "jr_id (hd (release_jobs demo_deploying)) = ''j1''"
    by code_simp+
  then have one: "set (release_jobs demo_deploying) = {hd (release_jobs demo_deploying)}"
    by (cases "release_jobs demo_deploying") auto
  then have "{k \<in> set (release_jobs demo_deploying). stale_job (\<lambda>_. False) 100000 60000000000 k} =
      {hd (release_jobs demo_deploying)}" using j(1) by auto
  then have "int (card {k \<in> set (release_jobs demo_deploying). stale_job (\<lambda>_. False) 100000 60000000000 k}) = 1"
    by simp
  then show ?thesis
    using stale_jobs_fail_once [OF demo_deploying_reachable, of 60000000000 "\<lambda>_. False" 100000] j one by auto
qed

subsection \<open>The deployment head\<close>

text \<open>The release row a job belongs to, and the head a finished job must leave.\<close>

definition head_of :: "db \<Rightarrow> string \<Rightarrow> string \<Rightarrow> head_row \<Rightarrow> bool" where
  "head_of d app env h \<longleftrightarrow> h \<in> set (deployment_heads d) \<and> hd_application_id h = app \<and> hd_environment_id h = env"

lemma upsert_head_ok:
  assumes "upsert_head now (app, env, rel, jb) d = Inr d'"
  shows "\<exists>h. head_of d' app env h"
    and "head_of d' app env h \<Longrightarrow> hd_current_release_id h = rel \<and> hd_current_job_id h = jb"
proof -
  let ?P = "\<lambda>h. hd_application_id h = app \<and> hd_environment_id h = env"
  let ?f = "\<lambda>h. h\<lparr>hd_current_release_id := rel, hd_current_job_id := jb, hd_updated_at := now\<rparr>"
  let ?n = "\<lparr>hd_application_id = app, hd_environment_id = env, hd_current_release_id = rel,
      hd_current_job_id = jb, hd_updated_at = now\<rparr>"
  consider (update) x where "x \<in> set (deployment_heads d)" "?P x"
      "deployment_heads d' = update_where ?P ?f (deployment_heads d)"
    | (insert) "\<forall>x\<in>set (deployment_heads d). \<not> ?P x" "deployment_heads d' = deployment_heads d @ [?n]"
    using assms by (fastforce simp: upsert_head_def Let_def split: if_splits)
  then have "(\<exists>h. head_of d' app env h) \<and>
      (head_of d' app env h \<longrightarrow> hd_current_release_id h = rel \<and> hd_current_job_id h = jb)"
  proof cases
    case update
    have "head_of d' app env (?f x)" using update by (simp add: head_of_def set_update_where)
    moreover have "\<exists>y. h = ?f y" if "head_of d' app env h"
    proof -
      have "?P h" "h \<in> set (update_where ?P ?f (deployment_heads d))"
        using that by (simp_all add: head_of_def update(3))
      then show ?thesis unfolding set_update_where by blast
    qed
    ultimately show ?thesis by force
  next
    case insert
    have "head_of d' app env ?n" by (simp add: head_of_def insert(2))
    moreover have "h = ?n" if "head_of d' app env h"
    proof -
      have "?P h" "h \<in> insert ?n (set (deployment_heads d))" using that by (simp_all add: head_of_def insert(2))
      then show ?thesis using insert(1) by blast
    qed
    ultimately show ?thesis by force
  qed
  then show "\<exists>h. head_of d' app env h"
    and "head_of d' app env h \<Longrightarrow> hd_current_release_id h = rel \<and> hd_current_job_id h = jb" by simp_all
qed

text \<open>What the new head is, by operation.\<close>

definition expected_head :: "job_row \<Rightarrow> (string \<times> string) option" where
  "expected_head j =
     (case jr_operation j of
        OperationDeploy \<Rightarrow> Some (jr_release_id j, jr_id j)
      | OperationRollback \<Rightarrow>
          (case (jr_rollback_source_release_id j, jr_rollback_source_job_id j) of
             (Some r, Some b) \<Rightarrow> Some (r, b) | _ \<Rightarrow> None)
      | OperationOther _ \<Rightarrow> None)"

lemma deployment_basis_mem:
  assumes "(app, env, rel, jb) \<in> set (deployment_basis d i st)"
  shows "\<exists>j\<in>set (release_jobs d). \<exists>r\<in>set (releases d). jr_id j = i \<and> rl_id r = jr_release_id j \<and>
    app = rl_application_id r \<and> env = rl_environment_id r \<and> expected_head j = Some (rel, jb) \<and>
    (st = StatusSuccess \<and> jr_operation j = OperationDeploy \<or>
     st = StatusRolledBack \<and> jr_operation j = OperationRollback \<and> rollback_source d jb rel)"
proof -
  obtain j r where jr: "j \<in> set (release_jobs d)" "r \<in> set (releases d)" "jr_id j = i" "rl_id r = jr_release_id j"
    and mem: "(app, env, rel, jb) \<in> set (basis_rows d st j r)"
    using assms unfolding deployment_basis_def by (auto split: if_splits)
  have "app = rl_application_id r \<and> env = rl_environment_id r \<and> expected_head j = Some (rel, jb) \<and>
    (st = StatusSuccess \<and> jr_operation j = OperationDeploy \<or>
     st = StatusRolledBack \<and> jr_operation j = OperationRollback \<and> rollback_source d jb rel)"
  proof (cases "st = StatusSuccess \<and> jr_operation j = OperationDeploy")
    case True
    then show ?thesis using mem by (simp add: basis_rows_def expected_head_def)
  next
    case False
    have "basis_rows d st j r = []" if "\<not> (st = StatusRolledBack \<and> jr_operation j = OperationRollback)"
      unfolding basis_rows_def if_not_P [OF False] if_not_P [OF that] ..
    then have rb: "st = StatusRolledBack" "jr_operation j = OperationRollback"
      using mem by fastforce+
    have xy: "Some rel = jr_rollback_source_release_id j" "Some jb = jr_rollback_source_job_id j"
      "rollback_source d jb rel" "app = rl_application_id r" "env = rl_environment_id r"
      using mem rb False by (auto simp: basis_rows_def split: option.splits if_splits)
    have "expected_head j = Some (rel, jb)"
      unfolding expected_head_def rb(2) xy(1,2) [symmetric] by simp
    then show ?thesis using rb xy(3-5) by blast
  qed
  with jr show ?thesis by blast
qed

lemma finish_row_keep [simp]:
  "jr_id (finish_row now st f j) = jr_id j" "jr_release_id (finish_row now st f j) = jr_release_id j"
  "jr_operation (finish_row now st f j) = jr_operation j"
  "jr_rollback_source_release_id (finish_row now st f j) = jr_rollback_source_release_id j"
  "jr_rollback_source_job_id (finish_row now st f j) = jr_rollback_source_job_id j"
  by (simp_all add: finish_row_def)

lemma expected_head_finish_row [simp]: "expected_head (finish_row now st f j) = expected_head j"
  unfolding expected_head_def finish_row_keep ..

text \<open>
  C23 (finish_moves_deployment_head): when finishing a job as \<open>SUCCESS\<close> or \<open>ROLLED_BACK\<close> commits, the
  head of the release's application and environment points at the right deployment: a deployment at
  its own release and job, a rollback at the immutable source release and its successful deployment
  job. A deployment can only succeed and a rollback can only end rolled back; the lock is released in
  the same transaction.
\<close>

theorem finish_moves_deployment_head:
  assumes "store_reachable d" "FinishJob now s i st failure d = (d', None)" "st \<noteq> StatusFailed"
  shows "\<exists>j\<in>set (release_jobs d). \<exists>r\<in>set (releases d'). \<exists>rel jb. jr_id j = i \<and> rl_id r = jr_release_id j \<and>
    expected_head j = Some (rel, jb) \<and>
    (st = StatusSuccess \<and> jr_operation j = OperationDeploy \<or>
     st = StatusRolledBack \<and> jr_operation j = OperationRollback \<and>
       (\<exists>b\<in>set (release_jobs d'). jr_id b = jb \<and> jr_release_id b = rel \<and> jr_operation b = OperationDeploy \<and>
          jr_status b = StatusSuccess)) \<and>
    (\<exists>h. head_of d' (rl_application_id r) (rl_environment_id r) h) \<and>
    (\<forall>h. head_of d' (rl_application_id r) (rl_environment_id r) h \<longrightarrow>
       hd_current_release_id h = rel \<and> hd_current_job_id h = jb) \<and>
    (\<forall>l\<in>set (release_locks d'). lk_job_id l \<noteq> i)"
  using assms(2)
proof (cases rule: FinishJob_cases)
  case (finished d2 d3)
  let ?w = "workerID s"
  have st: "st = StatusSuccess \<or> st = StatusRolledBack" using finished(2) assms(3) by (auto simp: terminal_def)
  then have sync: "syncDeploymentHeadSQL now i st d2 = Inr (d3, 1)" using finished(6) by simp
  then obtain row where row: "deployment_basis d2 i st = [row]" "upsert_head now row d2 = Inr d3"
    by (auto simp: syncDeploymentHeadSQL_def split: list.splits sum.splits)
  obtain app env rel jb where r4: "row = (app, env, rel, jb)" by (cases row)
  have "(app, env, rel, jb) \<in> set (deployment_basis d2 i st)" using row(1) r4 by simp
  from deployment_basis_mem [OF this] obtain k r where k: "k \<in> set (release_jobs d2)" "r \<in> set (releases d2)"
    "jr_id k = i" "rl_id r = jr_release_id k" "app = rl_application_id r" "env = rl_environment_id r"
    "expected_head k = Some (rel, jb)"
    "st = StatusSuccess \<and> jr_operation k = OperationDeploy \<or>
     st = StatusRolledBack \<and> jr_operation k = OperationRollback \<and> rollback_source d2 jb rel" by blast
  have jobs2: "release_jobs d2 = update_where (lease_row i ?w) (finish_row now st failure) (release_jobs d)"
    by (simp add: finished(5))
  then obtain j where j: "j \<in> set (release_jobs d)" "k = j \<or> k = finish_row now st failure j"
    using k(1) by (auto simp: set_update_where)
  have same: "jr_id j = jr_id k" "jr_release_id j = jr_release_id k" "jr_operation j = jr_operation k"
    "expected_head j = expected_head k" using j(2) by auto
  have jobs': "release_jobs d' = release_jobs d2" and heads: "deployment_heads d' = deployment_heads d3"
    using syncDeploymentHead_tables(1) [OF sync] by (simp_all add: finished(7))
  have "head_of d' a e h = head_of d3 a e h" for a e h by (simp add: head_of_def heads)
  moreover have "\<forall>l\<in>set (release_locks d'). lk_job_id l \<noteq> i"
  proof -
    obtain x where x: "x \<in> set (release_jobs d)" "lease_row i ?w x"
      using rows_affected_1 [OF finished(4)] by blast
    show ?thesis
      using lease_unique(2) [OF lease_inv_reachable [OF assms(1)] x] syncDeploymentHead_tables(2) [OF sync]
      by (auto simp: finished(5,7))
  qed
  moreover have "st = StatusSuccess \<and> jr_operation j = OperationDeploy \<or>
     st = StatusRolledBack \<and> jr_operation j = OperationRollback \<and>
       (\<exists>b\<in>set (release_jobs d'). jr_id b = jb \<and> jr_release_id b = rel \<and> jr_operation b = OperationDeploy \<and>
          jr_status b = StatusSuccess)"
    using k(8) same(3) by (simp add: rollback_source_def jobs')
  moreover have "r \<in> set (releases d')"
    using k(2) syncDeploymentHead_tables(6) [OF sync] by (simp add: finished(7) delete_locks_def)
  moreover have "\<exists>h. head_of d' (rl_application_id r) (rl_environment_id r) h"
    "\<forall>h. head_of d' (rl_application_id r) (rl_environment_id r) h \<longrightarrow>
       hd_current_release_id h = rel \<and> hd_current_job_id h = jb"
    using upsert_head_ok(1,2) [OF row(2) [unfolded r4]] k(5,6) calculation(1) by auto
  moreover have "jr_id j = i" "rl_id r = jr_release_id j" "expected_head j = Some (rel, jb)"
    using same k(3,4,7) by simp_all
  ultimately show ?thesis using j(1) by blast
qed simp

theorem finish_moves_deployment_head_witness:
  "FinishJob 4000 demo_store ''j1'' StatusSuccess [] demo_deploying = (demo_finished, None) \<and>
   (\<exists>h. head_of demo_finished ''a1'' ''e1'' h \<and> hd_current_release_id h = ''r1'' \<and> hd_current_job_id h = ''j1'')"
proof -
  have ok: "snd (FinishJob 4000 demo_store ''j1'' StatusSuccess [] demo_deploying) = None" by code_simp
  then have f: "FinishJob 4000 demo_store ''j1'' StatusSuccess [] demo_deploying = (demo_finished, None)"
    by (simp add: demo_finished_def prod_eq_iff)
  have heads: "map (\<lambda>h. (hd_application_id h, hd_environment_id h)) (deployment_heads demo_finished) = [(''a1'', ''e1'')]"
    "map jr_id (release_jobs demo_deploying) = [''j1'']"
    "map expected_head (release_jobs demo_deploying) = [Some (''r1'', ''j1'')]" by code_simp+
  then have one: "h \<in> set (deployment_heads demo_finished) \<Longrightarrow>
      hd_application_id h = ''a1'' \<and> hd_environment_id h = ''e1''" for h
    by (cases "deployment_heads demo_finished") auto
  have exp: "expected_head j = Some (''r1'', ''j1'')" if "j \<in> set (release_jobs demo_deploying)" for j
    using that heads(3) by (cases "release_jobs demo_deploying") auto
  have "StatusSuccess \<noteq> StatusFailed" by simp
  from finish_moves_deployment_head [OF demo_deploying_reachable f this]
  obtain j rel jb h and r :: release_row where "j \<in> set (release_jobs demo_deploying)" "expected_head j = Some (rel, jb)"
    "head_of demo_finished (rl_application_id r) (rl_environment_id r) h"
    "\<forall>h. head_of demo_finished (rl_application_id r) (rl_environment_id r) h \<longrightarrow>
       hd_current_release_id h = rel \<and> hd_current_job_id h = jb" 
    by (elim bexE exE conjE) (rule that, assumption+)
  then have "h \<in> set (deployment_heads demo_finished)" "hd_current_release_id h = ''r1''"
    "hd_current_job_id h = ''j1''" using exp [of j] by (auto simp: head_of_def)
  then show ?thesis using f one [of h] by (auto simp: head_of_def)
qed

subsection \<open>The log table as a sink\<close>

definition log_rows :: "db \<Rightarrow> log_row list" where
  "log_rows d = map (\<lambda>l. (lg_job_id l, lg_step_id l, lg_stream l, lg_sequence l, lg_payload l)) (release_job_logs d)"

interpretation job_log: log_sink "AppendLog now s" log_rows
  for now s
proof
  fix d d' j st str q p
  assume "AppendLog now s d j st str q p = (d', None)"
  then show "log_rows d' = log_rows d @ [(j, st, str, q, p)]"
    by (auto simp: AppendLog_def executeLeaseMutation_def appendLogSQL_def log_rows_def split: if_splits)
next
  fix d d' j st str q p e
  assume "AppendLog now s d j st str q p = (d', Some e)"
  then show "log_rows d' = log_rows d"
    by (auto simp: AppendLog_def executeLeaseMutation_def appendLogSQL_def log_rows_def split: if_splits)
qed

end
