(* ===== verification/Executor.thy ===== *)
theory Executor
  imports Filesystem
begin

text \<open>
  Package \<open>runner/internal/executor\<close>, file \<open>command.go\<close>: the local command runner, the dispatcher that
  keeps approved scripts out of the process that holds the secrets, and the restricted environment.
  The operating system is an argument: \<open>exec\<close> runs a command in the world \<open>'w\<close> and yields the output
  it wrote and how it ended; \<open>fs_of\<close> is the file system of that world. The writers of a \<open>Spec\<close> are not
  part of the record: a run returns the output events, in order, for the caller to write.
\<close>

datatype out_stream = Stdout | Stderr

type_synonym out_event = "out_stream \<times> bytes"

type_synonym environment = "(string \<times> string) list"

record spec =
  sp_Path :: string
  sp_Args :: "string list"
  sp_Dir :: string
  sp_Env :: environment
  sp_Stdin :: bytes
  sp_Timeout :: int
  sp_Isolated :: bool

record exec_result =
  er_ExitCode :: int
  er_Duration :: int

definition refused :: exec_result where
  "refused = \<lparr>er_ExitCode = -1, er_Duration = 0\<rparr>"

text \<open>\<open>m[key]\<close> of a Go map: the empty string when the key is absent.\<close>

definition env_get :: "environment \<Rightarrow> string \<Rightarrow> string" where
  "env_get env k = (case map_of env k of None \<Rightarrow> [] | Some v \<Rightarrow> v)"

subsection \<open>The environment\<close>

definition environmentName :: "string \<Rightarrow> bool" where
  "environmentName s \<longleftrightarrow>
     (case s of
        [] \<Rightarrow> False
      | c # cs \<Rightarrow> (is_upper c \<or> c = CHR ''_'') \<and> (\<forall>x\<in>set cs. is_upper x \<or> is_digit x \<or> x = CHR ''_''))"

fun environment_check :: "environment \<Rightarrow> error option" where
  "environment_check [] = None"
| "environment_check ((key, value) # rest) =
     (if \<not> environmentName key then Some (Err ''invalid environment name'')
      else if contains_char value (CHR 0x00) then Some (Err ''environment contains NUL'')
      else environment_check rest)"

definition restrictedEnvironment :: "environment \<Rightarrow> string list result" where
  "restrictedEnvironment values =
     (case environment_check values of
        Some e \<Rightarrow> Inl e
      | None \<Rightarrow> Inr (map (\<lambda>key. key @ ''='' @ env_get values key) (sort_strings (map fst values))))"

subsection \<open>The local runner\<close>

datatype ctx_state = CtxAlive | CtxDeadline | CtxCanceled

definition ContextCanceled :: error where "ContextCanceled = Err ''context canceled''"

record exec_request =
  xr_Path :: string
  xr_Args :: "string list"
  xr_Dir :: string
  xr_Env :: "string list"
  xr_Stdin :: bytes
  xr_Timeout :: int

text \<open>
  How a command ended: the error of \<open>cmd.Run\<close>, the exit code when it is an \<open>ExitError\<close>, the state of
  the context afterwards, and the time it took.
\<close>

record exec_end =
  xe_err :: "error option"
  xe_exit :: "int option"
  xe_ctx :: ctx_state
  xe_duration :: int

type_synonym 'w os_exec = "'w \<Rightarrow> exec_request \<Rightarrow> 'w \<times> out_event list \<times> exec_end"

type_synonym 'w run_result = "'w \<times> out_event list \<times> exec_result \<times> error option"

type_synonym 'w command_executor = "'w \<Rightarrow> spec \<Rightarrow> 'w run_result"

definition exec_outcome :: "exec_end \<Rightarrow> exec_result \<times> error option" where
  "exec_outcome fin =
     (case xe_err fin of
        None \<Rightarrow> (\<lparr>er_ExitCode = 0, er_Duration = xe_duration fin\<rparr>, None)
      | Some err \<Rightarrow>
          let result = \<lparr>er_ExitCode = (case xe_exit fin of None \<Rightarrow> -1 | Some c \<Rightarrow> c), er_Duration = xe_duration fin\<rparr>
          in case xe_ctx fin of
               CtxDeadline \<Rightarrow> (result, Some (Err ''command exceeded timeout''))
             | CtxCanceled \<Rightarrow> (result, Some ContextCanceled)
             | CtxAlive \<Rightarrow> (result, Some (Wrap ''command exited with code'' err)))"

definition Runner_Run :: "('w \<Rightarrow> fs) \<Rightarrow> 'w os_exec \<Rightarrow> 'w command_executor" where
  "Runner_Run fs_of exec w sp =
     (if sp_Isolated sp
      then (w, [], refused, Some (Err ''isolated command cannot run in the local runner process''))
      else if \<not> is_abs (sp_Path sp) then (w, [], refused, Some (Err ''command path must be absolute''))
      else case os_stat (fs_of w) (sp_Path sp) of
        Inl e \<Rightarrow> (w, [], refused, Some (Wrap ''inspect command'' e))
      | Inr info \<Rightarrow>
          if \<not> is_regular info \<or> perm info AND octal 1 1 1 = 0
          then (w, [], refused, Some (Err ''command path must be an executable regular file''))
          else if sp_Dir sp = [] \<or> \<not> is_abs (sp_Dir sp)
          then (w, [], refused, Some (Err ''command working directory must be absolute''))
          else if sp_Timeout sp \<le> 0 then (w, [], refused, Some (Err ''command timeout must be positive''))
          else case restrictedEnvironment (sp_Env sp) of
            Inl e \<Rightarrow> (w, [], refused, Some e)
          | Inr environment \<Rightarrow>
              (case exec w \<lparr>xr_Path = sp_Path sp, xr_Args = sp_Args sp, xr_Dir = sp_Dir sp, xr_Env = environment,
                           xr_Stdin = sp_Stdin sp, xr_Timeout = sp_Timeout sp\<rparr> of
                 (w', out, fin) \<Rightarrow> (w', out, exec_outcome fin)))"

subsection \<open>The dispatcher\<close>

record 'w dispatcher =
  Local :: "'w command_executor option"
  Isolated :: "'w command_executor option"

definition Dispatcher_Run :: "'w dispatcher \<Rightarrow> 'w command_executor" where
  "Dispatcher_Run d w sp =
     (if sp_Isolated sp
      then (case Isolated d of
              None \<Rightarrow> (w, [], refused, Some (Err ''isolated executor is unavailable''))
            | Some run \<Rightarrow> run w sp)
      else case Local d of
             None \<Rightarrow> (w, [], refused, Some (Err ''local executor is unavailable''))
           | Some run \<Rightarrow> run w sp)"

subsection \<open>What is guaranteed\<close>

lemma environment_check_None:
  "environment_check env = None \<longleftrightarrow> (\<forall>(k, v)\<in>set env. environmentName k \<and> CHR 0x00 \<notin> set v)"
  by (induction env rule: environment_check.induct) (auto simp: contains_char_def)

lemma environmentName_no_equals: "environmentName s \<Longrightarrow> CHR ''='' \<notin> set s"
proof -
  have no: "\<not> is_upper (CHR ''='')" "\<not> is_digit (CHR ''='')" by code_simp+
  show "environmentName s \<Longrightarrow> ?thesis"
    by (cases s) (use no in \<open>auto simp: environmentName_def\<close>)
qed

text \<open>An entry \<open>KEY=value\<close> can be taken apart again.\<close>

lemma takeWhile_entry:
  assumes "environmentName k"
  shows "takeWhile (\<lambda>c. c \<noteq> CHR ''='') (k @ ''='' @ v) = k"
    and "drop (Suc (length k)) (k @ ''='' @ v) = v"
  using takeWhile_sep [OF environmentName_no_equals [OF assms], of v] by simp_all

definition parse_entry :: "string \<Rightarrow> string \<times> string" where
  "parse_entry s = (let k = takeWhile (\<lambda>c. c \<noteq> CHR ''='') s in (k, drop (Suc (length k)) s))"

lemma parse_entry [simp]: "environmentName k \<Longrightarrow> parse_entry (k @ CHR ''='' # v) = (k, v)"
  using takeWhile_entry [of k v] by (simp add: parse_entry_def)

text \<open>
  For a map of valid names, the process environment built for a command
  is sorted, has exactly one entry per key, and read back entry by entry gives the same map: nothing
  from the runner's own environment is added.
\<close>

theorem environment_roundtrip:
  assumes "distinct (map fst env)" "restrictedEnvironment env = Inr entries"
  shows "map_of (map parse_entry entries) = map_of env \<and> length entries = length env \<and>
    sorted (map (fst \<circ> parse_entry) entries) \<and> distinct (map (fst \<circ> parse_entry) entries)"
proof -
  have ok: "\<forall>(k, v)\<in>set env. environmentName k"
    and en: "entries = map (\<lambda>key. key @ ''='' @ env_get env key) (sort (map fst env))"
    using assms(2) environment_check_None [of env]
    by (auto simp: restrictedEnvironment_def sort_strings_def split: option.splits)
  have parsed: "map parse_entry entries = map (\<lambda>key. (key, env_get env key)) (sort (map fst env))"
    unfolding en using ok by (auto intro!: parse_entry)
  have keys: "map (fst \<circ> parse_entry) entries = sort (map fst env)"
    using arg_cong [OF parsed, of "map fst"] by (simp add: comp_def)
  have "map_of (map parse_entry entries) k = map_of env k" for k
  proof (cases "k \<in> fst ` set env")
    case True
    then obtain v where v: "map_of env k = Some v" by (metis map_of_eq_None_iff not_None_eq)
    then have "env_get env k = v" by (simp add: env_get_def)
    moreover have "map_of (map (\<lambda>key. (key, env_get env key)) (sort (map fst env))) k = Some (env_get env k)"
      using True by (simp add: map_of_map_restrict restrict_map_def)
    ultimately show ?thesis using v parsed by simp
  next
    case False
    then have "map_of env k = None" by (simp add: map_of_eq_None_iff)
    moreover have "map_of (map (\<lambda>key. (key, env_get env key)) (sort (map fst env))) k = None"
      using False by (simp add: map_of_map_restrict restrict_map_def)
    ultimately show ?thesis using parsed by simp
  qed
  then show ?thesis using keys assms(1) en by (auto simp: fun_eq_iff)
qed

theorem environment_roundtrip_witness:
  "restrictedEnvironment [(''PATH'', ''/bin''), (''HOME'', ''/w=1'')] = Inr [''HOME=/w=1'', ''PATH=/bin''] \<and>
   map_of (map parse_entry [''HOME=/w=1'', ''PATH=/bin'']) = [''PATH'' \<mapsto> ''/bin'', ''HOME'' \<mapsto> ''/w=1'']"
proof -
  have r: "restrictedEnvironment [(''PATH'', ''/bin''), (''HOME'', ''/w=1'')] = Inr [''HOME=/w=1'', ''PATH=/bin'']"
    by code_simp
  have d: "distinct (map fst [(''PATH'', ''/bin''), (''HOME'', ''/w=1'')])" by simp
  from environment_roundtrip [OF d r] r show ?thesis by (auto simp: fun_upd_twist)
qed

text \<open>
  A command marked as isolated is never executed by the
  process that holds the database and key: the local runner refuses it without touching the world, and
  the dispatcher hands it to the isolated executor or refuses it, whatever the local executor is.
\<close>

theorem approved_scripts_leave_the_runner:
  assumes "sp_Isolated sp"
  shows "(\<exists>e. Runner_Run fs_of exec w sp = (w, [], refused, Some e)) \<and>
    Dispatcher_Run \<lparr>Local = l, Isolated = Some remote\<rparr> w sp = remote w sp \<and>
    (\<exists>e. Dispatcher_Run \<lparr>Local = l, Isolated = None\<rparr> w sp = (w, [], refused, Some e))"
  using assms by (simp add: Runner_Run_def Dispatcher_Run_def)

text \<open>A script that would leave a mark in the world, given to the local runner.\<close>

definition demo_script :: spec where
  "demo_script = \<lparr>sp_Path = ''/bin/sh'', sp_Args = [], sp_Dir = ''/'', sp_Env = [], sp_Stdin = [],
     sp_Timeout = 1, sp_Isolated = True\<rparr>"

definition demo_exec :: "nat os_exec" where
  "demo_exec w r = (Suc w, [(Stdout, ''ran'')], \<lparr>xe_err = None, xe_exit = None, xe_ctx = CtxAlive, xe_duration = 1\<rparr>)"

theorem approved_scripts_leave_the_runner_witness:
  "sp_Isolated demo_script \<and> (\<exists>e. Runner_Run (\<lambda>_. []) demo_exec 0 demo_script = (0, [], refused, Some e))"
proof
  show i: "sp_Isolated demo_script" by (simp add: demo_script_def)
  show "\<exists>e. Runner_Run (\<lambda>_. []) demo_exec 0 demo_script = (0, [], refused, Some e)"
    using approved_scripts_leave_the_runner [OF i, of "\<lambda>_. []" demo_exec 0] by blast
qed

end
