(* ===== verification/Wire.thy ===== *)
theory Wire
  imports Executor
begin

text \<open>
  The wire protocol of \<open>socket.go\<close> in package \<open>executor\<close>: length-prefixed packets, the frame stream
  of a command, and the client. JSON encoding is a parameter: \<open>enc\<close> is \<open>json.Marshal\<close>, \<open>dec\<close> is the
  first \<open>Decode\<close> of a strict decoder and returns the value with the input it has not consumed. A
  connection is the list of bytes still to be read from the peer and an \<open>io.Writer\<close>; deadlines of the
  connection are not modelled, a read that fails is an input that ends.
\<close>

definition DefaultSocketPath :: string where "DefaultSocketPath = ''/run/releasedock-executor/executor.sock''"
definition DefaultWorkspaceRoot :: string where "DefaultWorkspaceRoot = ''/var/lib/releasedock/workspaces''"
definition protocolVersion :: int where "protocolVersion = 1"
definition maxRequestBytes :: int where "maxRequestBytes = 256 * 1024"
definition maxFrameBytes :: int where "maxFrameBytes = 64 * 1024"
definition maxOutputChunk :: nat where "maxOutputChunk = 32 * 1024"
definition maxArguments :: int where "maxArguments = 128"
definition maxArgumentBytes :: int where "maxArgumentBytes = 64 * 1024"
definition maxEnvironmentBytes :: int where "maxEnvironmentBytes = 128 * 1024"
definition maximumTargetCredentialBytes :: int where "maximumTargetCredentialBytes = 1024 * 1024"

text \<open>Durations are in nanoseconds.\<close>

definition millisecond :: int where "millisecond = 1000000"
definition maxIsolatedTimeout :: int where "maxIsolatedTimeout = 24 * 3600 * 1000 * millisecond"

lemmas wire_limits = maxRequestBytes_def maxFrameBytes_def maxOutputChunk_def maxArguments_def maxArgumentBytes_def
  maxEnvironmentBytes_def maximumTargetCredentialBytes_def millisecond_def maxIsolatedTimeout_def

text \<open>\<open>Duration.Milliseconds\<close> truncates towards zero; \<open>time.Duration(ms) * time.Millisecond\<close> wraps at 64 bits.\<close>

definition to_millis :: "int \<Rightarrow> int" where
  "to_millis d = (if d < 0 then - (- d div millisecond) else d div millisecond)"

definition of_millis :: "int \<Rightarrow> int" where
  "of_millis ms = signed_take_bit 63 (ms * millisecond)"

record wireRequest =
  rq_Version :: int
  rq_Path :: string
  rq_Args :: "string list"
  rq_Dir :: string
  rq_Env :: environment
  rq_TimeoutMillis :: int

record wireFrame =
  fr_Type :: string
  fr_Data :: bytes
  fr_ExitCode :: int
  fr_DurationMillis :: int
  fr_Error :: string

definition frame :: "string \<Rightarrow> wireFrame" where
  "frame t = \<lparr>fr_Type = t, fr_Data = [], fr_ExitCode = 0, fr_DurationMillis = 0, fr_Error = []\<rparr>"

type_synonym 'v encoder = "'v \<Rightarrow> bytes result"
type_synonym 'v decoder = "bytes \<Rightarrow> ('v \<times> bytes) result"

subsection \<open>Packets\<close>

text \<open>\<open>binary.BigEndian.PutUint32\<close> and \<open>Uint32\<close>.\<close>

definition put_uint32 :: "32 word \<Rightarrow> bytes" where
  "put_uint32 v = [char_of (unat (drop_bit 24 v)), char_of (unat (drop_bit 16 v)),
                   char_of (unat (drop_bit 8 v)), char_of (unat v)]"

definition byte_word :: "char \<Rightarrow> 32 word" where "byte_word c = word_of_nat (of_char c)"

definition get_uint32 :: "bytes \<Rightarrow> 32 word" where
  "get_uint32 b =
     byte_word (b ! 3) OR push_bit 8 (byte_word (b ! 2)) OR push_bit 16 (byte_word (b ! 1)) OR
     push_bit 24 (byte_word (b ! 0))"

function writeAll :: "'d io_write \<Rightarrow> 'd \<Rightarrow> bytes \<Rightarrow> 'd \<times> error option" where
  "writeAll wr d value =
     (if value = [] then (d, None)
      else case wr d value of
             (d', written, Some e) \<Rightarrow> (d', Some e)
           | (d', written, None) \<Rightarrow>
               if written \<le> 0 \<or> written > int (length value) then (d', Some ErrShortWrite)
               else writeAll wr d' (drop (nat written) value))"
  by pat_completeness auto
termination
  by (relation "measure (\<lambda>(wr, d, value). length value)") auto

declare writeAll.simps [simp del]

definition writePacket :: "'v encoder \<Rightarrow> 'd io_write \<Rightarrow> 'd \<Rightarrow> 'v \<Rightarrow> int \<Rightarrow> 'd \<times> error option" where
  "writePacket enc wr d value maximum =
     (case enc value of
        Inl e \<Rightarrow> (d, Some e)
      | Inr payload \<Rightarrow>
          if length payload = 0 \<or> int (length payload) > maximum
          then (d, Some (Err ''executor protocol packet exceeds limit''))
          else case writeAll wr d (put_uint32 (word_of_nat (length payload))) of
                 (d', Some e) \<Rightarrow> (d', Some e)
               | (d', None) \<Rightarrow> writeAll wr d' payload)"

text \<open>\<open>io.ReadFull\<close> of \<open>n > 0\<close> bytes.\<close>

definition read_full :: "nat \<Rightarrow> bytes \<Rightarrow> bytes \<times> bytes result" where
  "read_full n input =
     (if length input < n then ([], Inl (if input = [] then errEOF else ErrUnexpectedEOF))
      else (drop n input, Inr (take n input)))"

definition json_space :: "char \<Rightarrow> bool" where
  "json_space c \<longleftrightarrow> c = CHR '' '' \<or> c = CHR 0x09 \<or> c = CHR 0x0A \<or> c = CHR 0x0D"

definition readPacket :: "'v decoder \<Rightarrow> int \<Rightarrow> bytes \<Rightarrow> bytes \<times> 'v result" where
  "readPacket dec maximum input =
     (case read_full 4 input of
        (input1, Inl e) \<Rightarrow> (input1, Inl e)
      | (input1, Inr sz) \<Rightarrow>
          let len = get_uint32 sz in
          if len = 0 \<or> uint len > maximum then (input1, Inl (Err ''executor protocol packet size is invalid''))
          else case read_full (unat len) input1 of
                 (input2, Inl e) \<Rightarrow> (input2, Inl e)
               | (input2, Inr payload) \<Rightarrow>
                   (case dec payload of
                      Inl e \<Rightarrow> (input2, Inl e)
                    | Inr (v, trailing) \<Rightarrow>
                        if list_all json_space trailing then (input2, Inr v)
                        else (input2, Inl (Err ''executor protocol packet has trailing JSON''))))"

subsection \<open>The frames of a command\<close>

record 'c frameWriter =
  fw_connection :: 'c
  fw_err :: "error option"

definition frameWriter_write ::
  "wireFrame encoder \<Rightarrow> 'c io_write \<Rightarrow> 'c frameWriter \<Rightarrow> wireFrame \<Rightarrow> 'c frameWriter \<times> error option" where
  "frameWriter_write enc wr w f =
     (if fw_err w \<noteq> None then (w, fw_err w)
      else case writePacket enc wr (fw_connection w) f maxFrameBytes of
             (c, e) \<Rightarrow> (w\<lparr>fw_connection := c, fw_err := e\<rparr>, e))"

function streamWriter_loop ::
  "wireFrame encoder \<Rightarrow> 'c io_write \<Rightarrow> string \<Rightarrow> 'c frameWriter \<Rightarrow> bytes \<Rightarrow> nat \<Rightarrow> 'c frameWriter \<times> nat \<times> error option" where
  "streamWriter_loop enc wr knd w value offset =
     (if offset < length value
      then let finish = min (offset + maxOutputChunk) (length value) in
           case frameWriter_write enc wr w ((frame knd)\<lparr>fr_Data := take (finish - offset) (drop offset value)\<rparr>) of
             (w', Some e) \<Rightarrow> (w', offset, Some e)
           | (w', None) \<Rightarrow> streamWriter_loop enc wr knd w' value finish
      else (w, length value, None))"
  by pat_completeness auto
termination
  by (relation "measure (\<lambda>(enc, wr, knd, w, value, offset). length value - offset)") (auto simp: maxOutputChunk_def)

declare streamWriter_loop.simps [simp del]

definition streamWriter_Write ::
  "wireFrame encoder \<Rightarrow> 'c io_write \<Rightarrow> string \<Rightarrow> 'c frameWriter \<Rightarrow> bytes \<Rightarrow> 'c frameWriter \<times> nat \<times> error option" where
  "streamWriter_Write enc wr knd w value = streamWriter_loop enc wr knd w value 0"

definition stream_kind :: "out_stream \<Rightarrow> string" where
  "stream_kind s = (case s of Stdout \<Rightarrow> ''stdout'' | Stderr \<Rightarrow> ''stderr'')"

text \<open>What a command writes goes, in order, through the stream writer of its stream.\<close>

definition stream_event :: "wireFrame encoder \<Rightarrow> 'c io_write \<Rightarrow> 'c frameWriter \<Rightarrow> out_event \<Rightarrow> 'c frameWriter" where
  "stream_event enc wr w ev = fst (streamWriter_Write enc wr (stream_kind (fst ev)) w (snd ev))"

definition truncateProtocolError :: "string \<Rightarrow> string" where
  "truncateProtocolError value = (if length value \<le> 4096 then value else take 4096 value)"

subsection \<open>The shape of a request\<close>

definition isolatedEnvironment :: "string list" where
  "isolatedEnvironment =
     [''PATH'', ''HOME'', ''LANG'', ''LC_ALL'', ''RELEASEDOCK_JOB_ID'', ''RELEASEDOCK_RELEASE_ID'',
      ''RELEASEDOCK_APPLICATION'', ''RELEASEDOCK_VERSION'', ''RELEASEDOCK_ENVIRONMENT'',
      ''RELEASEDOCK_PACKAGE_DIRECTORY'', ''RELEASEDOCK_ARTIFACT'', ''RELEASEDOCK_IMAGES'',
      ''RELEASEDOCK_OPERATION'', ''RELEASEDOCK_ROLLBACK_SOURCE_RELEASE_ID'', ''RELEASEDOCK_ROLLBACK_SOURCE_JOB_ID'',
      ''RELEASEDOCK_CREDENTIAL_TYPE'', ''RELEASEDOCK_CREDENTIAL_FILE'']"

fun check_arguments :: "int \<Rightarrow> string list \<Rightarrow> int result" where
  "check_arguments n [] = Inr n"
| "check_arguments n (a # as) =
     (if contains_char a (CHR 0x00) then Inl (Err ''isolated command argument contains NUL'')
      else check_arguments (n + int (length a)) as)"

fun check_environment :: "int \<Rightarrow> environment \<Rightarrow> int result" where
  "check_environment n [] = Inr n"
| "check_environment n ((key, value) # rest) =
     (if key \<notin> set isolatedEnvironment then Inl (Err ''environment is not allowed for isolated commands'')
      else if \<not> environmentName key \<or> contains_char value (CHR 0x00)
      then Inl (Err ''isolated command environment is invalid'')
      else check_environment (n + int (length key) + int (length value)) rest)"

definition required_values :: "string list" where
  "required_values =
     [''PATH'', ''HOME'', ''LANG'', ''LC_ALL'', ''RELEASEDOCK_JOB_ID'', ''RELEASEDOCK_RELEASE_ID'', ''RELEASEDOCK_OPERATION'']"

definition required_keys :: "string list" where
  "required_keys =
     [''RELEASEDOCK_ARTIFACT'', ''RELEASEDOCK_PACKAGE_DIRECTORY'', ''RELEASEDOCK_ROLLBACK_SOURCE_RELEASE_ID'',
      ''RELEASEDOCK_ROLLBACK_SOURCE_JOB_ID'', ''RELEASEDOCK_CREDENTIAL_TYPE'', ''RELEASEDOCK_CREDENTIAL_FILE'']"

definition bad_path :: "string \<Rightarrow> bool" where
  "bad_path p \<longleftrightarrow> \<not> is_abs p \<or> length p > 4096 \<or> contains_char p (CHR 0x00)"

definition validateRequestShape :: "wireRequest \<Rightarrow> error option" where
  "validateRequestShape r =
     (if rq_Version r \<noteq> protocolVersion then Some (Err ''unsupported executor protocol version'')
      else if bad_path (rq_Path r) then Some (Err ''isolated executable path is invalid'')
      else if bad_path (rq_Dir r) then Some (Err ''isolated working directory is invalid'')
      else if rq_TimeoutMillis r < 1 \<or> rq_TimeoutMillis r > to_millis maxIsolatedTimeout
      then Some (Err ''isolated timeout is outside the allowed range'')
      else if length (rq_Args r) = 0 \<or> int (length (rq_Args r)) > maxArguments
      then Some (Err ''isolated command argument count is invalid'')
      else case check_arguments 0 (rq_Args r) of
        Inl e \<Rightarrow> Some e
      | Inr argumentBytes \<Rightarrow>
          if argumentBytes > maxArgumentBytes then Some (Err ''isolated command arguments are too large'')
          else case check_environment 0 (rq_Env r) of
            Inl e \<Rightarrow> Some e
          | Inr environmentBytes \<Rightarrow>
              if environmentBytes > maxEnvironmentBytes
              then Some (Err ''isolated command environment is too large'')
              else first_error
                (map (\<lambda>k. guard (env_get (rq_Env r) k = []) ''isolated command environment is required'') required_values @
                 map (\<lambda>k. guard (map_of (rq_Env r) k = None) ''isolated command environment is required'') required_keys))"

definition cloneEnvironment :: "environment \<Rightarrow> environment" where
  "cloneEnvironment source = source"

definition requestFromSpec :: "spec \<Rightarrow> wireRequest result" where
  "requestFromSpec sp =
     (if sp_Timeout sp < millisecond \<or> sp_Timeout sp > maxIsolatedTimeout
      then Inl (Err ''isolated timeout must be between 1ms and the maximum'')
      else let request = \<lparr>rq_Version = protocolVersion, rq_Path = sp_Path sp, rq_Args = sp_Args sp,
                 rq_Dir = sp_Dir sp, rq_Env = cloneEnvironment (sp_Env sp), rq_TimeoutMillis = to_millis (sp_Timeout sp)\<rparr>
           in case validateRequestShape request of Some e \<Rightarrow> Inl e | None \<Rightarrow> Inr request)"

subsection \<open>The client\<close>

record client =
  cl_SocketPath :: string
  cl_PeerUID :: "32 word"

definition NewClient :: "32 word \<Rightarrow> client" where
  "NewClient peer = \<lparr>cl_SocketPath = DefaultSocketPath, cl_PeerUID = peer\<rparr>"

text \<open>
  A connection as the client sees it: the credentials of the listener, and the answer of the peer,
  which depends on the bytes sent and may change the world.
\<close>

record 'w connection =
  cn_peer :: "32 word result"
  cn_exchange :: "'w \<Rightarrow> bytes \<Rightarrow> 'w \<times> bytes"

definition writeOutput :: "out_stream \<Rightarrow> bytes \<Rightarrow> out_event list" where
  "writeOutput s value = (if value = [] then [] else [(s, value)])"

text \<open>The loop over the response; \<open>ctx_err\<close> is \<open>ctx.Err()\<close> when a read fails.\<close>

lemma readPacket_shorter: "readPacket dec m input = (rest, Inr v) \<Longrightarrow> length rest < length input"
  by (auto simp: readPacket_def read_full_def Let_def split: sum.splits if_splits prod.splits)

function client_loop ::
  "wireFrame decoder \<Rightarrow> error option \<Rightarrow> bytes \<Rightarrow> out_event list \<Rightarrow> out_event list \<times> exec_result \<times> error option" where
  "client_loop dec ctx_err input out =
     (case readPacket dec maxFrameBytes input of
        (_, Inl e) \<Rightarrow>
          (case ctx_err of
             Some ce \<Rightarrow> (out, refused, Some ce)
           | None \<Rightarrow> (out, refused, Some (Wrap ''read isolated command response'' e)))
      | (rest, Inr f) \<Rightarrow>
          if fr_Type f = ''stdout'' then client_loop dec ctx_err rest (out @ writeOutput Stdout (fr_Data f))
          else if fr_Type f = ''stderr'' then client_loop dec ctx_err rest (out @ writeOutput Stderr (fr_Data f))
          else if fr_Type f = ''result''
          then (out, \<lparr>er_ExitCode = fr_ExitCode f, er_Duration = of_millis (fr_DurationMillis f)\<rparr>,
                if fr_Error f \<noteq> [] then Some (Err (fr_Error f)) else None)
          else if fr_Type f = ''error''
          then (out, refused,
                Some (Err (if fr_Error f = [] then ''isolated executor rejected request'' else fr_Error f)))
          else (out, refused, Some (Err ''unknown isolated executor frame'')))"
  by pat_completeness auto
termination
  by (relation "measure (\<lambda>(dec, ctx_err, input, out). length input)") (auto dest: readPacket_shorter [OF sym])

declare client_loop.simps [simp del]

text \<open>A buffer that takes everything written to it.\<close>

definition buffer_write :: "bytes io_write" where
  "buffer_write b v = (b @ v, int (length v), None)"

definition Client_Run ::
  "wireRequest encoder \<Rightarrow> wireFrame decoder \<Rightarrow> (string \<Rightarrow> 'w connection result) \<Rightarrow> error option \<Rightarrow> client \<Rightarrow> 'w command_executor" where
  "Client_Run enc dec dial ctx_err c w sp =
     (if \<not> sp_Isolated sp then (w, [], refused, Some (Err ''socket executor accepts isolated commands only''))
      else if length (sp_Stdin sp) \<noteq> 0 then (w, [], refused, Some (Err ''isolated command stdin is not allowed''))
      else case requestFromSpec sp of
        Inl e \<Rightarrow> (w, [], refused, Some e)
      | Inr request \<Rightarrow>
          (case dial (if cl_SocketPath c = [] then DefaultSocketPath else cl_SocketPath c) of
             Inl e \<Rightarrow> (w, [], refused, Some (Wrap ''connect isolated executor'' e))
           | Inr conn \<Rightarrow>
               (case cn_peer conn of
                  Inl e \<Rightarrow> (w, [], refused, Some (Wrap ''inspect isolated executor peer'' e))
                | Inr uid' \<Rightarrow>
                    if uid' \<noteq> cl_PeerUID c
                    then (w, [], refused, Some (Err ''isolated executor listener UID does not match''))
                    else (case writePacket enc buffer_write [] request maxRequestBytes of
                            (_, Some e) \<Rightarrow> (w, [], refused, Some (Wrap ''send isolated command'' e))
                          | (sent, None) \<Rightarrow>
                              (case cn_exchange conn w sent of
                                 (w', response) \<Rightarrow> (w', client_loop dec ctx_err response []))))))"

subsection \<open>Packets survive the connection\<close>

lemma byte_word_char_of: "byte_word (char_of (unat v)) = take_bit 8 v"
proof -
  have "unat v mod 256 = take_bit 8 (unat v)" by (simp add: take_bit_eq_mod)
  also have "\<dots> = unat (take_bit 8 v)" by (simp add: unsigned_take_bit_eq)
  finally show ?thesis by (simp add: byte_word_def of_char_of)
qed

lemma get_put_uint32 [simp]: "get_uint32 (put_uint32 v) = v"
proof (rule bit_word_eqI)
  fix n assume "n < LENGTH(32)"
  then consider "n < 8" | "8 \<le> n" "n < 16" | "16 \<le> n" "n < 24" | "24 \<le> n" "n < 32" by force
  then show "bit (get_uint32 (put_uint32 v)) n \<longleftrightarrow> bit v n"
    by cases (auto simp: get_uint32_def put_uint32_def byte_word_char_of bit_simps)
qed

lemma length_put_uint32 [simp]: "length (put_uint32 v) = 4"
  by (simp add: put_uint32_def)

text \<open>A writer that may accept only a part of what it is given, but keeps what it accepted.\<close>

locale progress_writer =
  fixes wr :: "'d io_write" and content :: "'d \<Rightarrow> bytes"
  assumes accepts: "v \<noteq> [] \<Longrightarrow> wr d v = (d', n, None) \<Longrightarrow> 0 < n \<Longrightarrow> n \<le> int (length v) \<Longrightarrow>
    content d' = content d @ take (nat n) v"
begin

lemma writeAll_content: "writeAll wr d v = (d', None) \<Longrightarrow> content d' = content d @ v"
proof (induction "length v" arbitrary: d v rule: less_induct)
  case less
  show ?case
  proof (cases "v = []")
    case True
    with less.prems show ?thesis by (simp add: writeAll.simps)
  next
    case False
    obtain d1 n e where w: "wr d v = (d1, n, e)" by (cases "wr d v")
    have step: "(case e of Some e' \<Rightarrow> (d1, Some e')
        | None \<Rightarrow> if n \<le> 0 \<or> n > int (length v) then (d1, Some ErrShortWrite) else writeAll wr d1 (drop (nat n) v)) = (d', None)"
      using less.prems unfolding writeAll.simps [of wr d v] by (simp add: False w split: option.splits)
    then have n: "e = None" "0 < n" "n \<le> int (length v)" and rest: "writeAll wr d1 (drop (nat n) v) = (d', None)"
      by (simp_all split: option.splits if_splits)
    have "content d' = content d1 @ drop (nat n) v"
      using less.hyps [OF _ rest] n False by auto
    moreover have "content d1 = content d @ take (nat n) v" using accepts [OF False] w n by auto
    ultimately show ?thesis by simp
  qed
qed

lemma writePacket_content:
  assumes "writePacket enc wr d v m = (d', None)"
  obtains p where "enc v = Inr p" "p \<noteq> []" "int (length p) \<le> m"
    "content d' = content d @ put_uint32 (word_of_nat (length p)) @ p"
proof -
  from assms obtain p d1 where p: "enc v = Inr p" "p \<noteq> []" "int (length p) \<le> m"
    and w: "writeAll wr d (put_uint32 (word_of_nat (length p))) = (d1, None)" "writeAll wr d1 p = (d', None)"
    by (auto simp: writePacket_def split: sum.splits if_splits prod.splits option.splits)
  show thesis using that [OF p] writeAll_content [OF w(1)] writeAll_content [OF w(2)] by simp
qed

end

interpretation buffer: progress_writer buffer_write id
  by unfold_locales (auto simp: buffer_write_def)

lemma readPacket_packet:
  assumes "p \<noteq> []" "int (length p) \<le> m" "m < 2 ^ 32" "dec p = Inr (v, ws)" "list_all json_space ws"
  shows "readPacket dec m (put_uint32 (word_of_nat (length p)) @ p @ rest) = (rest, Inr v)"
proof -
  have len: "unat (word_of_nat (length p) :: 32 word) = length p"
    using assms(2,3) by (simp add: unsigned_of_nat take_bit_nat_eq_self)
  have nz: "(word_of_nat (length p) :: 32 word) \<noteq> 0" using len assms(1) by auto
  have ui: "uint (word_of_nat (length p) :: 32 word) = int (length p)" using len by (metis uint_nat)
  show ?thesis using assms len nz ui by (simp add: readPacket_def read_full_def)
qed

text \<open>
  C29 (packet_roundtrip): a value that \<open>writePacket\<close> sent without an error, over any connection that may
  accept a packet piecemeal, is read back by \<open>readPacket\<close> from exactly the bytes that were sent, and
  the rest of the stream is left untouched.
\<close>

theorem packet_roundtrip:
  assumes "progress_writer wr content" "writePacket enc wr d v m = (d', None)" "m < 2 ^ 32"
    and "\<And>p. enc v = Inr p \<Longrightarrow> dec p = Inr (v, [])"
  shows "\<exists>sent. content d' = content d @ sent \<and> (\<forall>rest. readPacket dec m (sent @ rest) = (rest, Inr v))"
proof -
  obtain p where p: "enc v = Inr p" "p \<noteq> []" "int (length p) \<le> m"
    "content d' = content d @ put_uint32 (word_of_nat (length p)) @ p"
    using progress_writer.writePacket_content [OF assms(1,2)] .
  have "readPacket dec m (put_uint32 (word_of_nat (length p)) @ p @ rest) = (rest, Inr v)" for rest
    by (rule readPacket_packet [OF p(2,3) assms(3)]) (use assms(4) p(1) in auto)
  with p(4) show ?thesis by auto
qed

text \<open>A connection that takes at most three bytes at a time, and a text codec.\<close>

definition slow_write :: "bytes io_write" where
  "slow_write b v = (b @ take 3 v, int (min 3 (length v)), None)"

theorem packet_roundtrip_witness:
  "\<exists>sent. writePacket Inr slow_write ''x'' ''hello'' 100 = (''x'' @ sent, None) \<and>
     readPacket (\<lambda>p. Inr (p, [])) 100 (sent @ ''next'') = (''next'', Inr ''hello'')"
proof -
  have sw: "progress_writer slow_write id"
    by unfold_locales (auto simp: slow_write_def min_def split: if_splits)
  let ?r = "writePacket Inr slow_write ''x'' ''hello'' 100"
  have "snd ?r = None" by code_simp
  then have r: "?r = (fst ?r, None)" by (metis prod.collapse)
  have "\<exists>sent. id (fst ?r) = id ''x'' @ sent \<and>
      (\<forall>rest. readPacket (\<lambda>p. Inr (p, [])) 100 (sent @ rest) = (rest, Inr ''hello''))"
    by (rule packet_roundtrip [OF sw r]) auto
  then show ?thesis using r by (metis id_apply)
qed

subsection \<open>The output of a command survives the connection\<close>

text \<open>
  What is relied on of the JSON codec for a value: it is encoded within the limit, and decoding gives
  the value back with at most white space left over.
\<close>

definition codec_ok :: "'v encoder \<Rightarrow> 'v decoder \<Rightarrow> int \<Rightarrow> 'v \<Rightarrow> bool" where
  "codec_ok enc dec m v \<longleftrightarrow>
     (case enc v of
        Inl _ \<Rightarrow> False
      | Inr p \<Rightarrow> p \<noteq> [] \<and> int (length p) \<le> m \<and>
          (case dec p of Inl _ \<Rightarrow> False | Inr (v', ws) \<Rightarrow> v' = v \<and> list_all json_space ws))"

definition packet :: "'v encoder \<Rightarrow> 'v \<Rightarrow> bytes" where
  "packet enc v = (case enc v of Inl _ \<Rightarrow> [] | Inr p \<Rightarrow> put_uint32 (word_of_nat (length p)) @ p)"

lemma codec_okE:
  assumes "codec_ok enc dec m v"
  obtains p ws where "enc v = Inr p" "p \<noteq> []" "int (length p) \<le> m" "dec p = Inr (v, ws)" "list_all json_space ws"
  using assms that by (auto simp: codec_ok_def split: sum.splits)

lemma writeAll_buffer [simp]: "writeAll buffer_write b v = (b @ v, None)"
  by (subst writeAll.simps, cases v) (simp_all add: buffer_write_def writeAll.simps)

lemma writePacket_buffer:
  "codec_ok enc dec m v \<Longrightarrow> writePacket enc buffer_write b v m = (b @ packet enc v, None)"
  by (erule codec_okE) (auto simp: writePacket_def packet_def)

lemma readPacket_ok:
  "codec_ok enc dec m v \<Longrightarrow> m < 2 ^ 32 \<Longrightarrow> readPacket dec m (packet enc v @ rest) = (rest, Inr v)"
  by (erule codec_okE) (simp add: packet_def readPacket_packet)

lemma max_frame_word [simp]: "maxFrameBytes < 2 ^ 32" by (simp add: maxFrameBytes_def)
lemma max_request_word [simp]: "maxRequestBytes < 2 ^ 32" by (simp add: maxRequestBytes_def)

text \<open>The output frames of a stream, and what the client makes of them.\<close>

definition output_frame :: "out_stream \<Rightarrow> bytes \<Rightarrow> wireFrame" where
  "output_frame st d = (frame (stream_kind st))\<lparr>fr_Data := d\<rparr>"

text \<open>
  The frames the server sends: a chunk of output, or an error text cut at 4096 bytes. JSON keeps a
  string exactly when it is valid UTF-8.
\<close>

definition valid_utf8 :: "string \<Rightarrow> bool" where "valid_utf8 s \<longleftrightarrow> concat (utf8_runes s) = s"

definition int64 :: "int \<Rightarrow> bool" where "int64 x \<longleftrightarrow> - (2 ^ 63) \<le> x \<and> x < 2 ^ 63"

definition frame_fits :: "wireFrame \<Rightarrow> bool" where
  "frame_fits f \<longleftrightarrow>
     int64 (fr_ExitCode f) \<and> int64 (fr_DurationMillis f) \<and> fr_Type f \<in> {''stdout'', ''stderr'', ''result'', ''error''} \<and> length (fr_Data f) \<le> maxOutputChunk \<and>
     length (fr_Error f) \<le> 4096 \<and> valid_utf8 (fr_Error f)"

definition frames_ok :: "wireFrame encoder \<Rightarrow> wireFrame decoder \<Rightarrow> bool" where
  "frames_ok enc dec \<longleftrightarrow> (\<forall>f. frame_fits f \<longrightarrow> codec_ok enc dec maxFrameBytes f)"

lemma valid_utf8_Nil [simp]: "valid_utf8 []" by (simp add: valid_utf8_def utf8_runes.simps)

lemma output_frame_ok:
  "frames_ok enc dec \<Longrightarrow> length d \<le> maxOutputChunk \<Longrightarrow> codec_ok enc dec maxFrameBytes (output_frame st d)"
  by (cases st) (simp_all add: frames_ok_def frame_fits_def int64_def output_frame_def frame_def stream_kind_def)

abbreviation packets :: "wireFrame encoder \<Rightarrow> out_event list \<Rightarrow> bytes" where
  "packets enc evs \<equiv> concat (map (\<lambda>(st, d). packet enc (output_frame st d)) evs)"

text \<open>The output byte by byte, each with the stream it was written to.\<close>

definition tagged :: "out_event list \<Rightarrow> (out_stream \<times> char) list" where
  "tagged out = concat (map (\<lambda>(st, d). map (Pair st) d) out)"

lemma tagged_simps [simp]: "tagged [] = []" "tagged ((st, d) # out) = map (Pair st) d @ tagged out"
  "tagged (out @ out') = tagged out @ tagged out'"
  by (simp_all add: tagged_def)

lemma streamWriter_loop_frames:
  assumes "frames_ok enc dec" "offset \<le> length value"
  shows "\<exists>evs. streamWriter_loop enc buffer_write (stream_kind st) \<lparr>fw_connection = b, fw_err = None\<rparr> value offset =
      (\<lparr>fw_connection = b @ packets enc evs, fw_err = None\<rparr>, length value, None) \<and>
    tagged evs = map (Pair st) (drop offset value) \<and> (\<forall>(st, d)\<in>set evs. d \<noteq> [] \<and> length d \<le> maxOutputChunk)"
  using assms(2)
proof (induction "length value - offset" arbitrary: offset b rule: less_induct)
  case less
  show ?case
  proof (cases "offset < length value")
    case False
    then show ?thesis using less.prems
      by (subst streamWriter_loop.simps) (auto intro!: exI [of _ "[]"])
  next
    case True
    define finish where "finish = min (offset + maxOutputChunk) (length value)"
    define d where "d = take (finish - offset) (drop offset value)"
    have fin: "offset < finish" "finish \<le> length value" "finish - offset \<le> maxOutputChunk"
      using True by (auto simp: finish_def maxOutputChunk_def)
    have d: "d \<noteq> []" "length d \<le> maxOutputChunk" "drop offset value = d @ drop finish value"
      using fin append_take_drop_id [of "finish - offset" "drop offset value"] by (auto simp: d_def)
    have ok: "codec_ok enc dec maxFrameBytes (output_frame st d)"
      using assms(1) d(2) by (rule output_frame_ok)
    have unfold: "streamWriter_loop enc buffer_write (stream_kind st) \<lparr>fw_connection = b, fw_err = None\<rparr> value offset =
        streamWriter_loop enc buffer_write (stream_kind st)
          \<lparr>fw_connection = b @ packet enc (output_frame st d), fw_err = None\<rparr> value finish"
      unfolding streamWriter_loop.simps [of _ _ _ _ "value" offset]
      using True writePacket_buffer [OF ok]
      by (simp add: frameWriter_write_def finish_def [symmetric] d_def [symmetric] output_frame_def [symmetric])
    have shorter: "length value - finish < length value - offset" using fin True by simp
    obtain evs where evs: "streamWriter_loop enc buffer_write (stream_kind st)
          \<lparr>fw_connection = b @ packet enc (output_frame st d), fw_err = None\<rparr> value finish =
        (\<lparr>fw_connection = (b @ packet enc (output_frame st d)) @ packets enc evs, fw_err = None\<rparr>, length value, None)"
      "tagged evs = map (Pair st) (drop finish value)" "\<forall>(st, d)\<in>set evs. d \<noteq> [] \<and> length d \<le> maxOutputChunk"
      using less.hyps [OF shorter fin(2)] by blast
    show ?thesis unfolding unfold using evs d by (intro exI [of _ "(st, d) # evs"]) auto
  qed
qed

lemma stream_events_frames:
  assumes "frames_ok enc dec"
  shows "\<exists>evs. fold (\<lambda>ev w. stream_event enc buffer_write w ev) out \<lparr>fw_connection = b, fw_err = None\<rparr> =
      \<lparr>fw_connection = b @ packets enc evs, fw_err = None\<rparr> \<and>
    tagged evs = tagged out \<and> (\<forall>(st, d)\<in>set evs. d \<noteq> [] \<and> length d \<le> maxOutputChunk)"
proof (induction out arbitrary: b)
  case (Cons ev out)
  obtain st d where ev: "ev = (st, d)" by (cases ev)
  obtain es where es: "stream_event enc buffer_write \<lparr>fw_connection = b, fw_err = None\<rparr> ev =
      \<lparr>fw_connection = b @ packets enc es, fw_err = None\<rparr>"
    "tagged es = map (Pair st) d" "\<forall>(st, d)\<in>set es. d \<noteq> [] \<and> length d \<le> maxOutputChunk"
    using streamWriter_loop_frames [OF assms, of 0 d st b]
    by (auto simp: stream_event_def streamWriter_Write_def ev)
  obtain evs where evs: "fold (\<lambda>ev w. stream_event enc buffer_write w ev) out
      \<lparr>fw_connection = b @ packets enc es, fw_err = None\<rparr> =
      \<lparr>fw_connection = (b @ packets enc es) @ packets enc evs, fw_err = None\<rparr>"
    "tagged evs = tagged out" "\<forall>(st, d)\<in>set evs. d \<noteq> [] \<and> length d \<le> maxOutputChunk"
    using Cons.IH [of "b @ packets enc es"] by blast
  show ?case using es evs by (intro exI [of _ "es @ evs"]) (auto simp: ev)
qed (auto intro!: exI [of _ "[]"])

lemma client_loop_output:
  assumes "frames_ok enc dec" "\<forall>(st, d)\<in>set evs. d \<noteq> [] \<and> length d \<le> maxOutputChunk"
  shows "client_loop dec ce (packets enc evs @ rest) out = client_loop dec ce rest (out @ evs)"
  using assms(2)
proof (induction evs arbitrary: out)
  case (Cons ev evs)
  obtain st d where ev: "ev = (st, d)" "d \<noteq> []" "length d \<le> maxOutputChunk" using Cons.prems by (cases ev) auto
  have ok: "codec_ok enc dec maxFrameBytes (output_frame st d)" using assms(1) ev(3) by (rule output_frame_ok)
  have "client_loop dec ce (packet enc (output_frame st d) @ packets enc evs @ rest) out =
      client_loop dec ce (packets enc evs @ rest) (out @ [(st, d)])"
    unfolding client_loop.simps [of dec ce "packet enc (output_frame st d) @ packets enc evs @ rest"]
    using readPacket_ok [OF ok max_frame_word] ev(2)
    by (cases st) (simp_all add: output_frame_def frame_def stream_kind_def writeOutput_def)
  with Cons show ?case by (simp add: ev(1))
qed simp

end
