(* ===== verification/Secrets.thy ===== *)
theory Secrets
  imports Executor
begin

text \<open>
  File \<open>secrets.go\<close> of package \<open>executor\<close>: the per-job credential directories below the runner's
  runtime directory, and the removal of what a crash left behind.
\<close>

definition DefaultCredentialRoot :: string where "DefaultCredentialRoot = ''/run/releasedock-credentials''"
definition DefaultExecutorCredentialRoot :: string where
  "DefaultExecutorCredentialRoot = ''/run/releasedock-executor-private''"
definition RunnerHostLockFile :: string where "RunnerHostLockFile = ''.runner.lock''"
definition CredentialDirectory :: string where "CredentialDirectory = ''.target-credential''"
definition CredentialFile :: string where "CredentialFile = ''credential''"
definition ExecutorCredentialDirectory :: string where "ExecutorCredentialDirectory = ''.executor-target-credential''"

definition legacyWorkspaceSecretDirectories :: "string list" where
  "legacyWorkspaceSecretDirectories =
     [''.containerd-hosts'', ''.registry-certs'', ''.runtime-auth'', CredentialDirectory, ExecutorCredentialDirectory]"

definition validCredentialJobID :: "string \<Rightarrow> bool" where
  "validCredentialJobID value \<longleftrightarrow>
     value \<noteq> [] \<and> length value \<le> 128 \<and>
     (\<forall>c\<in>set value. is_lower c \<or> is_upper c \<or> is_digit c \<or> c = CHR ''-'' \<or> c = CHR ''_'' \<or> c = CHR ''.'')"

definition CredentialJobDirectory :: "string \<Rightarrow> string \<Rightarrow> string result" where
  "CredentialJobDirectory root jobID =
     (if \<not> validCredentialJobID jobID
      then Inl (Err ''credential handoff job ID contains unsupported characters'')
      else Inr (path_join [path_clean root, ''job-'' @ jobID]))"

definition validDirectName :: "string \<Rightarrow> bool" where
  "validDirectName name \<longleftrightarrow>
     name \<noteq> [] \<and> name \<noteq> dot \<and> name \<noteq> dotdot \<and> path_base name = name \<and> \<not> contains_char name slash"

definition removeDirectChild :: "fs \<Rightarrow> string \<Rightarrow> string \<Rightarrow> fs \<times> error option" where
  "removeDirectChild fs root name =
     (if \<not> validDirectName name then (fs, Some (Err ''refusing to remove invalid direct child''))
      else let path = path_join [path_clean root, name] in
        case path_rel (path_clean root) path of
          Inl _ \<Rightarrow> (fs, Some (Err ''refusing to remove path outside managed root''))
        | Inr relative \<Rightarrow>
            if relative \<noteq> name \<or> contains_char relative slash
            then (fs, Some (Err ''refusing to remove path outside managed root''))
            else case os_remove_all fs path of
              (fs', Some e) \<Rightarrow> (fs', Some (Wrap ''remove managed path'' e))
            | (fs', None) \<Rightarrow> (fs', None))"

definition validateOwnedDirectory ::
  "fs \<Rightarrow> string \<Rightarrow> 32 word \<Rightarrow> 32 word \<Rightarrow> perm_bits \<Rightarrow> bool \<Rightarrow> error option" where
  "validateOwnedDirectory fs path u g permissions sgid =
     (if \<not> is_abs path \<or> path_clean path = [slash] then Some (Err ''path must be an absolute non-root path'')
      else let clean = path_clean path in
        case os_lstat fs clean of
          Inl _ \<Rightarrow> Some (Err ''path must be a real directory'')
        | Inr info \<Rightarrow>
            if \<not> is_dir info \<or> is_symlink info then Some (Err ''path must be a real directory'')
            else if eval_symlinks fs clean \<noteq> Inr clean then Some (Err ''directory path cannot contain symlinks'')
            else if uid info \<noteq> u then Some (Err ''directory owner is invalid'')
            else if gid info \<noteq> g then Some (Err ''directory group is invalid'')
            else guard (perm info \<noteq> permissions \<or> setgid info \<noteq> sgid) ''directory permissions are invalid'')"

definition validateRunnerLockFile :: "proc \<Rightarrow> fs \<Rightarrow> string \<Rightarrow> error option" where
  "validateRunnerLockFile pr fs path =
     (case os_lstat fs path of
        Inl _ \<Rightarrow> Some (Err ''Runner host lock must be a regular non-symlink file'')
      | Inr info \<Rightarrow>
          if \<not> is_regular info \<or> is_symlink info
          then Some (Err ''Runner host lock must be a regular non-symlink file'')
          else if uid info \<noteq> proc_uid pr \<or> perm info \<noteq> octal 6 0 0
          then Some (Err ''Runner host lock ownership or permissions are invalid'')
          else guard (gid info \<noteq> proc_gid pr) ''Runner host lock group is invalid'')"

text \<open>The loop over the entries of the runner's directory, with the errors joined so far.\<close>

fun prepare_entries :: "proc \<Rightarrow> string \<Rightarrow> fs \<Rightarrow> error option \<Rightarrow> string list \<Rightarrow> fs \<times> error option" where
  "prepare_entries pr root fs result [] = (fs, result)"
| "prepare_entries pr root fs result (name # rest) =
     (if name = RunnerHostLockFile
      then (case validateRunnerLockFile pr fs (path_join [root, name]) of
              Some e \<Rightarrow> prepare_entries pr root fs (errors_join [result, Some e]) rest
            | None \<Rightarrow> prepare_entries pr root fs result rest)
      else if \<not> has_prefix name ''job-'' \<or> \<not> validDirectName name
      then prepare_entries pr root fs
             (errors_join [result, Some (Err ''unexpected entry in Runner credential RuntimeDirectory'')]) rest
      else case removeDirectChild fs root name of
             (fs', Some e) \<Rightarrow> prepare_entries pr root fs' (errors_join [result, Some e]) rest
           | (fs', None) \<Rightarrow> prepare_entries pr root fs' result rest)"

definition PrepareRunnerCredentialRoot :: "proc \<Rightarrow> fs \<Rightarrow> string \<Rightarrow> fs \<times> error option" where
  "PrepareRunnerCredentialRoot pr fs root =
     (case validateOwnedDirectory fs root (proc_uid pr) (proc_gid pr) (octal 7 1 0) False of
        Some e \<Rightarrow> (fs, Some (Wrap ''validate Runner credential RuntimeDirectory'' e))
      | None \<Rightarrow>
          (case os_read_dir fs root of
             Inl e \<Rightarrow> (fs, Some (Wrap ''read Runner credential RuntimeDirectory'' e))
           | Inr entries \<Rightarrow> prepare_entries pr root fs None entries))"

definition CreateCredentialJobDirectory :: "proc \<Rightarrow> fs \<Rightarrow> string \<Rightarrow> string \<Rightarrow> fs \<times> string result" where
  "CreateCredentialJobDirectory pr fs root jobID =
     (case validateOwnedDirectory fs root (proc_uid pr) (proc_gid pr) (octal 7 1 0) False of
        Some e \<Rightarrow> (fs, Inl (Wrap ''validate Runner credential RuntimeDirectory'' e))
      | None \<Rightarrow>
          (case CredentialJobDirectory root jobID of
             Inl e \<Rightarrow> (fs, Inl e)
           | Inr directory \<Rightarrow>
               (case os_mkdir pr fs directory (octal 7 1 0) of
                  (fs1, Some e) \<Rightarrow> (fs1, Inl (Wrap ''create job credential RuntimeDirectory'' e))
                | (fs1, None) \<Rightarrow>
                    (case os_chmod fs1 directory (octal 7 1 0) True False of
                       (fs2, Some e) \<Rightarrow> (fst (os_remove fs2 directory), Inl (Wrap ''secure job credential RuntimeDirectory'' e))
                     | (fs2, None) \<Rightarrow> (fs2, Inr directory)))))"

definition RemoveCredentialJobDirectory :: "fs \<Rightarrow> string \<Rightarrow> string \<Rightarrow> fs \<times> error option" where
  "RemoveCredentialJobDirectory fs root jobID =
     (case CredentialJobDirectory root jobID of
        Inl e \<Rightarrow> (fs, Some e)
      | Inr directory \<Rightarrow> removeDirectChild fs (path_clean root) (path_base directory))"

fun clear_entries :: "string \<Rightarrow> fs \<Rightarrow> error option \<Rightarrow> string list \<Rightarrow> fs \<times> error option" where
  "clear_entries root fs result [] = (fs, result)"
| "clear_entries root fs result (name # rest) =
     (if \<not> validDirectName name
      then clear_entries root fs (errors_join [result, Some (Err ''invalid direct child'')]) rest
      else case removeDirectChild fs root name of
             (fs', Some e) \<Rightarrow> clear_entries root fs' (errors_join [result, Some e]) rest
           | (fs', None) \<Rightarrow> clear_entries root fs' result rest)"

definition clearDirectChildren :: "fs \<Rightarrow> string \<Rightarrow> fs \<times> error option" where
  "clearDirectChildren fs root =
     (case os_read_dir fs root of
        Inl e \<Rightarrow> (fs, Some e)
      | Inr entries \<Rightarrow> clear_entries root fs None entries)"

definition PrepareExecutorCredentialRoot :: "proc \<Rightarrow> fs \<Rightarrow> string \<Rightarrow> fs \<times> error option" where
  "PrepareExecutorCredentialRoot pr fs root =
     (case validateOwnedDirectory fs root (proc_uid pr) (proc_gid pr) (octal 7 0 0) False of
        Some e \<Rightarrow> (fs, Some (Wrap ''validate executor credential RuntimeDirectory'' e))
      | None \<Rightarrow> clearDirectChildren fs root)"

fun scavenge_names :: "string \<Rightarrow> fs \<Rightarrow> error option \<Rightarrow> string list \<Rightarrow> fs \<times> error option" where
  "scavenge_names workspace fs result [] = (fs, result)"
| "scavenge_names workspace fs result (name # rest) =
     (case removeDirectChild fs workspace name of
        (fs', Some e) \<Rightarrow> scavenge_names workspace fs' (errors_join [result, Some (Wrap ''scavenge'' e)]) rest
      | (fs', None) \<Rightarrow> scavenge_names workspace fs' result rest)"

fun scavenge_entries :: "proc \<Rightarrow> string \<Rightarrow> fs \<Rightarrow> error option \<Rightarrow> string list \<Rightarrow> fs \<times> error option" where
  "scavenge_entries pr root fs result [] = (fs, result)"
| "scavenge_entries pr root fs result (name # rest) =
     (if \<not> has_prefix name ''job-'' then scavenge_entries pr root fs result rest
      else if \<not> validDirectName name
      then scavenge_entries pr root fs (errors_join [result, Some (Err ''invalid job workspace entry'')]) rest
      else let workspace = path_join [root, name] in
        case validateOwnedDirectory fs workspace (proc_uid pr) (proc_gid pr) (octal 7 7 0) True of
          Some e \<Rightarrow> scavenge_entries pr root fs (errors_join [result, Some (Wrap ''validate job workspace'' e)]) rest
        | None \<Rightarrow>
            (case os_lstat fs workspace of
               Inl _ \<Rightarrow> scavenge_entries pr root fs (errors_join [result, Some (Err ''job workspace is not sticky'')]) rest
             | Inr info \<Rightarrow>
                 if \<not> sticky info
                 then scavenge_entries pr root fs (errors_join [result, Some (Err ''job workspace is not sticky'')]) rest
                 else (case scavenge_names workspace fs result legacyWorkspaceSecretDirectories of
                         (fs', result') \<Rightarrow> scavenge_entries pr root fs' result' rest)))"

definition ScavengeWorkspaceSecrets :: "proc \<Rightarrow> fs \<Rightarrow> string \<Rightarrow> fs \<times> error option" where
  "ScavengeWorkspaceSecrets pr fs root =
     (case validateOwnedDirectory fs root (proc_uid pr) (proc_gid pr) (octal 7 5 0) True of
        Some e \<Rightarrow> (fs, Some (Wrap ''validate workspace root for secret scavenging'' e))
      | None \<Rightarrow>
          (case os_read_dir fs root of
             Inl e \<Rightarrow> (fs, Some (Wrap ''read workspace root for secret scavenging'' e))
           | Inr entries \<Rightarrow> scavenge_entries pr root fs None entries))"

subsection \<open>What a validated directory guarantees\<close>

text \<open>
  An invariant of the directories on which a resolution stands: it holds at the root, going up and
  going down into a directory. The result has it, or is an entry of a directory that has it.
\<close>

lemma walk_invariant:
  assumes "walk n fs cur cs follow = Inr q" "I cur" "\<forall>x\<in>set cs. slash \<notin> set x"
    and root: "I []" and up: "\<And>d. I d \<Longrightarrow> I (butlast d)"
    and down: "\<And>d c nd. I d \<Longrightarrow> normal_name c \<Longrightarrow> node_at fs (d @ [c]) = Some nd \<Longrightarrow> kind nd = Directory \<Longrightarrow> I (d @ [c])"
  shows "I q \<or> (\<exists>d c. q = d @ [c] \<and> I d \<and> normal_name c)"
  using assms(1-3) down
proof (induction n fs cur cs follow rule: walk.induct)
  case (2 n fs cur c cs follow)
  show ?case
  proof (cases "c = [] \<or> c = dot \<or> c = dotdot")
    case True
    then show ?thesis using 2 up [of cur] by (auto split: if_splits)
  next
    case names: False
    then have c: "normal_name c" using "2.prems"(3) by (simp add: normal_name_def)
    show ?thesis
    proof (cases "node_at fs (cur @ [c])")
      case None
      with "2.prems" names c show ?thesis by (auto split: if_splits)
    next
      case (Some nd)
      show ?thesis
      proof (cases "kind nd")
        case Directory
        with 2 Some names "2.prems"(4) [OF "2.prems"(2) c Some Directory] show ?thesis by auto
      next
        case (Symlink t)
        show ?thesis
        proof (cases "cs = [] \<and> \<not> follow")
          case True
          with "2.prems" names Some Symlink c show ?thesis by auto
        next
          case False
          with "2.prems" names Some Symlink
          have go: "n \<noteq> 0" "walk (n - 1) fs (if is_abs t then [] else cur) (split_char slash t @ cs) follow = Inr q"
            by (auto split: if_splits)
          have "\<forall>x\<in>set (split_char slash t @ cs). slash \<notin> set x"
            using "2.prems"(3) split_char_no_sep by auto
          moreover have "I (if is_abs t then [] else cur)" using root "2.prems"(2) by simp
          ultimately show ?thesis using "2.IH"(4) names Some Symlink False go "2.prems"(4) by blast
        qed
      qed (use "2.prems" names Some c in \<open>auto split: if_splits\<close>)
    qed
  qed
qed simp

text \<open>A path equal to its own \<open>EvalSymlinks\<close> goes through real directories only.\<close>

lemma eval_symlinks_real:
  assumes "is_abs p" "eval_symlinks fs (path_clean p) = Inr (path_clean p)" "is_dir_at fs []"
  shows "real_dir fs (butlast (comps p))"
proof -
  obtain q where q: "walk 255 fs [] (split_char slash (path_clean p)) True = Inr q"
    "path_render True q = path_clean p"
    using assms(2) by (auto simp: eval_symlinks_def split: sum.splits option.splits)
  let ?I = "\<lambda>d. real_dir fs d \<and> (\<forall>x\<in>set d. normal_name x)"
  have "?I q \<or> (\<exists>d c. q = d @ [c] \<and> ?I d \<and> normal_name c)"
  proof (rule walk_invariant [OF q(1)])
    show "?I []" "?I []" using assms(3) by (simp_all add: real_dir_iff)
    show "?I (butlast d)" if "?I d" for d
      using that by (meson in_set_butlastD prefixeq_butlast real_dir_prefix)
    show "?I (d @ [c])" if "?I d" "normal_name c" "node_at fs (d @ [c]) = Some nd" "kind nd = Directory" for d c nd
      using that by (simp add: real_dir_snoc is_dir_at_def)
  qed (use split_char_no_sep in fastforce)
  then have real: "real_dir fs (butlast q)" and names: "\<forall>x\<in>set q. normal_name x"
    by (auto intro: real_dir_prefix [OF _ prefixeq_butlast])
  from names have "q = comps p"
    using q(2) assms(1) path_render_inject [of True q True "comps p"] comps_form [of p]
    by (simp add: path_clean_def)
  with real show ?thesis by simp
qed

lemma lstat_real:
  assumes "is_abs p" "eval_symlinks fs (path_clean p) = Inr (path_clean p)" "os_lstat fs (path_clean p) = Inr nd"
    and "is_dir_at fs []" "comps p \<noteq> []"
  shows "node_at fs (comps p) = Some nd" "real_dir fs (butlast (comps p))" "is_dir nd \<Longrightarrow> real_dir fs (comps p)"
proof -
  obtain d c where dc: "comps p = d @ [c]" using assms(5) by (metis append_butlast_last_id)
  have real: "real_dir fs d" using eval_symlinks_real [OF assms(1,2,4)] by (simp add: dc)
  have cf: "clean_form True (d @ [c])" using comps_form [of p] assms(1) dc by simp
  have at: "node_at fs (d @ [c]) = Some nd"
    using assms(1,3) lstat_render [OF cf real] by (simp add: path_clean_def dc split: option.splits)
  show "node_at fs (comps p) = Some nd" "real_dir fs (butlast (comps p))" using at real dc by simp_all
  show "real_dir fs (comps p)" if "is_dir nd"
    using real at that by (simp add: dc real_dir_snoc is_dir_at_def is_dir_def)
qed

lemma owned_directory:
  assumes "validateOwnedDirectory fs path u g pm sg = None" "is_dir_at fs []"
  obtains nd where "is_abs path" "comps path \<noteq> []" "real_dir fs (comps path)"
    "node_at fs (comps path) = Some nd" "is_dir nd" "uid nd = u" "gid nd = g" "perm nd = pm" "setgid nd = sg"
proof -
  from assms(1) obtain nd where *: "is_abs path" "path_clean path \<noteq> [slash]"
    "os_lstat fs (path_clean path) = Inr nd" "is_dir nd"
    "eval_symlinks fs (path_clean path) = Inr (path_clean path)"
    "uid nd = u" "gid nd = g" "perm nd = pm" "setgid nd = sg"
    by (auto simp: validateOwnedDirectory_def Let_def split: if_splits sum.splits)
  have ne: "comps path \<noteq> []" using *(1,2) by (auto simp: path_clean_def path_render_def)
  show thesis using that [of nd] * ne lstat_real [OF *(1,5,3) assms(2) ne] by simp
qed

lemma validDirectName_normal: "validDirectName name \<longleftrightarrow> normal_name name"
  using path_base_normal [of name] by (auto simp: validDirectName_def normal_name_def contains_char_def)

text \<open>Below a real directory, exactly the named subtree is removed.\<close>

lemma removeDirectChild_eq:
  assumes "is_abs root" "real_dir fs (comps root)" "normal_name name"
  shows "removeDirectChild fs root name = (del_tree (comps root @ [name]) fs, None)"
proof -
  have cf: "clean_form True (comps root @ [name])" using assms comps_form [of root] by auto
  have join: "path_join [path_clean root, name] = path_render True (comps root @ [name])"
    using path_join_name [OF cf] assms(1) by (simp add: path_clean_def)
  have rel: "path_rel (path_clean root) (path_render True (comps root @ [name])) = Inr name"
    using path_rel_below [of "path_clean root" "[name]"] assms by (simp add: path_render_def [of False])
  have "resolve fs (path_render True (comps root @ [name])) False = Inr (comps root @ [name])"
    using resolve_render [OF cf assms(2)] by simp
  moreover have "slash \<notin> set name" using assms(3) by (simp add: normal_name_def)
  ultimately show ?thesis using assms(3)
    by (simp add: removeDirectChild_def validDirectName_normal join rel Let_def os_remove_all_def contains_char_def)
qed

lemma real_dir_del_tree:
  "real_dir fs p \<Longrightarrow> \<not> prefix q p \<Longrightarrow> real_dir (del_tree q fs) p"
  by (erule real_dir_cong [rotated]) (auto dest: prefix_order.trans)

subsection \<open>Clearing a directory\<close>

text \<open>\<open>cleared R S fs fs'\<close>: the subtrees of \<open>R\<close> with a name in \<open>S\<close> are gone, nothing else changed.\<close>

definition cleared :: "string list \<Rightarrow> string set \<Rightarrow> fs \<Rightarrow> fs \<Rightarrow> bool" where
  "cleared R S fs fs' \<longleftrightarrow>
     (\<forall>q. node_at fs' q = (if \<exists>name\<in>S. prefix (R @ [name]) q then None else node_at fs q))"

lemma cleared_empty [simp]: "cleared R {} fs fs" by (simp add: cleared_def)

lemma cleared_tree: "cleared R {name} fs (del_tree (R @ [name]) fs)"
  by (simp add: cleared_def)

lemma cleared_trans: "cleared R S fs fs1 \<Longrightarrow> cleared R T fs1 fs2 \<Longrightarrow> cleared R (S \<union> T) fs fs2"
  by (auto simp: cleared_def)

lemma cleared_real: "cleared R S fs fs' \<Longrightarrow> real_dir fs R \<Longrightarrow> real_dir fs' R"
  by (rule real_dir_cong) (auto simp: cleared_def dest: prefix_order.trans)

lemma removeDirectChild_cleared:
  assumes "is_abs root" "real_dir fs (comps root)" "removeDirectChild fs root name = (fs', e)"
  shows "if validDirectName name then e = None \<and> cleared (comps root) {name} fs fs' else e \<noteq> None \<and> fs' = fs"
  using assms removeDirectChild_eq [of root fs name] cleared_tree [of "comps root" name fs]
  by (auto simp: validDirectName_normal removeDirectChild_def)

text \<open>The two loops over the entries: with no error at the end, every entry was removed.\<close>

lemma prepare_entries_cleared:
  assumes "is_abs root" "real_dir fs (comps root)" "prepare_entries pr root fs r names = (fs', None)"
  shows "r = None \<and> cleared (comps root) (set names - {RunnerHostLockFile}) fs fs' \<and>
    (\<forall>n\<in>set names. n = RunnerHostLockFile \<or> has_prefix n ''job-'' \<and> normal_name n)"
  using assms(2,3)
proof (induction names arbitrary: fs r)
  case (Cons n names)
  show ?case
  proof (cases "n = RunnerHostLockFile")
    case True
    with Cons.IH [OF Cons.prems(1)] Cons.prems(2) show ?thesis
      by (fastforce split: option.splits)
  next
    case False
    show ?thesis
    proof (cases "has_prefix n ''job-'' \<and> validDirectName n")
      case True
      then have n: "normal_name n" by (simp add: validDirectName_normal)
      let ?fs = "del_tree (comps root @ [n]) fs"
      have step: "cleared (comps root) {n} fs ?fs" by (rule cleared_tree)
      have "prepare_entries pr root ?fs r names = (fs', None)"
        using Cons.prems False True removeDirectChild_eq [OF assms(1) Cons.prems(1) n] by simp
      from Cons.IH [OF cleared_real [OF step Cons.prems(1)] this]
      show ?thesis using cleared_trans [OF step] True False n by (auto simp: insert_Diff_if)
    next
      case False
      with Cons.IH [OF Cons.prems(1)] Cons.prems(2) \<open>n \<noteq> RunnerHostLockFile\<close> show ?thesis by fastforce
    qed
  qed
qed simp

lemma children_iff: "normal_name n \<Longrightarrow> n \<in> set (children fs p) \<longleftrightarrow> node_at fs (p @ [n]) \<noteq> None"
  unfolding children_def node_at_def
  by (force simp: map_of_eq_None_iff image_iff)

lemma read_dir_real:
  assumes "is_abs root" "real_dir fs (comps root)" "comps root \<noteq> []"
  shows "os_read_dir fs (path_clean root) = Inr (children fs (comps root))"
proof -
  obtain d c where dc: "comps root = d @ [c]" using assms(3) by (metis append_butlast_last_id)
  have cf: "clean_form True (d @ [c])" using comps_form [of root] assms(1) dc by simp
  have d: "real_dir fs d" "is_dir_at fs (d @ [c])" using assms(2) by (simp_all add: dc real_dir_snoc)
  then have "resolve fs (path_render True (d @ [c])) True = Inr (d @ [c])"
    using resolve_render [OF cf d(1), of True] by (auto simp: is_dir_at_def is_symlink_def split: option.splits)
  with d assms(1) show ?thesis by (simp add: os_read_dir_def path_clean_def dc)
qed

subsection \<open>Properties\<close>

text \<open>The physical path of a job's credential directory.\<close>

definition job_path :: "string \<Rightarrow> string \<Rightarrow> string list" where
  "job_path root jobID = comps root @ [''job-'' @ jobID]"

lemma job_name_normal: "validCredentialJobID j \<Longrightarrow> normal_name (''job-'' @ j)"
proof -
  have "\<not> is_lower slash" "\<not> is_upper slash" "\<not> is_digit slash" by code_simp+
  then show "validCredentialJobID j \<Longrightarrow> ?thesis"
    by (auto simp: validCredentialJobID_def normal_name_def)
qed

lemma CredentialJobDirectory_ok:
  assumes "is_abs root" "CredentialJobDirectory root j = Inr d"
  shows "validCredentialJobID j" "d = path_render True (job_path root j)" "clean_form True (job_path root j)"
proof -
  show v: "validCredentialJobID j" using assms(2) by (auto simp: CredentialJobDirectory_def split: if_splits)
  show cf: "clean_form True (job_path root j)"
    using job_name_normal [OF v] comps_form [of root] assms(1) by (auto simp: job_path_def)
  show "d = path_render True (job_path root j)"
    using assms cf v path_join_name [of "comps root" "''job-'' @ j"]
    by (auto simp: CredentialJobDirectory_def job_path_def path_clean_def)
qed

text \<open>
  The directory that hands a credential to the scripts of a
  job is a direct child of the credential root, never the root itself, and two different job
  identifiers never share one.
\<close>

theorem credential_directories_do_not_alias:
  assumes "is_abs root" "CredentialJobDirectory root j = Inr d" "CredentialJobDirectory root j' = Inr d'"
  shows "path_dir d = path_clean root \<and> d \<noteq> path_clean root \<and> (d = d' \<longleftrightarrow> j = j')"
proof -
  note d = CredentialJobDirectory_ok [OF assms(1,2)] and d' = CredentialJobDirectory_ok [OF assms(1,3)]
  have "path_dir d = path_clean root"
    using path_dir_render [of True "comps root" "''job-'' @ j"] d assms(1) by (simp add: job_path_def path_clean_def)
  moreover have "d \<noteq> path_clean root"
    using path_render_inject [OF d(3), of True "comps root"] comps_form [of root] d(2) assms(1)
    by (auto simp: path_clean_def job_path_def)
  moreover have "d = d' \<longleftrightarrow> j = j'"
    using path_render_inject [OF d(3) d'(3)] d(2) d'(2) by (auto simp: job_path_def)
  ultimately show ?thesis by blast
qed

text \<open>
  Creating the credential directory of a job gives a fresh directory of
  mode 0710 with the set-group-id bit that belongs to the runner; whatever is then stored in it,
  removing it again succeeds and leaves exactly the file system from before: nothing below the
  directory survives, and nothing outside it is touched.
\<close>

theorem credential_lifecycle:
  assumes create: "CreateCredentialJobDirectory pr fs root j = (fs1, Inr d)"
    and used: "\<And>q. \<not> prefix (job_path root j) q \<Longrightarrow> node_at fs2 q = node_at fs1 q"
    and top: "is_dir_at fs []"
  shows "(\<exists>nd. node_at fs1 (job_path root j) = Some nd \<and> is_dir nd \<and> perm nd = octal 7 1 0 \<and> setgid nd \<and>
            uid nd = proc_uid pr \<and> node_at fs (job_path root j) = None) \<and>
    (\<exists>fs3. RemoveCredentialJobDirectory fs2 root j = (fs3, None) \<and>
       (\<forall>q. node_at fs3 q = (if prefix (job_path root j) q then None else node_at fs q)))"
proof -
  let ?P = "job_path root j"
  from create obtain fs0 where v: "validateOwnedDirectory fs root (proc_uid pr) (proc_gid pr) (octal 7 1 0) False = None"
    and dir: "CredentialJobDirectory root j = Inr d" and mk: "os_mkdir pr fs d (octal 7 1 0) = (fs0, None)"
    and ch: "os_chmod fs0 d (octal 7 1 0) True False = (fs1, None)"
    by (auto simp: CreateCredentialJobDirectory_def split: option.splits sum.splits prod.splits)
  obtain real: "is_abs root" "real_dir fs (comps root)" using owned_directory [OF v top] by metis
  note d = CredentialJobDirectory_ok [OF real(1) dir]
  note cf = d(3) [unfolded job_path_def]
  have fresh: "node_at fs ?P = None" and fs0: "fs0 = put_node ?P (new_inode fs pr ?P Directory (octal 7 1 0)) fs"
    using mk create_node_render [OF cf real(2), folded job_path_def]
    by (auto simp: os_mkdir_def d(2) split: if_splits)
  have real0: "real_dir fs0 (comps root)"
    by (rule real_dir_cong [OF _ real(2)]) (auto simp: fs0 job_path_def prefix_def)
  have "resolve fs0 d True = Inr ?P"
    using resolve_render [OF cf real0, of True, folded job_path_def] by (simp add: d(2) fs0 is_symlink_def)
  then have fs1: "fs1 = put_node ?P ((new_inode fs pr ?P Directory (octal 7 1 0))\<lparr>perm := octal 7 1 0, setgid := True, sticky := False\<rparr>) fs0"
    using ch by (simp add: os_chmod_def fs0)
  have real2: "real_dir fs2 (comps root)"
  proof (rule real_dir_cong [OF _ real0])
    fix q :: "string list" assume "prefix q (comps root)"
    then have "\<not> prefix ?P q" by (auto simp: job_path_def prefix_def)
    then show "node_at fs2 q = node_at fs0 q" using used [of q] by (auto simp: fs1)
  qed
  have base: "path_base d = ''job-'' @ j" using path_base_render [OF cf] d(2) by (simp add: job_path_def)
  have rm: "RemoveCredentialJobDirectory fs2 root j = (del_tree ?P fs2, None)"
    using removeDirectChild_eq [of "path_clean root" fs2 "''job-'' @ j"] real2 real(1) job_name_normal [OF d(1)]
    by (simp add: RemoveCredentialJobDirectory_def dir base job_path_def)
  have "node_at (del_tree ?P fs2) q = (if prefix ?P q then None else node_at fs q)" for q
    using used [of q] by (auto simp: fs1 fs0)
  with rm fresh show ?thesis by (auto simp: fs1 is_dir_def new_inode_def Let_def)
qed

text \<open>
  When preparing the credential root at start-up succeeds, every
  entry left by a crashed runner is gone with all it contained, only the host lock file stays, and
  nothing else in the file system has changed.
\<close>

theorem restart_clears_credentials:
  assumes "PrepareRunnerCredentialRoot pr fs root = (fs', None)" "path_clean root = root" "is_dir_at fs []"
  shows "cleared (comps root) {n. n \<noteq> RunnerHostLockFile \<and> n \<in> set (children fs (comps root))} fs fs' \<and>
    (\<forall>n. normal_name n \<longrightarrow> n \<noteq> RunnerHostLockFile \<longrightarrow> node_at fs' (comps root @ [n]) = None)"
proof -
  have v: "validateOwnedDirectory fs root (proc_uid pr) (proc_gid pr) (octal 7 1 0) False = None"
    using assms(1) by (auto simp: PrepareRunnerCredentialRoot_def split: option.splits)
  obtain real: "is_abs root" "comps root \<noteq> []" "real_dir fs (comps root)" using owned_directory [OF v assms(3)] by metis
  have "prepare_entries pr root fs None (children fs (comps root)) = (fs', None)"
    using assms(1,2) v read_dir_real [OF real(1,3,2)] by (simp add: PrepareRunnerCredentialRoot_def)
  from prepare_entries_cleared [OF real(1,3) this]
  have c: "cleared (comps root) (set (children fs (comps root)) - {RunnerHostLockFile}) fs fs'" by blast
  moreover have "node_at fs' (comps root @ [n]) = None" if "normal_name n" "n \<noteq> RunnerHostLockFile" for n
    using c children_iff [OF that(1), of fs "comps root"] that(2) by (auto simp: cleared_def)
  moreover have "set (children fs (comps root)) - {RunnerHostLockFile} = {n. n \<noteq> RunnerHostLockFile \<and> n \<in> set (children fs (comps root))}"
    by blast
  ultimately show ?thesis by simp
qed

text \<open>What a scavenging run may delete: the known secret directories of job workspaces.\<close>

definition scavenged :: "string list \<Rightarrow> fs \<Rightarrow> fs \<Rightarrow> bool" where
  "scavenged R fs fs' \<longleftrightarrow>
     (\<forall>q. node_at fs' q = node_at fs q \<or>
        node_at fs' q = None \<and>
        (\<exists>job name. has_prefix job ''job-'' \<and> name \<in> set legacyWorkspaceSecretDirectories \<and> prefix (R @ [job, name]) q))"

lemma scavenged_refl [simp]: "scavenged R fs fs" by (simp add: scavenged_def)

lemma scavenged_trans: "scavenged R fs fs1 \<Longrightarrow> scavenged R fs1 fs2 \<Longrightarrow> scavenged R fs fs2"
  unfolding scavenged_def by metis

lemma scavenge_names_ok:
  assumes "is_abs ws" "comps ws = R @ [job]" "has_prefix job ''job-''"
    and "set names \<subseteq> set legacyWorkspaceSecretDirectories" "real_dir fs (comps ws)"
    and "scavenge_names ws fs r names = (fs', r')"
  shows "scavenged R fs fs' \<and> is_dir_at fs' [] = is_dir_at fs []"
  using assms(4-)
proof (induction names arbitrary: fs r)
  case (Cons n names)
  obtain fs1 e where one: "removeDirectChild fs ws n = (fs1, e)" by (cases "removeDirectChild fs ws n")
  have c: "fs1 = fs \<or> cleared (comps ws) {n} fs fs1"
    using removeDirectChild_cleared [OF assms(1) Cons.prems(2) one] by (auto split: if_splits)
  then have real: "real_dir fs1 (comps ws)" using Cons.prems(2) cleared_real by auto
  obtain r1 where rest: "scavenge_names ws fs1 r1 names = (fs', r')"
    using Cons.prems(3) one by (cases e) auto
  have "scavenged R fs fs1"
    using c Cons.prems(1) assms(2,3) unfolding cleared_def scavenged_def by (auto split: if_splits)
  moreover have "node_at fs1 [] = node_at fs []" using c by (auto simp: cleared_def)
  ultimately have "scavenged R fs fs1 \<and> is_dir_at fs1 [] = is_dir_at fs []" by (simp add: is_dir_at_def)
  with Cons.IH [OF _ real rest] Cons.prems(1) scavenged_trans show ?case by auto
qed simp

lemma scavenge_entries_ok:
  assumes "is_abs root" "is_dir_at fs []" "scavenge_entries pr root fs r names = (fs', r')"
  shows "scavenged (comps root) fs fs'"
  using assms(2,3)
proof (induction names arbitrary: fs r)
  case (Cons n names)
  let ?ws = "path_join [root, n]"
  show ?case
  proof (cases "has_prefix n ''job-'' \<and> validDirectName n \<and>
      validateOwnedDirectory fs ?ws (proc_uid pr) (proc_gid pr) (octal 7 7 0) True = None \<and>
      (\<exists>info. os_lstat fs ?ws = Inr info \<and> sticky info)")
    case True
    obtain fs1 r1 where ns: "scavenge_names ?ws fs r legacyWorkspaceSecretDirectories = (fs1, r1)"
      by (cases "scavenge_names ?ws fs r legacyWorkspaceSecretDirectories")
    have rest: "scavenge_entries pr root fs1 r1 names = (fs', r')" using Cons.prems(2) True ns by auto
    have n: "normal_name n" using True by (simp add: validDirectName_normal)
    then have "?ws = path_render True (comps root @ [n])"
      using path_join_below [of root n "[n]"] assms(1) by (simp add: path_render_def [of False])
    moreover have "clean_form True (comps root @ [n])" using n comps_form [of root] assms(1) by auto
    ultimately have ws: "is_abs ?ws" "comps ?ws = comps root @ [n]" by simp_all
    have real: "real_dir fs (comps ?ws)" using owned_directory [of fs ?ws] True Cons.prems(1) by metis
    have "scavenged (comps root) fs fs1 \<and> is_dir_at fs1 [] = is_dir_at fs []"
      using scavenge_names_ok [OF ws _ _ real ns] True by blast
    with Cons.IH [OF _ rest] Cons.prems(1) scavenged_trans show ?thesis by blast
  next
    case False
    then obtain r1 where "scavenge_entries pr root fs r1 names = (fs', r')"
      using Cons.prems(2) by (auto simp: Let_def split: if_splits option.splits sum.splits)
    with Cons.IH [OF Cons.prems(1)] show ?thesis by blast
  qed
qed simp

text \<open>
  The clean-up of old workspaces, whether it succeeds or not, only
  ever deletes the known secret directories directly below a job workspace; every other inode of the
  file system, in particular anything a symbolic link in the workspace root points to, is as before.
\<close>

theorem scavenge_removes_only_secrets:
  assumes "ScavengeWorkspaceSecrets pr fs root = (fs', e)" "is_dir_at fs []"
  shows "\<forall>q. node_at fs' q = node_at fs q \<or> node_at fs' q = None \<and>
    (\<exists>job name. has_prefix job ''job-'' \<and> name \<in> set legacyWorkspaceSecretDirectories \<and>
       prefix (comps root @ [job, name]) q)"
proof (cases "validateOwnedDirectory fs root (proc_uid pr) (proc_gid pr) (octal 7 5 0) True = None")
  case True
  then obtain "is_abs root" using owned_directory assms(2) by metis
  then have "scavenged (comps root) fs fs'"
    using assms True scavenge_entries_ok by (auto simp: ScavengeWorkspaceSecrets_def split: sum.splits)
  then show ?thesis by (simp add: scavenged_def)
next
  case False
  then show ?thesis using assms(1) by (auto simp: ScavengeWorkspaceSecrets_def)
qed

subsection \<open>Concrete runs\<close>

text \<open>A host whose runner, user and group 7, crashed and left a credential and a workspace behind.\<close>

definition owned :: "node_kind \<Rightarrow> perm_bits \<Rightarrow> bool \<Rightarrow> inode" where
  "owned k pm sg = \<lparr>kind = k, perm = pm, setgid = sg, sticky = sg, uid = 7, gid = 7\<rparr>"

definition crashed_host :: fs where
  "crashed_host =
     [([], owned Directory (octal 7 5 5) False),
      ([''run''], owned Directory (octal 7 5 5) False),
      ([''run'', ''c''], owned Directory (octal 7 1 0) False),
      ([''run'', ''c'', ''.runner.lock''], owned (Regular []) (octal 6 0 0) False),
      ([''run'', ''c'', ''job-1''], owned Directory (octal 7 1 0) True),
      ([''run'', ''c'', ''job-1'', ''credential''], owned (Regular ''key'') (octal 4 4 0) False),
      ([''w''], owned Directory (octal 7 5 0) True),
      ([''w'', ''job-1''], owned Directory (octal 7 7 0) True),
      ([''w'', ''job-1'', ''.runtime-auth''], owned Directory (octal 7 0 0) False),
      ([''w'', ''job-1'', ''package''], owned Directory (octal 7 5 0) False),
      ([''w'', ''job-2''], owned (Symlink ''/run'') (octal 7 7 7) False)]"

definition runner_proc :: proc where "runner_proc = \<lparr>proc_uid = 7, proc_gid = 7\<rparr>"

lemma crashed_root [simp]: "is_dir_at crashed_host []" by code_simp

theorem credential_directories_do_not_alias_witness:
  "CredentialJobDirectory ''/run/c'' ''a.1'' = Inr ''/run/c/job-a.1'' \<and>
   CredentialJobDirectory ''/run/c'' ''a-1'' = Inr ''/run/c/job-a-1'' \<and>
   path_dir ''/run/c/job-a.1'' = path_clean ''/run/c''"
proof -
  have "CredentialJobDirectory ''/run/c'' ''a.1'' = Inr ''/run/c/job-a.1''"
    "CredentialJobDirectory ''/run/c'' ''a-1'' = Inr ''/run/c/job-a-1''" by code_simp+
  moreover have "is_abs ''/run/c''" by simp
  ultimately show ?thesis using credential_directories_do_not_alias by blast
qed

theorem credential_lifecycle_witness:
  "\<exists>fs1 d fs3. CreateCredentialJobDirectory runner_proc crashed_host ''/run/c'' ''2'' = (fs1, Inr d) \<and>
     d = ''/run/c/job-2'' \<and>
     RemoveCredentialJobDirectory (put_node [''run'', ''c'', ''job-2'', ''credential''] (owned (Regular ''k'') 0 False) fs1) ''/run/c'' ''2'' = (fs3, None) \<and>
     (\<forall>q. node_at fs3 q = (if prefix (job_path ''/run/c'' ''2'') q then None else node_at crashed_host q))"
proof -
  let ?r = "CreateCredentialJobDirectory runner_proc crashed_host ''/run/c'' ''2''"
  have "snd ?r = Inr ''/run/c/job-2''" by code_simp
  then have c: "?r = (fst ?r, Inr ''/run/c/job-2'')" by (metis prod.collapse)
  have p: "job_path ''/run/c'' ''2'' = [''run'', ''c'', ''job-2'']" by code_simp
  show ?thesis
    using credential_lifecycle [OF c, of "put_node [''run'', ''c'', ''job-2'', ''credential''] (owned (Regular ''k'') 0 False) (fst ?r)"]
      c by (force simp: p)
qed

theorem restart_clears_credentials_witness:
  "\<exists>fs'. PrepareRunnerCredentialRoot runner_proc crashed_host ''/run/c'' = (fs', None) \<and>
     node_at fs' [''run'', ''c'', ''job-1''] = None \<and>
     node_at crashed_host [''run'', ''c'', ''job-1'', ''credential''] \<noteq> None"
proof -
  let ?r = "PrepareRunnerCredentialRoot runner_proc crashed_host ''/run/c''"
  have "snd ?r = None" by code_simp
  then have r: "?r = (fst ?r, None)" by (metis prod.collapse)
  have "path_clean ''/run/c'' = ''/run/c''" by code_simp
  from restart_clears_credentials [OF r this]
  have "\<forall>n. normal_name n \<longrightarrow> n \<noteq> RunnerHostLockFile \<longrightarrow> node_at (fst ?r) (comps ''/run/c'' @ [n]) = None" by simp
  moreover have "normal_name ''job-1'' \<and> ''job-1'' \<noteq> RunnerHostLockFile" "comps ''/run/c'' = [''run'', ''c'']" by code_simp+
  ultimately have "node_at (fst ?r) [''run'', ''c'', ''job-1''] = None" by fastforce
  moreover have "node_at crashed_host [''run'', ''c'', ''job-1'', ''credential''] \<noteq> None" by code_simp
  ultimately show ?thesis using r by blast
qed

theorem scavenge_removes_only_secrets_witness:
  "\<exists>fs' e. ScavengeWorkspaceSecrets runner_proc crashed_host ''/w'' = (fs', e) \<and>
     node_at fs' [''w'', ''job-1'', ''.runtime-auth''] = None \<and>
     node_at fs' [''run'', ''c'', ''job-1''] = node_at crashed_host [''run'', ''c'', ''job-1'']"
proof -
  let ?r = "ScavengeWorkspaceSecrets runner_proc crashed_host ''/w''"
  have r: "?r = (fst ?r, snd ?r)" by simp
  have c: "comps ''/w'' = [''w'']" by code_simp
  have "node_at (fst ?r) [''run'', ''c'', ''job-1''] = node_at crashed_host [''run'', ''c'', ''job-1'']"
    using scavenge_removes_only_secrets [OF r crashed_root] by (force simp: c)
  moreover have "node_at (fst ?r) [''w'', ''job-1'', ''.runtime-auth''] = None" by code_simp
  ultimately show ?thesis using r by blast
qed

end
