(* ===== verification/Socket_Server.thy ===== *)
theory Socket_Server
  imports Wire Secrets
begin

text \<open>
  The server half of \<open>socket.go\<close>: the checks a request passes before a script runs, the private copy
  of the target credential, and the handling of one connection. The process \<open>pr\<close> is the executor's;
  the world of its local command executor is the file system.
\<close>

record server =
  sv_WorkspaceRoot :: string
  sv_CredentialRoot :: string
  sv_ExecutorCredentialRoot :: string
  sv_RunnerUID :: "32 word"
  sv_Local :: "fs command_executor"

definition NewServer :: "string \<Rightarrow> 32 word \<Rightarrow> fs command_executor option \<Rightarrow> server result" where
  "NewServer workspaceRoot runnerUID run =
     (if \<not> is_abs workspaceRoot \<or> path_clean workspaceRoot = [slash]
      then Inl (Err ''executor workspace root must be an absolute non-root path'')
      else case run of
             None \<Rightarrow> Inl (Err ''local command executor is required'')
           | Some exec \<Rightarrow>
               Inr \<lparr>sv_WorkspaceRoot = path_clean workspaceRoot, sv_CredentialRoot = DefaultCredentialRoot,
                    sv_ExecutorCredentialRoot = DefaultExecutorCredentialRoot, sv_RunnerUID = runnerUID, sv_Local = exec\<rparr>)"

subsection \<open>The private copy of the credential\<close>

text \<open>The closure that removes the copy.\<close>

definition clear_private :: "string \<Rightarrow> fs \<Rightarrow> fs \<times> error option" where
  "clear_private privateRoot fs =
     (case clearDirectChildren fs privateRoot of
        (fs1, clearErr) \<Rightarrow>
          (case os_chmod fs1 privateRoot (octal 7 0 0) False False of
             (fs2, chmodErr) \<Rightarrow> (fs2, errors_join [clearErr, chmodErr])))"

text \<open>
  Opening for reading follows links; reading a directory fails when it is copied. The copy is written
  and its mode set before the errors are looked at.
\<close>

definition copy_handoff :: "proc \<Rightarrow> fs \<Rightarrow> string \<Rightarrow> string \<Rightarrow> fs \<times> error option" where
  "copy_handoff pr fs handoff credentialPath =
     (case os_stat fs handoff of
        Inl e \<Rightarrow> (fs, Some (Wrap ''open target credential handoff'' e))
      | Inr info \<Rightarrow>
          (case os_create_excl pr fs credentialPath (octal 6 0 0) of
             (fs1, Some e) \<Rightarrow> (fs1, Some (Wrap ''create executor-owned target credential'' e))
           | (fs1, None) \<Rightarrow>
               let written = limit_read (maximumTargetCredentialBytes + 1) (content_of info);
                   fs2 = write_content fs1 credentialPath written;
                   copyErr = guard (\<not> is_regular info) ''is a directory''
               in case os_chmod fs2 credentialPath (octal 6 0 0) False False of
                    (fs3, chmodErr) \<Rightarrow>
                      if copyErr \<noteq> None \<or> chmodErr \<noteq> None
                      then (fs3, map_option (Wrap ''copy target credential handoff'') (errors_join [copyErr, chmodErr]))
                      else (fs3, guard (written = [] \<or> int (length written) > maximumTargetCredentialBytes)
                                   ''target credential size is outside the limits'')))"

definition env_set :: "environment \<Rightarrow> string \<Rightarrow> string \<Rightarrow> environment" where
  "env_set env k v = AList.update k v env"

definition prepareExecutorCredential ::
  "proc \<Rightarrow> fs \<Rightarrow> spec \<Rightarrow> string \<Rightarrow> fs \<times> (spec \<times> (fs \<Rightarrow> fs \<times> error option)) result" where
  "prepareExecutorCredential pr fs sp privateRoot =
     (let handoff = env_get (sp_Env sp) ''RELEASEDOCK_CREDENTIAL_FILE'' in
      if handoff = [] then (fs, Inr (sp, \<lambda>fs. (fs, None)))
      else case PrepareExecutorCredentialRoot pr fs privateRoot of
        (fs1, Some e) \<Rightarrow> (fs1, Inl e)
      | (fs1, None) \<Rightarrow>
          let credentialPath = path_join [privateRoot, CredentialFile] in
          (case copy_handoff pr fs1 handoff credentialPath of
             (fs2, Some e) \<Rightarrow> (fst (clear_private privateRoot fs2), Inl e)
           | (fs2, None) \<Rightarrow>
               (fs2, Inr (sp\<lparr>sp_Env := env_set (sp_Env sp) ''RELEASEDOCK_CREDENTIAL_FILE'' credentialPath\<rparr>,
                          clear_private privateRoot))))"

subsection \<open>Validation of a request\<close>

definition lstat_ok :: "fs \<Rightarrow> string \<Rightarrow> (inode \<Rightarrow> bool) \<Rightarrow> string \<Rightarrow> inode result" where
  "lstat_ok fs path good msg =
     (case os_lstat fs path of
        Inl _ \<Rightarrow> Inl (Err msg)
      | Inr info \<Rightarrow> if good info then Inr info else Inl (Err msg))"

definition real_directory :: "inode \<Rightarrow> bool" where "real_directory i \<longleftrightarrow> is_dir i \<and> \<not> is_symlink i"
definition real_file :: "inode \<Rightarrow> bool" where "real_file i \<longleftrightarrow> is_regular i \<and> \<not> is_symlink i"

text \<open>Readable by the group and not by others, and owned by the runner.\<close>

definition runner_readable :: "32 word \<Rightarrow> inode \<Rightarrow> bool" where
  "runner_readable u i \<longleftrightarrow> uid i = u \<and> perm i AND octal 0 0 4 = 0 \<and> perm i AND octal 0 4 0 \<noteq> 0"

definition validateTargetCredential :: "server \<Rightarrow> fs \<Rightarrow> wireRequest \<Rightarrow> inode \<Rightarrow> error option" where
  "validateTargetCredential s fs request workspaceInfo =
     (let credentialType = env_get (rq_Env request) ''RELEASEDOCK_CREDENTIAL_TYPE'';
          credentialPath = env_get (rq_Env request) ''RELEASEDOCK_CREDENTIAL_FILE'' in
      if credentialType = [] \<and> credentialPath = [] then None
      else if credentialType = [] \<or> credentialPath = []
      then Some (Err ''target credential type and file must be provided together'')
      else if credentialType \<notin> set [''SSH_PRIVATE_KEY'', ''KUBECONFIG'', ''TOKEN'', ''OPAQUE_FILE'']
      then Some (Err ''target credential type is invalid'')
      else case CredentialJobDirectory (sv_CredentialRoot s) (env_get (rq_Env request) ''RELEASEDOCK_JOB_ID'') of
        Inl e \<Rightarrow> Some e
      | Inr credentialDirectory \<Rightarrow>
          if credentialPath \<noteq> path_join [credentialDirectory, CredentialFile]
          then Some (Err ''target credential must be the fixed direct child of its job RuntimeDirectory'')
          else case lstat_ok fs (sv_CredentialRoot s) real_directory ''target credential RuntimeDirectory is invalid'' of
            Inl e \<Rightarrow> Some e
          | Inr rootInfo \<Rightarrow>
              if eval_symlinks fs (sv_CredentialRoot s) \<noteq> Inr (path_clean (sv_CredentialRoot s))
              then Some (Err ''target credential RuntimeDirectory cannot contain symlinks'')
              else if uid rootInfo \<noteq> sv_RunnerUID s \<or> perm rootInfo \<noteq> octal 7 1 0 \<or> setgid rootInfo
              then Some (Err ''target credential RuntimeDirectory ownership or permissions are invalid'')
              else case lstat_ok fs credentialDirectory real_directory ''target credential directory is invalid'' of
                Inl e \<Rightarrow> Some e
              | Inr directoryInfo \<Rightarrow>
                  if eval_symlinks fs credentialDirectory \<noteq> Inr credentialDirectory
                  then Some (Err ''target credential directory cannot contain symlinks'')
                  else if uid directoryInfo \<noteq> sv_RunnerUID s \<or> perm directoryInfo \<noteq> octal 7 1 0 \<or> \<not> setgid directoryInfo
                  then Some (Err ''target credential directory ownership or permissions are invalid'')
                  else if gid directoryInfo \<noteq> gid workspaceInfo
                  then Some (Err ''target credential directory group is invalid'')
                  else if gid rootInfo \<noteq> gid workspaceInfo
                  then Some (Err ''target credential RuntimeDirectory group is invalid'')
                  else case lstat_ok fs credentialPath real_file ''target credential must be a regular non-symlink file'' of
                    Inl e \<Rightarrow> Some e
                  | Inr credentialInfo \<Rightarrow>
                      if eval_symlinks fs credentialPath \<noteq> Inr credentialPath
                      then Some (Err ''target credential path cannot contain symlinks'')
                      else if uid credentialInfo \<noteq> sv_RunnerUID s \<or> perm credentialInfo \<noteq> octal 6 4 0
                      then Some (Err ''target credential ownership or permissions are invalid'')
                      else guard (gid credentialInfo \<noteq> gid workspaceInfo) ''target credential group is invalid'')"

text \<open>The part of the check that depends on the operation.\<close>

definition check_operation :: "server \<Rightarrow> fs \<Rightarrow> environment \<Rightarrow> string \<Rightarrow> error option" where
  "check_operation s fs env directory =
     (if env_get env ''RELEASEDOCK_OPERATION'' = ''DEPLOY'' then
        let expectedArtifact = path_join [directory, ''release-package''] in
        if env_get env ''RELEASEDOCK_PACKAGE_DIRECTORY'' \<noteq> path_join [directory, ''package''] \<or>
           env_get env ''RELEASEDOCK_ARTIFACT'' \<noteq> expectedArtifact \<or>
           env_get env ''RELEASEDOCK_ROLLBACK_SOURCE_RELEASE_ID'' \<noteq> [] \<or>
           env_get env ''RELEASEDOCK_ROLLBACK_SOURCE_JOB_ID'' \<noteq> []
        then Some (Err ''deploy artifact and package paths must match the job workspace'')
        else case lstat_ok fs expectedArtifact real_file ''staged artifact must be a regular non-symlink file'' of
          Inl e \<Rightarrow> Some e
        | Inr info \<Rightarrow> guard (\<not> runner_readable (sv_RunnerUID s) info) ''staged artifact ownership or permissions are invalid''
      else if env_get env ''RELEASEDOCK_OPERATION'' = ''ROLLBACK'' then
        guard (env_get env ''RELEASEDOCK_ARTIFACT'' \<noteq> [] \<or> env_get env ''RELEASEDOCK_PACKAGE_DIRECTORY'' \<noteq> [] \<or>
               env_get env ''RELEASEDOCK_ROLLBACK_SOURCE_RELEASE_ID'' = [] \<or>
               env_get env ''RELEASEDOCK_ROLLBACK_SOURCE_JOB_ID'' = [])
          ''manual rollback must use a source release without artifact paths''
      else Some (Err ''isolated ReleaseDock operation is invalid''))"

text \<open>The workspace of a request: a direct child of the root, named after a job.\<close>

definition check_workspace :: "server \<Rightarrow> fs \<Rightarrow> string \<Rightarrow> (string \<times> inode) result" where
  "check_workspace s fs dir =
     (case eval_symlinks fs (sv_WorkspaceRoot s) of
        Inl _ \<Rightarrow> Inl (Err ''executor workspace root is unavailable'')
      | Inr root \<Rightarrow>
          let directory = path_clean dir in
          if eval_symlinks fs directory \<noteq> Inr directory
          then Inl (Err ''command workspace must be a real directory'')
          else case path_rel root directory of
            Inl _ \<Rightarrow> Inl (Err ''command workspace must be one job directory under the executor root'')
          | Inr relative \<Rightarrow>
              if relative = dot \<or> contains_char relative slash \<or> \<not> has_prefix relative ''job-''
              then Inl (Err ''command workspace must be one job directory under the executor root'')
              else case lstat_ok fs directory real_directory ''command workspace is invalid'' of
                Inl e \<Rightarrow> Inl e
              | Inr info \<Rightarrow>
                  if uid info \<noteq> sv_RunnerUID s \<or> perm info \<noteq> octal 7 7 0 \<or> \<not> setgid info \<or> \<not> sticky info
                  then Inl (Err ''command workspace ownership or permissions are invalid'')
                  else Inr (directory, info))"

definition check_script :: "server \<Rightarrow> fs \<Rightarrow> string \<Rightarrow> string \<Rightarrow> error option" where
  "check_script s fs directory arg =
     (let script = path_clean arg; expectedScriptRoot = path_join [directory, ''.scripts''] in
      case lstat_ok fs expectedScriptRoot real_directory ''job script directory must be a real directory'' of
        Inl e \<Rightarrow> Some e
      | Inr rootInfo \<Rightarrow>
          if uid rootInfo \<noteq> sv_RunnerUID s \<or> perm rootInfo AND octal 0 0 7 \<noteq> 0
          then Some (Err ''job script directory ownership or permissions are invalid'')
          else case path_rel expectedScriptRoot script of
            Inl _ \<Rightarrow> Some (Err ''first command argument must be a direct child of the job script directory'')
          | Inr relative \<Rightarrow>
              if relative = dot \<or> contains_char relative slash
              then Some (Err ''first command argument must be a direct child of the job script directory'')
              else case lstat_ok fs script real_file ''approved script must be a regular non-symlink file'' of
                Inl e \<Rightarrow> Some e
              | Inr info \<Rightarrow>
                  if eval_symlinks fs script \<noteq> Inr script
                  then Some (Err ''approved script path cannot contain symlinks'')
                  else guard (\<not> runner_readable (sv_RunnerUID s) info)
                         ''approved script ownership or permissions are invalid'')"

definition validateRequest :: "server \<Rightarrow> fs \<Rightarrow> wireRequest \<Rightarrow> spec result" where
  "validateRequest s fs request =
     (case validateRequestShape request of
        Some e \<Rightarrow> Inl e
      | None \<Rightarrow>
          (case check_workspace s fs (rq_Dir request) of
             Inl e \<Rightarrow> Inl e
           | Inr (realDirectory, directoryInfo) \<Rightarrow>
               (case check_script s fs realDirectory (hd (rq_Args request)) of
                  Some e \<Rightarrow> Inl e
                | None \<Rightarrow>
                    if env_get (rq_Env request) ''HOME'' \<noteq> realDirectory
                    then Inl (Err ''isolated HOME must match the job workspace'')
                    else case check_operation s fs (rq_Env request) realDirectory of
                      Some e \<Rightarrow> Inl e
                    | None \<Rightarrow>
                        (case validateTargetCredential s fs request directoryInfo of
                           Some e \<Rightarrow> Inl e
                         | None \<Rightarrow>
                             Inr \<lparr>sp_Path = rq_Path request, sp_Args = rq_Args request, sp_Dir = realDirectory,
                                  sp_Env = cloneEnvironment (rq_Env request), sp_Stdin = [],
                                  sp_Timeout = of_millis (rq_TimeoutMillis request), sp_Isolated = False\<rparr>))))"

subsection \<open>One connection\<close>

definition reply_error :: "wireFrame encoder \<Rightarrow> 'c io_write \<Rightarrow> 'c \<Rightarrow> string \<Rightarrow> 'c" where
  "reply_error enc wr c msg = fst (writePacket enc wr c ((frame ''error'')\<lparr>fr_Error := msg\<rparr>) maxFrameBytes)"

text \<open>
  The result frame; a failed removal of the credential is tried again when the handler returns. A
  write error of the output streams is kept by the frame writer, which then sends nothing more.
\<close>

definition run_request ::
  "wireFrame encoder \<Rightarrow> 'c io_write \<Rightarrow> fs command_executor \<Rightarrow> (fs \<Rightarrow> fs \<times> error option) \<Rightarrow> fs \<Rightarrow> 'c \<Rightarrow> spec \<Rightarrow> fs \<times> 'c" where
  "run_request enc wr run cleanup fs c sp =
     (case run fs sp of
        (fs1, out, result, runErr) \<Rightarrow>
          let w = fold (\<lambda>ev w. stream_event enc wr w ev) out \<lparr>fw_connection = c, fw_err = None\<rparr> in
          (case cleanup fs1 of
             (fs2, cleanErr) \<Rightarrow>
               let err = errors_join [runErr, cleanErr];
                   f = (frame ''result'')\<lparr>fr_ExitCode := er_ExitCode result,
                        fr_DurationMillis := to_millis (er_Duration result),
                        fr_Error := (case err of None \<Rightarrow> [] | Some e \<Rightarrow> truncateProtocolError (error_text e))\<rparr>;
                   w' = fst (frameWriter_write enc wr w f)
               in (if cleanErr = None then fs2 else fst (cleanup fs2), fw_connection w')))"

definition handle ::
  "wireRequest decoder \<Rightarrow> wireFrame encoder \<Rightarrow> 'c io_write \<Rightarrow> proc \<Rightarrow> server \<Rightarrow> 32 word result \<Rightarrow> fs \<Rightarrow> bytes \<Rightarrow> 'c \<Rightarrow> fs \<times> 'c" where
  "handle dec enc wr pr s peer fs input c =
     (if peer \<noteq> Inr (sv_RunnerUID s) then (fs, c)
      else case readPacket dec maxRequestBytes input of
        (_, Inl _) \<Rightarrow> (fs, reply_error enc wr c ''invalid isolated executor request'')
      | (_, Inr request) \<Rightarrow>
          (case validateRequest s fs request of
             Inl e \<Rightarrow> (fs, reply_error enc wr c (truncateProtocolError (error_text e)))
           | Inr sp \<Rightarrow>
               (case prepareExecutorCredential pr fs sp (sv_ExecutorCredentialRoot s) of
                  (fs1, Inl e) \<Rightarrow> (fs1, reply_error enc wr c (truncateProtocolError (error_text e)))
                | (fs1, Inr (sp', cleanup)) \<Rightarrow> run_request enc wr (sv_Local s) cleanup fs1 c sp')))"

text \<open>
  \<open>Serve\<close> takes one connection from the listener, handles it and returns: what \<open>Accept\<close> yields is an
  argument, and \<open>ctx_done\<close> says whether the context was cancelled when it failed.
\<close>

record 'c incoming =
  in_peer :: "32 word result"
  in_input :: bytes
  in_writer :: 'c

definition ErrClosed :: error where "ErrClosed = Err ''use of closed network connection''"

definition Serve ::
  "wireRequest decoder \<Rightarrow> wireFrame encoder \<Rightarrow> 'c io_write \<Rightarrow> proc \<Rightarrow> server \<Rightarrow> bool \<Rightarrow> 'c incoming result option \<Rightarrow> fs \<Rightarrow>
   (fs \<times> 'c option) \<times> error option" where
  "Serve dec enc wr pr s ctx_done listener fs =
     (case listener of
        None \<Rightarrow> ((fs, None), Some (Err ''Unix listener is required''))
      | Some (Inl e) \<Rightarrow>
          ((fs, None), if ctx_done \<or> errors_is e ErrClosed then None else Some (Wrap ''accept executor connection'' e))
      | Some (Inr conn) \<Rightarrow>
          (case handle dec enc wr pr s (in_peer conn) fs (in_input conn) (in_writer conn) of
             (fs', c') \<Rightarrow> ((fs', Some c'), None)))"

subsection \<open>What a validated request guarantees\<close>

lemma join_slash: "length xs \<ge> 2 \<Longrightarrow> slash \<in> set (join_with [slash] xs)"
  by (cases "([slash], xs)" rule: join_with.cases) auto

text \<open>A relative path of one name leads to a child, to the directory itself or to its parent.\<close>

lemma path_rel_single:
  assumes "is_abs base" "path_rel base targ = Inr r" "slash \<notin> set r" "r \<noteq> dot"
  shows "is_abs targ \<and> (comps targ = comps base @ [r] \<or> (r = dotdot \<and> comps targ = butlast (comps base)))"
proof -
  obtain b t where bt: "strip_common (comps base) (rel_elems targ) = (b, t)"
    by (cases "strip_common (comps base) (rel_elems targ)")
  have ne: "path_clean base \<noteq> path_clean targ" and ab: "is_abs targ"
    and r: "r = join_with [slash] (replicate (length b) dotdot @ t)"
    using assms bt by (auto simp: path_rel_def split: if_splits)
  obtain cs where cs: "comps base = cs @ b" "comps targ = cs @ t"
    using strip_common_spec [of "comps base" "rel_elems targ"] bt ab by (auto simp: rel_elems_def)
  have "length (replicate (length b) dotdot @ t) < 2" using join_slash assms(3) r by (meson not_less)
  moreover have "b \<noteq> [] \<or> t \<noteq> []" using ne cs assms(1) ab by (auto simp: path_clean_eq_iff)
  ultimately consider x where "b = []" "t = [x]" | y where "b = [y]" "t = []"
    by (cases b; cases t) (auto simp: Suc_le_eq)
  then show ?thesis by cases (use r cs ab in \<open>auto simp: butlast_append\<close>)
qed

lemma lstat_ok_iff: "lstat_ok fs p good m = Inr i \<longleftrightarrow> os_lstat fs p = Inr i \<and> good i"
  by (auto simp: lstat_ok_def split: sum.splits)

lemma eval_symlinks_abs: "eval_symlinks fs p = Inr q \<Longrightarrow> is_abs q"
  by (auto simp: eval_symlinks_def path_render_def split: sum.splits option.splits)

lemma check_workspace_ok:
  assumes "check_workspace s fs dir = Inr (directory, info)" "is_dir_at fs []"
  obtains root job where "eval_symlinks fs (sv_WorkspaceRoot s) = Inr root" "has_prefix job ''job-''" "normal_name job"
    "is_abs directory" "path_clean directory = directory" "comps directory = comps root @ [job]"
    "real_dir fs (comps directory)" "node_at fs (comps directory) = Some info"
    "uid info = sv_RunnerUID s" "perm info = octal 7 7 0" "setgid info" "sticky info"
proof -
  from assms(1) obtain root job where root: "eval_symlinks fs (sv_WorkspaceRoot s) = Inr root"
    and dir: "directory = path_clean dir" "eval_symlinks fs directory = Inr directory"
    and rel: "path_rel root directory = Inr job" "job \<noteq> dot" "slash \<notin> set job" "has_prefix job ''job-''"
    and info: "os_lstat fs directory = Inr info" "real_directory info"
    and mode: "uid info = sv_RunnerUID s" "perm info = octal 7 7 0" "setgid info" "sticky info"
    by (auto simp: check_workspace_def Let_def lstat_ok_iff contains_char_def split: sum.splits if_splits)
  have job: "job \<noteq> dotdot" "job \<noteq> []" using rel(4) by (auto simp: has_prefix_iff)
  have at: "is_abs directory" "comps directory = comps root @ [job]"
    using path_rel_single [OF eval_symlinks_abs [OF root] rel(1,3,2)] job by auto
  have clean: "path_clean directory = directory" using dir(1) by simp
  note real = lstat_real [of directory fs info, unfolded clean, OF at(1) dir(2) info(1) assms(2)]
  show thesis
    using that [OF root rel(4) _ at(1) clean at(2)] real at(2) mode rel job info(2)
    by (simp add: normal_name_def real_directory_def)
qed

lemma check_script_ok:
  assumes "check_script s fs directory arg = None" "is_dir_at fs []" "is_abs directory"
    and "path_clean directory = directory" "is_dir_at fs (comps directory)"
  obtains name nd where "is_abs arg" "comps arg = comps directory @ [''.scripts'', name]"
    "real_dir fs (comps directory @ [''.scripts''])" "node_at fs (comps arg) = Some nd"
    "is_regular nd" "runner_readable (sv_RunnerUID s) nd"
proof -
  define sr where "sr = path_join [directory, ''.scripts'']"
  have n: "normal_name ''.scripts''" by (simp add: normal_name_def)
  have sr: "sr = path_render True (comps directory @ [''.scripts''])"
    using path_join_below [of directory "''.scripts''" "[''.scripts'']"] assms(3) n
    by (simp add: sr_def path_render_def [of False])
  have cf: "clean_form True (comps directory @ [''.scripts''])" using comps_form [of directory] assms(3) n by auto
  have srp: "is_abs sr" "comps sr = comps directory @ [''.scripts'']" using cf by (simp_all add: sr)
  from assms(1) obtain name nd where rel: "path_rel sr (path_clean arg) = Inr name" "name \<noteq> dot" "slash \<notin> set name"
    and nd: "os_lstat fs (path_clean arg) = Inr nd" "real_file nd" "eval_symlinks fs (path_clean arg) = Inr (path_clean arg)"
    and mode: "runner_readable (sv_RunnerUID s) nd"
    by (auto simp: check_script_def Let_def lstat_ok_iff contains_char_def sr_def [symmetric] split: sum.splits if_splits)
  have at: "is_abs arg" "comps arg = comps sr @ [name] \<or> comps arg = comps directory"
    using path_rel_single [OF srp(1) rel(1,3,2)] srp(2) by auto
  have ne: "comps arg \<noteq> []"
  proof
    assume "comps arg = []"
    then have "path_clean arg = [slash]" using at(1) by (simp add: path_clean_def path_render_def)
    then have "lookup_path fs [slash] False = Inr nd" using nd(1) by (simp add: os_lstat_def)
    then have "node_at fs [] = Some nd" by (simp add: lookup_path_def resolve_def split: option.splits)
    then show False using nd(2) assms(2) by (simp add: real_file_def is_regular_def is_dir_at_def)
  qed
  note real = lstat_real [OF at(1) nd(3,1) assms(2) ne]
  have "comps arg \<noteq> comps directory"
    using real(1) assms(5) nd(2) by (auto simp: is_dir_at_def real_file_def is_regular_def)
  then have loc: "comps arg = comps directory @ [''.scripts'', name]" using at(2) srp(2) by simp
  show thesis using that [OF at(1) loc] real loc nd(2) mode by (simp add: real_file_def butlast_append)
qed

lemma check_environment_keys: "check_environment n env = Inr m \<Longrightarrow> fst ` set env \<subseteq> set isolatedEnvironment"
  by (induction n env rule: check_environment.induct) (auto split: if_splits)

text \<open>The credential file of a request, when it has one, is the one file of its own job.\<close>

lemma validateTargetCredential_ok:
  assumes "validateTargetCredential s fs r info = None" "env_get (rq_Env r) ''RELEASEDOCK_CREDENTIAL_FILE'' \<noteq> []"
  shows "\<exists>d. CredentialJobDirectory (sv_CredentialRoot s) (env_get (rq_Env r) ''RELEASEDOCK_JOB_ID'') = Inr d \<and>
    env_get (rq_Env r) ''RELEASEDOCK_CREDENTIAL_FILE'' = path_join [d, CredentialFile] \<and>
    (\<exists>nd. os_lstat fs (path_join [d, CredentialFile]) = Inr nd \<and> real_file nd \<and> uid nd = sv_RunnerUID s \<and> perm nd = octal 6 4 0)"
  using assms by (auto simp: validateTargetCredential_def Let_def lstat_ok_iff split: if_splits sum.splits)

text \<open>
  C16 (validated_request_is_confined): a request that passes validation runs in a real directory
  \<open>job-...\<close> directly below the executor's workspace root, owned by the runner with mode 0770, set-group-id
  and sticky; its script is a regular file directly in that job's \<open>.scripts\<close> directory, reached through
  real directories only, owned by the runner and not readable by others; every environment variable is
  on the allow list, \<open>HOME\<close> is the workspace, and a credential file, when there is one, is the runner's
  handoff file of exactly that job.
\<close>

theorem validated_request_is_confined:
  assumes "validateRequest s fs r = Inr sp" "is_dir_at fs []"
  shows "(\<exists>root job name info nd. eval_symlinks fs (sv_WorkspaceRoot s) = Inr root \<and>
      has_prefix job ''job-'' \<and> normal_name job \<and>
      comps (sp_Dir sp) = comps root @ [job] \<and> real_dir fs (comps (sp_Dir sp)) \<and>
      node_at fs (comps (sp_Dir sp)) = Some info \<and> uid info = sv_RunnerUID s \<and> perm info = octal 7 7 0 \<and>
      setgid info \<and> sticky info \<and>
      comps (hd (sp_Args sp)) = comps (sp_Dir sp) @ [''.scripts'', name] \<and>
      real_dir fs (comps (sp_Dir sp) @ [''.scripts'']) \<and>
      node_at fs (comps (hd (sp_Args sp))) = Some nd \<and> is_regular nd \<and> runner_readable (sv_RunnerUID s) nd) \<and>
    fst ` set (sp_Env sp) \<subseteq> set isolatedEnvironment \<and> env_get (sp_Env sp) ''HOME'' = sp_Dir sp \<and>
    \<not> sp_Isolated sp \<and> sp_Stdin sp = [] \<and>
    (env_get (sp_Env sp) ''RELEASEDOCK_CREDENTIAL_FILE'' \<noteq> [] \<longrightarrow>
      (\<exists>d. CredentialJobDirectory (sv_CredentialRoot s) (env_get (sp_Env sp) ''RELEASEDOCK_JOB_ID'') = Inr d \<and>
        env_get (sp_Env sp) ''RELEASEDOCK_CREDENTIAL_FILE'' = path_join [d, CredentialFile]))"
    (is "?A \<and> ?B \<and> ?C \<and> ?D \<and> ?E \<and> ?F")
proof -
  from assms(1) obtain dir info where shape: "validateRequestShape r = None"
    and ws: "check_workspace s fs (rq_Dir r) = Inr (dir, info)" and scr: "check_script s fs dir (hd (rq_Args r)) = None"
    and home: "env_get (rq_Env r) ''HOME'' = dir" and cred: "validateTargetCredential s fs r info = None"
    and sp: "sp = \<lparr>sp_Path = rq_Path r, sp_Args = rq_Args r, sp_Dir = dir, sp_Env = rq_Env r, sp_Stdin = [],
               sp_Timeout = of_millis (rq_TimeoutMillis r), sp_Isolated = False\<rparr>"
    by (auto simp: validateRequest_def cloneEnvironment_def split: option.splits sum.splits if_splits)
  obtain root job where w: "eval_symlinks fs (sv_WorkspaceRoot s) = Inr root" "has_prefix job ''job-''" "normal_name job"
    "is_abs dir" "path_clean dir = dir" "comps dir = comps root @ [job]" "real_dir fs (comps dir)"
    "node_at fs (comps dir) = Some info" "uid info = sv_RunnerUID s" "perm info = octal 7 7 0" "setgid info" "sticky info"
    using check_workspace_ok [OF ws assms(2)] .
  obtain name nd where sc: "is_abs (hd (rq_Args r))" "comps (hd (rq_Args r)) = comps dir @ [''.scripts'', name]"
    "real_dir fs (comps dir @ [''.scripts''])" "node_at fs (comps (hd (rq_Args r))) = Some nd"
    "is_regular nd" "runner_readable (sv_RunnerUID s) nd"
    using check_script_ok [OF scr assms(2) w(4,5) real_dir_is_dir [OF w(7)]] .
  have "?A"
    using w sc by (intro exI [of _ root] exI [of _ job] exI [of _ name] exI [of _ info] exI [of _ nd]) (simp add: sp)
  moreover have "?B"
    using shape check_environment_keys [of 0 "rq_Env r"]
    by (auto simp: sp validateRequestShape_def split: if_splits sum.splits)
  moreover have "?C \<and> ?D \<and> ?E" using home by (simp add: sp)
  moreover have "?F" using validateTargetCredential_ok [OF cred] by (auto simp: sp)
  ultimately show ?thesis by blast
qed

subsection \<open>No copy of a credential is left behind\<close>

text \<open>A script may do anything to the file system but move the private directory or use names no file system has.\<close>

definition keeps_root :: "string list \<Rightarrow> fs command_executor \<Rightarrow> bool" where
  "keeps_root P run \<longleftrightarrow>
     (\<forall>fs sp. real_dir fs P \<longrightarrow> (\<forall>n\<in>set (children fs P). normal_name n) \<longrightarrow>
        real_dir (fst (run fs sp)) P \<and> (\<forall>n\<in>set (children (fst (run fs sp)) P). normal_name n))"

lemma clear_entries_cleared:
  assumes "is_abs root" "real_dir fs (comps root)" "\<forall>n\<in>set names. normal_name n"
    and "clear_entries root fs r names = (fs', r')"
  shows "r' = r \<and> cleared (comps root) (set names) fs fs'"
  using assms(2-)
proof (induction names arbitrary: fs)
  case (Cons n names)
  let ?fs = "del_tree (comps root @ [n]) fs"
  have step: "cleared (comps root) {n} fs ?fs" by (rule cleared_tree)
  have "clear_entries root ?fs r names = (fs', r')"
    using Cons.prems removeDirectChild_eq [OF assms(1) Cons.prems(1)] by (simp add: validDirectName_normal)
  with Cons.IH [OF cleared_real [OF step Cons.prems(1)]] Cons.prems(2) show ?case
    using cleared_trans [OF step, of "set names" fs'] by simp
qed simp

lemma children_names: "n \<in> set (children fs p) \<longleftrightarrow> node_at fs (p @ [n]) \<noteq> None"
proof -
  have "n \<in> set (children fs p) \<longleftrightarrow> (\<exists>q nd. (q, nd) \<in> set fs \<and> q \<noteq> [] \<and> butlast q = p \<and> last q = n)"
    by (auto simp: children_def)
  also have "\<dots> \<longleftrightarrow> (\<exists>nd. (p @ [n], nd) \<in> set fs)"
    by (metis append_butlast_last_id butlast_snoc last_snoc snoc_eq_iff_butlast)
  also have "\<dots> \<longleftrightarrow> node_at fs (p @ [n]) \<noteq> None"
    by (force simp: node_at_def map_of_eq_None_iff)
  finally show ?thesis .
qed

text \<open>After the clean-up the private directory is empty.\<close>

lemma clear_private_empty:
  assumes "is_abs root" "path_clean root = root" "comps root \<noteq> []" "real_dir fs (comps root)"
    and "\<forall>n\<in>set (children fs (comps root)). normal_name n" "clear_private root fs = (fs', e)"
  shows "e = None \<and> real_dir fs' (comps root) \<and> (\<forall>n. node_at fs' (comps root @ [n]) = None)"
proof -
  obtain fs1 r where c: "clear_entries root fs None (children fs (comps root)) = (fs1, r)"
    by (cases "clear_entries root fs None (children fs (comps root))")
  have cl: "r = None" "cleared (comps root) (set (children fs (comps root))) fs fs1"
    using clear_entries_cleared [OF assms(1,4,5) c] by simp_all
  have real: "real_dir fs1 (comps root)" using cleared_real [OF cl(2) assms(4)] .
  obtain d x where dx: "comps root = d @ [x]" using assms(3) by (metis append_butlast_last_id)
  have cf: "clean_form True (d @ [x])" using comps_form [of root] assms(1) dx by simp
  have rd: "real_dir fs1 d" "is_dir_at fs1 (d @ [x])" using real by (simp_all add: dx real_dir_snoc)
  then obtain nd where nd: "node_at fs1 (d @ [x]) = Some nd" "kind nd = Directory"
    by (auto simp: is_dir_at_def split: option.splits)
  have "root = path_render True (d @ [x])" using assms(1,2) dx by (metis path_clean_def)
  then have res: "resolve fs1 root True = Inr (d @ [x])"
    using resolve_render [OF cf rd(1), of True] nd by (simp add: is_symlink_def)
  have fs': "fs' = put_node (comps root) (nd\<lparr>perm := octal 7 0 0, setgid := False, sticky := False\<rparr>) fs1" "e = None"
    using assms(6) c cl(1) res nd read_dir_real [OF assms(1,4,3)] assms(2)
    by (auto simp: clear_private_def clearDirectChildren_def os_chmod_def dx)
  have "real_dir fs' (comps root)"
    using real nd by (auto simp: fs' real_dir_iff is_dir_at_def dx)
  moreover have "node_at fs' (comps root @ [n]) = None" for n
    using cl(2) children_names [of n fs "comps root"] by (auto simp: fs' cleared_def)
  ultimately show ?thesis using fs' by simp
qed

lemma clear_entries_ok:
  assumes "is_abs root" "real_dir fs (comps root)" "clear_entries root fs r names = (fs', None)"
  shows "r = None \<and> (\<forall>n\<in>set names. normal_name n)"
  using assms(2,3)
proof (induction names arbitrary: fs r)
  case (Cons n names)
  show ?case
  proof (cases "normal_name n")
    case True
    let ?fs = "del_tree (comps root @ [n]) fs"
    have "clear_entries root ?fs r names = (fs', None)"
      using Cons.prems True removeDirectChild_eq [OF assms(1) Cons.prems(1) True] by (simp add: validDirectName_normal)
    from Cons.IH [OF cleared_real [OF cleared_tree Cons.prems(1)] this] show ?thesis using True by simp
  next
    case False
    with Cons.IH [OF Cons.prems(1)] Cons.prems(2) show ?thesis by (fastforce simp: validDirectName_normal)
  qed
qed simp

text \<open>A validated private directory, emptied: only the copy can be in it.\<close>

lemma prepare_root_empty:
  assumes "PrepareExecutorCredentialRoot pr fs root = (fs', None)" "path_clean root = root" "is_dir_at fs []"
  shows "is_abs root" "comps root \<noteq> []" "real_dir fs' (comps root)" "node_at fs' (comps root @ [n]) = None"
proof -
  have v: "validateOwnedDirectory fs root (proc_uid pr) (proc_gid pr) (octal 7 0 0) False = None"
    using assms(1) by (auto simp: PrepareExecutorCredentialRoot_def split: option.splits)
  obtain real: "is_abs root" "comps root \<noteq> []" "real_dir fs (comps root)" using owned_directory [OF v assms(3)] by metis
  then show "is_abs root" "comps root \<noteq> []" by simp_all
  have c: "clear_entries root fs None (children fs (comps root)) = (fs', None)"
    using assms(1,2) v read_dir_real [OF real(1,3,2)] by (simp add: PrepareExecutorCredentialRoot_def clearDirectChildren_def)
  have cl: "cleared (comps root) (set (children fs (comps root))) fs fs'"
    using clear_entries_cleared [OF real(1,3) _ c] clear_entries_ok [OF real(1,3) c] by blast
  show "real_dir fs' (comps root)" using cleared_real [OF cl real(3)] .
  show "node_at fs' (comps root @ [n]) = None"
    using cl children_names [of n fs "comps root"] by (auto simp: cleared_def)
qed

lemma copy_handoff_effect:
  assumes "clean_form True (P @ [c])" "real_dir fs P" "copy_handoff pr fs h (path_render True (P @ [c])) = (fs', e)"
  shows "\<forall>q. q \<noteq> P @ [c] \<longrightarrow> node_at fs' q = node_at fs q"
proof (cases "os_stat fs h")
  case (Inl x)
  then show ?thesis using assms(3) by (simp add: copy_handoff_def)
next
  case (Inr info)
  show ?thesis
  proof (cases "node_at fs (P @ [c]) = None")
    case False
    then show ?thesis
      using assms(3) Inr create_node_render [OF assms(1,2)] by (auto simp: copy_handoff_def os_create_excl_def)
  next
    case True
    define fs1 where "fs1 = put_node (P @ [c]) (new_inode fs pr (P @ [c]) (Regular []) (octal 6 0 0)) fs"
    have mk: "os_create_excl pr fs (path_render True (P @ [c])) (octal 6 0 0) = (fs1, None)"
      using create_node_render [OF assms(1,2)] True by (simp add: os_create_excl_def fs1_def)
    have real1: "real_dir fs1 P"
      by (rule real_dir_cong [OF _ assms(2)]) (auto simp: fs1_def prefix_def)
    define nd where "nd = new_inode fs pr (P @ [c]) (Regular []) (octal 6 0 0)"
    define b where "b = limit_read (maximumTargetCredentialBytes + 1) (content_of info)"
    define fs2 where "fs2 = put_node (P @ [c]) (nd\<lparr>kind := Regular b\<rparr>) fs1"
    have wc: "write_content fs1 (path_render True (P @ [c])) b = fs2"
      unfolding fs2_def by (rule write_content_render [OF assms(1) real1]) (simp_all add: fs1_def nd_def is_regular_def)
    have real2: "real_dir fs2 P"
      by (rule real_dir_cong [OF _ real1]) (auto simp: fs2_def prefix_def)
    have res: "resolve fs2 (path_render True (P @ [c])) True = Inr (P @ [c])"
      using resolve_render [OF assms(1) real2, of True] by (simp add: fs2_def is_symlink_def)
    define fs3 where "fs3 = put_node (P @ [c]) (nd\<lparr>kind := Regular b, perm := octal 6 0 0, setgid := False, sticky := False\<rparr>) fs2"
    have ch: "os_chmod fs2 (path_render True (P @ [c])) (octal 6 0 0) False False = (fs3, None)"
      using res by (simp add: os_chmod_def fs3_def fs2_def)
    have "fs' = fs3"
      using assms(3) unfolding copy_handoff_def Inr mk
      by (simp add: Let_def b_def [symmetric] wc ch split: if_splits)
    then show ?thesis by (simp add: fs3_def fs2_def fs1_def)
  qed
qed


end
