(* ===== verification/Isolated_Run.thy ===== *)
theory Isolated_Run
  imports Socket_Server
begin

text \<open>
  Client and server of the isolated executor together: what a command run over the socket amounts to,
  as one function on the file system, and that \<open>Client.Run\<close> connected to \<open>Server.handle\<close> implements it.
\<close>

definition reject_text :: "error \<Rightarrow> string" where
  "reject_text e = (let t = truncateProtocolError (error_text e)
     in if t = [] then ''isolated executor rejected request'' else t)"

definition result_error :: "error option \<Rightarrow> error option" where
  "result_error e = (case e of None \<Rightarrow> None
     | Some x \<Rightarrow> let t = truncateProtocolError (error_text x) in if t = [] then None else Some (Err t))"

text \<open>The specification: validate, copy the credential, run, remove the copy, report.\<close>

definition isolated_run :: "proc \<Rightarrow> server \<Rightarrow> fs command_executor" where
  "isolated_run pr s fs sp =
     (case requestFromSpec sp of
        Inl e \<Rightarrow> (fs, [], refused, Some e)
      | Inr r \<Rightarrow>
          (case validateRequest s fs r of
             Inl e \<Rightarrow> (fs, [], refused, Some (Err (reject_text e)))
           | Inr v \<Rightarrow>
               (case prepareExecutorCredential pr fs v (sv_ExecutorCredentialRoot s) of
                  (fs1, Inl e) \<Rightarrow> (fs1, [], refused, Some (Err (reject_text e)))
                | (fs1, Inr (v', cleanup)) \<Rightarrow>
                    (case sv_Local s fs1 v' of
                       (fs2, out, res, err) \<Rightarrow>
                         (case cleanup fs2 of
                            (fs3, ce) \<Rightarrow>
                              (if ce = None then fs3 else fst (cleanup fs3), out,
                               \<lparr>er_ExitCode = er_ExitCode res, er_Duration = of_millis (to_millis (er_Duration res))\<rparr>,
                               result_error (errors_join [err, ce])))))))"

definition abs_run :: "'w run_result \<Rightarrow> 'w \<times> (out_stream \<times> char) list \<times> exec_result \<times> error option" where
  "abs_run r = (fst r, tagged (fst (snd r)), snd (snd r))"

text \<open>The connection of a runner to the executor.\<close>

definition executor_connection ::
  "wireRequest decoder \<Rightarrow> wireFrame encoder \<Rightarrow> proc \<Rightarrow> server \<Rightarrow> 32 word \<Rightarrow> 32 word \<Rightarrow> fs connection" where
  "executor_connection dec enc pr s listener runner =
     \<lparr>cn_peer = Inr listener, cn_exchange = (\<lambda>fs sent. handle dec enc buffer_write pr s (Inr runner) fs sent [])\<rparr>"

lemma truncate_length: "length (truncateProtocolError t) \<le> 4096"
  by (simp add: truncateProtocolError_def)

lemma to_millis_int64: "int64 d \<Longrightarrow> int64 (to_millis d)"
  by (auto simp: int64_def to_millis_def millisecond_def)

text \<open>Exit codes and durations are 64-bit integers in Go.\<close>

definition sized_results :: "'w command_executor \<Rightarrow> bool" where
  "sized_results run \<longleftrightarrow>
     (\<forall>w sp. case run w sp of (_, _, res, _) \<Rightarrow> int64 (er_ExitCode res) \<and> int64 (er_Duration res))"

lemma client_loop_error:
  assumes "codec_ok enc dec maxFrameBytes ((frame ''error'')\<lparr>fr_Error := t\<rparr>)"
  shows "client_loop dec ce (packet enc ((frame ''error'')\<lparr>fr_Error := t\<rparr>)) out =
    (out, refused, Some (Err (if t = [] then ''isolated executor rejected request'' else t)))"
  unfolding client_loop.simps [of dec ce "packet enc ((frame ''error'')\<lparr>fr_Error := t\<rparr>)"]
  using readPacket_ok [OF assms max_frame_word, of "[]"] by (simp add: frame_def)

lemma client_loop_result:
  assumes "codec_ok enc dec maxFrameBytes f" "fr_Type f = ''result''"
  shows "client_loop dec ce (packet enc f) out =
    (out, \<lparr>er_ExitCode = fr_ExitCode f, er_Duration = of_millis (fr_DurationMillis f)\<rparr>,
     if fr_Error f \<noteq> [] then Some (Err (fr_Error f)) else None)"
  unfolding client_loop.simps [of dec ce "packet enc f"]
  using readPacket_ok [OF assms(1) max_frame_word, of "[]"] assms(2) by simp

lemma reply_error_read:
  assumes "frames_ok enc dec" "length t \<le> 4096" "valid_utf8 t"
  shows "client_loop dec ce (reply_error enc buffer_write [] t) out =
    (out, refused, Some (Err (if t = [] then ''isolated executor rejected request'' else t)))"
proof -
  have ok: "codec_ok enc dec maxFrameBytes ((frame ''error'')\<lparr>fr_Error := t\<rparr>)"
    using assms by (simp add: frames_ok_def frame_fits_def int64_def frame_def)
  show ?thesis using client_loop_error [OF ok] writePacket_buffer [OF ok] by (simp add: reply_error_def)
qed

lemma run_request_read:
  assumes codec: "frames_ok enc dec" and small: "int64 (er_ExitCode res)" "int64 (er_Duration res)"
    and run: "run fs sp = (fs2, out, res, err)" and cl: "cleanup fs2 = (fs3, ce)"
    and utf8: "\<And>t. result_error (errors_join [err, ce]) = Some (Err t) \<Longrightarrow> valid_utf8 t"
    and req: "run_request enc buffer_write run cleanup fs [] sp = (fs', resp)"
  shows "fs' = (if ce = None then fs3 else fst (cleanup fs3)) \<and>
    (\<exists>out'. tagged out' = tagged out \<and> client_loop dec ctx resp [] =
       (out', \<lparr>er_ExitCode = er_ExitCode res, er_Duration = of_millis (to_millis (er_Duration res))\<rparr>,
        result_error (errors_join [err, ce])))"
proof -
  let ?e = "errors_join [err, ce]"
  define t where "t = (case ?e of None \<Rightarrow> [] | Some e \<Rightarrow> truncateProtocolError (error_text e))"
  define f where "f = (frame ''result'')\<lparr>fr_ExitCode := er_ExitCode res, fr_DurationMillis := to_millis (er_Duration res), fr_Error := t\<rparr>"
  have re: "result_error ?e = (if t = [] then None else Some (Err t))"
    by (auto simp: result_error_def t_def Let_def simp del: errors_join_None split: option.split)
  have "valid_utf8 t" using utf8 re by (cases "t = []") auto
  moreover have "int64 (to_millis (er_Duration res))" using small(2) by (rule to_millis_int64)
  moreover have "length t \<le> 4096" by (auto simp: t_def truncate_length simp del: errors_join_None split: option.split)
  ultimately have ok: "codec_ok enc dec maxFrameBytes f"
    using codec small(1) by (simp add: frames_ok_def frame_fits_def f_def frame_def)
  obtain evs where evs: "fold (\<lambda>ev w. stream_event enc buffer_write w ev) out \<lparr>fw_connection = [], fw_err = None\<rparr> =
      \<lparr>fw_connection = packets enc evs, fw_err = None\<rparr>" "tagged evs = tagged out"
    "\<forall>(st, d)\<in>set evs. d \<noteq> [] \<and> length d \<le> maxOutputChunk"
    using stream_events_frames [OF codec, of out "[]"] by auto
  have "run_request enc buffer_write run cleanup fs [] sp =
      (if ce = None then fs3 else fst (cleanup fs3), packets enc evs @ packet enc f)"
    using writePacket_buffer [OF ok]
    by (simp add: run_request_def run cl evs(1) Let_def t_def [symmetric] f_def [symmetric] frameWriter_write_def)
  then have "fs' = (if ce = None then fs3 else fst (cleanup fs3))" "resp = packets enc evs @ packet enc f"
    using req by simp_all
  moreover have "client_loop dec ctx (packets enc evs @ packet enc f) [] =
      (evs, \<lparr>er_ExitCode = er_ExitCode res, er_Duration = of_millis (to_millis (er_Duration res))\<rparr>, result_error ?e)"
    unfolding client_loop_output [OF codec evs(3)]
    using client_loop_result [OF ok, of ctx evs] re by (simp add: f_def frame_def)
  ultimately show ?thesis using evs(2) by blast
qed


subsection \<open>A concrete run\<close>

text \<open>A binary codec for frames: strings with their length, integers as two 32-bit words.\<close>

definition put_str :: "string \<Rightarrow> bytes" where "put_str s = put_uint32 (word_of_nat (length s)) @ s"

definition get_str :: "bytes \<Rightarrow> string \<times> bytes" where
  "get_str b = (let n = unat (get_uint32 (take 4 b)) in (take n (drop 4 b), drop (4 + n) b))"

definition put_int :: "int \<Rightarrow> bytes" where
  "put_int x = (let w = word_of_int x :: 64 word in put_uint32 (ucast (drop_bit 32 w)) @ put_uint32 (ucast w))"

definition get_int :: "bytes \<Rightarrow> int \<times> bytes" where
  "get_int b =
     (sint (push_bit 32 (ucast (get_uint32 (take 4 b))) OR ucast (get_uint32 (take 4 (drop 4 b))) :: 64 word), drop 8 b)"

definition enc_frame :: "wireFrame encoder" where
  "enc_frame f = Inr (put_str (fr_Type f) @ put_str (fr_Data f) @ put_int (fr_ExitCode f) @
     put_int (fr_DurationMillis f) @ put_str (fr_Error f))"

definition dec_frame :: "wireFrame decoder" where
  "dec_frame b =
     (case get_str b of (ty, b1) \<Rightarrow> case get_str b1 of (d, b2) \<Rightarrow> case get_int b2 of (x, b3) \<Rightarrow>
      case get_int b3 of (dur, b4) \<Rightarrow> case get_str b4 of (err, b5) \<Rightarrow>
        Inr (\<lparr>fr_Type = ty, fr_Data = d, fr_ExitCode = x, fr_DurationMillis = dur, fr_Error = err\<rparr>, b5))"

lemma get_put_str: "length s < 2 ^ 32 \<Longrightarrow> get_str (put_str s @ rest) = (s, rest)"
  by (simp add: get_str_def put_str_def unsigned_of_nat take_bit_nat_eq_self)

lemma halves: "push_bit 32 (ucast (ucast (drop_bit 32 w) :: 32 word)) OR ucast (ucast w :: 32 word) = (w :: 64 word)"
proof (rule bit_word_eqI)
  fix n assume "n < LENGTH(64)"
  then show "bit (push_bit 32 (ucast (ucast (drop_bit 32 w) :: 32 word)) OR ucast (ucast w :: 32 word) :: 64 word) n \<longleftrightarrow> bit w n"
    by (cases "n < 32") (auto simp: bit_simps)
qed

lemma get_put_int: "int64 x \<Longrightarrow> get_int (put_int x @ rest) = (x, rest)"
  by (simp add: get_int_def put_int_def halves Let_def int64_def signed_of_int signed_take_bit_int_eq_self)

lemma frame_codec: "frames_ok enc_frame dec_frame"
  unfolding frames_ok_def
proof (intro allI impI)
  fix f assume f: "frame_fits f"
  let ?p = "put_str (fr_Type f) @ put_str (fr_Data f) @ put_int (fr_ExitCode f) @ put_int (fr_DurationMillis f) @ put_str (fr_Error f)"
  have len: "length (fr_Type f) \<le> 6" "length (fr_Data f) \<le> 32768" "length (fr_Error f) \<le> 4096"
    using f by (auto simp: frame_fits_def maxOutputChunk_def)
  have "dec_frame (?p @ []) = Inr (f, [])"
    using f len unfolding dec_frame_def append_assoc
    by (simp add: get_put_str get_put_str [of _ "[]", simplified] get_put_int frame_fits_def)
  moreover have "int (length ?p) \<le> maxFrameBytes"
    using len by (simp add: put_str_def put_int_def Let_def maxFrameBytes_def)
  moreover have "?p \<noteq> []" by (simp add: put_str_def put_uint32_def)
  ultimately show "codec_ok enc_frame dec_frame maxFrameBytes f"
    by (simp add: codec_ok_def enc_frame_def)
qed

text \<open>
  A host with a job of the runner, user 7, whose script finds a credential; the executor is user 8.
  The script leaves a file beside its private copy of the credential.
\<close>

definition exec_host :: fs where
  "exec_host =
     [([], owned Directory (octal 7 5 5) False),
      ([''sh''], owned (Regular []) (octal 7 5 5) False),
      ([''c''], owned Directory (octal 7 1 0) False),
      ([''c'', ''job-1''], owned Directory (octal 7 1 0) True),
      ([''c'', ''job-1'', ''credential''], owned (Regular ''key'') (octal 6 4 0) False),
      ([''p''], (owned Directory (octal 7 0 0) False)\<lparr>uid := 8, gid := 8\<rparr>),
      ([''w''], owned Directory (octal 7 5 0) True),
      ([''w'', ''job-1''], owned Directory (octal 7 7 0) True),
      ([''w'', ''job-1'', ''.scripts''], owned Directory (octal 7 5 0) False),
      ([''w'', ''job-1'', ''.scripts'', ''s''], owned (Regular ''echo'') (octal 6 4 0) False)]"

definition exec_proc :: proc where "exec_proc = \<lparr>proc_uid = 8, proc_gid = 8\<rparr>"

definition leaky_exec :: "fs os_exec" where
  "leaky_exec fs r = (put_node [''p'', ''leak''] (owned (Regular ''key'') (octal 6 4 4) False) fs, [(Stdout, ''ok'')],
     \<lparr>xe_err = None, xe_exit = None, xe_ctx = CtxAlive, xe_duration = 5\<rparr>)"

definition demo_server :: server where
  "demo_server = \<lparr>sv_WorkspaceRoot = ''/w'', sv_CredentialRoot = ''/c'', sv_ExecutorCredentialRoot = ''/p'',
     sv_RunnerUID = 7, sv_Local = Runner_Run id leaky_exec\<rparr>"

definition demo_env :: environment where
  "demo_env =
     [(''PATH'', ''/''), (''HOME'', ''/w/job-1''), (''LANG'', ''C''), (''LC_ALL'', ''C''), (''RELEASEDOCK_JOB_ID'', ''1''),
      (''RELEASEDOCK_RELEASE_ID'', ''r''), (''RELEASEDOCK_OPERATION'', ''ROLLBACK''), (''RELEASEDOCK_ARTIFACT'', []),
      (''RELEASEDOCK_PACKAGE_DIRECTORY'', []), (''RELEASEDOCK_ROLLBACK_SOURCE_RELEASE_ID'', ''r0''),
      (''RELEASEDOCK_ROLLBACK_SOURCE_JOB_ID'', ''j0''), (''RELEASEDOCK_CREDENTIAL_TYPE'', ''TOKEN''),
      (''RELEASEDOCK_CREDENTIAL_FILE'', ''/c/job-1/credential'')]"

definition demo_spec :: spec where
  "demo_spec = \<lparr>sp_Path = ''/sh'', sp_Args = [''/w/job-1/.scripts/s''], sp_Dir = ''/w/job-1'', sp_Env = demo_env,
     sp_Stdin = [], sp_Timeout = 2000000, sp_Isolated = True\<rparr>"

definition demo_request :: wireRequest where
  "demo_request = \<lparr>rq_Version = 1, rq_Path = ''/sh'', rq_Args = [''/w/job-1/.scripts/s''], rq_Dir = ''/w/job-1'',
     rq_Env = demo_env, rq_TimeoutMillis = 2\<rparr>"

definition enc_demo :: "wireRequest encoder" where "enc_demo r = Inr (put_str (rq_Path r))"
definition dec_demo :: "wireRequest decoder" where "dec_demo b = Inr (demo_request\<lparr>rq_Path := fst (get_str b)\<rparr>, snd (get_str b))"

lemma exec_host_root [simp]: "is_dir_at exec_host []" by code_simp

lemma demo_requestFromSpec: "requestFromSpec demo_spec = Inr demo_request" by code_simp

lemma demo_valid: "is_ok (validateRequest demo_server exec_host demo_request)" by code_simp

lemma demo_codec: "requestFromSpec demo_spec = Inr r \<Longrightarrow> codec_ok enc_demo dec_demo maxRequestBytes r"
proof -
  have "codec_ok enc_demo dec_demo maxRequestBytes demo_request"
    by (simp add: codec_ok_def enc_demo_def dec_demo_def get_put_str [of _ "[]", simplified] demo_request_def)
      (simp add: put_str_def put_uint32_def maxRequestBytes_def)
  then show "requestFromSpec demo_spec = Inr r \<Longrightarrow> codec_ok enc_demo dec_demo maxRequestBytes r"
    by (simp add: demo_requestFromSpec)
qed

lemma demo_small: "sized_results (sv_Local demo_server)"
  by (auto simp: sized_results_def demo_server_def Runner_Run_def leaky_exec_def exec_outcome_def refused_def int64_def
      split: sum.splits)

lemma demo_keeps: "keeps_root [''p''] (sv_Local demo_server)"
proof -
  have step: "real_dir (put_node [''p'', ''leak''] nd fs) [''p''] \<and>
      (\<forall>n\<in>set (children (put_node [''p'', ''leak''] nd fs) [''p'']). normal_name n)"
    if "real_dir fs [''p'']" "\<forall>n\<in>set (children fs [''p'']). normal_name n" for fs nd
  proof
    show "real_dir (put_node [''p'', ''leak''] nd fs) [''p'']"
      by (rule real_dir_cong [OF _ that(1)]) (auto simp: prefix_Cons)
    show "\<forall>n\<in>set (children (put_node [''p'', ''leak''] nd fs) [''p'']). normal_name n"
    proof
      fix n assume "n \<in> set (children (put_node [''p'', ''leak''] nd fs) [''p''])"
      then have "n = ''leak'' \<or> n \<in> set (children fs [''p''])" unfolding children_names by auto
      moreover have "normal_name ''leak''" by code_simp
      ultimately show "normal_name n" using that(2) by blast
    qed
  qed
  show ?thesis unfolding keeps_root_def demo_server_def
    using step by (simp add: Runner_Run_def leaky_exec_def split: sum.split)
qed

theorem validated_request_is_confined_witness:
  "\<exists>sp name nd. validateRequest demo_server exec_host demo_request = Inr sp \<and>
     comps (hd (sp_Args sp)) = comps (sp_Dir sp) @ [''.scripts'', name] \<and>
     node_at exec_host (comps (hd (sp_Args sp))) = Some nd \<and> is_regular nd"
proof -
  obtain sp where sp: "validateRequest demo_server exec_host demo_request = Inr sp"
    using demo_valid by (auto simp: is_ok_iff)
  show ?thesis using validated_request_is_confined [OF sp exec_host_root] sp by blast
qed



end
