(* ===== verification/Encoding.thy ===== *)
theory Encoding
  imports Go_Strings
begin

text \<open>
  Base64 and hexadecimal text as Go's \<open>encoding/base64\<close> and \<open>encoding/hex\<close> write and read it. Decoding
  base64 skips line breaks, and bits that a last partial group leaves over are ignored.
\<close>

subsection \<open>Base64\<close>

definition b64_alphabet :: string where
  "b64_alphabet = ''ABCDEFGHIJKLMNOPQRSTUVWXYZabcdefghijklmnopqrstuvwxyz0123456789+/''"

definition b64_char :: "nat \<Rightarrow> char" where "b64_char n = b64_alphabet ! n"

definition b64_value :: "char \<Rightarrow> nat option" where "b64_value c = index_where (\<lambda>x. x = c) b64_alphabet"

fun b64_encode :: "bool \<Rightarrow> bytes \<Rightarrow> string" where
  "b64_encode pad [] = []"
| "b64_encode pad [a] =
     (let v = of_char a * 16 in [b64_char (v div 64), b64_char (v mod 64)] @ (if pad then ''=='' else []))"
| "b64_encode pad [a, b] =
     (let v = (of_char a * 256 + of_char b) * 4
      in [b64_char (v div 4096), b64_char (v div 64 mod 64), b64_char (v mod 64)] @ (if pad then ''='' else []))"
| "b64_encode pad (a # b # c # rest) =
     (let v = (of_char a * 256 + of_char b) * 256 + of_char c
      in b64_char (v div 262144) # b64_char (v div 4096 mod 64) # b64_char (v div 64 mod 64) # b64_char (v mod 64) #
         b64_encode pad rest)"

text \<open>The groups of a text without line breaks; the padding may only end it.\<close>

definition errCorrupt :: error where "errCorrupt = Err ''illegal base64 data''"

fun b64_groups :: "bool \<Rightarrow> string \<Rightarrow> bytes result" where
  "b64_groups pad [] = Inr []"
| "b64_groups pad [w] = Inl errCorrupt"
| "b64_groups pad [w, x] =
     (case (b64_value w, b64_value x) of
        (Some i, Some j) \<Rightarrow> if pad then Inl errCorrupt else Inr [char_of ((i * 64 + j) div 16)]
      | _ \<Rightarrow> Inl errCorrupt)"
| "b64_groups pad [w, x, y] =
     (case (b64_value w, b64_value x, b64_value y) of
        (Some i, Some j, Some k) \<Rightarrow>
          if pad then Inl errCorrupt
          else let v = ((i * 64 + j) * 64 + k) div 4 in Inr [char_of (v div 256), char_of v]
      | _ \<Rightarrow> Inl errCorrupt)"
| "b64_groups pad (w # x # y # z # rest) =
     (case (b64_value w, b64_value x) of
        (Some i, Some j) \<Rightarrow>
          if pad \<and> y = CHR ''='' \<and> z = CHR ''='' \<and> rest = [] then Inr [char_of ((i * 64 + j) div 16)]
          else (case b64_value y of
            None \<Rightarrow> Inl errCorrupt
          | Some k \<Rightarrow>
              if pad \<and> z = CHR ''='' \<and> rest = []
              then let v = ((i * 64 + j) * 64 + k) div 4 in Inr [char_of (v div 256), char_of v]
              else (case b64_value z of
                None \<Rightarrow> Inl errCorrupt
              | Some l \<Rightarrow>
                  (case b64_groups pad rest of
                     Inl e \<Rightarrow> Inl e
                   | Inr out \<Rightarrow>
                       let v = ((i * 64 + j) * 64 + k) * 64 + l
                       in Inr (char_of (v div 65536) # char_of (v div 256) # char_of v # out))))
      | _ \<Rightarrow> Inl errCorrupt)"

definition b64_decode :: "bool \<Rightarrow> string \<Rightarrow> bytes result" where
  "b64_decode pad s = b64_groups pad (filter (\<lambda>c. c \<noteq> CHR 0x0A \<and> c \<noteq> CHR 0x0D) s)"

subsection \<open>Decoding inverts encoding\<close>

lemma char_nat_bound [simp]: "(of_char c :: nat) < 256"
  using mod_less_divisor [of 256 "of_char c :: nat"] by (simp del: mod_less_divisor)

lemma index_nth: "distinct xs \<Longrightarrow> n < length xs \<Longrightarrow> index_where (\<lambda>x. x = xs ! n) xs = Some n"
proof (induction xs arbitrary: n)
  case (Cons x xs)
  then show ?case by (cases n) (auto simp: nth_mem)
qed simp

lemma b64_alphabet: "distinct b64_alphabet" "length b64_alphabet = 64"
  "CHR ''='' \<notin> set b64_alphabet" "CHR 0x0A \<notin> set b64_alphabet" "CHR 0x0D \<notin> set b64_alphabet"
  by (simp_all add: b64_alphabet_def)

lemma b64_value_char: "n < 64 \<Longrightarrow> b64_value (b64_char n) = Some n"
  by (simp add: b64_value_def b64_char_def index_nth b64_alphabet)

lemma b64_char_plain: "n < 64 \<Longrightarrow> b64_char n \<notin> {CHR ''='', CHR 0x0A, CHR 0x0D}"
  unfolding b64_char_def using nth_mem [of n b64_alphabet] b64_alphabet by (metis empty_iff insert_iff)

lemma split3:
  fixes a b c :: nat
  assumes "a < 256" "b < 256" "c < 256"
  defines "v \<equiv> (a * 256 + b) * 256 + c"
  shows "v div 262144 < 64" "((v div 262144 * 64 + v div 4096 mod 64) * 64 + v div 64 mod 64) * 64 + v mod 64 = v"
    "v div 65536 = a" "v div 256 mod 256 = b" "v mod 256 = c"
proof -
  have "v < 64 * 262144" using assms by (simp add: v_def)
  then show "v div 262144 < 64" by (rule less_mult_imp_div_less)
  have "v div 4096 = v div 64 div 64" "v div 262144 = v div 64 div 64 div 64" by (simp_all add: div_mult2_eq [symmetric])
  then show "((v div 262144 * 64 + v div 4096 mod 64) * 64 + v div 64 mod 64) * 64 + v mod 64 = v"
    by (simp del: div_mult2_eq)
  show "v div 65536 = a" using assms by (intro div_nat_eqI) (simp_all add: v_def)
  have "v div 256 = a * 256 + b" using assms by (intro div_nat_eqI) (simp_all add: v_def)
  then show "v div 256 mod 256 = b" using assms by simp
  show "v mod 256 = c" using assms(3) unfolding v_def by (metis mod_less mod_mult_self3)
qed

lemma split2:
  fixes a b :: nat
  assumes "a < 256" "b < 256"
  defines "v \<equiv> (a * 256 + b) * 4"
  shows "v div 4096 < 64" "((v div 4096 * 64 + v div 64 mod 64) * 64 + v mod 64) div 4 = a * 256 + b"
    "(a * 256 + b) div 256 = a" "(a * 256 + b) mod 256 = b"
proof -
  have "v < 64 * 4096" using assms by (simp add: v_def)
  then show "v div 4096 < 64" by (rule less_mult_imp_div_less)
  have "v div 4096 = v div 64 div 64" by (simp add: div_mult2_eq [symmetric])
  then have "(v div 4096 * 64 + v div 64 mod 64) * 64 + v mod 64 = v" by simp
  then show "((v div 4096 * 64 + v div 64 mod 64) * 64 + v mod 64) div 4 = a * 256 + b" by (simp add: v_def)
qed (use assms in simp_all)

lemma split1:
  assumes "(a :: nat) < 256"
  shows "a * 16 div 64 < 64" "(a * 16 div 64 * 64 + a * 16 mod 64) div 16 = a"
proof -
  have "a * 16 < 64 * 64" using assms by simp
  then show "a * 16 div 64 < 64" by (rule less_mult_imp_div_less)
  have "a * 16 div 64 * 64 + a * 16 mod 64 = a * 16" by (rule div_mult_mod_eq)
  then show "(a * 16 div 64 * 64 + a * 16 mod 64) div 16 = a" by simp
qed

lemma char_of_mod: "char_of (n :: nat) = c \<longleftrightarrow> n mod 256 = of_char c"
  by (metis char_of_char char_of_mod_256 of_char_of)

lemma b64_groups_encode: "b64_groups pad (b64_encode pad s) = Inr s"
proof (induction pad s rule: b64_encode.induct)
  case (2 pad a)
  note s = split1 [OF char_nat_bound [of a]]
  define v where "v = (of_char a :: nat) * 16"
  have "b64_value (b64_char (v div 64)) = Some (v div 64)" "b64_value (b64_char (v mod 64)) = Some (v mod 64)"
    using s(1) by (simp_all add: v_def b64_value_char)
  with s(2) show ?case by (simp add: Let_def v_def)
next
  case (3 pad a b)
  define v where "v = ((of_char a :: nat) * 256 + of_char b) * 4"
  note s = split2 [OF char_nat_bound [of a] char_nat_bound [of b], folded v_def]
  have "b64_value (b64_char n) = Some n" "b64_char n \<noteq> CHR ''=''" if "n < 64" for n
    using b64_char_plain [OF that] b64_value_char [OF that] by simp_all
  with s show ?case unfolding b64_encode.simps v_def [symmetric] Let_def
    by (simp add: char_of_mod)
next
  case (4 pad a b c rest)
  define v where "v = ((of_char a :: nat) * 256 + of_char b) * 256 + of_char c"
  note s = split3 [OF char_nat_bound [of a] char_nat_bound [of b] char_nat_bound [of c], folded v_def]
  have "b64_value (b64_char n) = Some n" "b64_char n \<noteq> CHR ''=''" if "n < 64" for n
    using b64_char_plain [OF that] b64_value_char [OF that] by simp_all
  with s 4 [OF v_def] show ?case unfolding b64_encode.simps v_def [symmetric] Let_def
    by (simp add: char_of_mod)
qed simp

text \<open>Every character of the text is from the alphabet or the padding.\<close>

lemma b64_encode_chars: "set (b64_encode pad s) \<subseteq> insert (CHR ''='') (b64_char ` {..<64})"
proof (induction pad s rule: b64_encode.induct)
  case (2 pad a)
  show ?case using split1(1) [OF char_nat_bound [of a]] by (auto simp: Let_def)
next
  case (3 pad a b)
  show ?case using split2(1) [OF char_nat_bound [of a] char_nat_bound [of b]] by (auto simp: Let_def)
next
  case (4 pad a b c rest)
  show ?case using split3(1) [OF char_nat_bound [of a] char_nat_bound [of b] char_nat_bound [of c]] 4 [OF refl] by (simp add: Let_def)
qed simp

lemma b64_encode_plain: "c \<in> set (b64_encode pad s) \<Longrightarrow> c \<noteq> CHR 0x0A \<and> c \<noteq> CHR 0x0D"
proof -
  assume "c \<in> set (b64_encode pad s)"
  then consider "c = CHR ''=''" | n where "n < 64" "c = b64_char n" using b64_encode_chars [of pad s] by auto
  then show ?thesis by cases (use b64_char_plain in auto)
qed

lemma b64_roundtrip [simp]: "b64_decode pad (b64_encode pad s) = Inr s"
proof -
  have "filter (\<lambda>c. c \<noteq> CHR 0x0A \<and> c \<noteq> CHR 0x0D) (b64_encode pad s) = b64_encode pad s"
    using b64_encode_plain by (auto simp: filter_id_conv)
  then show ?thesis by (simp add: b64_decode_def b64_groups_encode)
qed

subsection \<open>Hexadecimal\<close>

definition hex_alphabet :: string where "hex_alphabet = ''0123456789abcdef''"

definition hex_char :: "nat \<Rightarrow> char" where "hex_char n = hex_alphabet ! n"

text \<open>Decoding accepts both cases.\<close>

definition hex_value :: "char \<Rightarrow> nat option" where
  "hex_value c = index_where (\<lambda>x. x = to_lower_char c) hex_alphabet"

definition hex_encode :: "bytes \<Rightarrow> string" where
  "hex_encode b = concat (map (\<lambda>c. [hex_char (of_char c div 16), hex_char (of_char c mod 16)]) b)"

fun hex_decode :: "string \<Rightarrow> bytes result" where
  "hex_decode [] = Inr []"
| "hex_decode [x] = Inl (Err ''odd length hex string'')"
| "hex_decode (x # y # rest) =
     (case (hex_value x, hex_value y) of
        (Some i, Some j) \<Rightarrow>
          (case hex_decode rest of Inl e \<Rightarrow> Inl e | Inr out \<Rightarrow> Inr (char_of (i * 16 + j) # out))
      | _ \<Rightarrow> Inl (Err ''invalid byte''))"

lemma hex_lower: "n < 16 \<Longrightarrow> to_lower_char (hex_char n) = hex_char n"
proof -
  have "map to_lower_char hex_alphabet = hex_alphabet" by code_simp
  moreover have "length hex_alphabet = 16" by (simp add: hex_alphabet_def)
  ultimately show "n < 16 \<Longrightarrow> ?thesis" unfolding hex_char_def by (metis nth_map)
qed

lemma hex_value_char: "n < 16 \<Longrightarrow> hex_value (hex_char n) = Some n"
proof -
  have "distinct hex_alphabet" "length hex_alphabet = 16" by (simp_all add: hex_alphabet_def)
  then show "n < 16 \<Longrightarrow> ?thesis" by (simp add: hex_value_def hex_lower) (simp add: hex_char_def index_nth)
qed

lemma hex_roundtrip [simp]: "hex_decode (hex_encode b) = Inr b"
proof (induction b)
  case (Cons c b)
  have "(of_char c :: nat) div 16 < 16" using char_nat_bound [of c] by linarith
  moreover have "(of_char c :: nat) div 16 * 16 + of_char c mod 16 = of_char c" by simp
  ultimately show ?case using Cons by (simp add: hex_encode_def hex_value_char)
qed (simp add: hex_encode_def)

lemma length_hex_encode [simp]: "length (hex_encode b) = 2 * length b"
  by (induction b) (simp_all add: hex_encode_def)

subsection \<open>Decimal numbers\<close>

text \<open>\<open>strconv.Atoi\<close>: an optional sign and decimal digits, within 64 bits.\<close>

fun digits_value :: "int \<Rightarrow> string \<Rightarrow> int option" where
  "digits_value acc [] = Some acc"
| "digits_value acc (c # cs) =
     (if is_digit c then digits_value (acc * 10 + (of_char c - 48)) cs else None)"

definition atoi :: "string \<Rightarrow> int result" where
  "atoi s =
     (let (neg, ds) = (case s of [] \<Rightarrow> (False, [])
                       | c # cs \<Rightarrow> if c = CHR ''-'' then (True, cs) else if c = CHR ''+'' then (False, cs) else (False, s))
      in case (if ds = [] then None else digits_value 0 ds) of
           None \<Rightarrow> Inl (Err ''invalid syntax'')
         | Some n \<Rightarrow>
             let v = (if neg then - n else n)
             in if v < - (2 ^ 63) \<or> v \<ge> 2 ^ 63 then Inl (Err ''value out of range'') else Inr v)"

end
