(* ===== verification/Secretbox.thy ===== *)
theory Secretbox
  imports Encoding
begin

text \<open>
  Package \<open>runner/internal/crypto\<close> and \<open>runner/internal/config\<close>: the encryption key, the envelope of an
  encrypted value and the two settings of the process. AES-GCM is an argument: \<open>seal\<close> and \<open>open\<close> of an
  AEAD under a key, with its nonce size of 12 and its overhead of 16 bytes.
\<close>

definition envelopePrefix :: string where "envelopePrefix = ''v1:''"

record aead =
  Seal :: "bytes \<Rightarrow> bytes \<Rightarrow> bytes \<Rightarrow> bytes"
  Open :: "bytes \<Rightarrow> bytes \<Rightarrow> bytes \<Rightarrow> bytes result"

definition NonceSize :: nat where "NonceSize = 12"
definition Overhead :: nat where "Overhead = 16"

text \<open>The decoders are tried in turn; a text that decodes to another length is skipped.\<close>

definition decodeKey :: "string \<Rightarrow> bytes result" where
  "decodeKey value =
     (let v = trim_space value;
          good = List.map_filter (\<lambda>r. case r of Inl _ \<Rightarrow> None | Inr key \<Rightarrow> if length key = 32 then Some key else None)
                   [b64_decode True v, b64_decode False v, hex_decode v]
      in case good of
           [] \<Rightarrow> Inl (Err ''ENCRYPTION_KEY must encode exactly 32 bytes (base64 or hex)'')
         | key # _ \<Rightarrow> Inr key)"

definition NewSecretBox :: "(bytes \<Rightarrow> aead) \<Rightarrow> string \<Rightarrow> aead result" where
  "NewSecretBox gcm encodedKey =
     (case decodeKey encodedKey of Inl e \<Rightarrow> Inl e | Inr key \<Rightarrow> Inr (gcm key))"

definition Decrypt :: "aead \<Rightarrow> string \<Rightarrow> string \<Rightarrow> bytes result" where
  "Decrypt s envelope aad =
     (if \<not> has_prefix envelope envelopePrefix then Inl (Err ''unsupported encrypted value format'')
      else case b64_decode False (trim_prefix envelope envelopePrefix) of
        Inl e \<Rightarrow> Inl (Wrap ''decode encrypted value'' e)
      | Inr raw \<Rightarrow>
          if length raw < NonceSize + Overhead then Inl (Err ''encrypted value is too short'')
          else (case Open s (take NonceSize raw) (drop NonceSize raw) aad of
                  Inl _ \<Rightarrow> Inl (Err ''decrypt encrypted value: authentication failed'')
                | Inr plaintext \<Rightarrow> Inr plaintext))"

text \<open>\<open>random\<close> is the nonce read from \<open>rand.Reader\<close>, or its error.\<close>

definition Encrypt :: "aead \<Rightarrow> bytes result \<Rightarrow> bytes \<Rightarrow> string \<Rightarrow> string result" where
  "Encrypt s random plaintext aad =
     (case random of
        Inl e \<Rightarrow> Inl (Wrap ''generate nonce'' e)
      | Inr nonce \<Rightarrow> Inr (envelopePrefix @ b64_encode False (nonce @ Seal s nonce plaintext aad)))"

record bootstrap =
  PostgresDSN :: string
  EncryptionKey :: string

definition config_Load :: "(string \<Rightarrow> string option) \<Rightarrow> bootstrap result" where
  "config_Load lookupEnv =
     (case lookupEnv ''POSTGRES_DSN'' of
        None \<Rightarrow> Inl (Err ''POSTGRES_DSN is required'')
      | Some dsn \<Rightarrow>
          if dsn = [] then Inl (Err ''POSTGRES_DSN is required'')
          else case lookupEnv ''ENCRYPTION_KEY'' of
            None \<Rightarrow> Inl (Err ''ENCRYPTION_KEY is required'')
          | Some key \<Rightarrow>
              if key = [] then Inl (Err ''ENCRYPTION_KEY is required'')
              else Inr \<lparr>PostgresDSN = dsn, EncryptionKey = key\<rparr>)"

subsection \<open>What is relied on of the cipher\<close>

definition authenticated_cipher :: "aead \<Rightarrow> bool" where
  "authenticated_cipher s \<longleftrightarrow>
     (\<forall>nonce plain aad. length (Seal s nonce plain aad) = length plain + Overhead) \<and>
     (\<forall>nonce c aad plain. Open s nonce c aad = Inr plain \<longleftrightarrow> c = Seal s nonce plain aad)"

lemma decrypt_encrypt:
  assumes "authenticated_cipher s" "length nonce = NonceSize" "Encrypt s (Inr nonce) plain aad = Inr env"
  shows "Decrypt s env aad = Inr plain"
proof -
  have "Open s nonce (Seal s nonce plain aad) aad = Inr plain" "length (Seal s nonce plain aad) = length plain + Overhead"
    using assms(1) by (simp_all add: authenticated_cipher_def)
  then show ?thesis using assms(2,3) by (auto simp: Decrypt_def Encrypt_def)
qed

text \<open>Whatever decrypts was sealed under the nonce it carries and the same associated data.\<close>

lemma decrypt_authentic:
  assumes "authenticated_cipher s" "Decrypt s env aad = Inr plain"
  obtains nonce where "length nonce = NonceSize"
    "b64_decode False (trim_prefix env envelopePrefix) = Inr (nonce @ Seal s nonce plain aad)"
proof -
  from assms(2) obtain raw where raw: "b64_decode False (trim_prefix env envelopePrefix) = Inr raw"
    "length raw \<ge> NonceSize + Overhead" "Open s (take NonceSize raw) (drop NonceSize raw) aad = Inr plain"
    by (auto simp: Decrypt_def split: if_splits sum.splits)
  have "drop NonceSize raw = Seal s (take NonceSize raw) plain aad" using raw(3) assms(1) by (simp add: authenticated_cipher_def)
  then have "raw = take NonceSize raw @ Seal s (take NonceSize raw) plain aad" by (metis append_take_drop_id)
  moreover have "length (take NonceSize raw) = NonceSize" using raw(2) by simp
  ultimately show thesis using that [of "take NonceSize raw"] raw(1) by simp
qed

text \<open>
  A value encrypted for some associated data decrypts to itself under the same
  data; under other associated data for which the cipher has no forgery of it, it does not decrypt, so
  the stored ciphertext of one credential cannot stand in for that of another; and without its format
  tag it is refused. Assumed of AES-GCM is that opening accepts exactly what was sealed for the same
  nonce, text and associated data.
\<close>

theorem secret_roundtrip:
  assumes gcm: "authenticated_cipher s" and nonce: "length nonce = NonceSize"
    and enc: "Encrypt s (Inr nonce) plain aad = Inr env"
    and forge: "\<And>p. Seal s nonce p aad' \<noteq> Seal s nonce plain aad"
  shows "Decrypt s env aad = Inr plain \<and> (\<exists>e. Decrypt s env aad' = Inl e) \<and>
    (\<exists>e. Decrypt s (trim_prefix env envelopePrefix) aad = Inl e)"
proof -
  have env: "env = envelopePrefix @ b64_encode False (nonce @ Seal s nonce plain aad)"
    using enc by (simp add: Encrypt_def)
  have "\<exists>e. Decrypt s env aad' = Inl e"
  proof (cases "Decrypt s env aad'")
    case (Inr p)
    obtain n where "length n = NonceSize"
      "b64_decode False (trim_prefix env envelopePrefix) = Inr (n @ Seal s n p aad')"
      using decrypt_authentic [OF gcm Inr] .
    then have "nonce = n \<and> Seal s nonce plain aad = Seal s n p aad'"
      using nonce by (auto simp: env)
    then show ?thesis using forge [of p] by metis
  qed simp
  moreover have "\<not> has_prefix (b64_encode False b) envelopePrefix" for b
  proof
    assume "has_prefix (b64_encode False b) envelopePrefix"
    then have "CHR '':'' \<in> set (b64_encode False b)" by (auto simp: has_prefix_iff envelopePrefix_def)
    then obtain n where "n < 64" "CHR '':'' = b64_char n" using b64_encode_chars [of False b] by auto
    then have "CHR '':'' \<in> set b64_alphabet" using b64_alphabet(2) nth_mem by (metis b64_char_def)
    then show False by (simp add: b64_alphabet_def)
  qed
  then have "\<exists>e. Decrypt s (trim_prefix env envelopePrefix) aad = Inl e" by (simp add: env Decrypt_def)
  ultimately show ?thesis using decrypt_encrypt [OF gcm nonce enc] by blast
qed

text \<open>A cipher with a sixteen byte checksum of the associated data.\<close>

definition demo_tag :: "bytes \<Rightarrow> bytes" where "demo_tag aad = take 16 (aad @ replicate 16 (CHR ''.''))"

definition demo_aead :: aead where
  "demo_aead = \<lparr>Seal = (\<lambda>nonce p aad. p @ demo_tag aad),
     Open = (\<lambda>nonce c aad. if 16 \<le> length c \<and> drop (length c - 16) c = demo_tag aad
                            then Inr (take (length c - 16) c) else Inl (Err ''forged''))\<rparr>"

lemma length_demo_tag [simp]: "length (demo_tag aad) = 16" by (simp add: demo_tag_def)

lemma demo_aead: "authenticated_cipher demo_aead"
  unfolding authenticated_cipher_def
proof (intro conjI allI)
  fix nonce c aad plain :: bytes
  have "c = plain @ demo_tag aad" if "16 \<le> length c" "drop (length c - 16) c = demo_tag aad" "take (length c - 16) c = plain"
    using that by (metis append_take_drop_id)
  then show "Open demo_aead nonce c aad = Inr plain \<longleftrightarrow> c = Seal demo_aead nonce plain aad"
    by (auto simp: demo_aead_def)
qed (simp add: demo_aead_def Overhead_def)

theorem secret_roundtrip_witness:
  "\<exists>env. Encrypt demo_aead (Inr (replicate 12 (CHR ''n''))) ''token'' ''cred-1'' = Inr env \<and>
     Decrypt demo_aead env ''cred-1'' = Inr ''token'' \<and> (\<exists>e. Decrypt demo_aead env ''cred-2'' = Inl e)"
proof -
  let ?n = "replicate 12 (CHR ''n'')"
  obtain env where env: "Encrypt demo_aead (Inr ?n) ''token'' ''cred-1'' = Inr env" by (simp add: Encrypt_def)
  have "Seal demo_aead ?n p ''cred-2'' \<noteq> Seal demo_aead ?n ''token'' ''cred-1''" for p
    by (simp add: demo_aead_def demo_tag_def)
  then show ?thesis
    using secret_roundtrip [OF demo_aead _ env, of "''cred-2''"] env by (simp add: NonceSize_def)
qed

end
