(* ===== verification/Vault.thy ===== *)
theory Vault
  imports Secretbox
begin

text \<open>
  Packages \<open>backend/internal/secure\<close> and \<open>backend/internal/config\<close>: the vault in which the control
  plane encrypts credentials for the runner, session tokens, and the settings of the process. The vault
  and the runner's secret box are two programs that must agree on one format.
\<close>

definition envelopeVersion :: string where "envelopeVersion = ''v1''"

definition NewVault :: "(bytes \<Rightarrow> aead) \<Rightarrow> bytes \<Rightarrow> aead result" where
  "NewVault gcm key =
     (if length key \<noteq> 32 then Inl (Err ''AES-256-GCM requires a 32-byte key'') else Inr (gcm key))"

definition Vault_Encrypt :: "aead \<Rightarrow> bytes result \<Rightarrow> string \<Rightarrow> string \<Rightarrow> string result" where
  "Vault_Encrypt v random plaintext context =
     (if plaintext = [] then Inr []
      else case random of
        Inl e \<Rightarrow> Inl (Wrap ''generate nonce'' e)
      | Inr nonce \<Rightarrow> Inr (envelopeVersion @ '':'' @ b64_encode False (nonce @ Seal v nonce plaintext context)))"

text \<open>\<open>strings.SplitN(s, sep, 2)\<close> for a one-byte separator.\<close>

definition split2_char :: "char \<Rightarrow> string \<Rightarrow> string list" where
  "split2_char c s =
     (case index_byte s c of None \<Rightarrow> [s] | Some i \<Rightarrow> [take i s, drop (Suc i) s])"

definition Vault_Decrypt :: "aead \<Rightarrow> string \<Rightarrow> string \<Rightarrow> string result" where
  "Vault_Decrypt v envelope context =
     (if envelope = [] then Inr []
      else let parts = split2_char (CHR '':'') envelope in
        if length parts \<noteq> 2 \<or> parts ! 0 \<noteq> envelopeVersion then Inl (Err ''unsupported ciphertext envelope'')
        else case b64_decode False (parts ! 1) of
          Inl _ \<Rightarrow> Inl (Err ''invalid ciphertext encoding'')
        | Inr payload \<Rightarrow>
            if length payload < NonceSize + Overhead then Inl (Err ''invalid ciphertext length'')
            else (case Open v (take NonceSize payload) (drop NonceSize payload) context of
                    Inl _ \<Rightarrow> Inl (Err ''ciphertext authentication failed'')
                  | Inr plaintext \<Rightarrow> Inr plaintext))"

text \<open>URL-safe base64 without padding: the last two letters of the alphabet differ.\<close>

definition url_char :: "char \<Rightarrow> char" where
  "url_char c = (if c = CHR ''+'' then CHR ''-'' else if c = CHR 0x2F then CHR ''_'' else c)"

definition RandomToken :: "(nat \<Rightarrow> bytes result) \<Rightarrow> int \<Rightarrow> string result" where
  "RandomToken random n =
     (if n < 16 then Inl (Err ''token entropy must be at least 128 bits'')
      else case random (nat n) of Inl e \<Rightarrow> Inl e | Inr b \<Rightarrow> Inr (map url_char (b64_encode False b)))"

definition TokenHash :: "(bytes \<Rightarrow> bytes) \<Rightarrow> string \<Rightarrow> bytes" where "TokenHash sha256 token = sha256 token"

definition ConstantTimeHashEqual :: "(bytes \<Rightarrow> bytes) \<Rightarrow> bytes \<Rightarrow> string \<Rightarrow> bool" where
  "ConstantTimeHashEqual sha256 got token \<longleftrightarrow> got = TokenHash sha256 token"

subsection \<open>The settings of the control plane\<close>

text \<open>The condition \<open>err == nil && len(key) == 32\<close>.\<close>

definition key32 :: "bytes result \<Rightarrow> bytes option" where
  "key32 r = (case r of Inl _ \<Rightarrow> None | Inr key \<Rightarrow> if length key = 32 then Some key else None)"

definition ParseEncryptionKey :: "string \<Rightarrow> bytes result" where
  "ParseEncryptionKey value =
     (let v = trim_space value in
      if v = [] then Inl (Err ''ENCRYPTION_KEY is required'')
      else case key32 (b64_decode True v) of
        Some key \<Rightarrow> Inr key
      | None \<Rightarrow>
          (case key32 (b64_decode False v) of
             Some key \<Rightarrow> Inr key
           | None \<Rightarrow>
               (case key32 (hex_decode v) of
                  Some key \<Rightarrow> Inr key
                | None \<Rightarrow> Inl (Err ''ENCRYPTION_KEY must be exactly 32 bytes encoded as base64 or 64 hex characters''))))"

record runtime_settings =
  rs_PostgresDSN :: string
  rs_BootstrapAdmin :: string
  rs_BootstrapAdminPassword :: string
  rs_EncryptionKey :: bytes
  rs_Port :: int

text \<open>\<open>os.Getenv\<close> gives the empty string for an unset variable.\<close>

definition backend_Load :: "(string \<Rightarrow> string) \<Rightarrow> runtime_settings result" where
  "backend_Load getenv =
     (let dsn = trim_space (getenv ''POSTGRES_DSN''); admin = trim_space (getenv ''BOOTSTRAP_ADMIN'');
          password = getenv ''BOOTSTRAP_ADMIN_PASSWORD''; rawPort = trim_space (getenv ''PORT'')
      in case (if rawPort = [] then Inr 8080 else
                 case atoi rawPort of
                   Inl _ \<Rightarrow> Inl (Err ''PORT must be an integer between 1 and 65535'')
                 | Inr port \<Rightarrow> if port < 1 \<or> port > 65535 then Inl (Err ''PORT must be an integer between 1 and 65535'')
                               else Inr port) of
           Inl e \<Rightarrow> Inl e
         | Inr port \<Rightarrow>
             if dsn = [] then Inl (Err ''POSTGRES_DSN is required'')
             else if admin = [] then Inl (Err ''BOOTSTRAP_ADMIN is required'')
             else if length password < 12 then Inl (Err ''BOOTSTRAP_ADMIN_PASSWORD must contain at least 12 characters'')
             else case ParseEncryptionKey (getenv ''ENCRYPTION_KEY'') of
               Inl e \<Rightarrow> Inl e
             | Inr key \<Rightarrow>
                 Inr \<lparr>rs_PostgresDSN = dsn, rs_BootstrapAdmin = admin, rs_BootstrapAdminPassword = password,
                      rs_EncryptionKey = key, rs_Port = port\<rparr>)"

subsection \<open>Vault and secret box agree\<close>

lemma decodeKey_alt:
  "decodeKey value =
     (let v = trim_space value in
      case key32 (b64_decode True v) of
        Some key \<Rightarrow> Inr key
      | None \<Rightarrow>
          (case key32 (b64_decode False v) of
             Some key \<Rightarrow> Inr key
           | None \<Rightarrow>
               (case key32 (hex_decode v) of
                  Some key \<Rightarrow> Inr key
                | None \<Rightarrow> Inl (Err ''ENCRYPTION_KEY must encode exactly 32 bytes (base64 or hex)''))))"
  by (simp add: decodeKey_def key32_def Let_def List.map_filter_def split: sum.split option.split)

lemma split2_envelope:
  "length (split2_char (CHR '':'') env) = 2 \<and> split2_char (CHR '':'') env ! 0 = envelopeVersion \<longleftrightarrow>
   has_prefix env envelopePrefix"
  "has_prefix env envelopePrefix \<Longrightarrow> split2_char (CHR '':'') env ! 1 = trim_prefix env envelopePrefix"
proof -
  have pre: "index_byte (envelopePrefix @ t) (CHR '':'') = Some 2" for t
    by (simp add: envelopePrefix_def index_byte_def numeral_2_eq_2)
  show "has_prefix env envelopePrefix \<Longrightarrow> split2_char (CHR '':'') env ! 1 = trim_prefix env envelopePrefix"
    by (auto simp: has_prefix_iff split2_char_def pre) (simp add: envelopePrefix_def)
  show "length (split2_char (CHR '':'') env) = 2 \<and> split2_char (CHR '':'') env ! 0 = envelopeVersion \<longleftrightarrow>
      has_prefix env envelopePrefix" (is "?l \<longleftrightarrow> ?r")
  proof
    assume ?l
    then obtain i where i: "index_byte env (CHR '':'') = Some i" "take i env = envelopeVersion"
      by (auto simp: split2_char_def split: option.splits)
    then have "i < length env" "env ! i = CHR '':''" using index_where_Some by (fastforce simp: index_byte_def)+
    then have "env = envelopeVersion @ CHR '':'' # drop (Suc i) env" using i(2) by (metis id_take_nth_drop)
    then show ?r by (auto simp: has_prefix_iff envelopePrefix_def envelopeVersion_def)
  next
    assume ?r
    then show ?l by (auto simp: has_prefix_iff split2_char_def pre) (simp add: envelopePrefix_def envelopeVersion_def)
  qed
qed

text \<open>
  C34 (vault_and_secretbox_agree): the control plane and the runner, two separate programs, read the same
  key from the same setting and decrypt exactly the same envelopes to the same values; the one
  difference is the empty envelope, which the vault reads as the empty value.
\<close>

theorem vault_and_secretbox_agree:
  "(ParseEncryptionKey setting = Inr key \<longleftrightarrow> decodeKey setting = Inr key) \<and>
   (Decrypt s env aad = Inr plain \<longleftrightarrow> env \<noteq> [] \<and> Vault_Decrypt s env aad = Inr plain)"
proof
  have "b64_decode True [] = Inr []" "b64_decode False [] = Inr []" by (simp_all add: b64_decode_def)
  then show "ParseEncryptionKey setting = Inr key \<longleftrightarrow> decodeKey setting = Inr key"
    by (cases "trim_space setting = []")
      (auto simp: ParseEncryptionKey_def decodeKey_alt Let_def key32_def split: option.split)
  have ne: "has_prefix env envelopePrefix \<Longrightarrow> env \<noteq> []" by (auto simp: has_prefix_iff envelopePrefix_def)
  show "Decrypt s env aad = Inr plain \<longleftrightarrow> env \<noteq> [] \<and> Vault_Decrypt s env aad = Inr plain"
  proof (cases "has_prefix env envelopePrefix")
    case True
    then have "length (split2_char (CHR '':'') env) = 2" "split2_char (CHR '':'') env ! 0 = envelopeVersion"
      using split2_envelope(1) by blast+
    with True ne split2_envelope(2) [OF True] show ?thesis
      by (simp add: Decrypt_def Vault_Decrypt_def Let_def split: sum.split if_split)
  next
    case False
    then have "length (split2_char (CHR '':'') env) \<noteq> 2 \<or> split2_char (CHR '':'') env ! 0 \<noteq> envelopeVersion"
      using split2_envelope(1) by blast
    with False show ?thesis by (auto simp: Decrypt_def Vault_Decrypt_def Let_def)
  qed
qed

end
