(* ===== verification/Localexec.thy ===== *)
theory Localexec
  imports Executor
begin

text \<open>
  Package \<open>backend/internal/localexec\<close>: the command of simple mode, run by the control plane itself. Its
  guards are a copy of the runner's \<open>command.go\<close>, kept by hand; the theorem at the end says what the
  copy has to keep. The operating system is the same argument as for the runner.
\<close>

definition MaxTimeout :: int where "MaxTimeout = 24 * 3600 * 1000000000"

record local_spec =
  lx_Path :: string
  lx_Args :: "string list"
  lx_Dir :: string
  lx_Env :: environment
  lx_Timeout :: int

record local_result =
  lr_ExitCode :: int
  lr_Duration :: int
  lr_TimedOut :: bool

definition local_refused :: local_result where
  "local_refused = \<lparr>lr_ExitCode = -1, lr_Duration = 0, lr_TimedOut = False\<rparr>"

definition ValidateCommandPath :: "fs \<Rightarrow> string \<Rightarrow> error option" where
  "ValidateCommandPath fs path =
     (if \<not> is_abs path \<or> path_clean path \<noteq> path
      then Some (Err ''command path must be an absolute, cleaned path'')
      else case os_stat fs path of
        Inl e \<Rightarrow> Some (Wrap ''inspect command'' e)
      | Inr info \<Rightarrow> guard (\<not> is_regular info \<or> perm info AND octal 1 1 1 = 0)
                      ''command path must be an executable regular file'')"

definition ValidateDir :: "fs \<Rightarrow> string \<Rightarrow> error option" where
  "ValidateDir fs dir =
     (if \<not> is_abs dir \<or> path_clean dir \<noteq> dir
      then Some (Err ''working directory must be an absolute, cleaned path'')
      else case os_lstat fs dir of
        Inl e \<Rightarrow> Some (Wrap ''inspect working directory'' e)
      | Inr info \<Rightarrow>
          if is_symlink info then Some (Err ''working directory must not be a symbolic link'')
          else guard (\<not> is_dir info) ''working directory must be a directory'')"

fun ValidateArgs :: "string list \<Rightarrow> error option" where
  "ValidateArgs [] = None"
| "ValidateArgs (arg # args) =
     (if contains_char arg (CHR 0x00) then Some (Err ''command arguments must not contain NUL'')
      else ValidateArgs args)"

fun local_environment_check :: "environment \<Rightarrow> error option" where
  "local_environment_check [] = None"
| "local_environment_check ((key, value) # rest) =
     (if \<not> environmentName key then Some (Err ''invalid environment name'')
      else if contains_char value (CHR 0x00) then Some (Err ''environment contains NUL'')
      else local_environment_check rest)"

definition local_restrictedEnvironment :: "environment \<Rightarrow> string list result" where
  "local_restrictedEnvironment values =
     (case local_environment_check values of
        Some e \<Rightarrow> Inl e
      | None \<Rightarrow> Inr (map (\<lambda>key. key @ ''='' @ env_get values key) (sort_strings (map fst values))))"

definition local_outcome :: "exec_end \<Rightarrow> local_result \<times> error option" where
  "local_outcome fin =
     (case xe_err fin of
        None \<Rightarrow> (\<lparr>lr_ExitCode = 0, lr_Duration = xe_duration fin, lr_TimedOut = False\<rparr>, None)
      | Some err \<Rightarrow>
          let result = \<lparr>lr_ExitCode = (case xe_exit fin of None \<Rightarrow> -1 | Some c \<Rightarrow> c),
                        lr_Duration = xe_duration fin, lr_TimedOut = False\<rparr>
          in case xe_ctx fin of
               CtxDeadline \<Rightarrow> (result\<lparr>lr_TimedOut := True\<rparr>, Some (Err ''command exceeded timeout''))
             | CtxCanceled \<Rightarrow> (result, Some ContextCanceled)
             | CtxAlive \<Rightarrow> (result, Some (Wrap ''command exited with code'' err)))"

definition local_Run ::
  "('w \<Rightarrow> fs) \<Rightarrow> 'w os_exec \<Rightarrow> 'w \<Rightarrow> local_spec \<Rightarrow> 'w \<times> out_event list \<times> local_result \<times> error option" where
  "local_Run fs_of exec w sp =
     (case ValidateCommandPath (fs_of w) (lx_Path sp) of
        Some e \<Rightarrow> (w, [], local_refused, Some e)
      | None \<Rightarrow>
          (case ValidateDir (fs_of w) (lx_Dir sp) of
             Some e \<Rightarrow> (w, [], local_refused, Some e)
           | None \<Rightarrow>
               (case ValidateArgs (lx_Args sp) of
                  Some e \<Rightarrow> (w, [], local_refused, Some e)
                | None \<Rightarrow>
                    if lx_Timeout sp \<le> 0 \<or> lx_Timeout sp > MaxTimeout
                    then (w, [], local_refused, Some (Err ''command timeout must be between 1s and 24h''))
                    else case local_restrictedEnvironment (lx_Env sp) of
                      Inl e \<Rightarrow> (w, [], local_refused, Some e)
                    | Inr environment \<Rightarrow>
                        (case exec w \<lparr>xr_Path = lx_Path sp, xr_Args = lx_Args sp, xr_Dir = lx_Dir sp,
                                     xr_Env = environment, xr_Stdin = [], xr_Timeout = lx_Timeout sp\<rparr> of
                           (w', out, fin) \<Rightarrow> (w', out, local_outcome fin)))))"

subsection \<open>The copy keeps the guards\<close>

definition as_runner_spec :: "local_spec \<Rightarrow> spec" where
  "as_runner_spec sp = \<lparr>sp_Path = lx_Path sp, sp_Args = lx_Args sp, sp_Dir = lx_Dir sp, sp_Env = lx_Env sp,
     sp_Stdin = [], sp_Timeout = lx_Timeout sp, sp_Isolated = False\<rparr>"

definition as_runner_result :: "local_result \<Rightarrow> exec_result" where
  "as_runner_result r = \<lparr>er_ExitCode = lr_ExitCode r, er_Duration = lr_Duration r\<rparr>"

lemma local_environment_check_eq: "local_environment_check env = environment_check env"
  by (induction env rule: local_environment_check.induct) simp_all

lemma local_outcome_eq: "local_outcome fin = (r, e) \<Longrightarrow> exec_outcome fin = (as_runner_result r, e)"
  by (auto simp: local_outcome_def exec_outcome_def as_runner_result_def Let_def split: option.splits ctx_state.splits)

text \<open>The guards of the control plane that the runner does not have.\<close>

definition stricter :: "fs \<Rightarrow> local_spec \<Rightarrow> bool" where
  "stricter fs sp \<longleftrightarrow>
     path_clean (lx_Path sp) = lx_Path sp \<and> ValidateDir fs (lx_Dir sp) = None \<and>
     (\<forall>a\<in>set (lx_Args sp). CHR 0x00 \<notin> set a) \<and> lx_Timeout sp \<le> MaxTimeout"

lemma ValidateArgs_None: "ValidateArgs as = None \<longleftrightarrow> (\<forall>a\<in>set as. CHR 0x00 \<notin> set a)"
  by (induction as) (auto simp: contains_char_def)

text \<open>
  The hand-made copy has lost no guard. Given the same command, the
  control plane either refuses without touching the world, because of a guard of the runner or of one of
  its own stricter ones, or it does exactly what the runner does: the same process with the same
  environment, the same output, exit code, duration and error. In particular whatever the runner refuses
  is refused here too.
\<close>

theorem localexec_mirrors_runner:
  "local_Run fs_of exec w sp = (w', out, r, e) \<Longrightarrow>
     (Runner_Run fs_of exec w (as_runner_spec sp) = (w', out, as_runner_result r, e) \<and> stricter (fs_of w) sp) \<or>
     (w' = w \<and> out = [] \<and> r = local_refused \<and> e \<noteq> None \<and>
      (stricter (fs_of w) sp \<longrightarrow> (\<exists>e'. Runner_Run fs_of exec w (as_runner_spec sp) = (w, [], refused, Some e'))))"
proof (cases "ValidateCommandPath (fs_of w) (lx_Path sp) = None \<and> ValidateDir (fs_of w) (lx_Dir sp) = None \<and>
    ValidateArgs (lx_Args sp) = None \<and> 0 < lx_Timeout sp \<and> lx_Timeout sp \<le> MaxTimeout \<and>
    local_environment_check (lx_Env sp) = None")
  case True
  assume run: "local_Run fs_of exec w sp = (w', out, r, e)"
  from True have c: "path_clean (lx_Path sp) = lx_Path sp" "is_abs (lx_Path sp)" "is_abs (lx_Dir sp)" "lx_Dir sp \<noteq> []"
    by (auto simp: ValidateCommandPath_def ValidateDir_def split: if_splits)
  then have s: "stricter (fs_of w) sp" using True by (simp add: stricter_def ValidateArgs_None)
  from True obtain info where info: "os_stat (fs_of w) (lx_Path sp) = Inr info" "is_regular info" "perm info AND octal 1 1 1 \<noteq> 0"
    by (auto simp: ValidateCommandPath_def split: if_splits sum.splits)
  have "Runner_Run fs_of exec w (as_runner_spec sp) = (w', out, as_runner_result r, e)"
    using run True c info
    by (auto simp: local_Run_def Runner_Run_def as_runner_spec_def local_restrictedEnvironment_def restrictedEnvironment_def
        local_environment_check_eq split: prod.splits dest!: local_outcome_eq)
  with s show ?thesis by blast
next
  case False
  assume run: "local_Run fs_of exec w sp = (w', out, r, e)"
  have no: "w' = w \<and> out = [] \<and> r = local_refused \<and> e \<noteq> None"
    using run False
    by (auto simp: local_Run_def local_restrictedEnvironment_def split: option.splits if_splits intro: sym)
  moreover have "\<exists>e'. Runner_Run fs_of exec w (as_runner_spec sp) = (w, [], refused, Some e')" if "stricter (fs_of w) sp"
  proof -
    have "\<not> (ValidateCommandPath (fs_of w) (lx_Path sp) = None \<and> 0 < lx_Timeout sp \<and> environment_check (lx_Env sp) = None)"
      using False that by (auto simp: stricter_def ValidateArgs_None local_environment_check_eq)
    then show ?thesis using that
      by (auto simp: Runner_Run_def as_runner_spec_def ValidateCommandPath_def stricter_def restrictedEnvironment_def
          guard_simps split: sum.split option.split)
  qed
  ultimately show ?thesis by blast
qed

text \<open>A command given with a relative detour is refused here, though the runner would take it.\<close>

definition local_fs :: fs where
  "local_fs = [([], \<lparr>kind = Directory, perm = octal 7 5 5, setgid = False, sticky = False, uid = 0, gid = 0\<rparr>),
     ([''sh''], \<lparr>kind = Regular [], perm = octal 7 5 5, setgid = False, sticky = False, uid = 0, gid = 0\<rparr>)]"

theorem localexec_mirrors_runner_witness:
  "\<exists>r. local_Run (\<lambda>_. local_fs) demo_exec 0 \<lparr>lx_Path = ''/sh'', lx_Args = [''-c''], lx_Dir = ''/'', lx_Env = [], lx_Timeout = 5\<rparr> =
     (1, [(Stdout, ''ran'')], r, None) \<and>
   Runner_Run (\<lambda>_. local_fs) demo_exec 0 (as_runner_spec
     \<lparr>lx_Path = ''/sh'', lx_Args = [''-c''], lx_Dir = ''/'', lx_Env = [], lx_Timeout = 5\<rparr>) =
     (1, [(Stdout, ''ran'')], as_runner_result r, None)"
proof -
  let ?sp = "\<lparr>lx_Path = ''/sh'', lx_Args = [''-c''], lx_Dir = ''/'', lx_Env = [], lx_Timeout = 5\<rparr>"
  have run: "local_Run (\<lambda>_. local_fs) demo_exec 0 ?sp = (1, [(Stdout, ''ran'')], \<lparr>lr_ExitCode = 0, lr_Duration = 1, lr_TimedOut = False\<rparr>, None)"
    by code_simp
  from localexec_mirrors_runner [OF run] show ?thesis using run by auto
qed

end
