(* ===== verification/Runtime_Client.thy ===== *)
theory Runtime_Client
  imports Executor Model Encoding
begin

text \<open>
  Package \<open>runner/internal/runtime\<close>, file \<open>runtime.go\<close>: the container runtime (docker, podman or
  containerd) driven through the command executor. The world of the executor is a file system with the
  rest of the host, \<open>fs \<times> 'x\<close>. Parsing of URLs, of PEM certificates and the quoting \<open>%q\<close> of package
  \<open>fmt\<close> are arguments. The writers of an \<open>Output\<close> are not stored: an operation returns what the command
  wrote.
\<close>

record credential =
  cr_Username :: string
  cr_Password :: string

record url =
  u_Scheme :: string
  u_Host :: string
  u_Hostname :: string
  u_HasUser :: bool
  u_Path :: string
  u_Fragment :: string
  u_Query :: "(string \<times> string) list"

record net_tools =
  nt_parse :: "string \<Rightarrow> url result"
  nt_render :: "url \<Rightarrow> string"
  nt_certificates :: "string \<Rightarrow> bool"
  nt_quote :: "string \<Rightarrow> string"

type_synonym 'x host = "fs \<times> 'x"

type_synonym 'x command_result = "'x host \<times> out_event list \<times> error option"

subsection \<open>The runtime binary\<close>

definition registryHost :: "net_tools \<Rightarrow> string \<Rightarrow> string result" where
  "registryHost nt value =
     (if value = [] \<or> contains_any value (''/?#@ '' @ [CHR 0x09, CHR 0x0D, CHR 0x0A])
      then Inl (Err ''registry_host must contain only a host and optional port'')
      else case nt_parse nt (''//'' @ value) of
        Inl _ \<Rightarrow> Inl (Err ''registry_host is invalid'')
      | Inr parsed \<Rightarrow>
          if u_Host parsed \<noteq> value \<or> u_Hostname parsed = [] then Inl (Err ''registry_host is invalid'')
          else Inr value)"

definition runtimeBinaryNames :: "(string \<times> string) list" where
  "runtimeBinaryNames = [(''docker'', ''docker''), (''podman'', ''podman''), (''containerd'', ''ctr'')]"

definition runtimeBinaryDirectories :: "string list" where
  "runtimeBinaryDirectories = [''/usr/bin'', ''/usr/local/bin'', ''/usr/sbin'', ''/usr/local/sbin'']"

definition validateRootOwner :: "inode \<Rightarrow> error option" where
  "validateRootOwner info = guard (uid info \<noteq> 0) ''path is not owned by root''"

definition validateRootOwnedMode :: "inode \<Rightarrow> bool \<Rightarrow> bool \<Rightarrow> error option" where
  "validateRootOwnedMode info directory executable =
     first_error
       [guard (directory \<and> \<not> is_dir info) ''path is not a directory'',
        guard (\<not> directory \<and> \<not> is_regular info) ''path is not a regular file'',
        validateRootOwner info,
        guard (perm info AND octal 0 2 2 \<noteq> 0) ''path is group- or world-writable'',
        guard (executable \<and> perm info AND octal 1 1 1 = 0) ''runtime binary is not executable'']"

definition validateRuntimeBinaryPath :: "string \<Rightarrow> string \<Rightarrow> error option" where
  "validateRuntimeBinaryPath knd path =
     (case map_of runtimeBinaryNames knd of
        None \<Rightarrow> Some (Err ''unsupported runtime'')
      | Some expectedName \<Rightarrow>
          if \<not> is_abs path \<or> path_clean path \<noteq> path \<or> path_base path \<noteq> expectedName
          then Some (Err ''runtime binary must be an exact absolute path'')
          else guard (path_dir path \<notin> set runtimeBinaryDirectories)
                 ''runtime binary directory must be /usr/bin, /usr/local/bin, /usr/sbin, or /usr/local/sbin'')"

text \<open>The target of a runtime binary that is a symbolic link.\<close>

definition check_link_target :: "fs \<Rightarrow> string \<Rightarrow> string \<Rightarrow> error option" where
  "check_link_target fs knd path =
     (case eval_symlinks fs path of
        Inl e \<Rightarrow> Some (Wrap ''resolve runtime binary symlink'' e)
      | Inr resolved \<Rightarrow>
          if \<not> is_abs resolved then Some (Err ''runtime binary symlink did not resolve to an absolute path'')
          else if Some (path_base resolved) \<noteq> map_of runtimeBinaryNames knd
          then Some (Err ''runtime binary symlink target name is invalid'')
          else if path_dir resolved \<notin> set runtimeBinaryDirectories
          then Some (Err ''runtime binary symlink target escapes the allowed system directories'')
          else case os_stat fs (path_dir resolved) of
            Inl e \<Rightarrow> Some (Wrap ''inspect runtime binary symlink target directory'' e)
          | Inr info \<Rightarrow>
              map_option (Wrap ''runtime binary symlink target directory is unsafe'') (validateRootOwnedMode info True False))"

definition validateRuntimeBinary :: "fs \<Rightarrow> string \<Rightarrow> string \<Rightarrow> error option" where
  "validateRuntimeBinary fs knd path =
     (case validateRuntimeBinaryPath knd path of
        Some e \<Rightarrow> Some e
      | None \<Rightarrow>
          (case os_stat fs (path_dir path) of
             Inl e \<Rightarrow> Some (Wrap ''inspect runtime binary directory'' e)
           | Inr directoryInfo \<Rightarrow>
               (case validateRootOwnedMode directoryInfo True False of
                  Some e \<Rightarrow> Some (Wrap ''runtime binary directory is unsafe'' e)
                | None \<Rightarrow>
                    (case os_lstat fs path of
                       Inl e \<Rightarrow> Some (if errors_is e errNotExist then Wrap ''runtime binary is unavailable'' e
                                      else Wrap ''inspect runtime binary'' e)
                     | Inr linkInfo \<Rightarrow>
                         (case (if is_symlink linkInfo
                                then (case validateRootOwner linkInfo of
                                        Some e \<Rightarrow> Some (Wrap ''runtime binary symlink is unsafe'' e)
                                      | None \<Rightarrow> check_link_target fs knd path)
                                else None) of
                            Some e \<Rightarrow> Some e
                          | None \<Rightarrow>
                              (case os_stat fs path of
                                 Inl e \<Rightarrow> Some (Wrap ''inspect resolved runtime binary'' e)
                               | Inr info \<Rightarrow>
                                   map_option (Wrap ''runtime binary is unsafe'') (validateRootOwnedMode info False True)))))))"

subsection \<open>The client\<close>

record 'x runtime_client =
  rc_config :: runtime_config
  rc_exec :: "'x host command_executor"

definition newClient ::
  "net_tools \<Rightarrow> runtime_config \<Rightarrow> 'x host command_executor option \<Rightarrow> (string \<Rightarrow> string \<Rightarrow> error option) option \<Rightarrow> 'x runtime_client result" where
  "newClient nt config exec binaryValidator =
     (case exec of
        None \<Rightarrow> Inl (Err ''command executor is required'')
      | Some run \<Rightarrow>
          if rt_Kind config \<noteq> ''docker'' \<and> rt_Kind config \<noteq> ''podman'' \<and> rt_Kind config \<noteq> ''containerd''
          then Inl (Err ''unsupported runtime'')
          else (case binaryValidator of
            None \<Rightarrow> Inl (Err ''runtime binary validator is required'')
          | Some validator \<Rightarrow>
              (case validator (rt_Kind config) (rt_BinaryPath config) of
                 Some e \<Rightarrow> Inl e
               | None \<Rightarrow>
                   (case registryHost nt (rt_RegistryHost config) of
                      Inl e \<Rightarrow> Inl e
                    | Inr _ \<Rightarrow>
                        if rt_RegistryCAPEM config \<noteq> [] \<and> \<not> nt_certificates nt (rt_RegistryCAPEM config)
                        then Inl (Err ''registry CA PEM contains no certificates'')
                        else if rt_Kind config = ''docker'' \<and> (rt_RegistryInsecure config \<or> rt_RegistryCAPEM config \<noteq> [])
                        then Inl (Err ''Docker registry TLS trust is daemon-managed'')
                        else Inr \<lparr>rc_config = config, rc_exec = run\<rparr>))))"

definition runtime_New :: "net_tools \<Rightarrow> fs \<Rightarrow> runtime_config \<Rightarrow> 'x host command_executor option \<Rightarrow> 'x runtime_client result" where
  "runtime_New nt fs config exec = newClient nt config exec (Some (validateRuntimeBinary fs))"

definition runtime_cloneEnvironment :: "environment \<Rightarrow> environment" where "runtime_cloneEnvironment base = base"

definition withAuthEnv :: "'x runtime_client \<Rightarrow> string \<Rightarrow> environment \<Rightarrow> environment" where
  "withAuthEnv c transientRoot base =
     (let authRoot = path_join [transientRoot, ''.runtime-auth''] in
      if rt_Kind (rc_config c) = ''docker'' then AList.update ''DOCKER_CONFIG'' authRoot base
      else if rt_Kind (rc_config c) = ''podman''
      then AList.update ''REGISTRY_AUTH_FILE'' (path_join [authRoot, ''auth.json'']) base
      else base)"

definition containerdPrefix :: "'x runtime_client \<Rightarrow> string list" where
  "containerdPrefix c =
     (if rt_Namespace (rc_config c) = [] then [] else [''--namespace'', rt_Namespace (rc_config c)])"

definition podmanTLSArguments :: "proc \<Rightarrow> 'x runtime_client \<Rightarrow> fs \<Rightarrow> string \<Rightarrow> fs \<times> string list result" where
  "podmanTLSArguments pr c fs transientRoot =
     (let cfg = rc_config c; insecure = (if rt_RegistryInsecure cfg then [''--tls-verify=false''] else []) in
      if rt_Kind cfg \<noteq> ''podman'' then (fs, Inr [])
      else if rt_RegistryCAPEM cfg = [] then (fs, Inr insecure)
      else let hostDirectory = path_join [path_join [transientRoot, ''.registry-certs''], rt_RegistryHost cfg] in
        case os_mkdir_all pr fs hostDirectory (octal 7 0 0) of
          (fs1, Some e) \<Rightarrow> (fs1, Inl (Wrap ''create Podman registry certificate directory'' e))
        | (fs1, None) \<Rightarrow>
            (case os_write_file pr fs1 (path_join [hostDirectory, ''ca.crt'']) (rt_RegistryCAPEM cfg) (octal 6 0 0) of
               (fs2, Some e) \<Rightarrow> (fs2, Inl (Wrap ''write Podman registry CA'' e))
             | (fs2, None) \<Rightarrow> (fs2, Inr ([''--cert-dir'', hostDirectory] @ insecure))))"

text \<open>The text of \<open>hosts.toml\<close>; a line break is the character 10.\<close>

definition nl :: string where "nl = [CHR 0x0A]"

definition hosts_toml :: "net_tools \<Rightarrow> runtime_config \<Rightarrow> string \<Rightarrow> credential \<Rightarrow> string" where
  "hosts_toml nt cfg directory cred =
     (let q = nt_quote nt (rt_RegistryURL cfg); dq = [CHR 0x22] in
      ''server = '' @ q @ nl @ nl @ ''[host.'' @ q @ '']'' @ nl @
      ''  capabilities = ['' @ dq @ ''pull'' @ dq @ '', '' @ dq @ ''resolve'' @ dq @ '', '' @ dq @ ''push'' @ dq @ '']'' @ nl @
      (if rt_RegistryInsecure cfg then ''  skip_verify = true'' @ nl else []) @
      (if rt_RegistryCAPEM cfg \<noteq> [] then ''  ca = '' @ nt_quote nt (path_join [directory, ''ca.crt'']) @ nl else []) @
      (if cr_Username cred \<noteq> []
       then ''  [host.'' @ q @ ''.header]'' @ nl @ ''    authorization = '' @ dq @ ''Basic '' @
            b64_encode True (cr_Username cred @ '':'' @ cr_Password cred) @ dq @ nl
       else []))"

definition writeContainerdHosts :: "net_tools \<Rightarrow> proc \<Rightarrow> 'x runtime_client \<Rightarrow> fs \<Rightarrow> string \<Rightarrow> credential \<Rightarrow> fs \<times> error option" where
  "writeContainerdHosts nt pr c fs transientRoot cred =
     (let cfg = rc_config c in
      case registryHost nt (rt_RegistryHost cfg) of
        Inl e \<Rightarrow> (fs, Some e)
      | Inr host \<Rightarrow>
          let directory = path_join [transientRoot, ''.containerd-hosts'', host] in
          (case os_mkdir_all pr fs directory (octal 7 0 0) of
             (fs1, Some e) \<Rightarrow> (fs1, Some (Wrap ''create containerd hosts directory'' e))
           | (fs1, None) \<Rightarrow>
               (case (if rt_RegistryCAPEM cfg \<noteq> []
                      then os_write_file pr fs1 (path_join [directory, ''ca.crt'']) (rt_RegistryCAPEM cfg) (octal 6 0 0)
                      else (fs1, None)) of
                  (fs2, Some e) \<Rightarrow> (fs2, Some (Wrap ''write containerd registry CA'' e))
                | (fs2, None) \<Rightarrow>
                    (case os_write_file pr fs2 (path_join [directory, ''hosts.toml'']) (hosts_toml nt cfg directory cred) (octal 6 0 0) of
                       (fs3, Some e) \<Rightarrow> (fs3, Some (Wrap ''write containerd hosts config'' e))
                     | (fs3, None) \<Rightarrow> (fs3, None)))))"

definition runWithTransient ::
  "'x runtime_client \<Rightarrow> 'x host \<Rightarrow> string \<Rightarrow> string \<Rightarrow> string list \<Rightarrow> spec \<Rightarrow> bytes \<Rightarrow> string \<Rightarrow> 'x command_result" where
  "runWithTransient c w workspace transientRoot args base stdin action =
     (let sp = base\<lparr>sp_Env := (if transientRoot = [] then runtime_cloneEnvironment (sp_Env base)
                               else withAuthEnv c transientRoot (sp_Env base)),
                    sp_Path := rt_BinaryPath (rc_config c), sp_Args := args, sp_Dir := workspace, sp_Stdin := stdin\<rparr>
      in case rc_exec c w sp of (w', out, _, err) \<Rightarrow> (w', out, map_option (Wrap action) err))"

definition client_run :: "'x runtime_client \<Rightarrow> 'x host \<Rightarrow> string \<Rightarrow> string list \<Rightarrow> spec \<Rightarrow> bytes \<Rightarrow> string \<Rightarrow> 'x command_result" where
  "client_run c w workspace args base stdin action = runWithTransient c w workspace [] args base stdin action"

definition Login ::
  "net_tools \<Rightarrow> proc \<Rightarrow> 'x runtime_client \<Rightarrow> 'x host \<Rightarrow> string \<Rightarrow> string \<Rightarrow> credential \<Rightarrow> spec \<Rightarrow> 'x command_result" where
  "Login nt pr c w workspace transientRoot cred timeoutSpec =
     (case w of (fs, x) \<Rightarrow>
      if (cr_Username cred = []) \<noteq> (cr_Password cred = [])
      then (w, [], Some (Err ''registry username and password must both be present''))
      else if rt_Kind (rc_config c) = ''containerd''
      then (case writeContainerdHosts nt pr c fs transientRoot cred of (fs', e) \<Rightarrow> ((fs', x), [], e))
      else case podmanTLSArguments pr c fs transientRoot of
        (fs1, Inl e) \<Rightarrow> ((fs1, x), [], Some e)
      | (fs1, Inr podmanTLS) \<Rightarrow>
          if cr_Username cred = [] then ((fs1, x), [], None)
          else (case os_mkdir_all pr fs1 (path_join [transientRoot, ''.runtime-auth'']) (octal 7 0 0) of
            (fs2, Some e) \<Rightarrow> ((fs2, x), [], Some (Wrap ''create runtime authentication directory'' e))
          | (fs2, None) \<Rightarrow>
              let sp = timeoutSpec\<lparr>sp_Env := withAuthEnv c transientRoot (sp_Env timeoutSpec),
                         sp_Path := rt_BinaryPath (rc_config c),
                         sp_Args := [''login''] @ podmanTLS @
                           [rt_RegistryHost (rc_config c), ''--username'', cr_Username cred, ''--password-stdin''],
                         sp_Dir := workspace, sp_Stdin := cr_Password cred @ nl\<rparr>
              in case rc_exec c (fs2, x) sp of
                   (w', out, _, err) \<Rightarrow> (w', out, map_option (Wrap ''registry login'') err)))"

definition client_Load :: "'x runtime_client \<Rightarrow> 'x host \<Rightarrow> string \<Rightarrow> string \<Rightarrow> spec \<Rightarrow> 'x command_result" where
  "client_Load c w workspace imageTar base =
     client_run c w workspace
       (if rt_Kind (rc_config c) = ''containerd'' then containerdPrefix c @ [''images'', ''import'', imageTar]
        else [''load'', ''--input'', imageTar]) base [] ''load image''"

definition client_Tag :: "'x runtime_client \<Rightarrow> 'x host \<Rightarrow> string \<Rightarrow> string \<Rightarrow> string \<Rightarrow> spec \<Rightarrow> 'x command_result" where
  "client_Tag c w workspace source destination base =
     (if source = [] \<or> destination = []
      then (w, [], Some (Err ''source and destination image references are required''))
      else client_run c w workspace
             (if rt_Kind (rc_config c) = ''containerd'' then containerdPrefix c @ [''images'', ''tag'', source, destination]
              else [''tag'', source, destination]) base [] ''tag image'')"

definition client_Push ::
  "proc \<Rightarrow> 'x runtime_client \<Rightarrow> 'x host \<Rightarrow> string \<Rightarrow> string \<Rightarrow> string \<Rightarrow> spec \<Rightarrow> 'x command_result" where
  "client_Push pr c w workspace transientRoot destination base =
     (case w of (fs, x) \<Rightarrow>
      let go = (\<lambda>w args. runWithTransient c w workspace transientRoot (args @ [destination]) base [] ''push image'') in
      if rt_Kind (rc_config c) = ''containerd''
      then let hostsRoot = path_join [transientRoot, ''.containerd-hosts'']
           in go w (containerdPrefix c @ [''images'', ''push''] @
                    (if is_ok (os_stat fs hostsRoot) then [''--hosts-dir'', hostsRoot] else []))
      else if rt_Kind (rc_config c) = ''podman''
      then (case podmanTLSArguments pr c fs transientRoot of
              (fs1, Inl e) \<Rightarrow> ((fs1, x), [], Some e)
            | (fs1, Inr tls) \<Rightarrow> go (fs1, x) ([''push''] @ tls))
      else go w [''push''])"

definition Destination :: "'x runtime_client \<Rightarrow> string \<Rightarrow> string \<Rightarrow> string result" where
  "Destination c repository tag =
     (if contains_any (repository @ tag) ('' @'' @ [CHR 0x09, CHR 0x0D, CHR 0x0A]) \<or> repository = [] \<or> tag = []
      then Inl (Err ''invalid repository or tag'')
      else let project = trim_cut (rt_RegistryProject (rc_config c)) [slash] in
        if project = [] \<or> contains_sub project ''..'' then Inl (Err ''registry project is invalid'')
        else Inr (rt_RegistryHost (rc_config c) @ ''/'' @ project @ ''/'' @ trim_prefix repository [slash] @ '':'' @ tag))"

subsection \<open>Only the approved binary runs\<close>

text \<open>An executor that keeps the commands it was given, in order.\<close>

definition traced :: "'x host command_executor \<Rightarrow> ('x \<times> spec list) host command_executor" where
  "traced e w sp =
     (case w of (fs, x, tr) \<Rightarrow> case e (fs, x) sp of ((fs', x'), out, res, err) \<Rightarrow> ((fs', x', tr @ [sp]), out, res, err))"

text \<open>At most one more command, which runs the configured binary as the caller's base says.\<close>

definition runs_binary :: "string \<Rightarrow> spec \<Rightarrow> spec list \<Rightarrow> ('x \<times> spec list) command_result \<Rightarrow> bool" where
  "runs_binary path base tr r \<longleftrightarrow>
     (\<exists>sps. snd (snd (fst r)) = tr @ sps \<and> length sps \<le> 1 \<and>
        (\<forall>sp\<in>set sps. sp_Path sp = path \<and> sp_Isolated sp = sp_Isolated base \<and> sp_Timeout sp = sp_Timeout base))"

lemma runs_binary_none [simp]: "runs_binary path base tr ((fs, x, tr), out, err)"
  by (simp add: runs_binary_def)

lemma runs_binary_traced:
  assumes "sp_Path sp = path" "sp_Isolated sp = sp_Isolated base" "sp_Timeout sp = sp_Timeout base"
  shows "runs_binary path base tr (case traced e (fs, x, tr) sp of (w', out, res, err) \<Rightarrow> (w', out, f err))"
proof -
  obtain fs' x' out res err where "e (fs, x) sp = ((fs', x'), out, res, err)" by (metis surj_pair)
  then show ?thesis using assms by (simp add: runs_binary_def traced_def)
qed

lemma newClient_ok:
  "newClient nt config exec v = Inr c \<Longrightarrow>
     exec = Some (rc_exec c) \<and> rc_config c = config \<and> (\<exists>f. v = Some f \<and> f (rt_Kind config) (rt_BinaryPath config) = None)"
  by (auto simp: newClient_def split: option.splits if_splits sum.splits)

lemma runWithTransient_binary:
  "rc_exec c = traced e \<Longrightarrow> runs_binary (rt_BinaryPath (rc_config c)) base tr (runWithTransient c (fs, x, tr) ws t args base stdin a)"
  unfolding runWithTransient_def Let_def by (erule ssubst) (rule runs_binary_traced; simp)

lemma Login_binary:
  assumes "rc_exec c = traced e"
  shows "runs_binary (rt_BinaryPath (rc_config c)) base tr (Login nt pr c (fs, x, tr) ws t cred base)"
proof -
  obtain fs0 e0 where wc: "writeContainerdHosts nt pr c fs t cred = (fs0, e0)" by fastforce
  obtain fs1 tls where pt: "podmanTLSArguments pr c fs t = (fs1, tls)" by fastforce
  obtain fs2 e2 where mk: "os_mkdir_all pr fs1 (path_join [t, ''.runtime-auth'']) (octal 7 0 0) = (fs2, e2)" by fastforce
  show ?thesis
  proof (cases "(cr_Username cred = []) \<noteq> (cr_Password cred = []) \<or> rt_Kind (rc_config c) = ''containerd'' \<or>
      cr_Username cred = [] \<or> is_ok tls = False \<or> e2 \<noteq> None")
    case True
    then show ?thesis
      by (auto simp: Login_def wc pt mk is_ok_def split: sum.split option.split if_split)
  next
    case False
    then obtain args where "tls = Inr args" by (auto simp: is_ok_def split: sum.splits)
    with False show ?thesis
      by (simp add: Login_def pt mk assms Let_def) (intro impI runs_binary_traced; simp)
  qed
qed

lemma Push_binary:
  assumes "rc_exec c = traced e"
  shows "runs_binary (rt_BinaryPath (rc_config c)) base tr (client_Push pr c (fs, x, tr) ws t d base)"
proof -
  obtain fs1 tls where pt: "podmanTLSArguments pr c fs t = (fs1, tls)" by fastforce
  show ?thesis
    by (auto simp: client_Push_def pt Let_def intro: runWithTransient_binary [OF assms] split: sum.split)
qed

lemmas client_binary = Login_binary Push_binary runWithTransient_binary

text \<open>
  A runtime client exists only when the configured binary has
  a well known name in a fixed system directory and is an executable regular file that only root can
  change, in a directory that only root can change; and every operation of the client runs that binary
  and nothing else, at most once, with the isolation and the time limit of the caller.
\<close>

theorem runtime_runs_only_the_trusted_binary:
  assumes "runtime_New nt fs0 config (Some (traced e)) = Inr c"
  shows "path_dir (rt_BinaryPath config) \<in> set runtimeBinaryDirectories \<and>
    map_of runtimeBinaryNames (rt_Kind config) = Some (path_base (rt_BinaryPath config)) \<and>
    (\<exists>info dir. os_stat fs0 (rt_BinaryPath config) = Inr info \<and> is_regular info \<and> uid info = 0 \<and>
       perm info AND octal 0 2 2 = 0 \<and> perm info AND octal 1 1 1 \<noteq> 0 \<and>
       os_stat fs0 (path_dir (rt_BinaryPath config)) = Inr dir \<and> is_dir dir \<and> uid dir = 0 \<and> perm dir AND octal 0 2 2 = 0) \<and>
    runs_binary (rt_BinaryPath config) base tr (Login nt pr c (fs, x, tr) ws t cred base) \<and>
    runs_binary (rt_BinaryPath config) base tr (client_Load c (fs, x, tr) ws img base) \<and>
    runs_binary (rt_BinaryPath config) base tr (client_Tag c (fs, x, tr) ws src dst base) \<and>
    runs_binary (rt_BinaryPath config) base tr (client_Push pr c (fs, x, tr) ws t dst base)"
proof -
  have c: "rc_exec c = traced e" "rc_config c = config"
    and v: "validateRuntimeBinary fs0 (rt_Kind config) (rt_BinaryPath config) = None"
    using newClient_ok [OF assms [unfolded runtime_New_def]] by auto
  let ?p = "rt_BinaryPath config"
  have path: "validateRuntimeBinaryPath (rt_Kind config) ?p = None"
    using v by (auto simp: validateRuntimeBinary_def split: option.splits)
  then have "path_dir ?p \<in> set runtimeBinaryDirectories" "map_of runtimeBinaryNames (rt_Kind config) = Some (path_base ?p)"
    by (auto simp: validateRuntimeBinaryPath_def split: option.splits if_splits)
  moreover from v obtain dir where dir: "os_stat fs0 (path_dir ?p) = Inr dir" "validateRootOwnedMode dir True False = None"
    by (auto simp: validateRuntimeBinary_def split: option.splits sum.splits)
  moreover from v obtain info where info: "os_stat fs0 ?p = Inr info" "validateRootOwnedMode info False True = None"
    by (auto simp: validateRuntimeBinary_def split: option.splits sum.splits if_splits)
  ultimately show ?thesis
    using client_binary [OF c(1), unfolded c(2)]
    by (auto simp: validateRootOwnedMode_def validateRootOwner_def client_Load_def client_Tag_def client_run_def c(2))
qed

text \<open>A host with docker in place, and a push to it.\<close>

definition root_inode :: "node_kind \<Rightarrow> inode" where
  "root_inode k = \<lparr>kind = k, perm = octal 7 5 5, setgid = False, sticky = False, uid = 0, gid = 0\<rparr>"

definition docker_host :: fs where
  "docker_host = [([], root_inode Directory), ([''usr''], root_inode Directory), ([''usr'', ''bin''], root_inode Directory),
     ([''usr'', ''bin'', ''docker''], root_inode (Regular []))]"

definition docker_config :: runtime_config where
  "docker_config = \<lparr>rt_Kind = ''docker'', rt_BinaryPath = ''/usr/bin/docker'', rt_Namespace = [], rt_RegistryURL = ''https://r'',
     rt_RegistryHost = ''r'', rt_RegistryProject = ''p'', rt_RegistryInsecure = False, rt_RegistryCAPEM = [],
     rt_CredentialAAD = [], rt_CredentialCiphertext = []\<rparr>"

definition plain_net :: net_tools where
  "plain_net = \<lparr>nt_parse = (\<lambda>s. Inr \<lparr>u_Scheme = [], u_Host = drop 2 s, u_Hostname = drop 2 s, u_HasUser = False, u_Path = [],
       u_Fragment = [], u_Query = []\<rparr>), nt_render = u_Host, nt_certificates = (\<lambda>_. False), nt_quote = id\<rparr>"

definition quiet_exec :: "nat host command_executor" where
  "quiet_exec w sp = (w, [], \<lparr>er_ExitCode = 0, er_Duration = 0\<rparr>, None)"

definition base_spec :: spec where
  "base_spec = \<lparr>sp_Path = [], sp_Args = [], sp_Dir = [], sp_Env = [], sp_Stdin = [], sp_Timeout = 9, sp_Isolated = False\<rparr>"

theorem runtime_runs_only_the_trusted_binary_witness:
  "\<exists>c. runtime_New plain_net docker_host docker_config (Some (traced quiet_exec)) = Inr c \<and>
     runs_binary ''/usr/bin/docker'' base_spec [] (client_Push \<lparr>proc_uid = 0, proc_gid = 0\<rparr> c (docker_host, 0, []) ''/w'' ''/t'' ''r/p/a:1'' base_spec) \<and>
     length (snd (snd (fst (client_Push \<lparr>proc_uid = 0, proc_gid = 0\<rparr> c (docker_host, 0, []) ''/w'' ''/t'' ''r/p/a:1'' base_spec)))) = 1"
proof -
  let ?c = "\<lparr>rc_config = docker_config, rc_exec = traced quiet_exec\<rparr>"
  have "validateRuntimeBinary docker_host (rt_Kind docker_config) (rt_BinaryPath docker_config) = None" by code_simp
  moreover have "registryHost plain_net (rt_RegistryHost docker_config) = Inr ''r''" by code_simp
  ultimately have c: "runtime_New plain_net docker_host docker_config (Some (traced quiet_exec)) = Inr ?c"
    by (simp add: runtime_New_def newClient_def) (simp add: docker_config_def)
  have "length (snd (snd (fst (client_Push \<lparr>proc_uid = 0, proc_gid = 0\<rparr> ?c (docker_host, 0, []) ''/w'' ''/t'' ''r/p/a:1'' base_spec)))) = 1"
    by (simp add: client_Push_def docker_config_def Let_def runWithTransient_def traced_def quiet_exec_def)
  with runtime_runs_only_the_trusted_binary [OF c, of base_spec "[]"] c show ?thesis
    by (intro exI [of _ ?c]) (simp add: docker_config_def)
qed

end
