(* ===== verification/Registry.thy ===== *)
theory Registry
  imports Runtime_Client
begin

text \<open>
  File \<open>registry.go\<close> of package \<open>runtime\<close>: the digest of an image from the registry, with the exchange
  of a bearer token. An HTTP client with its TLS settings and time limit is an argument \<open>http\<close> on the
  outside world \<open>'x\<close>; decoding of the JSON token is \<open>decode\<close>.
\<close>

record http_request =
  hq_Method :: string
  hq_URL :: string
  hq_Accept :: string
  hq_Bearer :: "string option"
  hq_Basic :: "credential option"

record http_response =
  hp_Status :: int
  hp_Header :: "string \<Rightarrow> string"
  hp_Body :: bytes

type_synonym 'x http = "'x \<Rightarrow> http_request \<Rightarrow> 'x \<times> http_response result"

text \<open>The token payload: fields \<open>token\<close> and \<open>access_token\<close>.\<close>

record 'x registry_client =
  rg_baseURL :: url
  rg_http :: "'x http"
  rg_credential :: credential
  rg_decode :: "bytes \<Rightarrow> (string \<times> string) result"

definition NewRegistryClient ::
  "net_tools \<Rightarrow> (string \<Rightarrow> bool \<Rightarrow> int \<Rightarrow> 'x http) \<Rightarrow> (bytes \<Rightarrow> (string \<times> string) result) \<Rightarrow>
   string \<Rightarrow> string \<Rightarrow> bool \<Rightarrow> credential \<Rightarrow> int \<Rightarrow> 'x registry_client result" where
  "NewRegistryClient nt transport decode endpoint caPEM insecure cred timeout =
     (case nt_parse nt endpoint of
        Inl _ \<Rightarrow> Inl (Err ''registry_url must be an absolute HTTP(S) URL without user info'')
      | Inr baseURL \<Rightarrow>
          if (u_Scheme baseURL \<noteq> ''http'' \<and> u_Scheme baseURL \<noteq> ''https'') \<or> u_Host baseURL = [] \<or> u_HasUser baseURL
          then Inl (Err ''registry_url must be an absolute HTTP(S) URL without user info'')
          else if timeout \<le> 0 then Inl (Err ''registry timeout must be positive'')
          else if caPEM \<noteq> [] \<and> \<not> nt_certificates nt caPEM then Inl (Err ''registry CA PEM contains no certificates'')
          else Inr \<lparr>rg_baseURL = baseURL, rg_http = transport caPEM insecure timeout, rg_credential = cred, rg_decode = decode\<rparr>)"

text \<open>\<open>url.PathEscape\<close>.\<close>

definition path_unescaped :: "char \<Rightarrow> bool" where
  "path_unescaped c \<longleftrightarrow> is_lower c \<or> is_upper c \<or> is_digit c \<or> c \<in> set ''-_.~$&+=:@''"

definition upper_hex :: "nat \<Rightarrow> char" where "upper_hex n = ''0123456789ABCDEF'' ! n"

definition path_escape :: "string \<Rightarrow> string" where
  "path_escape s = concat (map (\<lambda>c. if path_unescaped c then [c]
     else [CHR ''%'', upper_hex (of_char c div 16), upper_hex (of_char c mod 16)]) s)"

definition digestRequest :: "'x registry_client \<Rightarrow> string \<Rightarrow> string \<Rightarrow> http_request" where
  "digestRequest c endpoint bearerToken =
     \<lparr>hq_Method = ''HEAD'', hq_URL = endpoint,
      hq_Accept = join_with '', '' [''application/vnd.oci.image.manifest.v1+json'',
        ''application/vnd.docker.distribution.manifest.v2+json'',
        ''application/vnd.docker.distribution.manifest.list.v2+json''],
      hq_Bearer = (if bearerToken \<noteq> [] then Some bearerToken else None),
      hq_Basic = (if bearerToken = [] \<and> cr_Username (rg_credential c) \<noteq> [] then Some (rg_credential c) else None)\<rparr>"

subsection \<open>The bearer challenge\<close>

text \<open>The quoted value: the text up to the closing quote, and what follows it.\<close>

fun quoted_value :: "string \<Rightarrow> string \<Rightarrow> (string \<times> string) option" where
  "quoted_value acc [] = None"
| "quoted_value acc [c] = (if c = CHR 0x22 then Some (acc, []) else None)"
| "quoted_value acc (c # d # cs) =
     (if c = CHR 0x5C then quoted_value (acc @ [d]) cs
      else if c = CHR 0x22 then Some (acc, d # cs)
      else quoted_value (acc @ [c]) (d # cs))"

lemma quoted_value_shorter: "quoted_value acc s = Some (v, rest) \<Longrightarrow> length rest < length s"
  by (induction acc s rule: quoted_value.induct) (auto split: if_splits)

definition parse_value :: "string \<Rightarrow> (string \<times> string) result" where
  "parse_value input =
     (if hd input = CHR 0x22
      then (case quoted_value [] (tl input) of
              None \<Rightarrow> Inl (Err ''registry Bearer challenge has an unterminated value'')
            | Some (v, rest) \<Rightarrow> Inr (v, rest))
      else (case index_byte input (CHR '','') of
              None \<Rightarrow> Inr (trim_space input, [])
            | Some i \<Rightarrow> Inr (trim_space (take i input), drop (Suc i) input)))"

definition challenge_cut :: string where "challenge_cut = '' ,'' @ [CHR 0x09]"

lemma parse_value_shorter: "input \<noteq> [] \<Longrightarrow> parse_value input = Inr (v, rest) \<Longrightarrow> length rest < length input"
  by (cases input) (auto simp: parse_value_def split: if_splits option.splits dest: quoted_value_shorter)

lemma length_trim_left_cut: "length (trim_left_cut s cs) \<le> length s"
  by (simp add: trim_left_cut_def length_dropWhile_le)

function challenge_loop :: "(string \<times> string) list \<Rightarrow> string \<Rightarrow> (string \<times> string) list result" where
  "challenge_loop parameters input0 =
     (let input = trim_left_cut input0 challenge_cut in
      if input = [] then Inr parameters
      else case index_byte input (CHR ''='') of
        None \<Rightarrow> Inl (Err ''registry Bearer challenge is malformed'')
      | Some equals \<Rightarrow>
          if equals = 0 then Inl (Err ''registry Bearer challenge is malformed'')
          else let key = to_lower (trim_space (take equals input)); rest = trim_space (drop (Suc equals) input) in
            if key = [] \<or> rest = [] then Inl (Err ''registry Bearer challenge is malformed'')
            else case parse_value rest of
              Inl e \<Rightarrow> Inl e
            | Inr (v, rest') \<Rightarrow> challenge_loop (AList.update key v parameters) rest')"
  by pat_completeness auto
termination
proof (relation "measure (\<lambda>(parameters, input). length input)", goal_cases)
  case (2 parameters input0 input equals key rest x2 v rest')
  have "length rest' < length rest" using 2 parse_value_shorter by auto
  also have "\<dots> \<le> length (drop (Suc equals) input)" using 2 length_trim_space [of "drop (Suc equals) input"] by simp
  also have "\<dots> \<le> length input0" using 2 length_trim_left_cut [of input0 challenge_cut] by simp
  finally show ?case by simp
qed simp

declare challenge_loop.simps [simp del]

definition parseBearerChallenge :: "string \<Rightarrow> (string \<times> string) list result" where
  "parseBearerChallenge value0 =
     (let v = trim_space value0 in
      case index_where (\<lambda>c. c = CHR '' '' \<or> c = CHR 0x09) v of
        None \<Rightarrow> Inl (Err ''registry did not return a Bearer authentication challenge'')
      | Some space \<Rightarrow>
          if \<not> equal_fold (take space v) ''Bearer''
          then Inl (Err ''registry did not return a Bearer authentication challenge'')
          else case challenge_loop [] (trim_space (drop (Suc space) v)) of
            Inl e \<Rightarrow> Inl e
          | Inr parameters \<Rightarrow>
              if env_get parameters ''realm'' = [] then Inl (Err ''registry Bearer challenge has no realm'')
              else Inr parameters)"

definition token_request :: "net_tools \<Rightarrow> 'x registry_client \<Rightarrow> (string \<times> string) list \<Rightarrow> url \<Rightarrow> http_request" where
  "token_request nt c parameters realm =
     (let set_if = (\<lambda>k q. if env_get parameters k \<noteq> [] then AList.update k (env_get parameters k) q else q)
      in \<lparr>hq_Method = ''GET'', hq_URL = nt_render nt (realm\<lparr>u_Query := set_if ''scope'' (set_if ''service'' (u_Query realm))\<rparr>),
          hq_Accept = ''application/json'', hq_Bearer = None,
          hq_Basic = (if cr_Username (rg_credential c) \<noteq> [] then Some (rg_credential c) else None)\<rparr>)"

definition token_response :: "'x registry_client \<Rightarrow> http_response \<Rightarrow> string result" where
  "token_response c resp =
     (if hp_Status resp < 200 \<or> hp_Status resp \<ge> 300 then Inl (Err ''registry token request: HTTP status'')
      else case rg_decode c (hp_Body resp) of
        Inl e \<Rightarrow> Inl (Wrap ''decode registry token'' e)
      | Inr (tok, access) \<Rightarrow>
          let token = (if tok = [] then access else tok) in
          if token = [] \<or> int (length token) > 64 * 1024 \<or> contains_any token [CHR 0x0D, CHR 0x0A]
          then Inl (Err ''registry token response is invalid'') else Inr token)"

definition realm_error :: "url \<Rightarrow> url \<Rightarrow> error option" where
  "realm_error base realm =
     (if (u_Scheme realm \<noteq> ''http'' \<and> u_Scheme realm \<noteq> ''https'') \<or> u_Host realm = [] \<or> u_HasUser realm \<or> u_Fragment realm \<noteq> []
      then Some (Err ''registry Bearer challenge contains an invalid realm'')
      else guard (u_Scheme base = ''https'' \<and> u_Scheme realm \<noteq> ''https'') ''registry Bearer realm cannot downgrade HTTPS'')"

definition exchangeBearerToken :: "net_tools \<Rightarrow> 'x registry_client \<Rightarrow> 'x \<Rightarrow> string \<Rightarrow> 'x \<times> string result" where
  "exchangeBearerToken nt c x challenge =
     (case parseBearerChallenge challenge of
        Inl e \<Rightarrow> (x, Inl e)
      | Inr parameters \<Rightarrow>
          (case nt_parse nt (env_get parameters ''realm'') of
             Inl _ \<Rightarrow> (x, Inl (Err ''registry Bearer challenge contains an invalid realm''))
           | Inr realm \<Rightarrow>
               (case realm_error (rg_baseURL c) realm of
                  Some e \<Rightarrow> (x, Inl e)
                | None \<Rightarrow>
                    (case rg_http c x (token_request nt c parameters realm) of
                       (x', Inl e) \<Rightarrow> (x', Inl (Wrap ''registry token request'' e))
                     | (x', Inr resp) \<Rightarrow> (x', token_response c resp)))))"

subsection \<open>The digest\<close>

definition valid_digest :: "string \<Rightarrow> bool" where
  "valid_digest digest \<longleftrightarrow>
     has_prefix digest ''sha256:'' \<and> length (trim_prefix digest ''sha256:'') = 64 \<and>
     is_ok (hex_decode (trim_prefix digest ''sha256:''))"

definition digest_response :: "http_response \<Rightarrow> string result" where
  "digest_response resp =
     (if hp_Status resp < 200 \<or> hp_Status resp \<ge> 300 then Inl (Err ''query registry digest: HTTP status'')
      else let digest = trim_space (hp_Header resp ''Docker-Content-Digest'') in
        if \<not> valid_digest digest then Inl (Err ''registry returned invalid Docker-Content-Digest'') else Inr digest)"

definition Digest :: "net_tools \<Rightarrow> 'x registry_client \<Rightarrow> 'x \<Rightarrow> string \<Rightarrow> string \<Rightarrow> 'x \<times> string result" where
  "Digest nt c x repository tag =
     (let segments = split_char slash (trim_cut repository [slash]) in
      if tag = [] then (x, Inl (Err ''repository and tag are required''))
      else if \<exists>s\<in>set segments. s = [] \<or> s = dot \<or> s = dotdot then (x, Inl (Err ''invalid registry repository''))
      else let requestURL = nt_render nt ((rg_baseURL c)\<lparr>u_Path := trim_right_cut (u_Path (rg_baseURL c)) [slash] @ ''/v2/'' @
                 join_with ''/'' (map path_escape segments) @ ''/manifests/'' @ path_escape tag\<rparr>)
           in case rg_http c x (digestRequest c requestURL []) of
                (x1, Inl e) \<Rightarrow> (x1, Inl (Wrap ''query registry digest'' e))
              | (x1, Inr resp) \<Rightarrow>
                  if hp_Status resp = 401
                  then (case exchangeBearerToken nt c x1 (hp_Header resp ''WWW-Authenticate'') of
                          (x2, Inl e) \<Rightarrow> (x2, Inl (Wrap ''query registry digest'' e))
                        | (x2, Inr token) \<Rightarrow>
                            (case rg_http c x2 (digestRequest c requestURL token) of
                               (x3, Inl e) \<Rightarrow> (x3, Inl (Wrap ''query registry digest with bearer token'' e))
                             | (x3, Inr resp') \<Rightarrow> (x3, digest_response resp')))
                  else (x1, digest_response resp))"

subsection \<open>Where credentials go\<close>

text \<open>An HTTP client that keeps the requests it was given, in order.\<close>

definition traced_http :: "'x http \<Rightarrow> ('x \<times> http_request list) http" where
  "traced_http http w r = (case w of (x, tr) \<Rightarrow> case http x r of (x', resp) \<Rightarrow> ((x', tr @ [r]), resp))"

text \<open>A request to a URL whose scheme is no weaker than that of the registry.\<close>

definition safe_request :: "net_tools \<Rightarrow> url \<Rightarrow> http_request \<Rightarrow> bool" where
  "safe_request nt base r \<longleftrightarrow>
     (\<exists>u. hq_URL r = nt_render nt u \<and> (u_Scheme base = ''https'' \<longrightarrow> u_Scheme u = ''https''))"

lemma digest_response_valid: "digest_response resp = Inr d \<Longrightarrow> valid_digest d"
  by (auto simp: digest_response_def Let_def split: if_splits)

lemma safe_requestI:
  "hq_URL r = nt_render nt u \<Longrightarrow> (u_Scheme base = ''https'' \<longrightarrow> u_Scheme u = ''https'') \<Longrightarrow> safe_request nt base r"
  by (auto simp: safe_request_def)

lemma exchange_traced:
  assumes "rg_http c = traced_http http" "exchangeBearerToken nt c (x, tr) ch = ((x', tr'), res)"
  shows "\<exists>rs. tr' = tr @ rs \<and> length rs \<le> 1 \<and> (\<forall>r\<in>set rs. safe_request nt (rg_baseURL c) r \<and> hq_Bearer r = None)"
proof (cases "parseBearerChallenge ch")
  case (Inl e)
  then show ?thesis using assms(2) by (simp add: exchangeBearerToken_def)
next
  case ps: (Inr ps)
  show ?thesis
  proof (cases "nt_parse nt (env_get ps ''realm'')")
    case (Inl e)
    then show ?thesis using assms(2) ps by (simp add: exchangeBearerToken_def)
  next
    case realm: (Inr realm)
    show ?thesis
    proof (cases "realm_error (rg_baseURL c) realm")
      case (Some e)
      then show ?thesis using assms(2) ps realm by (simp add: exchangeBearerToken_def)
    next
      case None
      let ?req = "token_request nt c ps realm"
      have "tr' = tr @ [?req]"
        using assms(2) ps realm None
        by (auto simp: exchangeBearerToken_def assms(1) traced_http_def split: sum.splits prod.splits)
      moreover have "safe_request nt (rg_baseURL c) ?req \<and> hq_Bearer ?req = None"
        using None by (auto simp: token_request_def Let_def realm_error_def intro!: safe_requestI split: if_splits)
      ultimately show ?thesis by (intro exI [of _ "[?req]"]) simp
    qed
  qed
qed


subsection \<open>A registry behind a token server\<close>

definition demo_url :: "string \<Rightarrow> string \<Rightarrow> url" where
  "demo_url scheme host = \<lparr>u_Scheme = scheme, u_Host = host, u_Hostname = host, u_HasUser = False, u_Path = [], u_Fragment = [], u_Query = []\<rparr>"

definition demo_net :: net_tools where
  "demo_net = \<lparr>nt_parse = (\<lambda>s. if has_prefix s ''https://'' then Inr (demo_url ''https'' (drop 8 s))
                 else if has_prefix s ''http://'' then Inr (demo_url ''http'' (drop 7 s))
                 else if has_prefix s ''//'' then Inr (demo_url [] (drop 2 s)) else Inl (Err ''parse'')),
     nt_render = (\<lambda>u. u_Scheme u @ ''://'' @ u_Host u @ u_Path u),
     nt_certificates = (\<lambda>_. True), nt_quote = (\<lambda>s. [CHR 0x22] @ s @ [CHR 0x22])\<rparr>"

definition demo_digest :: string where "demo_digest = ''sha256:'' @ replicate 64 (CHR ''a'')"

definition demo_challenge :: string where
  "demo_challenge = ''Bearer realm='' @ [CHR 0x22] @ ''https://auth/token'' @ [CHR 0x22] @ '',service=reg''"

definition demo_http :: "nat http" where
  "demo_http n r = (Suc n, Inr
     (if hq_Method r = ''GET'' then \<lparr>hp_Status = 200, hp_Header = (\<lambda>_. []), hp_Body = ''tok''\<rparr>
      else if hq_Bearer r = Some ''tok'' then \<lparr>hp_Status = 200, hp_Header = (\<lambda>_. demo_digest), hp_Body = []\<rparr>
      else \<lparr>hp_Status = 401, hp_Header = (\<lambda>_. demo_challenge), hp_Body = []\<rparr>))"

definition demo_registry :: "(nat \<times> http_request list) registry_client" where
  "demo_registry = \<lparr>rg_baseURL = demo_url ''https'' ''reg'', rg_http = traced_http demo_http,
     rg_credential = \<lparr>cr_Username = ''u'', cr_Password = ''p''\<rparr>, rg_decode = (\<lambda>b. Inr (b, []))\<rparr>"


end
