(* ===== verification/Health.thy ===== *)
theory Health
  imports Model Go_Strings
begin

text \<open>
  Package \<open>runner/internal/health\<close>: HTTP and TCP checks of a deployed service with a bounded number of
  attempts. The network is an argument on the outside world \<open>'x\<close>: a request yields a status and a body
  (which may fail to be read), a TCP connection opens or not. Waiting between two attempts may end with
  the error of a cancelled context.
\<close>

definition maxHealthBodyBytes :: int where "maxHealthBodyBytes = 1024 * 1024"

record health_request =
  hr_Method :: string
  hr_Address :: string
  hr_Headers :: "(string \<times> string) list"
  hr_Insecure :: bool
  hr_CAPEM :: string
  hr_Timeout :: int

record 'x network =
  net_http :: "'x \<Rightarrow> health_request \<Rightarrow> 'x \<times> (int \<times> bytes result) result"
  net_tcp :: "'x \<Rightarrow> string \<Rightarrow> int \<Rightarrow> 'x \<times> error option"
  net_wait :: "'x \<Rightarrow> int \<Rightarrow> 'x \<times> error option"
  net_certificates :: "string \<Rightarrow> bool"

definition validHeader :: "string \<Rightarrow> string \<Rightarrow> bool" where
  "validHeader key value \<longleftrightarrow>
     \<not> (key = [] \<or> contains_any key ([CHR 0x0D, CHR 0x0A] @ '':'') \<or> contains_any value [CHR 0x0D, CHR 0x0A])"

definition http_method :: "health_check \<Rightarrow> string" where
  "http_method check = (let m = to_upper (hc_Method check) in if m = [] then ''GET'' else m)"

definition health_validate :: "health_check \<Rightarrow> error option" where
  "health_validate check =
     (let knd = to_lower (hc_Type check) in
      if knd \<noteq> ''http'' \<and> knd \<noteq> ''https'' \<and> knd \<noteq> ''tcp'' then Some (Err ''unsupported health check type'')
      else if hc_Address check = [] then Some (Err ''health check address is required'')
      else if hc_TimeoutSeconds check \<le> 0 \<or> hc_Attempts check \<le> 0 \<or> hc_IntervalSeconds check < 0
      then Some (Err ''health timeout/attempts must be positive and interval non-negative'')
      else if knd = ''tcp'' then None
      else if http_method check \<noteq> ''GET'' \<and> http_method check \<noteq> ''HEAD''
      then Some (Err ''HTTP health check method must be GET or HEAD'')
      else if hc_ExpectedStatusMin check < 100 \<or> hc_ExpectedStatusMax check > 599 \<or>
              hc_ExpectedStatusMin check > hc_ExpectedStatusMax check
      then Some (Err ''invalid expected HTTP status range'')
      else guard (\<exists>(k, v)\<in>set (hc_Headers check). \<not> validHeader k v) ''invalid HTTP header'')"

definition checkHTTP :: "'x network \<Rightarrow> 'x \<Rightarrow> health_check \<Rightarrow> 'x \<times> error option" where
  "checkHTTP net x check =
     (if hc_CAPEM check \<noteq> [] \<and> \<not> net_certificates net (hc_CAPEM check)
      then (x, Some (Err ''health check CA PEM contains no certificates''))
      else case net_http net x \<lparr>hr_Method = http_method check, hr_Address = hc_Address check, hr_Headers = hc_Headers check,
               hr_Insecure = hc_InsecureSkipVerify check, hr_CAPEM = hc_CAPEM check, hr_Timeout = hc_TimeoutSeconds check\<rparr> of
        (x', Inl e) \<Rightarrow> (x', Some (Wrap ''HTTP request'' e))
      | (x', Inr (status, body)) \<Rightarrow>
          (x', if status < hc_ExpectedStatusMin check \<or> status > hc_ExpectedStatusMax check
               then Some (Err ''HTTP status outside expected range'')
               else if hc_ExpectedBody check = [] then None
               else case body of
                 Inl e \<Rightarrow> Some (Wrap ''read HTTP body'' e)
               | Inr text \<Rightarrow>
                   if int (length text) > maxHealthBodyBytes then Some (Err ''HTTP health response exceeds 1 MiB'')
                   else guard (\<not> contains_sub text (hc_ExpectedBody check)) ''HTTP response does not contain expected text''))"

definition checkTCP :: "'x network \<Rightarrow> 'x \<Rightarrow> health_check \<Rightarrow> 'x \<times> error option" where
  "checkTCP net x check =
     (case net_tcp net x (hc_Address check) (hc_TimeoutSeconds check) of
        (x', Some e) \<Rightarrow> (x', Some (Wrap ''TCP connect'' e))
      | (x', None) \<Rightarrow> (x', None))"

text \<open>One attempt; a type that is neither leaves the error of the attempt before.\<close>

definition probe :: "'x network \<Rightarrow> 'x \<Rightarrow> health_check \<Rightarrow> error option \<Rightarrow> 'x \<times> error option" where
  "probe net x check lastErr =
     (let knd = to_lower (hc_Type check) in
      if knd = ''http'' \<or> knd = ''https'' then checkHTTP net x check
      else if knd = ''tcp'' then checkTCP net x check
      else (x, lastErr))"

function check_loop :: "'x network \<Rightarrow> health_check \<Rightarrow> int \<Rightarrow> error option \<Rightarrow> 'x \<Rightarrow> 'x \<times> error option" where
  "check_loop net check attempt lastErr x =
     (if attempt \<le> hc_Attempts check
      then case probe net x check lastErr of
             (x1, None) \<Rightarrow> (x1, None)
           | (x1, Some e) \<Rightarrow>
               if attempt = hc_Attempts check then (x1, Some (Wrap ''health check failed'' e))
               else (case net_wait net x1 (hc_IntervalSeconds check) of
                       (x2, Some cancelled) \<Rightarrow> (x2, Some cancelled)
                     | (x2, None) \<Rightarrow> check_loop net check (attempt + 1) (Some e) x2)
      else (x, map_option (Wrap ''health check failed'') lastErr))"
  by pat_completeness auto
termination
  by (relation "measure (\<lambda>(net, check, attempt, lastErr, x). nat (hc_Attempts check - attempt + 1))") auto

declare check_loop.simps [simp del]

definition Check :: "'x network \<Rightarrow> health_check \<Rightarrow> 'x \<Rightarrow> 'x \<times> error option" where
  "Check net check x =
     (case health_validate check of
        Some e \<Rightarrow> (x, Some e)
      | None \<Rightarrow> check_loop net check 1 None x)"

subsection \<open>When a check passes\<close>

text \<open>A validated check has a type that is probed, so the error of the last attempt does not matter.\<close>

lemma probe_fresh: "health_validate check = None \<Longrightarrow> probe net x check lastErr = probe net x check None"
  by (auto simp: health_validate_def probe_def Let_def split: if_splits)

text \<open>The world before attempt \<open>k\<close>, counted from zero, when the attempts before it failed.\<close>

fun before_attempt :: "'x network \<Rightarrow> health_check \<Rightarrow> 'x \<Rightarrow> nat \<Rightarrow> 'x" where
  "before_attempt net check x 0 = x"
| "before_attempt net check x (Suc k) =
     fst (net_wait net (fst (probe net (before_attempt net check x k) check None)) (hc_IntervalSeconds check))"

lemma before_attempt_shift:
  "before_attempt net check x (Suc k) =
     before_attempt net check (fst (net_wait net (fst (probe net x check None)) (hc_IntervalSeconds check))) k"
  by (induction k) simp_all

lemma check_loop_passes:
  assumes "health_validate check = None" "\<And>y. snd (net_wait net y (hc_IntervalSeconds check)) = None"
    and "attempt \<le> hc_Attempts check"
  shows "snd (check_loop net check attempt lastErr x) = None \<longleftrightarrow>
    (\<exists>k. int k \<le> hc_Attempts check - attempt \<and> snd (probe net (before_attempt net check x k) check None) = None)"
  using assms(3)
proof (induction "nat (hc_Attempts check - attempt)" arbitrary: attempt lastErr x)
  case 0
  then have last: "attempt = hc_Attempts check" by simp
  obtain x1 r where p: "probe net x check None = (x1, r)" by fastforce
  show ?case unfolding check_loop.simps [of net check attempt] using last p
    by (cases r) (auto simp: probe_fresh [OF assms(1), of net x lastErr])
next
  case (Suc n)
  obtain x1 r where p: "probe net x check None = (x1, r)" by fastforce
  obtain x2 where w: "net_wait net x1 (hc_IntervalSeconds check) = (x2, None)"
    using assms(2) [of x1] by (metis prod.collapse)
  have more: "attempt < hc_Attempts check" using Suc.hyps(2) by simp
  show ?case
  proof (cases r)
    case None
    then show ?thesis unfolding check_loop.simps [of net check attempt] using more p
      by (auto simp: probe_fresh [OF assms(1), of net x lastErr] intro!: exI [of _ 0])
  next
    case (Some e)
    have step: "snd (check_loop net check attempt lastErr x) = snd (check_loop net check (attempt + 1) (Some e) x2)"
      unfolding check_loop.simps [of net check attempt] using more p Some w
      by (simp add: probe_fresh [OF assms(1), of net x lastErr])
    have ih: "snd (check_loop net check (attempt + 1) (Some e) x2) = None \<longleftrightarrow>
        (\<exists>k. int k \<le> hc_Attempts check - (attempt + 1) \<and> snd (probe net (before_attempt net check x2 k) check None) = None)"
      using Suc.hyps(1) [of "attempt + 1" "Some e" x2] Suc.hyps(2) more by auto
    have shift: "before_attempt net check x (Suc k) = before_attempt net check x2 k" for k
      using before_attempt_shift [of net check x k] p w by simp
    show ?thesis
    proof
      assume "snd (check_loop net check attempt lastErr x) = None"
      then obtain k where "int k \<le> hc_Attempts check - (attempt + 1)" "snd (probe net (before_attempt net check x2 k) check None) = None"
        using step ih by auto
      then show "\<exists>k. int k \<le> hc_Attempts check - attempt \<and> snd (probe net (before_attempt net check x k) check None) = None"
        using shift [of k] by (intro exI [of _ "Suc k"]) simp
    next
      assume "\<exists>k. int k \<le> hc_Attempts check - attempt \<and> snd (probe net (before_attempt net check x k) check None) = None"
      then obtain k where k: "int k \<le> hc_Attempts check - attempt" "snd (probe net (before_attempt net check x k) check None) = None"
        by blast
      have "k \<noteq> 0" using k(2) p Some by (cases k) auto
      then obtain j where j: "k = Suc j" by (cases k) auto
      have "int j \<le> hc_Attempts check - (attempt + 1)" "snd (probe net (before_attempt net check x2 j) check None) = None"
        using k shift [of j] j by simp_all
      then have "snd (check_loop net check (attempt + 1) (Some e) x2) = None" using ih by blast
      then show "snd (check_loop net check attempt lastErr x) = None" using step by simp
    qed
  qed
qed

text \<open>
  C33 (health_check_passes): a health check always ends. When its configuration is valid and the
  context is not cancelled, it passes exactly when one of the configured number of attempts succeeds: a
  service that becomes healthy before the last attempt passes, and one that does not, fails.
\<close>

theorem health_check_passes:
  assumes "health_validate check = None" "\<And>y. snd (net_wait net y (hc_IntervalSeconds check)) = None"
  shows "snd (Check net check x) = None \<longleftrightarrow>
    (\<exists>k. int k < hc_Attempts check \<and> snd (probe net (before_attempt net check x k) check None) = None)"
proof -
  have "1 \<le> hc_Attempts check" using assms(1) by (auto simp: health_validate_def Let_def split: if_splits)
  then show ?thesis using check_loop_passes [OF assms, of 1 None x]
    by (auto simp: Check_def assms(1))
qed

text \<open>A service that answers from the third request on.\<close>

definition slow_service :: "nat network" where
  "slow_service = \<lparr>net_http = (\<lambda>n r. (Suc n, if n < 2 then Inl (Err ''connection refused'') else Inr (200, Inr ''ok''))),
     net_tcp = (\<lambda>n a t. (n, None)), net_wait = (\<lambda>n s. (n, None)), net_certificates = (\<lambda>_. False)\<rparr>"

definition demo_check :: "int \<Rightarrow> health_check" where
  "demo_check attempts = \<lparr>hc_Type = ''HTTP'', hc_Address = ''http://a'', hc_Method = ''get'', hc_Headers = [],
     hc_ExpectedStatusMin = 200, hc_ExpectedStatusMax = 299, hc_ExpectedBody = ''ok'', hc_TimeoutSeconds = 1,
     hc_Attempts = attempts, hc_IntervalSeconds = 0, hc_InsecureSkipVerify = False, hc_CAPEM = []\<rparr>"

theorem health_check_passes_witness:
  "snd (Check slow_service (demo_check 3) 0) = None \<and> snd (Check slow_service (demo_check 2) 0) \<noteq> None"
proof
  have v: "health_validate (demo_check 3) = None" by code_simp
  have w: "snd (net_wait slow_service y (hc_IntervalSeconds (demo_check 3))) = None" for y by (simp add: slow_service_def)
  have "snd (probe slow_service (before_attempt slow_service (demo_check 3) 0 2) (demo_check 3) None) = None" by code_simp
  moreover have "int 2 < hc_Attempts (demo_check 3)" by (simp add: demo_check_def)
  ultimately show "snd (Check slow_service (demo_check 3) 0) = None"
    using health_check_passes [where check = "demo_check 3" and net = slow_service, OF v w] by blast
  show "snd (Check slow_service (demo_check 2) 0) \<noteq> None" by code_simp
qed

end
