(* ===== verification/Pipeline.thy ===== *)
theory Pipeline
  imports Manifest Redact Leases Secrets Registry Health Secretbox
begin

text \<open>
  Package \<open>runner/internal/pipeline\<close>, file \<open>pipeline.go\<close>: the processing of one claimed job. The world
  holds the file system of the host, the tables of the database and the rest, on which the command
  executor, the registry and the health checks act. The operations of \<open>store.Repository\<close> are those of
  \<open>PGStore\<close>, the only implementation. Time stands still during a job (\<open>p_now\<close>); the heartbeat that runs
  beside the job is its outcome, an argument of \<open>Process\<close>; a cancelled context shows as the errors that
  the arguments return. Decoders, SHA-256, JSON encoding of metadata and the random names that
  \<open>MkdirTemp\<close> tries are fields of the processor.
\<close>

datatype meta = MText string | MNum int | MFlag bool

record 'x world =
  w_fs :: fs
  w_db :: db
  w_ext :: 'x

record 'x processor =
  p_store :: pg_store
  p_now :: int
  p_proc :: proc
  p_secretBox :: aead
  p_executor :: "'x host command_executor"
  p_checker :: "'x network"
  p_credentialRoot :: string
  p_net :: net_tools
  p_transport :: "string \<Rightarrow> bool \<Rightarrow> int \<Rightarrow> 'x http"
  p_token :: "bytes \<Rightarrow> (string \<times> string) result"
  p_gzip :: "bytes \<Rightarrow> tar_next list result"
  p_untar :: "bytes \<Rightarrow> tar_next list"
  p_yaml :: "bytes \<Rightarrow> release result"
  p_tools :: image_tools
  p_sha256 :: "bytes \<Rightarrow> bytes"
  p_credential :: "bytes \<Rightarrow> credential result"
  p_json :: "(string \<times> meta) list \<Rightarrow> string"
  p_suffixes :: "string list"

definition pipeline_New :: "'x processor option \<Rightarrow> 'x processor result" where
  "pipeline_New p =
     (case p of None \<Rightarrow> Inl (Err ''repository, secret box, and command executor are required'')
      | Some p \<Rightarrow> Inr (p\<lparr>p_credentialRoot := DefaultCredentialRoot\<rparr>))"

record 'x process_state =
  ps_job :: job
  ps_settings :: settings
  ps_workspace :: string
  ps_transient :: string
  ps_extracted :: string
  ps_artifact :: string
  ps_images :: "resolved_image list"
  ps_destinations :: "string list"
  ps_runtime :: "'x runtime_client option"
  ps_budget :: budget

text \<open>What a step works on: the world, the state of the job and the two log writers of the step.\<close>

record 'x pipe =
  pi_world :: "'x world"
  pi_state :: "'x process_state"
  pi_stdout :: writer
  pi_stderr :: writer

type_synonym 'x step_outcome = "'x pipe \<times> step_result \<times> error option"

definition no_result :: step_result where "no_result = \<lparr>ExitCode = 0, Message = [], Metadata = []\<rparr>"

definition with_metadata :: "string \<Rightarrow> step_result" where "with_metadata m = no_result\<lparr>Metadata := m\<rparr>"

abbreviation pi_job :: "'x pipe \<Rightarrow> job" where "pi_job pi \<equiv> ps_job (pi_state pi)"
abbreviation pi_profile :: "'x pipe \<Rightarrow> profile" where "pi_profile pi \<equiv> job_Profile (pi_job pi)"
abbreviation pi_fs :: "'x pipe \<Rightarrow> fs" where "pi_fs pi \<equiv> w_fs (pi_world pi)"

definition set_fs :: "fs \<Rightarrow> 'x pipe \<Rightarrow> 'x pipe" where
  "set_fs fs pi = pi\<lparr>pi_world := (pi_world pi)\<lparr>w_fs := fs\<rparr>\<rparr>"

definition set_ext :: "'x \<Rightarrow> 'x pipe \<Rightarrow> 'x pipe" where
  "set_ext x pi = pi\<lparr>pi_world := (pi_world pi)\<lparr>w_ext := x\<rparr>\<rparr>"

definition pipeline_truncate :: "string \<Rightarrow> int \<Rightarrow> string" where
  "pipeline_truncate text limit = (if int (length text) \<le> limit then text else take (nat limit) text)"

subsection \<open>Output\<close>

type_synonym log_state = "db log_stream"

definition log_of :: "out_stream \<Rightarrow> 'x pipe \<Rightarrow> log_state" where
  "log_of s pi = (ps_budget (pi_state pi), w_db (pi_world pi), case s of Stdout \<Rightarrow> pi_stdout pi | Stderr \<Rightarrow> pi_stderr pi)"

definition set_log :: "out_stream \<Rightarrow> log_state \<Rightarrow> 'x pipe \<Rightarrow> 'x pipe" where
  "set_log s l pi =
     (case l of (b, d, w) \<Rightarrow>
        let pi' = pi\<lparr>pi_world := (pi_world pi)\<lparr>w_db := d\<rparr>, pi_state := (pi_state pi)\<lparr>ps_budget := b\<rparr>\<rparr>
        in case s of Stdout \<Rightarrow> pi'\<lparr>pi_stdout := w\<rparr> | Stderr \<Rightarrow> pi'\<lparr>pi_stderr := w\<rparr>)"

definition log_write :: "'x processor \<Rightarrow> log_state io_write" where
  "log_write p = log_stream_write (AppendLog (p_now p) (p_store p))"

definition emit1 :: "'x processor \<Rightarrow> out_event \<Rightarrow> 'x pipe \<Rightarrow> 'x pipe" where
  "emit1 p ev pi = (case ev of (s, d) \<Rightarrow> set_log s (fst (log_write p (log_of s pi) d)) pi)"

definition emit :: "'x processor \<Rightarrow> out_event list \<Rightarrow> 'x pipe \<Rightarrow> 'x pipe" where
  "emit p evs pi = fold (emit1 p) evs pi"

text \<open>An operation of the runtime client; what its command writes goes to the log.\<close>

definition on_host :: "'x processor \<Rightarrow> 'x pipe \<Rightarrow> ('x host \<Rightarrow> 'x command_result) \<Rightarrow> 'x pipe \<times> error option" where
  "on_host p pi f =
     (case f (pi_fs pi, w_ext (pi_world pi)) of
        ((fs', x'), out, err) \<Rightarrow> (emit p out (set_ext x' (set_fs fs' pi)), err))"

subsection \<open>Scripts\<close>

fun hasPhase :: "script list \<Rightarrow> string \<Rightarrow> bool" where
  "hasPhase [] phase = False"
| "hasPhase (s # ss) phase = (script_Phase s = phase \<or> hasPhase ss phase)"

definition sha256Pattern :: "string \<Rightarrow> bool" where
  "sha256Pattern s \<longleftrightarrow> length s = 64 \<and> (\<forall>c\<in>set s. is_hex c)"

definition imageDigestPattern :: "string \<Rightarrow> bool" where
  "imageDigestPattern s \<longleftrightarrow> has_prefix s ''sha256:'' \<and> sha256Pattern (trim_prefix s ''sha256:'')"

definition validateApprovedScript :: "'x processor \<Rightarrow> script \<Rightarrow> error option" where
  "validateApprovedScript p s =
     (if script_ID s = [] \<or> script_Version s \<le> 0 \<or> script_ApprovedAt s = None
      then Some (Err ''script is not an approved immutable version'')
      else if \<not> is_abs (script_InterpreterPath s) then Some (Err ''approved script interpreter must be absolute'')
      else if \<not> sha256Pattern (script_SHA256 s) then Some (Err ''approved script SHA256 is invalid'')
      else if \<not> equal_fold (hex_encode (p_sha256 p (script_Content s))) (script_SHA256 s)
      then Some (Err ''approved script content does not match its SHA256'')
      else guard (\<exists>a\<in>set (script_Args s). contains_char a (CHR 0x00)) ''approved script argument contains NUL'')"

definition restrictedEnv :: "'x process_state \<Rightarrow> environment" where
  "restrictedEnv s =
     (let j = ps_job s; rb = (job_Operation j = OperationRollback) in
      [(''PATH'', CommandPath (ps_settings s)), (''HOME'', ps_workspace s), (''LANG'', ''C.UTF-8''), (''LC_ALL'', ''C.UTF-8''),
       (''RELEASEDOCK_JOB_ID'', job_ID j), (''RELEASEDOCK_RELEASE_ID'', job_ReleaseID j),
       (''RELEASEDOCK_APPLICATION'', job_Application j), (''RELEASEDOCK_VERSION'', job_Version j),
       (''RELEASEDOCK_ENVIRONMENT'', job_Environment j),
       (''RELEASEDOCK_ARTIFACT'', if rb then [] else ps_artifact s),
       (''RELEASEDOCK_PACKAGE_DIRECTORY'', if rb then [] else ps_extracted s),
       (''RELEASEDOCK_IMAGES'', join_with '','' (ps_destinations s)),
       (''RELEASEDOCK_OPERATION'', operation_text (job_Operation j)),
       (''RELEASEDOCK_ROLLBACK_SOURCE_RELEASE_ID'', if rb then RollbackSourceReleaseID j else []),
       (''RELEASEDOCK_ROLLBACK_SOURCE_JOB_ID'', if rb then RollbackSourceJobID j else []),
       (''RELEASEDOCK_CREDENTIAL_TYPE'', []), (''RELEASEDOCK_CREDENTIAL_FILE'', [])])"

definition commandBase :: "'x process_state \<Rightarrow> spec" where
  "commandBase s = \<lparr>sp_Path = [], sp_Args = [], sp_Dir = [], sp_Env = restrictedEnv s, sp_Stdin = [],
     sp_Timeout = CommandTimeout (job_Profile (ps_job s)), sp_Isolated = False\<rparr>"

definition pipeline_maximumTargetCredentialBytes :: int where "pipeline_maximumTargetCredentialBytes = 1024 * 1024"

text \<open>The file is created exclusively; writing to it and closing it do not fail here.\<close>

definition writeTargetCredential :: "proc \<Rightarrow> fs \<Rightarrow> string \<Rightarrow> bytes \<Rightarrow> fs \<times> error option" where
  "writeTargetCredential pr fs path plaintext =
     (case os_create_excl pr fs path (octal 6 4 0) of
        (fs1, Some e) \<Rightarrow> (fs1, Some (Wrap ''create target credential handoff'' e))
      | (fs1, None) \<Rightarrow>
          (case os_chmod (write_content fs1 path plaintext) path (octal 6 4 0) False False of
             (fs2, Some e) \<Rightarrow> (fst (os_remove fs2 path), Some (Wrap ''finalize target credential handoff'' (Joined [e])))
           | (fs2, None) \<Rightarrow> (fs2, None)))"

definition remove_credential :: "fs \<Rightarrow> string \<Rightarrow> fs \<times> error option" where
  "remove_credential fs path =
     (case os_remove fs path of
        (fs', Some e) \<Rightarrow> (fs', if errors_is e errNotExist then None else Some (Wrap ''remove target credential handoff'' e))
      | (fs', None) \<Rightarrow> (fs', None))"

text \<open>The output of a script with a credential goes through a redactor for each stream.\<close>

definition redact1 ::
  "'x processor \<Rightarrow> out_event \<Rightarrow> 'x pipe \<times> exactSecretRedactor \<times> exactSecretRedactor \<Rightarrow> 'x pipe \<times> exactSecretRedactor \<times> exactSecretRedactor" where
  "redact1 p ev st =
     (case (ev, st) of ((s, d), (pi, ro, re)) \<Rightarrow>
        (case redactor_Write (Some (log_write p)) (log_of s pi) (case s of Stdout \<Rightarrow> ro | Stderr \<Rightarrow> re) d of
           (l, r', _, _) \<Rightarrow> (set_log s l pi, if s = Stdout then r' else ro, if s = Stderr then r' else re)))"

definition flush_redactors ::
  "'x processor \<Rightarrow> 'x pipe \<times> exactSecretRedactor \<times> exactSecretRedactor \<Rightarrow> 'x pipe \<times> error option" where
  "flush_redactors p st =
     (case st of (pi, ro, re) \<Rightarrow>
        (case redactor_Flush (Some (log_write p)) (log_of Stdout pi) ro of
           (l, _, e1) \<Rightarrow>
             let pi1 = set_log Stdout l pi in
             (case redactor_Flush (Some (log_write p)) (log_of Stderr pi1) re of
                (l2, _, e2) \<Rightarrow> (set_log Stderr l2 pi1, errors_join [e1, e2]))))"

definition runApprovedScript :: "'x processor \<Rightarrow> 'x pipe \<Rightarrow> spec \<Rightarrow> 'x pipe \<times> exec_result \<times> error option" where
  "runApprovedScript p pi sp0 =
     (let cred = TargetCredential (pi_job pi);
          sp = sp0\<lparr>sp_Env := AList.update ''RELEASEDOCK_CREDENTIAL_FILE'' []
                      (AList.update ''RELEASEDOCK_CREDENTIAL_TYPE'' [] (sp_Env sp0))\<rparr> in
      if cred_ID cred = []
      then (case p_executor p (pi_fs pi, w_ext (pi_world pi)) sp of
              ((fs', x'), out, res, err) \<Rightarrow> (emit p out (set_ext x' (set_fs fs' pi)), res, err))
      else case Decrypt (p_secretBox p) (cred_Ciphertext cred) (cred_AAD cred) of
        Inl e \<Rightarrow> (pi, refused, Some (Wrap ''decrypt target credential'' e))
      | Inr plaintext \<Rightarrow>
          if plaintext = [] \<or> int (length plaintext) > pipeline_maximumTargetCredentialBytes
          then (pi, refused, Some (Err ''target credential size is outside the limits''))
          else let credentialPath = path_join [ps_transient (pi_state pi), CredentialFile] in
            (case writeTargetCredential (p_proc p) (pi_fs pi) credentialPath plaintext of
               (fs1, Some e) \<Rightarrow> (set_fs fs1 pi, refused, Some e)
             | (fs1, None) \<Rightarrow>
                 let sp' = sp\<lparr>sp_Env := AList.update ''RELEASEDOCK_CREDENTIAL_FILE'' credentialPath
                              (AList.update ''RELEASEDOCK_CREDENTIAL_TYPE'' (cred_Type cred) (sp_Env sp))\<rparr> in
                 (case p_executor p (fs1, w_ext (pi_world pi)) sp' of
                    ((fs2, x2), out, res, runErr) \<Rightarrow>
                      let red = newExactSecretRedactor plaintext in
                      (case flush_redactors p (fold (redact1 p) out (set_ext x2 (set_fs fs2 pi), red, red)) of
                         (pi3, flushErr) \<Rightarrow>
                           (case remove_credential (pi_fs pi3) credentialPath of
                              (fs4, removeErr) \<Rightarrow>
                                (set_fs (if removeErr = None then fs4 else fst (remove_credential fs4 credentialPath)) pi3, res,
                                 errors_join [runErr, flushErr, removeErr])))))) "

definition pad3 :: "nat \<Rightarrow> string" where
  "pad3 n = replicate (3 - length (nat_text n)) (CHR ''0'') @ nat_text n"

fun scripts_loop ::
  "'x processor \<Rightarrow> string \<Rightarrow> string \<Rightarrow> nat \<Rightarrow> script list \<Rightarrow> 'x pipe \<Rightarrow> int \<Rightarrow> 'x step_outcome" where
  "scripts_loop p phase directory index [] pi executed =
     (pi, with_metadata (p_json p [(''phase'', MText phase), (''scripts'', MNum executed)]), None)"
| "scripts_loop p phase directory index (s # ss) pi executed =
     (if script_Phase s \<noteq> phase then scripts_loop p phase directory (Suc index) ss pi executed
      else case validateApprovedScript p s of
        Some e \<Rightarrow> (pi, no_result, Some e)
      | None \<Rightarrow>
          let path = path_join [directory, ''script-'' @ pad3 index @ ''-v'' @ int_text (script_Version s)] in
          (case os_write_file (p_proc p) (pi_fs pi) path (script_Content s) (octal 6 4 0) of
             (fs1, Some e) \<Rightarrow> (set_fs fs1 pi, no_result, Some (Wrap ''materialize approved script'' e))
           | (fs1, None) \<Rightarrow>
               let limit = CommandTimeout (pi_profile pi);
                   timeout = (if script_Timeout s \<le> 0 \<or> script_Timeout s > limit then limit else script_Timeout s);
                   sp = \<lparr>sp_Path = script_InterpreterPath s, sp_Args = path # script_Args s,
                         sp_Dir = ps_workspace (pi_state pi), sp_Env = restrictedEnv (pi_state pi), sp_Stdin = [],
                         sp_Timeout = timeout, sp_Isolated = True\<rparr> in
               (case runApprovedScript p (set_fs fs1 pi) sp of
                  (pi2, res, err) \<Rightarrow>
                    (case os_remove (pi_fs pi2) path of
                       (fs3, removeErr) \<Rightarrow>
                         (case errors_join [err, removeErr] of
                            Some e \<Rightarrow> (set_fs fs3 pi2, no_result\<lparr>ExitCode := er_ExitCode res\<rparr>, Some (Wrap ''approved script'' e))
                          | None \<Rightarrow> scripts_loop p phase directory (Suc index) ss (set_fs fs3 pi2) (executed + 1))))))"

definition runScripts :: "'x processor \<Rightarrow> string \<Rightarrow> step \<Rightarrow> 'x pipe \<Rightarrow> 'x step_outcome" where
  "runScripts p phase stp pi =
     (let directory = path_join [ps_workspace (pi_state pi), ''.scripts''] in
      case os_mkdir_all (p_proc p) (pi_fs pi) directory (octal 7 5 0) of
        (fs1, Some e) \<Rightarrow> (set_fs fs1 pi, no_result, Some e)
      | (fs1, None) \<Rightarrow> scripts_loop p phase directory 0 (Scripts (pi_profile pi)) (set_fs fs1 pi) 0)"

definition deploy :: "'x processor \<Rightarrow> step \<Rightarrow> 'x pipe \<Rightarrow> 'x step_outcome" where
  "deploy p stp pi =
     (case runScripts p ''DEPLOY'' stp pi of
        (pi1, _, Some e) \<Rightarrow> (pi1, no_result, Some e)
      | (pi1, _, None) \<Rightarrow>
          (case runScripts p ''POST_DEPLOY'' stp pi1 of
             (pi2, _, Some e) \<Rightarrow> (pi2, no_result, Some e)
           | (pi2, _, None) \<Rightarrow> (pi2, no_result, None)))"

end
