(* ===== verification/Pipeline_Steps.thy ===== *)
theory Pipeline_Steps
  imports Pipeline
begin

text \<open>
  Package \<open>runner/internal/pipeline\<close>, file \<open>pipeline.go\<close>: the functions of the steps. Each works on
  the pipe of its step and returns what the step reports with its error. The runtime client of a job
  is set by \<open>inspectImages\<close>; using it before would be a nil dereference, \<open>nil_panic\<close>.
\<close>

definition nil_panic :: error where
  "nil_panic = Err ''runtime error: invalid memory address or nil pointer dereference''"

definition index_panic :: error where
  "index_panic = Err ''runtime error: index out of range''"

definition set_state :: "('x process_state \<Rightarrow> 'x process_state) \<Rightarrow> 'x pipe \<Rightarrow> 'x pipe" where
  "set_state f pi = pi\<lparr>pi_state := f (pi_state pi)\<rparr>"

subsection \<open>The artifact\<close>

definition safeArtifact :: "fs \<Rightarrow> string \<Rightarrow> string \<Rightarrow> string result" where
  "safeArtifact fs root relative =
     (if \<not> is_abs root \<or> relative = [] \<or> is_abs relative \<or> contains_char relative (CHR 0x5C)
      then Inl (Err ''artifact_root must be absolute and artifact_path must be relative'')
      else case eval_symlinks fs root of
        Inl e \<Rightarrow> Inl e
      | Inr rootReal \<Rightarrow>
          let path = path_join [rootReal, path_clean relative] in
          if (case path_rel rootReal path of Inl _ \<Rightarrow> True | Inr rel \<Rightarrow> rel = dotdot \<or> has_prefix rel ''../'')
          then Inl (Err ''artifact path escapes artifact root'')
          else (case eval_symlinks fs path of
            Inl e \<Rightarrow> Inl e
          | Inr real \<Rightarrow>
              if real \<noteq> path then Inl (Err ''artifact symlinks are rejected'')
              else (case os_lstat fs real of
                Inl e \<Rightarrow> Inl e
              | Inr info \<Rightarrow> if \<not> is_regular info then Inl (Err ''artifact is not a regular file'') else Inr real)))"

text \<open>The digest is taken of what is written; writing and closing do not fail here.\<close>

definition stageArtifact ::
  "(bytes \<Rightarrow> bytes) \<Rightarrow> proc \<Rightarrow> fs \<Rightarrow> string \<Rightarrow> string \<Rightarrow> string \<Rightarrow> int \<Rightarrow> fs \<times> string \<times> string \<times> int \<times> error option" where
  "stageArtifact sha pr fs root relative workspace maxi =
     (case safeArtifact fs root relative of
        Inl e \<Rightarrow> (fs, [], [], 0, Some e)
      | Inr source \<Rightarrow>
          (case os_read_file fs source of
             Inl e \<Rightarrow> (fs, [], [], 0, Some e)
           | Inr input \<Rightarrow>
               let destination = path_join [workspace, ''release-package''] in
               (case os_create_excl pr fs destination (octal 6 4 0) of
                  (fs1, Some e) \<Rightarrow> (fs1, [], [], 0, Some e)
                | (fs1, None) \<Rightarrow>
                    let copied = limit_read (maxi + 1) input;
                        written = int (length copied);
                        fs2 = write_content fs1 destination copied in
                    if written > maxi
                    then (fst (os_remove fs2 destination), [], [], written, Some (Err ''archive exceeds maximum bytes''))
                    else (fs2, destination, hex_encode (sha copied), written, None))))"

definition validateArtifact :: "'x processor \<Rightarrow> step \<Rightarrow> 'x pipe \<Rightarrow> 'x step_outcome" where
  "validateArtifact p stp pi =
     (let st = pi_state pi; j = ps_job st in
      case stageArtifact (p_sha256 p) (p_proc p) (pi_fs pi) (ArtifactRoot (ps_settings st)) (ArtifactPath j) (ps_workspace st)
             (MaxArchiveBytes (Extraction (job_Profile j))) of
        (fs1, artifact, digest, sz, err) \<Rightarrow>
          let pi1 = set_fs fs1 pi;
              result = with_metadata (p_json p [(''sha256'', MText digest), (''bytes'', MNum sz)]) in
          (case err of
             Some e \<Rightarrow> (pi1, result, Some e)
           | None \<Rightarrow>
               if \<not> sha256Pattern (ExpectedSHA256 j) \<or> \<not> equal_fold digest (ExpectedSHA256 j)
               then (pi1, result, Some (Err ''SHA256 mismatch''))
               else (set_state (\<lambda>s. s\<lparr>ps_artifact := artifact\<rparr>) pi1, result, None)))"

definition extractArtifact :: "'x processor \<Rightarrow> step \<Rightarrow> 'x pipe \<Rightarrow> 'x step_outcome" where
  "extractArtifact p stp pi =
     (case Extract (p_gzip p) (p_untar p) (p_proc p) (pi_fs pi) (ps_artifact (pi_state pi)) (ps_extracted (pi_state pi))
             (Extraction (pi_profile pi)) of
        (fs1, result, err) \<Rightarrow>
          (set_fs fs1 pi,
           with_metadata (p_json p [(''entries'', MNum (int (length (Files result)))), (''bytes'', MNum (ExtractedBytes result))]),
           err))"

subsection \<open>The images\<close>

definition record_image :: "'x processor \<Rightarrow> image_record \<Rightarrow> 'x pipe \<Rightarrow> 'x pipe \<times> error option" where
  "record_image p img pi =
     (case RecordImage (p_now p) (p_store p) (job_ID (pi_job pi)) img (w_db (pi_world pi)) of
        (d, err) \<Rightarrow> (pi\<lparr>pi_world := (pi_world pi)\<lparr>w_db := d\<rparr>\<rparr>, err))"

definition relative_to :: "string \<Rightarrow> string \<Rightarrow> string" where
  "relative_to base path = (case path_rel base path of Inl _ \<Rightarrow> [] | Inr rel \<Rightarrow> rel)"

definition image_entry :: "'x pipe \<Rightarrow> resolved_image \<Rightarrow> string \<Rightarrow> string \<Rightarrow> image_record" where
  "image_entry pi img destination digest =
     \<lparr>img_FilePath = relative_to (ps_extracted (pi_state pi)) (ri_FilePath img), img_SourceRef = ri_SourceRef img,
      img_DestinationRef = destination, img_Repository = ri_Repository img, img_Tag = ri_Tag img, img_Digest = digest\<rparr>"

fun inspect_images_loop ::
  "'x processor \<Rightarrow> 'x runtime_client \<Rightarrow> resolved_image list \<Rightarrow> 'x pipe \<Rightarrow> 'x pipe \<times> error option" where
  "inspect_images_loop p c [] pi = (pi, None)"
| "inspect_images_loop p c (img # rest) pi =
     (case Destination c (ri_Repository img) (ri_Tag img) of
        Inl e \<Rightarrow> (pi, Some e)
      | Inr destination \<Rightarrow>
          let pi1 = set_state (\<lambda>s. s\<lparr>ps_destinations := ps_destinations s @ [destination]\<rparr>) pi in
          (case record_image p (image_entry pi1 img destination []) pi1 of
             (pi2, Some e) \<Rightarrow> (pi2, Some e)
           | (pi2, None) \<Rightarrow> inspect_images_loop p c rest pi2))"

definition inspectImages :: "'x processor \<Rightarrow> step \<Rightarrow> 'x pipe \<Rightarrow> 'x step_outcome" where
  "inspectImages p stp pi =
     (let st = pi_state pi; j = ps_job st in
      case Load (p_yaml p) (pi_fs pi) (ps_extracted st) (ManifestPath j) of
        Inl e \<Rightarrow> (pi, no_result, Some e)
      | Inr release \<Rightarrow>
          if rel_Application release \<noteq> job_Application j \<or> rel_Version release \<noteq> job_Version j
          then (pi, no_result, Some (Err ''manifest identity does not match job''))
          else (case ResolveImages (p_tools p) (pi_fs pi) (ps_extracted st) release (MaxImages (Extraction (job_Profile j))) of
            Inl e \<Rightarrow> (pi, no_result, Some e)
          | Inr images \<Rightarrow>
              (case runtime_New (p_net p) (pi_fs pi) (Runtime (job_Profile j)) (Some (p_executor p)) of
                 Inl e \<Rightarrow> (pi, no_result, Some e)
               | Inr c \<Rightarrow>
                   (case inspect_images_loop p c images (set_state (\<lambda>s. s\<lparr>ps_images := images, ps_runtime := Some c\<rparr>) pi) of
                      (pi1, Some e) \<Rightarrow> (pi1, no_result, Some e)
                    | (pi1, None) \<Rightarrow> (pi1, with_metadata (p_json p [(''images'', MNum (int (length images)))]), None)))))"

text \<open>The runtime client of the job, which the steps after the inspection use.\<close>

definition with_runtime :: "'x pipe \<Rightarrow> ('x runtime_client \<Rightarrow> 'x pipe \<times> error option) \<Rightarrow> 'x pipe \<times> error option" where
  "with_runtime pi f = (case ps_runtime (pi_state pi) of None \<Rightarrow> (pi, Some nil_panic) | Some c \<Rightarrow> f c)"

definition destination_at :: "'x pipe \<Rightarrow> nat \<Rightarrow> string option" where
  "destination_at pi i =
     (if i < length (ps_destinations (pi_state pi)) then Some (ps_destinations (pi_state pi) ! i) else None)"

fun load_loop :: "'x processor \<Rightarrow> spec \<Rightarrow> resolved_image list \<Rightarrow> 'x pipe \<Rightarrow> 'x pipe \<times> error option" where
  "load_loop p base [] pi = (pi, None)"
| "load_loop p base (img # rest) pi =
     (case with_runtime pi (\<lambda>c. on_host p pi (\<lambda>w. client_Load c w (ps_workspace (pi_state pi)) (ri_FilePath img) base)) of
        (pi1, Some e) \<Rightarrow> (pi1, Some e)
      | (pi1, None) \<Rightarrow> load_loop p base rest pi1)"

definition loadImages :: "'x processor \<Rightarrow> step \<Rightarrow> 'x pipe \<Rightarrow> 'x step_outcome" where
  "loadImages p stp pi =
     (case load_loop p (commandBase (pi_state pi)) (ps_images (pi_state pi)) pi of (pi1, err) \<Rightarrow> (pi1, no_result, err))"

fun tag_loop :: "'x processor \<Rightarrow> spec \<Rightarrow> nat \<Rightarrow> resolved_image list \<Rightarrow> 'x pipe \<Rightarrow> 'x pipe \<times> error option" where
  "tag_loop p base i [] pi = (pi, None)"
| "tag_loop p base i (img # rest) pi =
     (case (case destination_at pi i of
              None \<Rightarrow> (pi, Some index_panic)
            | Some destination \<Rightarrow> with_runtime pi (\<lambda>c. on_host p pi
                (\<lambda>w. client_Tag c w (ps_workspace (pi_state pi)) (ri_SourceRef img) destination base))) of
        (pi1, Some e) \<Rightarrow> (pi1, Some e)
      | (pi1, None) \<Rightarrow> tag_loop p base (Suc i) rest pi1)"

definition tagImages :: "'x processor \<Rightarrow> step \<Rightarrow> 'x pipe \<Rightarrow> 'x step_outcome" where
  "tagImages p stp pi =
     (case tag_loop p (commandBase (pi_state pi)) 0 (ps_images (pi_state pi)) pi of (pi1, err) \<Rightarrow> (pi1, no_result, err))"

definition decryptCredential :: "'x processor \<Rightarrow> runtime_config \<Rightarrow> credential result" where
  "decryptCredential p config =
     (if rt_CredentialCiphertext config = [] then Inr \<lparr>cr_Username = [], cr_Password = []\<rparr>
      else case Decrypt (p_secretBox p) (rt_CredentialCiphertext config) (rt_CredentialAAD config) of
        Inl e \<Rightarrow> Inl (Wrap ''decrypt registry credential'' e)
      | Inr plaintext \<Rightarrow>
          (case p_credential p plaintext of
             Inl e \<Rightarrow> Inl (Wrap ''decode registry credential'' e)
           | Inr cred \<Rightarrow> Inr cred))"

definition job_registry :: "'x processor \<Rightarrow> profile \<Rightarrow> credential \<Rightarrow> 'x registry_client result" where
  "job_registry p prof cred =
     NewRegistryClient (p_net p) (p_transport p) (p_token p) (rt_RegistryURL (Runtime prof)) (rt_RegistryCAPEM (Runtime prof))
       (rt_RegistryInsecure (Runtime prof)) cred (CommandTimeout prof)"

definition query_digest :: "'x processor \<Rightarrow> 'x registry_client \<Rightarrow> string \<Rightarrow> string \<Rightarrow> 'x pipe \<Rightarrow> 'x pipe \<times> string result" where
  "query_digest p rg repository reference pi =
     (case Digest (p_net p) rg (w_ext (pi_world pi)) repository reference of (x, r) \<Rightarrow> (set_ext x pi, r))"

fun push_loop ::
  "'x processor \<Rightarrow> 'x registry_client \<Rightarrow> spec \<Rightarrow> nat \<Rightarrow> resolved_image list \<Rightarrow> 'x pipe \<Rightarrow> 'x pipe \<times> error option" where
  "push_loop p rg base i [] pi = (pi, None)"
| "push_loop p rg base i (img # rest) pi =
     (case destination_at pi i of
        None \<Rightarrow> (pi, Some index_panic)
      | Some destination \<Rightarrow>
          (case with_runtime pi (\<lambda>c. on_host p pi (\<lambda>w.
                  client_Push (p_proc p) c w (ps_workspace (pi_state pi)) (ps_transient (pi_state pi)) destination base)) of
             (pi1, Some e) \<Rightarrow> (pi1, Some e)
           | (pi1, None) \<Rightarrow>
               (case query_digest p rg (trim_cut (rt_RegistryProject (Runtime (pi_profile pi1))) [slash] @ ''/'' @ ri_Repository img)
                       (ri_Tag img) pi1 of
                  (pi2, Inl e) \<Rightarrow> (pi2, Some e)
                | (pi2, Inr digest) \<Rightarrow>
                    (case record_image p (image_entry pi2 img destination digest) pi2 of
                       (pi3, Some e) \<Rightarrow> (pi3, Some e)
                     | (pi3, None) \<Rightarrow> push_loop p rg base (Suc i) rest pi3))))"

definition pushImages :: "'x processor \<Rightarrow> step \<Rightarrow> 'x pipe \<Rightarrow> 'x step_outcome" where
  "pushImages p stp pi =
     (case decryptCredential p (Runtime (pi_profile pi)) of
        Inl e \<Rightarrow> (pi, no_result, Some e)
      | Inr cred \<Rightarrow>
          let base = commandBase (pi_state pi) in
          (case with_runtime pi (\<lambda>c. on_host p pi (\<lambda>w.
                  Login (p_net p) (p_proc p) c w (ps_workspace (pi_state pi)) (ps_transient (pi_state pi)) cred base)) of
             (pi1, Some e) \<Rightarrow> (pi1, no_result, Some e)
           | (pi1, None) \<Rightarrow>
               (case job_registry p (pi_profile pi1) cred of
                  Inl e \<Rightarrow> (pi1, no_result, Some e)
                | Inr rg \<Rightarrow>
                    (case push_loop p rg base 0 (ps_images (pi_state pi1)) pi1 of (pi2, err) \<Rightarrow> (pi2, no_result, err)))))"

subsection \<open>Rollback and verification\<close>

fun rollback_loop ::
  "'x processor \<Rightarrow> 'x runtime_client \<Rightarrow> 'x registry_client \<Rightarrow> string \<Rightarrow> image_record list \<Rightarrow> 'x pipe \<Rightarrow> 'x pipe \<times> error option" where
  "rollback_loop p c rg project [] pi = (pi, None)"
| "rollback_loop p c rg project (img # rest) pi =
     (if \<not> imageDigestPattern (img_Digest img) then (pi, Some (Err ''rollback source image has invalid digest''))
      else case Destination c (img_Repository img) (img_Tag img) of
        Inl e \<Rightarrow> (pi, Some (Wrap ''validate rollback image destination'' e))
      | Inr expectedDestination \<Rightarrow>
          if expectedDestination \<noteq> img_DestinationRef img then (pi, Some (Err ''rollback image destination drift''))
          else let normalizedDigest = ''sha256:'' @ to_lower (trim_prefix (img_Digest img) ''sha256:'');
                   repository = project @ ''/'' @ trim_cut (img_Repository img) [slash] in
            (case query_digest p rg repository normalizedDigest pi of
               (pi1, Inl e) \<Rightarrow> (pi1, Some (Wrap ''verify rollback source image'' e))
             | (pi1, Inr registryDigest) \<Rightarrow>
                 if \<not> equal_fold registryDigest normalizedDigest then (pi1, Some (Err ''rollback source digest mismatch''))
                 else let digestReference = trim_suffix expectedDestination ('':'' @ img_Tag img) @ ''@'' @ normalizedDigest;
                          pi2 = set_state (\<lambda>s. s\<lparr>ps_destinations := ps_destinations s @ [digestReference]\<rparr>) pi1 in
                   (case record_image p (img\<lparr>img_Digest := normalizedDigest\<rparr>) pi2 of
                      (pi3, Some e) \<Rightarrow> (pi3, Some e)
                    | (pi3, None) \<Rightarrow>
                        rollback_loop p c rg project rest
                          (emit p [(Stdout, ''verified rollback image '' @ digestReference @ nl)] pi3))))"

definition validateRollbackSource :: "'x processor \<Rightarrow> step \<Rightarrow> 'x pipe \<Rightarrow> 'x step_outcome" where
  "validateRollbackSource p stp pi =
     (let prof = pi_profile pi; j = pi_job pi in
      case runtime_New (p_net p) (pi_fs pi) (Runtime prof) (Some (p_executor p)) of
        Inl e \<Rightarrow> (pi, no_result, Some e)
      | Inr c \<Rightarrow>
          (case decryptCredential p (Runtime prof) of
             Inl e \<Rightarrow> (pi, no_result, Some e)
           | Inr cred \<Rightarrow>
               (case job_registry p prof cred of
                  Inl e \<Rightarrow> (pi, no_result, Some e)
                | Inr rg \<Rightarrow>
                    (case rollback_loop p c rg (trim_cut (rt_RegistryProject (Runtime prof)) [slash]) (RollbackImages j) pi of
                       (pi1, Some e) \<Rightarrow> (pi1, no_result, Some e)
                     | (pi1, None) \<Rightarrow>
                         (pi1, with_metadata (p_json p [(''sourceReleaseId'', MText (RollbackSourceReleaseID j)),
                            (''sourceJobId'', MText (RollbackSourceJobID j)),
                            (''images'', MNum (int (length (ps_destinations (pi_state pi1))))), (''digestPinned'', MFlag True)]), None)))))"

fun verify_loop :: "'x processor \<Rightarrow> nat \<Rightarrow> health_check list \<Rightarrow> 'x pipe \<Rightarrow> 'x pipe \<times> error option" where
  "verify_loop p index [] pi = (pi, None)"
| "verify_loop p index (check # rest) pi =
     (case Check (p_checker p) check (w_ext (pi_world pi)) of
        (x, Some e) \<Rightarrow> (set_ext x pi, Some (Wrap (''health check '' @ nat_text (index + 1)) e))
      | (x, None) \<Rightarrow>
          verify_loop p (Suc index) rest
            (emit p [(Stdout, ''health check '' @ nat_text (index + 1) @ '' ('' @ hc_Type check @ '') passed'' @ nl)] (set_ext x pi)))"

definition verify :: "'x processor \<Rightarrow> step \<Rightarrow> 'x pipe \<Rightarrow> 'x step_outcome" where
  "verify p stp pi =
     (case verify_loop p 0 (HealthChecks (pi_profile pi)) pi of
        (pi1, Some e) \<Rightarrow> (pi1, no_result, Some e)
      | (pi1, None) \<Rightarrow>
          (pi1, with_metadata (p_json p [(''healthChecks'', MNum (int (length (HealthChecks (pi_profile pi)))))]), None))"

end
