(* ===== verification/Pipeline_Process.thy ===== *)
theory Pipeline_Process
  imports Pipeline_Steps
begin

text \<open>
  Package \<open>runner/internal/pipeline\<close>, file \<open>pipeline.go\<close>: the step protocol \<open>withStep\<close>, the order of
  the steps, the job's workspace and \<open>Process\<close>, which always ends a job it was given and always
  removes what it created for it.
\<close>

subsection \<open>Steps\<close>

definition withStep ::
  "'x processor \<Rightarrow> job_status \<Rightarrow> (step \<Rightarrow> 'x pipe \<Rightarrow> 'x step_outcome) \<Rightarrow> 'x world \<times> 'x process_state \<Rightarrow>
   ('x world \<times> 'x process_state) \<times> error option" where
  "withStep p status fn ws =
     (case ws of (w, st) \<Rightarrow>
      case BeginStep (p_now p) (p_store p) (job_ID (ps_job st)) status (w_db w) of
        (d, Inl e) \<Rightarrow> ((w\<lparr>w_db := d\<rparr>, st), Some e)
      | (d, Inr stp) \<Rightarrow>
          let writer = (\<lambda>stream. NewWriter (job_ID (ps_job st)) (step_ID stp) stream (LogChunkBytes (ps_settings st))) in
          (case fn stp \<lparr>pi_world = w\<lparr>w_db := d\<rparr>, pi_state = st, pi_stdout = writer ''stdout'', pi_stderr = writer ''stderr''\<rparr> of
             (pi, result, runErr) \<Rightarrow>
               let logErr = errors_join [writer_Err (pi_stdout pi), writer_Err (pi_stderr pi)];
                   runErr1 = (case logErr of None \<Rightarrow> runErr
                              | Some e \<Rightarrow> errors_join [runErr, Some (Wrap ''persist command output'' e)]);
                   result1 = (case runErr1 of None \<Rightarrow> result
                              | Some e \<Rightarrow> if Message result = [] then result\<lparr>Message := pipeline_truncate (error_text e) 2000\<rparr> else result) in
               (case FinishStep (p_now p) (p_store p) stp (runErr1 = None) result1 (w_db (pi_world pi)) of
                  (d2, finishErr) \<Rightarrow>
                    (((pi_world pi)\<lparr>w_db := d2\<rparr>, pi_state pi),
                     case finishErr of None \<Rightarrow> runErr1 | Some e \<Rightarrow> errors_join [runErr1, Some e]))))"

type_synonym 'x plan = "(job_status \<times> (step \<Rightarrow> 'x pipe \<Rightarrow> 'x step_outcome)) list"

fun run_steps ::
  "'x processor \<Rightarrow> 'x plan \<Rightarrow> 'x world \<times> 'x process_state \<Rightarrow> ('x world \<times> 'x process_state) \<times> error option" where
  "run_steps p [] ws = (ws, None)"
| "run_steps p ((status, fn) # rest) ws =
     (case withStep p status fn ws of
        (ws1, Some e) \<Rightarrow> (ws1, Some (Wrap (status_text status) e))
      | (ws1, None) \<Rightarrow> run_steps p rest ws1)"

definition rollback_plan :: "'x processor \<Rightarrow> 'x plan" where
  "rollback_plan p = [(StatusValidating, validateRollbackSource p), (StatusRollback, runScripts p ''ROLLBACK''), (StatusVerifying, verify p)]"

definition runManualRollback ::
  "'x processor \<Rightarrow> 'x world \<times> 'x process_state \<Rightarrow> ('x world \<times> 'x process_state) \<times> error option" where
  "runManualRollback p ws = run_steps p (rollback_plan p) ws"

definition deploy_plan :: "'x processor \<Rightarrow> job \<Rightarrow> 'x plan" where
  "deploy_plan p j =
     [(StatusValidating, validateArtifact p)] @
     (if job_Operation j = OperationDeploy \<and> hasPhase (Scripts (job_Profile j)) ''PRE_DEPLOY''
      then [(StatusPreCheck, runScripts p ''PRE_DEPLOY'')] else []) @
     [(StatusExtracting, extractArtifact p), (StatusImageInspect, inspectImages p), (StatusImageLoad, loadImages p),
      (StatusImageTag, tagImages p), (StatusImagePush, pushImages p), (StatusDeploying, deploy p), (StatusVerifying, verify p)]"

definition pipeline_run :: "'x processor \<Rightarrow> 'x world \<times> 'x process_state \<Rightarrow> ('x world \<times> 'x process_state) \<times> error option" where
  "pipeline_run p ws =
     (if job_Operation (ps_job (snd ws)) = OperationRollback then runManualRollback p ws
      else run_steps p (deploy_plan p (ps_job (snd ws))) ws)"

text \<open>
  The heartbeat beside the job: it wakes up at the times \<open>ticks\<close>, renews the lease and stops at the
  first failure; when the job's context is cancelled it reports that.
\<close>

fun heartbeat :: "pg_store \<Rightarrow> string \<Rightarrow> int list \<Rightarrow> db \<Rightarrow> db \<times> error" where
  "heartbeat s jobID [] d = (d, ContextCanceled)"
| "heartbeat s jobID (now # ticks) d =
     (case Heartbeat now s jobID d of
        (d1, Some e) \<Rightarrow> (d1, Wrap ''job heartbeat'' e)
      | (d1, None) \<Rightarrow> heartbeat s jobID ticks d1)"

subsection \<open>The workspace\<close>

definition sanitize_char :: "char \<Rightarrow> bool" where
  "sanitize_char c \<longleftrightarrow> is_lower c \<or> is_upper c \<or> is_digit c \<or> c = CHR ''-'' \<or> c = CHR ''_''"

definition sanitize :: "string \<Rightarrow> string" where
  "sanitize text = (let kept = take 40 (filter sanitize_char text) in if kept = [] then ''release'' else kept)"

text \<open>\<open>os.MkdirTemp\<close> tries the names one after the other until one does not exist.\<close>

fun mkdir_temp :: "proc \<Rightarrow> fs \<Rightarrow> string \<Rightarrow> string \<Rightarrow> string list \<Rightarrow> fs \<times> string result" where
  "mkdir_temp pr fs dir pattern [] = (fs, Inl errExist)"
| "mkdir_temp pr fs dir pattern (sfx # rest) =
     (let name = dir @ (if has_suffix dir ''/'' then [] else ''/'') @ pattern @ sfx in
      case os_mkdir pr fs name (octal 7 0 0) of
        (fs1, None) \<Rightarrow> (fs1, Inr name)
      | (fs1, Some e) \<Rightarrow> if errors_is e errExist then mkdir_temp pr fs1 dir pattern rest else (fs1, Inl e))"

definition createWorkspace :: "proc \<Rightarrow> string list \<Rightarrow> fs \<Rightarrow> string \<Rightarrow> string \<Rightarrow> fs \<times> string result" where
  "createWorkspace pr names fs root jobID =
     (if \<not> is_abs root then (fs, Inl (Err ''workspace_root must be absolute''))
      else case os_mkdir_all pr fs root (octal 7 5 0) of
        (fs1, Some e) \<Rightarrow> (fs1, Inl e)
      | (fs1, None) \<Rightarrow>
          (case os_lstat fs1 root of
             Inl e \<Rightarrow> (fs1, Inl e)
           | Inr info \<Rightarrow>
               if \<not> is_dir info \<or> is_symlink info then (fs1, Inl (Err ''workspace_root must be a real directory''))
               else (case mkdir_temp pr fs1 root (''job-'' @ sanitize jobID @ ''-'') names of
                 (fs2, Inl e) \<Rightarrow> (fs2, Inl e)
               | (fs2, Inr workspace) \<Rightarrow>
                   (case os_chmod fs2 workspace (octal 7 7 0) True True of
                      (fs3, Some e) \<Rightarrow> (fst (os_remove fs3 workspace), Inl e)
                    | (fs3, None) \<Rightarrow> (fs3, Inr workspace)))))"

definition cleanupWorkspace :: "fs \<Rightarrow> string \<Rightarrow> string \<Rightarrow> fs \<times> error option" where
  "cleanupWorkspace fs root workspace =
     (case path_rel root workspace of
        Inl _ \<Rightarrow> (fs, Some (Err ''refusing to remove workspace outside configured root''))
      | Inr relative \<Rightarrow>
          if relative = dot \<or> contains_sub relative ''/'' \<or> \<not> has_prefix relative ''job-''
          then (fs, Some (Err ''refusing to remove workspace outside configured root''))
          else os_remove_all fs workspace)"

fun remove_runtime_files :: "fs \<Rightarrow> string \<Rightarrow> error option \<Rightarrow> string list \<Rightarrow> fs \<times> error option" where
  "remove_runtime_files fs workspace result [] = (fs, result)"
| "remove_runtime_files fs workspace result (name # rest) =
     (case os_remove_all fs (path_join [workspace, name]) of
        (fs1, Some e) \<Rightarrow> remove_runtime_files fs1 workspace (errors_join [result, Some (Wrap (''remove '' @ name) e)]) rest
      | (fs1, None) \<Rightarrow> remove_runtime_files fs1 workspace result rest)"

definition cleanupRuntimeCredentials :: "fs \<Rightarrow> string \<Rightarrow> fs \<times> error option" where
  "cleanupRuntimeCredentials fs workspace =
     (case remove_runtime_files fs workspace None [''.containerd-hosts'', ''.registry-certs'', ''.runtime-auth''] of
        (fs1, Some e) \<Rightarrow> (fs1, Some (Wrap ''remove runtime credentials'' e))
      | (fs1, None) \<Rightarrow> (fs1, None))"

definition shouldCleanup :: "profile \<Rightarrow> bool \<Rightarrow> bool" where
  "shouldCleanup prof success =
     (if \<not> CleanupWorkspace prof then False else success \<or> \<not> KeepFailedWorkspace prof)"

subsection \<open>A job\<close>

definition validTargetCredentialType :: "string \<Rightarrow> bool" where
  "validTargetCredentialType text \<longleftrightarrow> text \<in> set [''SSH_PRIVATE_KEY'', ''KUBECONFIG'', ''TOKEN'', ''OPAQUE_FILE'']"

definition validateOperation :: "job \<Rightarrow> error option" where
  "validateOperation j =
     (let cred = TargetCredential j; needs = (\<lambda>phase. guard (\<not> hasPhase (Scripts (job_Profile j)) phase) ''operation requires an approved script'') in
      if AutoRollback (job_Profile j) then Some (Err ''automatic rollback is disabled in v0.1'')
      else if cred_ID cred = [] \<and> (cred_Type cred \<noteq> [] \<or> cred_Version cred \<noteq> 0 \<or> cred_Ciphertext cred \<noteq> [] \<or> cred_AAD cred \<noteq> [])
      then Some (Err ''target credential snapshot is incomplete'')
      else if cred_ID cred \<noteq> [] \<and> (cred_Version cred \<le> 0 \<or> cred_Ciphertext cred = [] \<or> cred_AAD cred = [] \<or>
                \<not> validTargetCredentialType (cred_Type cred))
      then Some (Err ''target credential snapshot is invalid'')
      else case job_Operation j of
        OperationDeploy \<Rightarrow> needs ''DEPLOY''
      | OperationRollback \<Rightarrow>
          if RollbackSourceReleaseID j = [] \<or> RollbackSourceJobID j = [] \<or> RollbackImages j = []
          then Some (Err ''manual rollback requires an immutable source DEPLOY job with verified image records'')
          else needs ''ROLLBACK''
      | OperationOther _ \<Rightarrow> Some (Err ''unsupported job operation''))"

definition finish :: "'x processor \<Rightarrow> string \<Rightarrow> job_status \<Rightarrow> string \<Rightarrow> 'x world \<Rightarrow> 'x world \<times> error option" where
  "finish p jobID status message w =
     (case FinishJob (p_now p) (p_store p) jobID status message (w_db w) of (d, err) \<Rightarrow> (w\<lparr>w_db := d\<rparr>, err))"

definition finishFailure :: "'x processor \<Rightarrow> string \<Rightarrow> error \<Rightarrow> 'x world \<Rightarrow> 'x world" where
  "finishFailure p jobID cause w = fst (finish p jobID StatusFailed (pipeline_truncate (error_text cause) 4000) w)"

text \<open>The deferred cleanup: the credentials of the job, secrets in its workspace, and the workspace itself.\<close>

definition cleanup_job ::
  "'x processor \<Rightarrow> settings \<Rightarrow> job \<Rightarrow> string \<Rightarrow> bool \<Rightarrow> 'x world \<times> error option \<Rightarrow> 'x world \<times> error option" where
  "cleanup_job p sett j workspace terminalSuccess r =
     (case r of (w, returnErr) \<Rightarrow>
      case RemoveCredentialJobDirectory (w_fs w) (p_credentialRoot p) (job_ID j) of
        (fs1, cleanupErr) \<Rightarrow>
          let err1 = (case cleanupErr of None \<Rightarrow> returnErr
                      | Some e \<Rightarrow> errors_join [returnErr, Some (Wrap ''cleanup transient credentials'' e)]);
              fs2 = fold (\<lambda>name fs. fst (os_remove_all fs (path_join [workspace, name])))
                      [''.containerd-hosts'', ''.registry-certs'', ''.runtime-auth'', CredentialDirectory, ExecutorCredentialDirectory] fs1 in
          if shouldCleanup (job_Profile j) terminalSuccess
          then (case cleanupWorkspace fs2 (WorkspaceRoot sett) workspace of
                  (fs3, Some e) \<Rightarrow> (w\<lparr>w_fs := fs3\<rparr>, errors_join [err1, Some (Wrap ''cleanup workspace'' e)])
                | (fs3, None) \<Rightarrow> (w\<lparr>w_fs := fs3\<rparr>, err1))
          else (w\<lparr>w_fs := fs2\<rparr>, err1))"

definition job_state :: "settings \<Rightarrow> job \<Rightarrow> string \<Rightarrow> string \<Rightarrow> 'x process_state" where
  "job_state sett j workspace transient =
     \<lparr>ps_job = j, ps_settings = sett, ps_workspace = workspace, ps_transient = transient,
      ps_extracted = path_join [workspace, ''package''], ps_artifact = [], ps_images = [], ps_destinations = [],
      ps_runtime = None, ps_budget = NewBudget (MaxLogBytes (job_Profile j))\<rparr>"

text \<open>The job between its directories being created and the deferred cleanup; \<open>hb\<close> is what the heartbeat has
  reported by the end of the run. The flag says whether the job ended well.\<close>

definition process_body ::
  "'x processor \<Rightarrow> error option \<Rightarrow> 'x world \<times> 'x process_state \<Rightarrow> 'x world \<times> error option \<times> bool" where
  "process_body p hb ws =
     (let j = ps_job (snd ws) in
      case pipeline_run p ws of
        ((w1, st1), runErr) \<Rightarrow>
          let runErr1 = (case hb of None \<Rightarrow> runErr
                         | Some e \<Rightarrow> if errors_is e ContextCanceled then runErr else errors_join [runErr, Some e]) in
          (case cleanupRuntimeCredentials (w_fs w1) (ps_transient st1) of
             (fs2, cleanupErr) \<Rightarrow>
               let w2 = w1\<lparr>w_fs := fs2\<rparr>;
                   runErr2 = (case cleanupErr of None \<Rightarrow> runErr1 | Some e \<Rightarrow> errors_join [runErr1, Some e]) in
               (case runErr2 of
                  Some e \<Rightarrow>
                    (case finish p (job_ID j) StatusFailed (pipeline_truncate (error_text e) 4000) w2 of
                       (w3, Some finishErr) \<Rightarrow> (w3, errors_join [Some e, Some finishErr], False)
                     | (w3, None) \<Rightarrow> (w3, Some e, False))
                | None \<Rightarrow>
                    (case finish p (job_ID j) (if job_Operation j = OperationRollback then StatusRolledBack else StatusSuccess) [] w2 of
                       (w3, Some finishErr) \<Rightarrow> (w3, Some finishErr, False)
                     | (w3, None) \<Rightarrow> (w3, None, True)))))"

definition Process :: "'x processor \<Rightarrow> error option \<Rightarrow> settings \<Rightarrow> job option \<Rightarrow> 'x world \<Rightarrow> 'x world \<times> error option" where
  "Process p hb sett jb w =
     (case jb of
        None \<Rightarrow> (w, Some (Err ''job is required''))
      | Some j \<Rightarrow>
          (case validateOperation j of
             Some e \<Rightarrow> (finishFailure p (job_ID j) e w, Some e)
           | None \<Rightarrow>
               (case createWorkspace (p_proc p) (p_suffixes p) (w_fs w) (WorkspaceRoot sett) (job_ID j) of
                  (fs1, Inl e) \<Rightarrow> (finishFailure p (job_ID j) (Wrap ''create isolated workspace'' e) (w\<lparr>w_fs := fs1\<rparr>), Some e)
                | (fs1, Inr workspace) \<Rightarrow>
                    (case CreateCredentialJobDirectory (p_proc p) fs1 (p_credentialRoot p) (job_ID j) of
                       (fs2, Inl e) \<Rightarrow>
                         (finishFailure p (job_ID j) (Wrap ''create transient credential directory'' e)
                            (w\<lparr>w_fs := fst (cleanupWorkspace fs2 (WorkspaceRoot sett) workspace)\<rparr>), Some e)
                     | (fs2, Inr transient) \<Rightarrow>
                         (case process_body p hb (w\<lparr>w_fs := fs2\<rparr>, job_state sett j workspace transient) of
                            (w3, err, ok) \<Rightarrow> cleanup_job p sett j workspace ok (w3, err))))))"

end
