(* ===== verification/Pipeline_Trace.thy ===== *)
theory Pipeline_Trace
  imports Pipeline_Process
begin

text \<open>
  What the steps of a job can do. The locale \<open>step_relation\<close> states which elementary effects a relation
  between pipes has to allow; every step function then stays in the relation. It is used twice: for the
  tables and fields a step leaves alone, and for the commands it starts.
\<close>

subsection \<open>Logging\<close>

text \<open>The log as it is after any number of writes.\<close>

definition logged :: "'x processor \<Rightarrow> log_state \<Rightarrow> log_state \<Rightarrow> bool" where
  "logged p = (\<lambda>l l'. \<exists>d. l' = fst (log_write p l d))\<^sup>*\<^sup>*"

lemma logged_refl [simp]: "logged p l l" by (simp add: logged_def)

lemma logged_write: "logged p l l' \<Longrightarrow> logged p l (fst (log_write p l' d))"
  unfolding logged_def by (rule rtranclp.rtrancl_into_rtrancl) auto

text \<open>A redactor reaches its destination only through the writer it was given.\<close>

definition keeps :: "('d \<Rightarrow> bool) \<Rightarrow> 'd io_write \<Rightarrow> bool" where
  "keeps Q wr \<longleftrightarrow> (\<forall>l d. Q l \<longrightarrow> Q (fst (wr l d)))"

lemma writeRedacted_loop_keeps: "keeps Q wr \<Longrightarrow> Q l \<Longrightarrow> Q (fst (writeRedacted_loop wr l payload))"
proof (induction wr l payload rule: writeRedacted_loop.induct)
  case (1 wr l payload)
  obtain l' n err where w: "wr l payload = (l', n, err)" by (metis prod_cases3)
  have q: "Q l'" using "1.prems" w by (metis fst_conv keeps_def)
  show ?case
    unfolding writeRedacted_loop.simps [of wr l payload]
    using "1.IH" [OF _ w [symmetric]] "1.prems" q w by (auto split: option.splits)
qed

lemma writeRedactedBytes_keeps: "keeps Q wr \<Longrightarrow> Q l \<Longrightarrow> Q (fst (writeRedactedBytes (Some wr) l payload))"
  by (simp add: writeRedactedBytes_def writeRedacted_loop_keeps)

lemma drain_loop_keeps:
  "keeps Q wr \<Longrightarrow> Q l \<Longrightarrow> Q (fst (drain_loop (Some wr) secret pending final limit l cursor))"
proof (induction "Some wr" secret pending final limit l cursor rule: drain_loop.induct)
  case (1 secret pending final limit l cursor)
  show ?case
    unfolding drain_loop.simps [of _ secret pending final limit l cursor]
    using 1 writeRedactedBytes_keeps [OF "1.prems"(1)]
    by (auto simp: Let_def split: option.splits prod.splits) (metis fst_conv)+
qed

lemma drain_keeps:
  assumes "keeps Q wr" "Q l"
  shows "Q (fst (drain (Some wr) l r final))"
proof -
  have w: "Q a \<Longrightarrow> writeRedactedBytes (Some wr) a b = (a', e) \<Longrightarrow> Q a'" for a b a' e
    using writeRedactedBytes_keeps [OF assms(1)] by (metis fst_conv)
  have d: "drain_loop (Some wr) s pd f lm l c = (a', e) \<Longrightarrow> Q a'" for s pd f lm c a' e
    using drain_loop_keeps [OF assms] by (metis fst_conv)
  show ?thesis
    using assms(2) by (auto simp: drain_def Let_def split: option.splits prod.splits sum.splits if_splits intro: w d)
qed

lemma redactor_keeps:
  assumes "keeps Q wr" "Q l"
  shows "Q (fst (redactor_Write (Some wr) l r d))" "Q (fst (redactor_Flush (Some wr) l r))"
proof -
  have d: "drain (Some wr) l r' f = (a', r'', e) \<Longrightarrow> Q a'" for r' f a' r'' e
    using drain_keeps [OF assms] by (metis fst_conv)
  show "Q (fst (redactor_Write (Some wr) l r d))"
    using assms(2) by (auto simp: redactor_Write_def split: option.splits prod.splits intro: d)
  show "Q (fst (redactor_Flush (Some wr) l r))"
    using assms(2) by (auto simp: redactor_Flush_def Let_def split: option.splits prod.splits intro: d)
qed

lemma logged_redactor:
  "logged p l (fst (redactor_Write (Some (log_write p)) l r d))"
  "logged p l (fst (redactor_Flush (Some (log_write p)) l r))"
  by (rule redactor_keeps, simp add: keeps_def logged_write, simp)+

text \<open>Only the log table and the table of images of a job change while a step runs.\<close>

definition annotated :: "db \<Rightarrow> db \<Rightarrow> bool" where
  "annotated d d' \<longleftrightarrow> d' = d\<lparr>release_job_logs := release_job_logs d', release_images := release_images d'\<rparr>"

lemma annotated_refl [simp]: "annotated d d" by (simp add: annotated_def)

lemma annotated_trans:
  assumes "annotated d d1" "annotated d1 d2"
  shows "annotated d d2"
proof -
  obtain a b where "d1 = d\<lparr>release_job_logs := a, release_images := b\<rparr>" using assms(1) unfolding annotated_def by blast
  moreover obtain a' b' where "d2 = d1\<lparr>release_job_logs := a', release_images := b'\<rparr>" using assms(2) unfolding annotated_def by blast
  ultimately show ?thesis by (simp add: annotated_def)
qed

lemma annotated_AppendLog [simp]: "annotated d (fst (AppendLog now s d i st str q b))"
  unfolding AppendLog_def executeLeaseMutation_fst appendLogSQL_def annotated_def by (simp only: split: if_split sum.split prod.split) simp

lemma annotated_RecordImage [simp]: "annotated d (fst (RecordImage now s i img d))"
  by (simp add: RecordImage_def executeLeaseMutation_fst recordImageSQL_def Let_def annotated_def)

lemma annotated_chunks:
  "appendChunks (AppendLog now s) d w payload = Some (d', w') \<Longrightarrow> annotated d d'"
proof (induction "AppendLog now s" d w payload arbitrary: d' w' rule: appendChunks.induct)
  case (1 d w payload)
  show ?case
  proof (cases "payload = [] \<or> w_chunkSize w \<le> 0")
    case True
    then show ?thesis using "1.prems" by (auto simp: appendChunks.simps [of _ d w payload] split: if_splits)
  next
    case False
    define n where "n = min (nat (w_chunkSize w)) (length payload)"
    obtain d1 err where a: "AppendLog now s d (w_jobID w) (w_stepID w) (w_stream w) (w_sequence w + 1) (take n payload) = (d1, err)"
      by fastforce
    have 2: "annotated d d1" using a annotated_AppendLog by (metis fst_conv)
    have "annotated d1 d'"
      using "1.hyps" [OF _ _ n_def refl a [symmetric] refl] "1.prems" False a
      by (simp add: appendChunks.simps [of _ d w payload] n_def Let_def)
    then show ?thesis by (rule annotated_trans [OF 2])
  qed
qed

lemma annotated_write: "annotated (fst (snd l)) (fst (snd (fst (log_write p l b))))"
proof -
  obtain bd d w where l: "l = (bd, d, w)" by (metis prod_cases3)
  show ?thesis
    unfolding l
    by (auto simp: log_write_def log_stream_write_def writer_Write_def Let_def
        split: option.splits prod.splits if_splits dest!: annotated_chunks intro: annotated_trans)
qed

lemma annotated_logged: "logged p l l' \<Longrightarrow> annotated (fst (snd l)) (fst (snd l'))"
  unfolding logged_def
proof (induction rule: rtranclp_induct)
  case (step l1 l2)
  then show ?case using annotated_write [of l1 p] annotated_trans by blast
qed simp

lemma pipe_simps [simp]:
  "pi_state (set_fs fs pi) = pi_state pi" "pi_state (set_ext x pi) = pi_state pi"
  "pi_world (set_state f pi) = pi_world pi" "pi_state (set_state f pi) = f (pi_state pi)"
  "w_db (pi_world (set_fs fs pi)) = w_db (pi_world pi)" "w_db (pi_world (set_ext x pi)) = w_db (pi_world pi)"
  "w_ext (pi_world (set_fs fs pi)) = w_ext (pi_world pi)" "w_ext (pi_world (set_ext x pi)) = x"
  "pi_stdout (set_fs fs pi) = pi_stdout pi" "pi_stdout (set_ext x pi) = pi_stdout pi" "pi_stdout (set_state f pi) = pi_stdout pi"
  "pi_stderr (set_fs fs pi) = pi_stderr pi" "pi_stderr (set_ext x pi) = pi_stderr pi" "pi_stderr (set_state f pi) = pi_stderr pi"
  by (simp_all add: set_fs_def set_ext_def set_state_def)

subsection \<open>Commands\<close>

text \<open>A command of the runtime client: at most one, of the configured binary, not isolated, with the base's timeout.\<close>

definition ran_one :: "'x runtime_client \<Rightarrow> spec \<Rightarrow> 'x \<Rightarrow> 'x command_result \<Rightarrow> bool" where
  "ran_one c base x r \<longleftrightarrow> (\<exists>fs' err. r = ((fs', x), [], err)) \<or>
     (\<exists>fs1 sp w' out res e err. rc_exec c (fs1, x) sp = (w', out, res, e) \<and> r = (w', out, err) \<and>
        sp_Path sp = rt_BinaryPath (rc_config c) \<and> sp_Isolated sp = sp_Isolated base \<and> sp_Timeout sp = sp_Timeout base)"

lemma ran_none [simp]: "ran_one c base x ((fs', x), [], err)" by (simp add: ran_one_def)

lemma ran_exec:
  assumes "rc_exec c (fs1, x) sp = (w', out, res, e)" "sp_Path sp = rt_BinaryPath (rc_config c)"
    "sp_Isolated sp = sp_Isolated base" "sp_Timeout sp = sp_Timeout base"
  shows "ran_one c base x (w', out, err)"
  using assms unfolding ran_one_def by blast

lemma ran_transient [simp]: "ran_one c base x (runWithTransient c (fs1, x) ws tr args base stdin action)"
  unfolding runWithTransient_def Let_def by (auto split: prod.split intro!: ran_exec)

lemma ran_client [simp]:
  "ran_one c base x (client_Load c (fs, x) ws tar base)"
  "ran_one c base x (client_Tag c (fs, x) ws src dst base)"
  "ran_one c base x (client_Push pr c (fs, x) ws tr dst base)"
  "ran_one c base x (Login nt pr c (fs, x) ws tr cred base)"
  by (auto simp: client_Load_def client_Tag_def client_Push_def Login_def client_run_def Let_def
      split: prod.split sum.split option.split intro!: ran_exec)

lemma runtime_New_fields: "runtime_New nt fs cfg (Some e) = Inr c \<Longrightarrow> rc_config c = cfg \<and> rc_exec c = e"
  by (auto simp: runtime_New_def newClient_def Let_def split: option.splits sum.splits if_splits)

text \<open>
  The commands of a job: scripts of its profile, of a phase of its operation, that pass the approval
  check, run isolated with their own interpreter and arguments; when deploying, also the configured
  runtime binary. None runs longer than the profile allows.
\<close>

definition phases :: "job \<Rightarrow> string list" where
  "phases j = (if job_Operation j = OperationRollback then [''ROLLBACK''] else [''PRE_DEPLOY'', ''DEPLOY'', ''POST_DEPLOY''])"

definition job_command :: "'x processor \<Rightarrow> job \<Rightarrow> spec \<Rightarrow> bool" where
  "job_command p j sp \<longleftrightarrow> sp_Timeout sp \<le> CommandTimeout (job_Profile j) \<and>
     (if sp_Isolated sp
      then \<exists>s\<in>set (Scripts (job_Profile j)). script_Phase s \<in> set (phases j) \<and> validateApprovedScript p s = None \<and>
             sp_Path sp = script_InterpreterPath s \<and> (\<exists>path. sp_Args sp = path # script_Args s)
      else job_Operation j \<noteq> OperationRollback \<and> sp_Path sp = rt_BinaryPath (Runtime (job_Profile j)))"

lemma job_command_env [simp]: "job_command p j (sp\<lparr>sp_Env := env\<rparr>) = job_command p j sp"
  by (simp add: job_command_def)

definition client_ok :: "'x processor \<Rightarrow> 'x process_state \<Rightarrow> bool" where
  "client_ok p st \<longleftrightarrow>
     (\<forall>c. ps_runtime st = Some c \<longrightarrow> rc_exec c = p_executor p \<and> rc_config c = Runtime (job_Profile (ps_job st)))"

text \<open>The steps that use the runtime client rely on it being the one of the profile.\<close>

definition deploying :: "'x processor \<Rightarrow> 'x pipe \<Rightarrow> bool" where
  "deploying p pi \<longleftrightarrow> client_ok p (pi_state pi) \<and> job_Operation (pi_job pi) \<noteq> OperationRollback"

definition base_ok :: "spec \<Rightarrow> 'x pipe \<Rightarrow> bool" where
  "base_ok base pi \<longleftrightarrow> sp_Isolated base = False \<and> sp_Timeout base = CommandTimeout (pi_profile pi)"

text \<open>The fields of a job's state that no step changes.\<close>

definition same_job :: "'x process_state \<Rightarrow> 'x process_state \<Rightarrow> bool" where
  "same_job s s' \<longleftrightarrow> ps_job s' = ps_job s \<and> ps_settings s' = ps_settings s \<and> ps_workspace s' = ps_workspace s \<and>
     ps_transient s' = ps_transient s \<and> ps_extracted s' = ps_extracted s"

subsection \<open>The contract\<close>

locale step_relation =
  fixes p :: "'x processor" and R :: "'x pipe \<Rightarrow> 'x pipe \<Rightarrow> bool"
  assumes R_refl: "R pi pi"
    and R_trans: "R pi pi1 \<Longrightarrow> R pi1 pi2 \<Longrightarrow> R pi pi2"
    and R_job: "R pi pi' \<Longrightarrow> pi_job pi' = pi_job pi"
    and R_client: "R pi pi' \<Longrightarrow> client_ok p (pi_state pi) \<Longrightarrow> client_ok p (pi_state pi')"
    and R_fs: "R pi (set_fs fs pi)"
    and R_log: "logged p (log_of s pi) l \<Longrightarrow> R pi (set_log s l pi)"
    and R_image: "R pi (fst (record_image p img pi))"
    and R_state: "(\<And>s. same_job s (f s)) \<Longrightarrow> (client_ok p (pi_state pi) \<Longrightarrow> client_ok p (f (pi_state pi))) \<Longrightarrow> R pi (set_state f pi)"
    and R_check: "R pi (set_ext (fst (Check (p_checker p) chk (w_ext (pi_world pi)))) pi)"
    and R_digest: "job_registry p prof cred = Inr rg \<Longrightarrow> R pi (fst (query_digest p rg repo ref pi))"
    and R_exec: "job_command p (pi_job pi) sp \<Longrightarrow> p_executor p (fs0, w_ext (pi_world pi)) sp = ((fs', x'), r) \<Longrightarrow>
      R pi (set_ext x' (set_fs fs' pi))"
begin

lemma R_emit: "R pi (emit p evs pi)"
  unfolding emit_def
proof (induction evs arbitrary: pi)
  case (Cons ev evs)
  obtain s d where ev: "ev = (s, d)" by fastforce
  have "R pi (emit1 p ev pi)"
    unfolding ev emit1_def prod.case by (rule R_log) (rule logged_write, simp)
  then show ?case using Cons R_trans by fastforce
qed (simp add: R_refl)

lemma R_redact: "R pi (fst (fold (redact1 p) evs (pi, ro, re)))"
proof (induction evs arbitrary: pi ro re)
  case (Cons ev evs)
  obtain s d where ev: "ev = (s, d)" by fastforce
  obtain pi1 ro1 re1 where r: "redact1 p ev (pi, ro, re) = (pi1, ro1, re1)" by (metis prod_cases3)
  have "pi1 = set_log s (fst (redactor_Write (Some (log_write p)) (log_of s pi) (case s of Stdout \<Rightarrow> ro | Stderr \<Rightarrow> re) d)) pi"
    using r by (auto simp: ev redact1_def split: prod.splits)
  then have "R pi pi1" using R_log [OF logged_redactor(1)] by simp
  then show ?case using Cons [of pi1 ro1 re1] R_trans r by auto
qed (simp add: R_refl)

lemma R_flush: "R pi (fst (flush_redactors p (pi, ro, re)))"
proof -
  define l1 where "l1 = fst (redactor_Flush (Some (log_write p)) (log_of Stdout pi) ro)"
  define pi1 where "pi1 = set_log Stdout l1 pi"
  define l2 where "l2 = fst (redactor_Flush (Some (log_write p)) (log_of Stderr pi1) re)"
  have "fst (flush_redactors p (pi, ro, re)) = set_log Stderr l2 pi1"
    by (simp add: flush_redactors_def l1_def pi1_def l2_def Let_def split: prod.split)
  moreover have "R pi pi1" unfolding pi1_def l1_def by (rule R_log) (rule logged_redactor)
  moreover have "R pi1 (set_log Stderr l2 pi1)" unfolding l2_def by (rule R_log) (rule logged_redactor)
  ultimately show ?thesis using R_trans by simp
qed

lemma R_host:
  assumes "client_ok p (pi_state pi)" "ps_runtime (pi_state pi) = Some c" "job_Operation (pi_job pi) \<noteq> OperationRollback"
    and "ran_one c base (w_ext (pi_world pi)) (f (pi_fs pi, w_ext (pi_world pi)))"
    and "sp_Isolated base = False" "sp_Timeout base = CommandTimeout (pi_profile pi)"
  shows "R pi (fst (on_host p pi f))"
  using assms(4) unfolding ran_one_def
proof (elim disjE exE conjE)
  fix fs' err assume "f (pi_fs pi, w_ext (pi_world pi)) = ((fs', w_ext (pi_world pi)), [], err)"
  then have "fst (on_host p pi f) = set_fs fs' pi"
    by (simp add: on_host_def emit_def set_ext_def set_fs_def)
  then show ?thesis by (simp add: R_fs)
next
  fix fs1 sp w' out res e err
  assume r: "rc_exec c (fs1, w_ext (pi_world pi)) sp = (w', out, res, e)" "f (pi_fs pi, w_ext (pi_world pi)) = (w', out, err)"
    and sp: "sp_Path sp = rt_BinaryPath (rc_config c)" "sp_Isolated sp = sp_Isolated base" "sp_Timeout sp = sp_Timeout base"
  obtain fs' x' where w': "w' = (fs', x')" by fastforce
  have c: "rc_exec c = p_executor p" "rc_config c = Runtime (pi_profile pi)"
    using assms(1,2) by (auto simp: client_ok_def)
  have "job_command p (pi_job pi) sp" using sp c assms(3,5,6) by (simp add: job_command_def)
  then have "R pi (set_ext x' (set_fs fs' pi))" using R_exec r(1) c w' by metis
  then show ?thesis using R_emit R_trans by (auto simp: on_host_def r(2) w')
qed

lemma R_exec_emit:
  "job_command p (pi_job pi) sp \<Longrightarrow> p_executor p (fs0, w_ext (pi_world pi)) sp = ((fs', x'), out, res, err) \<Longrightarrow>
     R pi (emit p out (set_ext x' (set_fs fs' pi)))"
  by (rule R_trans [OF R_exec R_emit])

lemma R_redacted:
  assumes "job_command p (pi_job pi) sp" "p_executor p (fs0, w_ext (pi_world pi)) sp = ((fs', x'), out, res, err)"
    and "flush_redactors p (fold (redact1 p) out (set_ext x' (set_fs fs' pi), red, red)) = (pi3, e)"
  shows "R pi pi3"
proof -
  obtain pi2 ro re where f: "fold (redact1 p) out (set_ext x' (set_fs fs' pi), red, red) = (pi2, ro, re)" by (metis prod_cases3)
  have "R pi (set_ext x' (set_fs fs' pi))" using R_exec assms(1,2) by metis
  moreover have "R (set_ext x' (set_fs fs' pi)) pi2" using R_redact f by (metis fst_conv)
  moreover have "R pi2 pi3" using R_flush [of pi2 ro re] assms(3) f by simp
  ultimately show ?thesis using R_trans by blast
qed

lemma R_redacted_env:
  "flush_redactors p (fold (redact1 p) out (set_ext x' (set_fs fs' pi), red, red)) = (pi3, e) \<Longrightarrow>
   p_executor p (fs0, w_ext (pi_world pi)) (sp\<lparr>sp_Env := env\<rparr>) = ((fs', x'), out, res, err) \<Longrightarrow>
   job_command p (pi_job pi) sp \<Longrightarrow> R pi (set_fs fs4 pi3)"
  by (rule R_trans [OF R_redacted [where sp = "sp\<lparr>sp_Env := env\<rparr>"] R_fs]) simp_all

lemma R_script:
  assumes "job_command p (pi_job pi) sp"
  shows "R pi (fst (runApprovedScript p pi sp))"
proof (cases "cred_ID (TargetCredential (pi_job pi)) = []")
  case True
  then show ?thesis using assms
    by (auto simp: runApprovedScript_def Let_def split: prod.split intro!: R_exec_emit [where sp = "sp\<lparr>sp_Env := env\<rparr>" for env])
next
  case False
  then show ?thesis using assms
    by (auto simp: runApprovedScript_def Let_def R_refl R_fs split: sum.split prod.split option.split)
      (blast intro: R_redacted_env)+
qed

lemma R_scripts_loop:
  assumes "set ss \<subseteq> set (Scripts (pi_profile pi))" "phase \<in> set (phases (pi_job pi))"
  shows "R pi (fst (scripts_loop p phase dir i ss pi n))"
  using assms
proof (induction ss arbitrary: i pi n)
  case (Cons s ss)
  show ?case
  proof (cases "script_Phase s = phase \<and> validateApprovedScript p s = None")
    case False
    then show ?thesis using Cons by (auto simp: R_refl split: option.split)
  next
    case True
    define path where "path = path_join [dir, ''script-'' @ pad3 i @ ''-v'' @ int_text (script_Version s)]"
    define sp where "sp = \<lparr>sp_Path = script_InterpreterPath s, sp_Args = path # script_Args s,
      sp_Dir = ps_workspace (pi_state pi), sp_Env = restrictedEnv (pi_state pi), sp_Stdin = [],
      sp_Timeout = (if script_Timeout s \<le> 0 \<or> script_Timeout s > CommandTimeout (pi_profile pi)
        then CommandTimeout (pi_profile pi) else script_Timeout s), sp_Isolated = True\<rparr>"
    obtain fs1 e1 where w: "os_write_file (p_proc p) (pi_fs pi) path (script_Content s) (octal 6 4 0) = (fs1, e1)" by fastforce
    obtain pi2 res err where r: "runApprovedScript p (set_fs fs1 pi) sp = (pi2, res, err)" by (metis prod_cases3)
    obtain fs3 rm where m: "os_remove (pi_fs pi2) path = (fs3, rm)" by fastforce
    have "job_command p (pi_job (set_fs fs1 pi)) sp"
      using True Cons.prems by (auto simp: job_command_def sp_def)
    then have "R (set_fs fs1 pi) pi2" using R_script r by (metis fst_conv)
    then have 3: "R pi (set_fs fs3 pi2)" using R_fs R_trans by blast
    have 4: "R (set_fs fs3 pi2) (fst (scripts_loop p phase dir (Suc i) ss (set_fs fs3 pi2) (n + 1)))"
      by (rule Cons.IH) (use R_job [OF 3] Cons.prems in auto)
    show ?thesis
    proof (cases e1)
      case None
      have "scripts_loop p phase dir i (s # ss) pi n = (case errors_join [err, rm] of
          Some e \<Rightarrow> (set_fs fs3 pi2, no_result\<lparr>ExitCode := er_ExitCode res\<rparr>, Some (Wrap ''approved script'' e))
        | None \<Rightarrow> scripts_loop p phase dir (Suc i) ss (set_fs fs3 pi2) (n + 1))"
        using True w None r m by (simp add: path_def sp_def Let_def split del: if_split)
      then show ?thesis using 3 R_trans [OF 3 4] by (simp split: option.split)
    next
      case (Some e)
      then show ?thesis using True w by (simp add: path_def Let_def R_fs)
    qed
  qed
qed (simp add: R_refl)

lemma R_runScripts: "phase \<in> set (phases (pi_job pi)) \<Longrightarrow> R pi (fst (runScripts p phase stp pi))"
  by (auto simp: runScripts_def Let_def R_fs split: prod.split option.split intro!: R_trans [OF R_fs R_scripts_loop])

lemma R_deploy:
  assumes "job_Operation (pi_job pi) \<noteq> OperationRollback"
  shows "R pi (fst (deploy p stp pi))"
proof -
  obtain pi1 r1 e1 where 1: "runScripts p ''DEPLOY'' stp pi = (pi1, r1, e1)" by (metis prod_cases3)
  obtain pi2 r2 e2 where 2: "runScripts p ''POST_DEPLOY'' stp pi1 = (pi2, r2, e2)" by (metis prod_cases3)
  have a: "R pi pi1" using R_runScripts [of "''DEPLOY''" pi stp] assms 1 by (simp add: phases_def)
  have "R pi1 pi2" using R_runScripts [of "''POST_DEPLOY''" pi1 stp] assms R_job [OF a] 2 by (simp add: phases_def)
  note b = R_trans [OF a this]
  show ?thesis using a b by (simp add: deploy_def 1 2 split: option.split)
qed

lemma R_validateArtifact: "R pi (fst (validateArtifact p stp pi))"
  by (auto simp: validateArtifact_def Let_def R_fs client_ok_def same_job_def split: prod.split option.split
      intro!: R_trans [OF R_fs R_state])

lemma R_extractArtifact: "R pi (fst (extractArtifact p stp pi))"
  by (auto simp: extractArtifact_def R_fs split: prod.split)

lemma R_destination: "R pi (set_state (\<lambda>s. s\<lparr>ps_destinations := ps_destinations s @ [d]\<rparr>) pi)"
  by (rule R_state) (auto simp: same_job_def client_ok_def)

lemma R_inspect_loop: "R pi (fst (inspect_images_loop p c imgs pi))"
proof (induction imgs arbitrary: pi)
  case (Cons img imgs)
  show ?case
  proof (cases "Destination c (ri_Repository img) (ri_Tag img)")
    case (Inr d)
    define pi1 where "pi1 = set_state (\<lambda>s. s\<lparr>ps_destinations := ps_destinations s @ [d]\<rparr>) pi"
    obtain pi2 e where r: "record_image p (image_entry pi1 img d []) pi1 = (pi2, e)" by fastforce
    have "R pi pi1" unfolding pi1_def by (rule R_destination)
    then have 2: "R pi pi2" using R_trans R_image [of pi1 "image_entry pi1 img d []"] r by simp
    show ?thesis using 2 R_trans [OF 2 Cons.IH] Inr r
      by (simp add: pi1_def [symmetric] Let_def split: option.split)
  qed (simp add: R_refl)
qed (simp add: R_refl)

lemma R_inspectImages: "R pi (fst (inspectImages p stp pi))"
proof -
  have s: "runtime_New nt fs (Runtime (pi_profile pi)) (Some (p_executor p)) = Inr c \<Longrightarrow>
      R pi (set_state (\<lambda>s. s\<lparr>ps_images := imgs, ps_runtime := Some c\<rparr>) pi)" for nt fs c imgs
    by (rule R_state) (auto simp: same_job_def client_ok_def dest: runtime_New_fields)
  have l: "runtime_New nt fs (Runtime (pi_profile pi)) (Some (p_executor p)) = Inr c \<Longrightarrow>
      inspect_images_loop p c imgs (set_state (\<lambda>s. s\<lparr>ps_images := imgs, ps_runtime := Some c\<rparr>) pi) = (pi1, e) \<Longrightarrow> R pi pi1" for nt fs c imgs pi1 e
    using R_trans [OF s R_inspect_loop] by (metis fst_conv)
  show ?thesis
    by (auto simp: inspectImages_def Let_def R_refl split: sum.split prod.split option.split intro: l)
qed

lemma deploying_R: "R pi pi' \<Longrightarrow> deploying p pi \<Longrightarrow> deploying p pi'"
  using R_job R_client by (simp add: deploying_def)

lemma base_ok_R: "R pi pi' \<Longrightarrow> base_ok base pi \<Longrightarrow> base_ok base pi'"
  using R_job by (simp add: base_ok_def)

lemma base_ok_commandBase: "base_ok (commandBase (pi_state pi)) pi"
  by (simp add: base_ok_def commandBase_def)

lemma R_with_runtime:
  assumes "deploying p pi" "base_ok base pi" "\<And>c fs x. ran_one c base x (f c (fs, x))"
  shows "R pi (fst (with_runtime pi (\<lambda>c. on_host p pi (f c))))"
  using assms R_host [where base = base]
  by (auto simp: with_runtime_def deploying_def base_ok_def R_refl split: option.split)

lemma R_load_loop: "deploying p pi \<Longrightarrow> base_ok base pi \<Longrightarrow> R pi (fst (load_loop p base imgs pi))"
proof (induction imgs arbitrary: pi)
  case (Cons img imgs)
  obtain pi1 e where r: "with_runtime pi (\<lambda>c. on_host p pi (\<lambda>w. client_Load c w (ps_workspace (pi_state pi)) (ri_FilePath img) base)) = (pi1, e)"
    by fastforce
  have 1: "R pi pi1" using R_with_runtime [OF Cons.prems, of "\<lambda>c w. client_Load c w (ps_workspace (pi_state pi)) (ri_FilePath img) base"] r by simp
  have "R pi (fst (load_loop p base imgs pi1))"
    by (rule R_trans [OF 1 Cons.IH [OF deploying_R [OF 1 Cons.prems(1)] base_ok_R [OF 1 Cons.prems(2)]]])
  then show ?case using 1 r by (simp split: option.split)
qed (simp add: R_refl)

lemma R_tag_loop: "deploying p pi \<Longrightarrow> base_ok base pi \<Longrightarrow> R pi (fst (tag_loop p base i imgs pi))"
proof (induction imgs arbitrary: i pi)
  case (Cons img imgs)
  show ?case
  proof (cases "destination_at pi i")
    case (Some dst)
    define f where "f = (\<lambda>(c :: 'x runtime_client) w. client_Tag c w (ps_workspace (pi_state pi)) (ri_SourceRef img) dst base)"
    obtain pi1 e where r: "with_runtime pi (\<lambda>c. on_host p pi (f c)) = (pi1, e)" by fastforce
    have 1: "R pi pi1" using R_with_runtime [OF Cons.prems, of f] r by (simp add: f_def)
    have "R pi (fst (tag_loop p base (Suc i) imgs pi1))"
      by (rule R_trans [OF 1 Cons.IH [OF deploying_R [OF 1 Cons.prems(1)] base_ok_R [OF 1 Cons.prems(2)]]])
    then show ?thesis using 1 r Some by (simp add: f_def split: option.split)
  qed (simp add: R_refl)
qed (simp add: R_refl)

lemma R_push_loop:
  "job_registry p prof cred = Inr rg \<Longrightarrow> deploying p pi \<Longrightarrow> base_ok base pi \<Longrightarrow> R pi (fst (push_loop p rg base i imgs pi))"
proof (induction imgs arbitrary: i pi)
  case (Cons img imgs)
  show ?case
  proof (cases "destination_at pi i")
    case (Some dst)
    define f where "f = (\<lambda>(c :: 'x runtime_client) w. client_Push (p_proc p) c w (ps_workspace (pi_state pi)) (ps_transient (pi_state pi)) dst base)"
    obtain pi1 e where r: "with_runtime pi (\<lambda>c. on_host p pi (f c)) = (pi1, e)" by fastforce
    have 1: "R pi pi1" using R_with_runtime [OF Cons.prems(2,3), of f] r by (simp add: f_def)
    obtain pi2 g where q: "query_digest p rg (trim_cut (rt_RegistryProject (Runtime (pi_profile pi1))) [slash] @ ''/'' @ ri_Repository img)
        (ri_Tag img) pi1 = (pi2, g)" by fastforce
    have 2: "R pi pi2" using R_trans [OF 1 R_digest [OF Cons.prems(1)]] q by (metis fst_conv)
    show ?thesis
    proof (cases g)
      case (Inl a)
      then show ?thesis using r q Some 1 2 by (auto simp: f_def split: option.split)
    next
      case (Inr dg)
      obtain pi3 e3 where m: "record_image p (image_entry pi2 img dst dg) pi2 = (pi3, e3)" by fastforce
      have 3: "R pi pi3" using R_trans [OF 2 R_image] m by (metis fst_conv)
      have "R pi (fst (push_loop p rg base (Suc i) imgs pi3))"
        by (rule R_trans [OF 3 Cons.IH [OF Cons.prems(1) deploying_R [OF 3 Cons.prems(2)] base_ok_R [OF 3 Cons.prems(3)]]])
      then show ?thesis using 1 3 r q m Some Inr by (simp add: f_def split: option.split)
    qed
  qed (simp add: R_refl)
qed (simp add: R_refl)

lemma R_loadImages: "deploying p pi \<Longrightarrow> R pi (fst (loadImages p stp pi))"
  by (simp add: loadImages_def split_beta R_load_loop base_ok_commandBase)

lemma R_tagImages: "deploying p pi \<Longrightarrow> R pi (fst (tagImages p stp pi))"
  by (simp add: tagImages_def split_beta R_tag_loop base_ok_commandBase)

lemma R_pushImages:
  assumes "deploying p pi"
  shows "R pi (fst (pushImages p stp pi))"
proof (cases "decryptCredential p (Runtime (pi_profile pi))")
  case (Inr cred)
  define base where "base = commandBase (pi_state pi)"
  have b: "base_ok base pi" unfolding base_def by (rule base_ok_commandBase)
  define f where "f = (\<lambda>(c :: 'x runtime_client) w. Login (p_net p) (p_proc p) c w (ps_workspace (pi_state pi)) (ps_transient (pi_state pi)) cred base)"
  obtain pi1 e where r: "with_runtime pi (\<lambda>c. on_host p pi (f c)) = (pi1, e)" by fastforce
  have 1: "R pi pi1" using R_with_runtime [OF assms b, of f] r by (simp add: f_def)
  have 2: "R pi (fst (push_loop p rg base i imgs pi1))" if "job_registry p (pi_profile pi1) cred = Inr rg" for rg i imgs
    by (rule R_trans [OF 1 R_push_loop [OF that deploying_R [OF 1 assms] base_ok_R [OF 1 b]]])
  show ?thesis
    using r Inr 1 2 by (auto simp: pushImages_def Let_def f_def base_def split: option.split sum.split prod.split) (metis fst_conv)
qed (simp add: pushImages_def R_refl)

lemma R_rollback_loop:
  "job_registry p prof cred = Inr rg \<Longrightarrow> R pi (fst (rollback_loop p c rg project imgs pi))"
proof (induction imgs arbitrary: pi)
  case (Cons img imgs)
  define nd where "nd = ''sha256:'' @ to_lower (trim_prefix (img_Digest img) ''sha256:'')"
  obtain pi1 g where q: "query_digest p rg (project @ ''/'' @ trim_cut (img_Repository img) [slash]) nd pi = (pi1, g)" by fastforce
  have 1: "R pi pi1" using R_digest [OF Cons.prems] q by (metis fst_conv)
  define dr where "dr = trim_suffix (img_DestinationRef img) ('':'' @ img_Tag img) @ ''@'' @ nd"
  define pi2 where "pi2 = set_state (\<lambda>s. s\<lparr>ps_destinations := ps_destinations s @ [dr]\<rparr>) pi1"
  obtain pi3 e3 where m: "record_image p (img\<lparr>img_Digest := nd\<rparr>) pi2 = (pi3, e3)" by fastforce
  have "R pi pi2" unfolding pi2_def by (rule R_trans [OF 1 R_destination])
  then have 3: "R pi pi3" using R_trans R_image [of pi2 "img\<lparr>img_Digest := nd\<rparr>"] m by simp
  define pi4 where "pi4 = emit p [(Stdout, ''verified rollback image '' @ dr @ nl)] pi3"
  have 4: "R pi (fst (rollback_loop p c rg project imgs pi4))"
    unfolding pi4_def by (rule R_trans [OF R_trans [OF 3 R_emit] Cons.IH [OF Cons.prems]])
  show ?case
    using q m 1 3 4 unfolding rollback_loop.simps Let_def nd_def [symmetric]
    by (auto simp: R_refl dr_def pi2_def pi4_def split: sum.split option.split)
qed (simp add: R_refl)

lemma R_validateRollbackSource: "R pi (fst (validateRollbackSource p stp pi))"
proof -
  have "job_registry p prof cred = Inr rg \<Longrightarrow> rollback_loop p c rg project imgs pi = (pi1, e) \<Longrightarrow> R pi pi1"
    for prof cred rg c project imgs pi1 e using R_rollback_loop by (metis fst_conv)
  then show ?thesis
    by (auto simp: validateRollbackSource_def Let_def R_refl split: sum.split prod.split option.split)
qed

lemma R_verify_loop: "R pi (fst (verify_loop p i checks pi))"
proof (induction checks arbitrary: i pi)
  case (Cons check checks)
  obtain x e where c: "Check (p_checker p) check (w_ext (pi_world pi)) = (x, e)" by fastforce
  have 1: "R pi (set_ext x pi)" using R_check [of pi check] c by simp
  show ?case using 1 R_trans [OF R_trans [OF 1 R_emit] Cons.IH] c by (simp split: option.split)
qed (simp add: R_refl)

lemma R_verify: "R pi (fst (verify p stp pi))"
  using R_verify_loop [of pi] by (auto simp: verify_def split: prod.split option.split) (metis fst_conv)+

lemmas R_steps = R_validateArtifact R_extractArtifact R_inspectImages R_loadImages R_tagImages R_pushImages
  R_deploy R_validateRollbackSource R_runScripts R_verify

end

end
