(* ===== verification/Pipeline_Props.thy ===== *)
theory Pipeline_Props
  imports Pipeline_Trace
begin

text \<open>
  The properties of job processing: what a job may run, the order and the outcome of its steps, when it
  is recorded as done, the artifact it deploys, and what it leaves on the host.
\<close>

subsection \<open>What a step leaves alone\<close>

definition carries :: "'x processor \<Rightarrow> 'x pipe \<Rightarrow> 'x pipe \<Rightarrow> bool" where
  "carries p pi pi' \<longleftrightarrow> same_job (pi_state pi) (pi_state pi') \<and>
     (client_ok p (pi_state pi) \<longrightarrow> client_ok p (pi_state pi')) \<and> annotated (w_db (pi_world pi)) (w_db (pi_world pi'))"

lemma set_log_fields [simp]:
  "w_ext (pi_world (set_log s l pi)) = w_ext (pi_world pi)" "w_fs (pi_world (set_log s l pi)) = w_fs (pi_world pi)"
  "w_db (pi_world (set_log s l pi)) = fst (snd l)"
  "pi_state (set_log s l pi) = (pi_state pi)\<lparr>ps_budget := fst l\<rparr>"
  by (cases l; cases s; simp add: set_log_def)+

lemma log_of_db [simp]: "fst (snd (log_of s pi)) = w_db (pi_world pi)"
  by (simp add: log_of_def)

lemma record_image_fields [simp]:
  "pi_state (fst (record_image p img pi)) = pi_state pi"
  "w_ext (pi_world (fst (record_image p img pi))) = w_ext (pi_world pi)"
  "w_db (pi_world (fst (record_image p img pi))) = fst (RecordImage (p_now p) (p_store p) (job_ID (pi_job pi)) img (w_db (pi_world pi)))"
  by (simp_all add: record_image_def split: prod.split)

lemma query_digest_fields [simp]:
  "pi_state (fst (query_digest p rg repo ref pi)) = pi_state pi"
  "w_db (pi_world (fst (query_digest p rg repo ref pi))) = w_db (pi_world pi)"
  "w_ext (pi_world (fst (query_digest p rg repo ref pi))) = fst (Digest (p_net p) rg (w_ext (pi_world pi)) repo ref)"
  by (simp_all add: query_digest_def split: prod.split)

interpretation carry: step_relation p "carries p" for p :: "'x processor"
proof (unfold_locales, goal_cases)
  case (2 pi pi1 pi2) then show ?case by (auto simp: carries_def same_job_def intro: annotated_trans)
next
  case (6 s pi l) then show ?case using annotated_logged by (fastforce simp: carries_def same_job_def client_ok_def)
next
  case (8 f pi) then show ?case by (auto simp: carries_def same_job_def)
qed (auto simp: carries_def same_job_def)

subsection \<open>The commands of a job\<close>

text \<open>A processor whose world also keeps the commands that were started, in order.\<close>

definition beside :: "('y \<Rightarrow> 'y \<times> 'b) \<Rightarrow> 'y \<times> 't \<Rightarrow> ('y \<times> 't) \<times> 'b" where
  "beside f xt = (case xt of (x, t) \<Rightarrow> case f x of (x', b) \<Rightarrow> ((x', t), b))"

definition watch :: "'y processor \<Rightarrow> ('y \<times> spec list) processor" where
  "watch p =
     \<lparr>p_store = p_store p, p_now = p_now p, p_proc = p_proc p, p_secretBox = p_secretBox p,
      p_executor = traced (p_executor p),
      p_checker = \<lparr>net_http = (\<lambda>x r. beside (\<lambda>y. net_http (p_checker p) y r) x),
                   net_tcp = (\<lambda>x a t. beside (\<lambda>y. net_tcp (p_checker p) y a t) x),
                   net_wait = (\<lambda>x t. beside (\<lambda>y. net_wait (p_checker p) y t) x),
                   net_certificates = net_certificates (p_checker p)\<rparr>,
      p_credentialRoot = p_credentialRoot p, p_net = p_net p,
      p_transport = (\<lambda>ca insecure timeout x r. beside (\<lambda>y. p_transport p ca insecure timeout y r) x),
      p_token = p_token p, p_gzip = p_gzip p, p_untar = p_untar p, p_yaml = p_yaml p, p_tools = p_tools p,
      p_sha256 = p_sha256 p, p_credential = p_credential p, p_json = p_json p, p_suffixes = p_suffixes p\<rparr>"

lemma beside_snd [simp]: "snd (fst (beside f xt)) = snd xt"
  by (simp add: beside_def split: prod.split)

lemma Check_quiet:
  assumes "\<And>x r. snd (fst (net_http net x r)) = snd x" "\<And>x a t. snd (fst (net_tcp net x a t)) = snd x"
    "\<And>x t. snd (fst (net_wait net x t)) = snd x"
  shows "snd (fst (Check net chk x)) = snd x"
proof -
  have h: "snd (fst (checkHTTP net x chk)) = snd x" for x
  proof -
    obtain x1 z where r: "net_http net x \<lparr>hr_Method = http_method chk, hr_Address = hc_Address chk, hr_Headers = hc_Headers chk,
        hr_Insecure = hc_InsecureSkipVerify chk, hr_CAPEM = hc_CAPEM chk, hr_Timeout = hc_TimeoutSeconds chk\<rparr> = (x1, z)" by fastforce
    then have "snd x1 = snd x" using assms(1) by (metis fst_conv)
    then show ?thesis by (simp add: checkHTTP_def r split: sum.split prod.split)
  qed
  have t: "snd (fst (checkTCP net x chk)) = snd x" for x
  proof -
    obtain x1 z where r: "net_tcp net x (hc_Address chk) (hc_TimeoutSeconds chk) = (x1, z)" by fastforce
    then have "snd x1 = snd x" using assms(2) by (metis fst_conv)
    then show ?thesis by (simp add: checkTCP_def r split: option.split)
  qed
  have pr: "snd (fst (probe net x chk e)) = snd x" for x e
    by (simp add: probe_def Let_def h t)
  have "snd (fst (check_loop net chk k e x)) = snd x" for k e x
    using pr assms(3)
  proof (induction net chk k e x rule: check_loop.induct)
    case (1 net chk k e x)
    obtain x1 e1 where p1: "probe net x chk e = (x1, e1)" by fastforce
    obtain x2 e2 where w: "net_wait net x1 (hc_IntervalSeconds chk) = (x2, e2)" by fastforce
    have eq: "snd x1 = snd x" "snd x2 = snd x1"
      using "1.prems"(1) [of x e] "1.prems"(2) [of x1] p1 w by (simp, metis fst_conv)
    have ih: "k \<le> hc_Attempts chk \<Longrightarrow> e1 = Some e' \<Longrightarrow> k \<noteq> hc_Attempts chk \<Longrightarrow> e2 = None \<Longrightarrow>
        snd (fst (check_loop net chk (k + 1) (Some e') x2)) = snd x2" for e'
      using "1.IH" [OF _ p1 [symmetric], of e'] w "1.prems" by simp
    show ?case
      unfolding check_loop.simps [of net chk k e x] using p1 w eq ih by (auto split: option.split)
  qed
  then show ?thesis by (simp add: Check_def split: option.split)
qed

lemma Digest_quiet:
  assumes "\<And>x r. snd (fst (rg_http rg x r)) = snd x"
  shows "snd (fst (Digest nt rg x repo ref)) = snd x"
proof -
  have q: "rg_http rg x r = (x', z) \<Longrightarrow> snd x' = snd x" for x r x' z using assms by (metis fst_conv)
  have c: "snd (fst (case rg_http rg x r of (x', Inl e) \<Rightarrow> (x', A e) | (x', Inr y) \<Rightarrow> (x', B y))) = snd x"
    for x r and A :: "error \<Rightarrow> string result" and B
    by (cases "rg_http rg x r") (simp add: q split: sum.split)
  have e: "snd (fst (exchangeBearerToken nt rg x h)) = snd x" for x h
    by (simp add: exchangeBearerToken_def c split: sum.split option.split)
  define u where "u = nt_render nt ((rg_baseURL rg)\<lparr>u_Path := trim_right_cut (u_Path (rg_baseURL rg)) [slash] @ ''/v2/'' @
    join_with ''/'' (map path_escape (split_char slash (trim_cut repo [slash]))) @ ''/manifests/'' @ path_escape ref\<rparr>)"
  obtain x1 z1 where 1: "rg_http rg x (digestRequest rg u []) = (x1, z1)" by fastforce
  have s: "snd (fst (case exchangeBearerToken nt rg x1 h of (x2, Inl e) \<Rightarrow> (x2, Inl (Wrap m e))
      | (x2, Inr token) \<Rightarrow> (case rg_http rg x2 (digestRequest rg u token) of (x3, Inl e) \<Rightarrow> (x3, Inl (Wrap m' e))
          | (x3, Inr resp') \<Rightarrow> (x3, digest_response resp')))) = snd x" for h m m'
    using e [of x1 h] q [OF 1] by (cases "exchangeBearerToken nt rg x1 h") (simp add: c split: sum.split)
  show ?thesis
    unfolding Digest_def Let_def u_def [symmetric] 1 using q [OF 1] s by (simp split: sum.split)
qed

definition watched :: "('y \<times> spec list) processor \<Rightarrow> ('y \<times> spec list) pipe \<Rightarrow> ('y \<times> spec list) pipe \<Rightarrow> bool" where
  "watched p pi pi' \<longleftrightarrow> carries p pi pi' \<and>
     (\<exists>sps. snd (w_ext (pi_world pi')) = snd (w_ext (pi_world pi)) @ sps \<and> (\<forall>sp\<in>set sps. job_command p (pi_job pi) sp))"

lemma watched_same: "carries p pi pi' \<Longrightarrow> snd (w_ext (pi_world pi')) = snd (w_ext (pi_world pi)) \<Longrightarrow> watched p pi pi'"
  by (simp add: watched_def)

interpretation watching: step_relation "watch p" "watched (watch p)" for p :: "'y processor"
proof (unfold_locales, goal_cases)
  case (1 pi) show ?case by (rule watched_same) (simp_all add: carry.R_refl)
next
  case (2 pi pi1 pi2)
  then obtain a b where "snd (w_ext (pi_world pi1)) = snd (w_ext (pi_world pi)) @ a" "\<forall>sp\<in>set a. job_command (watch p) (pi_job pi) sp"
    "snd (w_ext (pi_world pi2)) = snd (w_ext (pi_world pi1)) @ b" "\<forall>sp\<in>set b. job_command (watch p) (pi_job pi1) sp"
    and c: "carries (watch p) pi pi1" "carries (watch p) pi1 pi2" unfolding watched_def by blast
  then have "snd (w_ext (pi_world pi2)) = snd (w_ext (pi_world pi)) @ (a @ b)" "\<forall>sp\<in>set (a @ b). job_command (watch p) (pi_job pi) sp"
    using carry.R_job [OF c(1)] by auto
  then show ?case using carry.R_trans [OF c] unfolding watched_def by blast
next
  case (3 pi pi') then show ?case using carry.R_job by (auto simp: watched_def)
next
  case (4 pi pi') then show ?case using carry.R_client by (auto simp: watched_def)
next
  case (5 pi fs) show ?case by (rule watched_same) (simp_all add: carry.R_fs)
next
  case (6 s pi l) then show ?case by (intro watched_same) (simp_all add: carry.R_log)
next
  case (7 pi img) show ?case by (rule watched_same) (simp_all add: carry.R_image)
next
  case (8 f pi) then show ?case by (intro watched_same carry.R_state) simp_all
next
  case (9 pi chk) show ?case
    by (rule watched_same) (simp_all add: carry.R_check, rule Check_quiet, simp_all add: watch_def)
next
  case (10 prof cred rg pi repo ref)
  then have "rg_http rg = p_transport (watch p) (rt_RegistryCAPEM (Runtime prof)) (rt_RegistryInsecure (Runtime prof)) (CommandTimeout prof)"
    by (auto simp: job_registry_def NewRegistryClient_def split: sum.splits if_splits)
  then show ?case
    by (intro watched_same carry.R_digest [OF 10]) (simp, rule Digest_quiet, simp add: watch_def)
next
  case (11 pi sp fs0 fs' x' r)
  then have "snd x' = snd (w_ext (pi_world pi)) @ [sp]"
    by (auto simp: watch_def traced_def split: prod.splits)
  then show ?case using 11 carry.R_exec [OF 11] by (auto simp: watched_def)
qed

subsection \<open>One step\<close>

definition step_pipe :: "'x world \<Rightarrow> 'x process_state \<Rightarrow> db \<Rightarrow> step \<Rightarrow> 'x pipe" where
  "step_pipe w st d stp =
     (let writer = (\<lambda>stream. NewWriter (job_ID (ps_job st)) (step_ID stp) stream (LogChunkBytes (ps_settings st)))
      in \<lparr>pi_world = w\<lparr>w_db := d\<rparr>, pi_state = st, pi_stdout = writer ''stdout'', pi_stderr = writer ''stderr''\<rparr>)"

lemma step_pipe_fields [simp]: "pi_state (step_pipe w st d stp) = st" "pi_world (step_pipe w st d stp) = w\<lparr>w_db := d\<rparr>"
  by (simp_all add: step_pipe_def Let_def)

lemma withStep_cases:
  assumes "withStep p status fn (w, st) = ((w', st'), err)"
  obtains (refused) d e where "BeginStep (p_now p) (p_store p) (job_ID (ps_job st)) status (w_db w) = (d, Inl e)"
      "w' = w\<lparr>w_db := d\<rparr>" "st' = st" "err = Some e"
  | (ran) d stp pi result runErr ok result1 d2 finishErr where
      "BeginStep (p_now p) (p_store p) (job_ID (ps_job st)) status (w_db w) = (d, Inr stp)"
      "fn stp (step_pipe w st d stp) = (pi, result, runErr)"
      "FinishStep (p_now p) (p_store p) stp ok result1 (w_db (pi_world pi)) = (d2, finishErr)"
      "w' = (pi_world pi)\<lparr>w_db := d2\<rparr>" "st' = pi_state pi" "err = None \<longleftrightarrow> ok \<and> finishErr = None" "ok \<Longrightarrow> runErr = None"
proof (cases "BeginStep (p_now p) (p_store p) (job_ID (ps_job st)) status (w_db w)")
  case (Pair d r)
  show ?thesis
  proof (cases r)
    case (Inl e)
    have "withStep p status fn (w, st) = ((w\<lparr>w_db := d\<rparr>, st), Some e)"
      by (simp only: withStep_def prod.case Pair Inl sum.case)
    then show ?thesis using assms refused [of d e] Pair Inl by simp
  next
    case (Inr stp)
    obtain pi result runErr where f: "fn stp (step_pipe w st d stp) = (pi, result, runErr)" by (metis prod_cases3)
    define logErr where "logErr = errors_join [writer_Err (pi_stdout pi), writer_Err (pi_stderr pi)]"
    define runErr1 where "runErr1 = (case logErr of None \<Rightarrow> runErr | Some e \<Rightarrow> errors_join [runErr, Some (Wrap ''persist command output'' e)])"
    define result1 where "result1 = (case runErr1 of None \<Rightarrow> result
      | Some e \<Rightarrow> if Message result = [] then result\<lparr>Message := pipeline_truncate (error_text e) 2000\<rparr> else result)"
    obtain d2 finishErr where fin: "FinishStep (p_now p) (p_store p) stp (runErr1 = None) result1 (w_db (pi_world pi)) = (d2, finishErr)" by fastforce
    have "withStep p status fn (w, st) =
        (((pi_world pi)\<lparr>w_db := d2\<rparr>, pi_state pi), case finishErr of None \<Rightarrow> runErr1 | Some e \<Rightarrow> errors_join [runErr1, Some e])"
      by (simp only: withStep_def prod.case Pair Inr sum.case Let_def f [unfolded step_pipe_def Let_def]
          logErr_def [symmetric] runErr1_def [symmetric] result1_def [symmetric] fin)
    then have "w' = (pi_world pi)\<lparr>w_db := d2\<rparr>" "st' = pi_state pi"
      and e: "err = (case finishErr of None \<Rightarrow> runErr1 | Some e \<Rightarrow> errors_join [runErr1, Some e])"
      using assms by simp_all
    moreover have "err = None \<longleftrightarrow> runErr1 = None \<and> finishErr = None" unfolding e by (cases finishErr) auto
    moreover have "runErr1 = None \<Longrightarrow> runErr = None" by (auto simp: runErr1_def split: option.splits)
    ultimately show ?thesis using ran Pair Inr f fin by auto
  qed
qed

text \<open>Step numbers are handed out in ascending order.\<close>

definition fresh_steps :: "db \<Rightarrow> bool" where
  "fresh_steps d \<longleftrightarrow> (\<forall>s\<in>set (release_job_steps d). sr_id s < next_step_id d)"

lemma BeginStep_ok:
  assumes "BeginStep now s i status d = (d', Inr stp)"
  obtains r where "release_job_steps d' = release_job_steps d @ [r]" "sr_id r = next_step_id d" "sr_job_id r = i" "sr_name r = status"
    "sr_status r = ''RUNNING''" "next_step_id d' = next_step_id d + 1" "step_ID stp = next_step_id d" "step_JobID stp = i"
    "release_jobs d' = update_where (lease_row i (workerID s)) (\<lambda>j. j\<lparr>jr_status := status, jr_updated_at := Some now\<rparr>) (release_jobs d)"
  using assms by (auto simp: BeginStep_def Let_def insert_step_def update_jobs_def sync_release_def split: if_splits option.splits)

lemma BeginStep_refused: "BeginStep now s i status d = (d', Inl e) \<Longrightarrow> d' = d"
  by (auto simp: BeginStep_def Let_def split: if_splits option.splits)

lemma FinishStep_last:
  assumes "FinishStep now s stp ok res d = (d', err)" "release_job_steps d = xs @ [r]"
    and "\<forall>x\<in>set xs. sr_id x < step_ID stp" "sr_id r = step_ID stp" "sr_job_id r = step_JobID stp" "sr_status r = ''RUNNING''"
  obtains r' where "release_job_steps d' = xs @ [r']" "sr_id r' = sr_id r" "sr_name r' = sr_name r" "sr_job_id r' = sr_job_id r"
    "sr_status r' = ''SUCCESS'' \<longleftrightarrow> ok \<and> err = None" "d' = d\<lparr>release_job_steps := release_job_steps d'\<rparr>"
proof -
  define g where "g = (\<lambda>x :: step_row. x\<lparr>sr_status := if ok then ''SUCCESS'' else ''FAILED'', sr_exit_code := Some (ExitCode res),
    sr_message := nullif_empty (Message res), sr_metadata := coalesce ''{}'' (nullableJSON (Metadata res)), sr_finished_at := Some now\<rparr>)"
  define own where "own \<longleftrightarrow> owns_job d (step_JobID stp) (workerID s)"
  have x: "x \<in> set xs \<Longrightarrow> sr_id x \<noteq> step_ID stp" for x using assms(3) by fastforce
  then have 1: "update_where (\<lambda>x. sr_id x = step_ID stp \<and> sr_job_id x = step_JobID stp \<and> own) g xs = xs"
    by (intro update_where_none) auto
  have 2: "rows_affected (\<lambda>x. sr_id x = step_ID stp \<and> sr_job_id x = step_JobID stp \<and> own) (xs @ [r]) = (if own then 1 else 0)"
    using x assms(4,5) by (auto simp: rows_affected_def filter_empty_conv)
  have 3: "update_where (\<lambda>x. sr_id x = step_ID stp \<and> sr_job_id x = step_JobID stp \<and> own) g (xs @ [r]) = xs @ [if own then g r else r]"
    using 1 assms(4,5) by (simp add: update_where_def)
  have "d' = d\<lparr>release_job_steps := xs @ [if own then g r else r]\<rparr>" "err = None \<longleftrightarrow> own"
    using assms(1) 2 3 unfolding FinishStep_def finishStepSQL_def executeLeaseMutation_def Let_def assms(2) own_def [symmetric] g_def [symmetric]
    by (auto split: if_splits)
  then show ?thesis using that [of "if own then g r else r"] assms(6) by (auto simp: g_def)
qed

subsection \<open>The order of the steps\<close>

text \<open>
  The states a job goes through, in order. The rows that a run adds to the table of steps are a prefix
  of them: steps that succeeded, then at most one that did not.
\<close>

definition job_statuses :: "job \<Rightarrow> job_status list" where
  "job_statuses j =
     (if job_Operation j = OperationRollback then [StatusValidating, StatusRollback, StatusVerifying]
      else StatusValidating #
        (if job_Operation j = OperationDeploy \<and> (\<exists>s\<in>set (Scripts (job_Profile j)). script_Phase s = ''PRE_DEPLOY'') then [StatusPreCheck] else []) @
        [StatusExtracting, StatusImageInspect, StatusImageLoad, StatusImageTag, StatusImagePush, StatusDeploying, StatusVerifying])"

definition steps_run :: "job_status list \<Rightarrow> string \<Rightarrow> step_row list \<Rightarrow> bool \<Rightarrow> bool" where
  "steps_run statuses jobID rows complete \<longleftrightarrow>
     map sr_name rows = take (length rows) statuses \<and> (\<forall>r\<in>set rows. sr_job_id r = jobID) \<and>
     (\<exists>n. (\<forall>r\<in>set (take n rows). sr_status r = ''SUCCESS'') \<and> (\<forall>r\<in>set (drop n rows). sr_status r \<noteq> ''SUCCESS'') \<and>
          length rows \<le> Suc n \<and> (complete \<longleftrightarrow> n = length statuses \<and> length rows = n))"

lemma steps_run_Nil: "statuses \<noteq> [] \<Longrightarrow> steps_run statuses i [] False"
  by (auto simp: steps_run_def)

lemma steps_run_complete: "steps_run [] i [] True" by (simp add: steps_run_def)

lemma steps_run_Cons:
  assumes "steps_run statuses i rows c" "sr_name r = st" "sr_job_id r = i" "sr_status r = ''SUCCESS''"
  shows "steps_run (st # statuses) i (r # rows) c"
proof -
  obtain n where "\<forall>r\<in>set (take n rows). sr_status r = ''SUCCESS''" "\<forall>r\<in>set (drop n rows). sr_status r \<noteq> ''SUCCESS''"
    "length rows \<le> Suc n" "c \<longleftrightarrow> n = length statuses \<and> length rows = n" using assms(1) by (auto simp: steps_run_def)
  then show ?thesis using assms unfolding steps_run_def by (intro conjI exI [of _ "Suc n"]) auto
qed

lemma steps_run_failed:
  "sr_name r = st \<Longrightarrow> sr_job_id r = i \<Longrightarrow> sr_status r \<noteq> ''SUCCESS'' \<Longrightarrow> steps_run (st # statuses) i [r] False"
  unfolding steps_run_def by (intro conjI exI [of _ 0]) auto

definition unfinished :: "string \<Rightarrow> db \<Rightarrow> bool" where
  "unfinished i d \<longleftrightarrow> (\<forall>r\<in>set (release_jobs d). jr_id r = i \<longrightarrow> \<not> terminal (jr_status r))"

lemma annotated_fields:
  assumes "annotated d d'"
  shows "release_job_steps d' = release_job_steps d" "next_step_id d' = next_step_id d" "release_jobs d' = release_jobs d"
    "release_locks d' = release_locks d"
  using assms by (metis annotated_def db.select_convs db.surjective db.update_convs)+

lemma rollback_plan_cases:
  assumes "(status, fn) \<in> set (rollback_plan p)"
  obtains "status = StatusValidating" "fn = validateRollbackSource p" | "status = StatusRollback" "fn = runScripts p ''ROLLBACK''"
  | "status = StatusVerifying" "fn = verify p"
  using assms unfolding rollback_plan_def by auto

lemma deploy_plan_cases:
  assumes "(status, fn) \<in> set (deploy_plan p j)"
  obtains "status = StatusValidating" "fn = validateArtifact p" | "status = StatusPreCheck" "fn = runScripts p ''PRE_DEPLOY''"
  | "status = StatusExtracting" "fn = extractArtifact p" | "status = StatusImageInspect" "fn = inspectImages p"
  | "status = StatusImageLoad" "fn = loadImages p" | "status = StatusImageTag" "fn = tagImages p"
  | "status = StatusImagePush" "fn = pushImages p" | "status = StatusDeploying" "fn = deploy p" | "status = StatusVerifying" "fn = verify p"
  using assms unfolding deploy_plan_def by (auto split: if_splits)

lemma withStep_row:
  assumes "withStep p status fn (w, st) = ((w', st'), err)" "fresh_steps (w_db w)" "unfinished (job_ID (ps_job st)) (w_db w)"
    and "\<not> terminal status"
    and fn: "\<And>stp pi. client_ok p (pi_state pi) \<Longrightarrow> pi_job pi = ps_job st \<Longrightarrow> carries p pi (fst (fn stp pi))"
    and "client_ok p st"
  obtains rows where "release_job_steps (w_db w') = release_job_steps (w_db w) @ rows" "length rows \<le> 1"
    "\<forall>r\<in>set rows. sr_name r = status \<and> sr_job_id r = job_ID (ps_job st) \<and> (sr_status r = ''SUCCESS'' \<longleftrightarrow> err = None)"
    "err = None \<Longrightarrow> rows \<noteq> []" "fresh_steps (w_db w')" "unfinished (job_ID (ps_job st)) (w_db w')" "same_job st st'" "client_ok p st'"
  using assms(1)
proof (cases rule: withStep_cases)
  case (refused d e)
  have "d = w_db w" using BeginStep_refused [OF refused(1)] .
  then show ?thesis using that [of "[]"] refused assms by (auto simp: same_job_def)
next
  case (ran d stp pi result runErr ok result1 d2 finishErr)
  obtain r where b: "release_job_steps d = release_job_steps (w_db w) @ [r]" "sr_id r = next_step_id (w_db w)"
    "sr_job_id r = job_ID (ps_job st)" "sr_name r = status" "sr_status r = ''RUNNING''" "next_step_id d = next_step_id (w_db w) + 1"
    "step_ID stp = next_step_id (w_db w)" "step_JobID stp = job_ID (ps_job st)"
    and jobs: "release_jobs d = update_where (lease_row (job_ID (ps_job st)) (workerID (p_store p)))
      (\<lambda>j. j\<lparr>jr_status := status, jr_updated_at := Some (p_now p)\<rparr>) (release_jobs (w_db w))"
    using BeginStep_ok [OF ran(1)] by metis
  have c: "carries p (step_pipe w st d stp) pi" using fn [of "step_pipe w st d stp" stp] ran(2) assms(6) by simp
  then have a: "annotated d (w_db (pi_world pi))" and s: "same_job st (pi_state pi)" "client_ok p (pi_state pi)"
    using assms(6) by (auto simp: carries_def)
  note eq = annotated_fields [OF a]
  obtain r' where f: "release_job_steps d2 = release_job_steps (w_db w) @ [r']" "sr_id r' = sr_id r" "sr_name r' = sr_name r"
      "sr_job_id r' = sr_job_id r" "sr_status r' = ''SUCCESS'' \<longleftrightarrow> ok \<and> finishErr = None"
    and d2: "d2 = (w_db (pi_world pi))\<lparr>release_job_steps := release_job_steps d2\<rparr>"
    using FinishStep_last [OF ran(3), of "release_job_steps (w_db w)" r] eq b assms(2) unfolding fresh_steps_def by metis
  have t: "next_step_id d2 = next_step_id d" "release_jobs d2 = release_jobs d" using eq by (subst d2, simp)+
  have "fresh_steps (w_db w')" using assms(2) f b t ran(4) by (auto simp: fresh_steps_def)
  moreover have "unfinished (job_ID (ps_job st)) (w_db w')"
    using assms(3,4) t jobs ran(4) by (auto simp: unfinished_def update_where_def)
  ultimately show ?thesis
    using that [of "[r']"] f b ran(4,5,6) s by simp
qed

lemma run_steps_rows:
  assumes "run_steps p plan (w, st) = ((w', st'), err)" "fresh_steps (w_db w)" "unfinished (job_ID (ps_job st)) (w_db w)"
    and "\<And>status fn stp pi. (status, fn) \<in> set plan \<Longrightarrow> client_ok p (pi_state pi) \<Longrightarrow> pi_job pi = ps_job st \<Longrightarrow>
      \<not> terminal status \<and> carries p pi (fst (fn stp pi))"
    and "client_ok p st"
  shows "(\<exists>rows. release_job_steps (w_db w') = release_job_steps (w_db w) @ rows \<and>
      steps_run (map fst plan) (job_ID (ps_job st)) rows (err = None)) \<and> unfinished (job_ID (ps_job st)) (w_db w') \<and> same_job st st'"
  using assms
proof (induction plan arbitrary: w st)
  case Nil
  then show ?case by (auto simp: steps_run_complete same_job_def)
next
  case (Cons step plan)
  obtain status fn where sf: "step = (status, fn)" by fastforce
  obtain w1 st1 err1 where 1: "withStep p status fn (w, st) = ((w1, st1), err1)" by (metis surj_pair)
  have fn: "\<not> terminal status" "\<And>stp pi. client_ok p (pi_state pi) \<Longrightarrow> pi_job pi = ps_job st \<Longrightarrow> carries p pi (fst (fn stp pi))"
    using Cons.prems(4) [of status fn] Cons.prems(4) [of status fn "step_pipe w st d stp" for d stp] Cons.prems(5) sf by auto
  obtain rows where r: "release_job_steps (w_db w1) = release_job_steps (w_db w) @ rows" "length rows \<le> 1"
    "\<forall>r\<in>set rows. sr_name r = status \<and> sr_job_id r = job_ID (ps_job st) \<and> (sr_status r = ''SUCCESS'' \<longleftrightarrow> err1 = None)"
    "err1 = None \<Longrightarrow> rows \<noteq> []" "fresh_steps (w_db w1)" "unfinished (job_ID (ps_job st)) (w_db w1)" "same_job st st1" "client_ok p st1"
    using withStep_row [OF 1 Cons.prems(2,3) fn(1) fn(2) Cons.prems(5)] by blast
  have j: "ps_job st1 = ps_job st" using r(7) by (simp add: same_job_def)
  show ?case
  proof (cases err1)
    case (Some e)
    then have w: "w' = w1" "st' = st1" "err \<noteq> None" using Cons.prems(1) 1 sf by auto
    have "steps_run (map fst (step # plan)) (job_ID (ps_job st)) rows False"
      using r(2,3) Some sf by (cases rows) (auto intro: steps_run_Nil steps_run_failed)
    then show ?thesis using w r by auto
  next
    case None
    then obtain a where a: "rows = [a]" using r(2,4) by (cases rows) auto
    have "run_steps p plan (w1, st1) = ((w', st'), err)" using Cons.prems(1) 1 sf None by simp
    then obtain rest where rest: "release_job_steps (w_db w') = release_job_steps (w_db w1) @ rest"
        "steps_run (map fst plan) (job_ID (ps_job st)) rest (err = None)" and u: "unfinished (job_ID (ps_job st)) (w_db w')" "same_job st1 st'"
      using Cons.IH [of w1 st1] r(5,6,8) j Cons.prems(4) by (metis list.set_intros(2))
    have "steps_run (map fst (step # plan)) (job_ID (ps_job st)) (a # rest) (err = None)"
      using steps_run_Cons [OF rest(2), of a status] r(3) a None sf by simp
    then show ?thesis using rest r(1) a u r(7) by (auto simp: same_job_def)
  qed
qed

lemma plan_ok:
  assumes "pi_job pi = j" "client_ok p (pi_state pi)"
  shows "(status, fn) \<in> set (rollback_plan p) \<Longrightarrow> job_Operation j = OperationRollback \<Longrightarrow> \<not> terminal status \<and> carries p pi (fst (fn stp pi))"
    and "(status, fn) \<in> set (deploy_plan p j) \<Longrightarrow> job_Operation j \<noteq> OperationRollback \<Longrightarrow> \<not> terminal status \<and> carries p pi (fst (fn stp pi))"
proof -
  show "(status, fn) \<in> set (rollback_plan p) \<Longrightarrow> job_Operation j = OperationRollback \<Longrightarrow> \<not> terminal status \<and> carries p pi (fst (fn stp pi))"
    using assms carry.R_steps [where p = p and pi = pi and stp = stp]
    by (elim rollback_plan_cases) (simp_all add: phases_def)
  show "(status, fn) \<in> set (deploy_plan p j) \<Longrightarrow> job_Operation j \<noteq> OperationRollback \<Longrightarrow> \<not> terminal status \<and> carries p pi (fst (fn stp pi))"
    using assms carry.R_steps [where p = p and pi = pi and stp = stp]
    by (elim deploy_plan_cases) (simp_all add: phases_def deploying_def)
qed

lemma plan_statuses:
  "map fst (rollback_plan p) = [StatusValidating, StatusRollback, StatusVerifying]"
  "job_Operation j \<noteq> OperationRollback \<Longrightarrow> map fst (deploy_plan p j) = job_statuses j"
proof -
  have "hasPhase ss phase \<longleftrightarrow> (\<exists>s\<in>set ss. script_Phase s = phase)" for ss phase by (induction ss) auto
  then show "job_Operation j \<noteq> OperationRollback \<Longrightarrow> map fst (deploy_plan p j) = job_statuses j"
    by (simp add: deploy_plan_def job_statuses_def)
qed (simp add: rollback_plan_def)

lemma pipeline_run_rows:
  assumes "pipeline_run p (w, st) = ((w', st'), err)" "fresh_steps (w_db w)" "unfinished (job_ID (ps_job st)) (w_db w)" "client_ok p st"
  shows "(\<exists>rows. release_job_steps (w_db w') = release_job_steps (w_db w) @ rows \<and>
      steps_run (job_statuses (ps_job st)) (job_ID (ps_job st)) rows (err = None)) \<and> unfinished (job_ID (ps_job st)) (w_db w') \<and> same_job st st'"
proof (cases "job_Operation (ps_job st) = OperationRollback")
  case True
  then have "run_steps p (rollback_plan p) (w, st) = ((w', st'), err)" using assms(1) by (simp add: pipeline_run_def runManualRollback_def)
  note run = run_steps_rows [OF this assms(2,3) _ assms(4), unfolded plan_statuses]
  have "job_statuses (ps_job st) = [StatusValidating, StatusRollback, StatusVerifying]" using True by (simp add: job_statuses_def)
  then show ?thesis by (simp only:) (rule run, rule plan_ok(1), assumption+, rule True)
next
  case False
  then have "run_steps p (deploy_plan p (ps_job st)) (w, st) = ((w', st'), err)" using assms(1) by (simp add: pipeline_run_def)
  note run = run_steps_rows [OF this assms(2,3) _ assms(4), unfolded plan_statuses(2) [OF False]]
  show ?thesis by (rule run, rule plan_ok(2), assumption+, rule False)
qed

subsection \<open>A whole job\<close>

lemma finish_cases:
  assumes "finish p i status m w = (w', err)"
  obtains (failed) e where "w' = w" "err = Some e"
  | (finished) "err = None" "release_job_steps (w_db w') = release_job_steps (w_db w)" "w_fs w' = w_fs w" "w_ext w' = w_ext w"
      "release_jobs (w_db w') = update_where (lease_row i (workerID (p_store p))) (finish_row (p_now p) status m) (release_jobs (w_db w))"
      "rows_affected (lease_row i (workerID (p_store p))) (release_jobs (w_db w)) = 1"
proof -
  obtain d where f: "FinishJob (p_now p) (p_store p) i status m (w_db w) = (d, err)" "w' = w\<lparr>w_db := d\<rparr>"
    using assms by (auto simp: finish_def split: prod.splits)
  show ?thesis
  proof (cases err)
    case None
    then show ?thesis using finished FinishJob_tables [of "p_now p" "p_store p" i status m "w_db w" d] f by simp
  next
    case (Some e)
    have "d = w_db w" using f(1) by (cases rule: FinishJob_cases) (use Some in auto)
    then show ?thesis using failed f Some by simp
  qed
qed

definition succeeded :: "string \<Rightarrow> db \<Rightarrow> bool" where
  "succeeded i d \<longleftrightarrow> (\<exists>r\<in>set (release_jobs d). jr_id r = i \<and> (jr_status r = StatusSuccess \<or> jr_status r = StatusRolledBack))"

lemma unfinished_not_succeeded: "unfinished i d \<Longrightarrow> \<not> succeeded i d"
  by (auto simp: unfinished_def succeeded_def)

lemma finish_failed:
  assumes "unfinished i (w_db w)"
  shows "\<not> succeeded i (w_db (fst (finish p i StatusFailed m w)))"
    "release_job_steps (w_db (fst (finish p i StatusFailed m w))) = release_job_steps (w_db w)"
proof -
  obtain w' err where f: "finish p i StatusFailed m w = (w', err)" by fastforce
  then have "\<not> succeeded i (w_db w') \<and> release_job_steps (w_db w') = release_job_steps (w_db w)"
  proof (cases rule: finish_cases)
    case failed then show ?thesis using assms unfinished_not_succeeded by simp
  next
    case finished
    then show ?thesis using assms by (auto simp: succeeded_def unfinished_def update_where_def finish_row_def)
  qed
  then show "\<not> succeeded i (w_db (fst (finish p i StatusFailed m w)))"
    "release_job_steps (w_db (fst (finish p i StatusFailed m w))) = release_job_steps (w_db w)" using f by auto
qed

lemma finish_succeeded:
  assumes "finish p i status m w = (w', None)" "status = StatusSuccess \<or> status = StatusRolledBack"
  shows "succeeded i (w_db w')"
  using assms(1)
proof (cases rule: finish_cases)
  case finished
  then obtain r where "r \<in> set (release_jobs (w_db w))" "lease_row i (workerID (p_store p)) r" using rows_affected_1 by blast
  then have "finish_row (p_now p) status m r \<in> set (release_jobs (w_db w'))" "jr_id r = i"
    using finished by (auto simp: update_where_def lease_row_def)
  moreover have "jr_id (finish_row (p_now p) status m r) = jr_id r" "jr_status (finish_row (p_now p) status m r) = status"
    by (simp_all add: finish_row_def)
  ultimately show ?thesis using assms(2) unfolding succeeded_def by metis
qed simp

lemma process_body_cases:
  assumes "process_body p hb (w, st) = (w', err, ok)"
  obtains w1 st1 runErr fs2 status m finishErr where "pipeline_run p (w, st) = ((w1, st1), runErr)"
    "finish p (job_ID (ps_job st)) status m (w1\<lparr>w_fs := fs2\<rparr>) = (w', finishErr)"
    "status = StatusFailed \<and> err \<noteq> None \<or> (status = StatusSuccess \<or> status = StatusRolledBack) \<and> runErr = None \<and> err = finishErr"
proof -
  let ?i = "job_ID (ps_job st)"
  obtain w1 st1 runErr where 1: "pipeline_run p (w, st) = ((w1, st1), runErr)" by (metis surj_pair)
  define runErr1 where "runErr1 = (case hb of None \<Rightarrow> runErr | Some e \<Rightarrow> if errors_is e ContextCanceled then runErr else errors_join [runErr, Some e])"
  obtain fs2 ce where c: "cleanupRuntimeCredentials (w_fs w1) (ps_transient st1) = (fs2, ce)" by fastforce
  define w2 where "w2 = w1\<lparr>w_fs := fs2\<rparr>"
  define runErr2 where "runErr2 = (case ce of None \<Rightarrow> runErr1 | Some e \<Rightarrow> errors_join [runErr1, Some e])"
  have none: "runErr2 = None \<Longrightarrow> runErr = None"
    by (auto simp: runErr2_def runErr1_def split: option.splits if_splits)
  define okStatus where "okStatus = (if job_Operation (ps_job st) = OperationRollback then StatusRolledBack else StatusSuccess)"
  have body: "process_body p hb (w, st) = (case runErr2 of
      Some e \<Rightarrow> (case finish p ?i StatusFailed (pipeline_truncate (error_text e) 4000) w2 of
          (w3, Some finishErr) \<Rightarrow> (w3, errors_join [Some e, Some finishErr], False) | (w3, None) \<Rightarrow> (w3, Some e, False))
    | None \<Rightarrow> (case finish p ?i okStatus [] w2 of (w3, Some finishErr) \<Rightarrow> (w3, Some finishErr, False) | (w3, None) \<Rightarrow> (w3, None, True)))"
    by (simp only: process_body_def Let_def snd_conv 1 prod.case c runErr1_def [symmetric] runErr2_def [symmetric] w2_def [symmetric] okStatus_def)
  show ?thesis
  proof (cases runErr2)
    case (Some e)
    obtain w3 fe where f: "finish p ?i StatusFailed (pipeline_truncate (error_text e) 4000) w2 = (w3, fe)" by fastforce
    then have w': "w' = w3" "err \<noteq> None" using assms(1) body Some by (auto simp: errors_join_Some_iff split: option.splits)
    then show ?thesis using that [OF 1 f [folded w'(1), unfolded w2_def]] by simp
  next
    case None
    obtain w3 fe where f: "finish p ?i okStatus [] w2 = (w3, fe)" by fastforce
    then have w': "w' = w3" "err = fe" using assms(1) body None by (auto split: option.splits)
    then show ?thesis using that [OF 1 f [folded w'(1), unfolded w2_def]] none [OF None] by (simp add: okStatus_def)
  qed
qed

lemma process_body_rows:
  assumes "process_body p hb (w, st) = (w', err, ok)" "fresh_steps (w_db w)" "unfinished (job_ID (ps_job st)) (w_db w)" "client_ok p st"
  shows "\<exists>rows complete. release_job_steps (w_db w') = release_job_steps (w_db w) @ rows \<and>
      steps_run (job_statuses (ps_job st)) (job_ID (ps_job st)) rows complete \<and>
      (succeeded (job_ID (ps_job st)) (w_db w') \<longrightarrow> complete) \<and> (err = None \<longrightarrow> succeeded (job_ID (ps_job st)) (w_db w'))"
proof -
  let ?i = "job_ID (ps_job st)"
  from assms(1) obtain w1 st1 runErr fs2 status m finishErr where 1: "pipeline_run p (w, st) = ((w1, st1), runErr)"
    and f: "finish p ?i status m (w1\<lparr>w_fs := fs2\<rparr>) = (w', finishErr)"
    and s: "status = StatusFailed \<and> err \<noteq> None \<or> (status = StatusSuccess \<or> status = StatusRolledBack) \<and> runErr = None \<and> err = finishErr"
    by (rule process_body_cases)
  obtain rows where rows: "release_job_steps (w_db w1) = release_job_steps (w_db w) @ rows"
      "steps_run (job_statuses (ps_job st)) ?i rows (runErr = None)" and u: "unfinished ?i (w_db w1)"
    using pipeline_run_rows [OF 1 assms(2,3,4)] by blast
  have steps: "release_job_steps (w_db w') = release_job_steps (w_db w1)" using f by (cases rule: finish_cases) auto
  show ?thesis
  proof (cases "status = StatusFailed")
    case True
    have "\<not> succeeded ?i (w_db w')" using finish_failed(1) [of ?i "w1\<lparr>w_fs := fs2\<rparr>" p m] u f True by simp
    then show ?thesis using rows steps s True by auto
  next
    case False
    then have "err = None \<longrightarrow> succeeded ?i (w_db w')" using finish_succeeded [of p ?i status m "w1\<lparr>w_fs := fs2\<rparr>" w'] f s by auto
    then show ?thesis using rows steps s False by auto
  qed
qed

lemma cleanup_job_db:
  assumes "cleanup_job p sett j ws ok (w, err) = (w', err')"
  shows "w_db w' = w_db w" "w_ext w' = w_ext w" "err' = None \<Longrightarrow> err = None"
proof -
  obtain fs1 ce where r: "RemoveCredentialJobDirectory (w_fs w) (p_credentialRoot p) (job_ID j) = (fs1, ce)" by fastforce
  define err1 where "err1 = (case ce of None \<Rightarrow> err | Some e \<Rightarrow> errors_join [err, Some (Wrap ''cleanup transient credentials'' e)])"
  have e: "err1 = None \<Longrightarrow> err = None" by (auto simp: err1_def split: option.splits)
  show "w_db w' = w_db w" "w_ext w' = w_ext w" "err' = None \<Longrightarrow> err = None"
    using assms e unfolding cleanup_job_def Let_def prod.case r err1_def [symmetric]
    by (auto split: if_splits prod.splits option.splits)
qed

lemma Process_cases:
  assumes "Process p hb sett (Some j) w = (w', err)"
  obtains (failed) e v where "w' = finishFailure p (job_ID j) e v" "w_db v = w_db w" "w_ext v = w_ext w" "err \<noteq> None"
  | (ran) fs1 workspace fs2 transient w3 e3 ok where
      "createWorkspace (p_proc p) (p_suffixes p) (w_fs w) (WorkspaceRoot sett) (job_ID j) = (fs1, Inr workspace)"
      "CreateCredentialJobDirectory (p_proc p) fs1 (p_credentialRoot p) (job_ID j) = (fs2, Inr transient)"
      "process_body p hb (w\<lparr>w_fs := fs2\<rparr>, job_state sett j workspace transient) = (w3, e3, ok)"
      "cleanup_job p sett j workspace ok (w3, e3) = (w', err)"
proof (cases "validateOperation j")
  case (Some e)
  show ?thesis by (rule failed [of e w]) (use assms in \<open>auto simp: Process_def Some\<close>)
next
  case None
  obtain fs1 r where c: "createWorkspace (p_proc p) (p_suffixes p) (w_fs w) (WorkspaceRoot sett) (job_ID j) = (fs1, r)" by fastforce
  obtain fs2 t where d: "CreateCredentialJobDirectory (p_proc p) fs1 (p_credentialRoot p) (job_ID j) = (fs2, t)" by fastforce
  note defs = Process_def None c d
  show ?thesis
  proof (cases r)
    case (Inl e)
    show ?thesis by (rule failed [of "Wrap ''create isolated workspace'' e" "w\<lparr>w_fs := fs1\<rparr>"])
      (use assms in \<open>auto simp: defs Inl\<close>)
  next
    case ws: (Inr workspace)
    show ?thesis
    proof (cases t)
      case (Inl e)
      show ?thesis by (rule failed [of "Wrap ''create transient credential directory'' e"
            "w\<lparr>w_fs := fst (cleanupWorkspace fs2 (WorkspaceRoot sett) workspace)\<rparr>"]) (use assms in \<open>auto simp: defs ws Inl\<close>)
    next
      case (Inr transient)
      obtain w3 e3 ok where b: "process_body p hb (w\<lparr>w_fs := fs2\<rparr>, job_state sett j workspace transient) = (w3, e3, ok)"
        by (metis prod_cases3)
      have "cleanup_job p sett j workspace ok (w3, e3) = (w', err)" using assms by (simp add: defs ws Inr b)
      then show ?thesis using ran c d ws Inr b by blast
    qed
  qed
qed

lemma job_state_fields [simp]: "ps_job (job_state sett j ws tr) = j" "client_ok p (job_state sett j ws tr)"
  by (simp_all add: job_state_def client_ok_def)

text \<open>
  C14 (job_runs_its_steps_in_order): the rows that processing a job adds to the table of steps are a prefix of the
  states of its operation, in order: steps recorded as SUCCESS and then at most one that is not. A job is recorded
  as SUCCESS or ROLLED_BACK only if every step is there and succeeded, and it is when \<open>Process\<close> returns no error.
\<close>

theorem job_runs_its_steps_in_order:
  assumes "Process p hb sett (Some j) w = (w', err)" "fresh_steps (w_db w)" "unfinished (job_ID j) (w_db w)"
  shows "\<exists>rows complete. release_job_steps (w_db w') = release_job_steps (w_db w) @ rows \<and>
      steps_run (job_statuses j) (job_ID j) rows complete \<and>
      (succeeded (job_ID j) (w_db w') \<longrightarrow> complete) \<and> (err = None \<longrightarrow> succeeded (job_ID j) (w_db w'))"
  using assms(1)
proof (cases rule: Process_cases)
  case (failed e v)
  then show ?thesis
    using finish_failed [of "job_ID j" v] assms(3)
    by (intro exI [of _ "[]"] exI [of _ False]) (auto simp: finishFailure_def job_statuses_def intro!: steps_run_Nil)
next
  case (ran fs1 workspace fs2 transient w3 e3 ok)
  then show ?thesis
    using process_body_rows [OF ran(3)] cleanup_job_db [OF ran(4)] assms(2,3) by auto
qed

subsection \<open>Which commands a job starts\<close>

lemma run_steps_watched:
  assumes "run_steps (watch p) plan (w, st) = ((w', st'), err)" "client_ok (watch p) st"
    and "\<And>status fn stp pi. (status, fn) \<in> set plan \<Longrightarrow> client_ok (watch p) (pi_state pi) \<Longrightarrow> pi_job pi = ps_job st \<Longrightarrow>
      watched (watch p) pi (fst (fn stp pi))"
  shows "\<exists>sps. snd (w_ext w') = snd (w_ext w) @ sps \<and> (\<forall>sp\<in>set sps. job_command (watch p) (ps_job st) sp)"
  using assms
proof (induction plan arbitrary: w st)
  case (Cons step plan)
  obtain status fn where sf: "step = (status, fn)" by fastforce
  obtain w1 st1 err1 where 1: "withStep (watch p) status fn (w, st) = ((w1, st1), err1)" by (metis surj_pair)
  have "client_ok (watch p) st1 \<and> ps_job st1 = ps_job st \<and>
      (\<exists>sps. snd (w_ext w1) = snd (w_ext w) @ sps \<and> (\<forall>sp\<in>set sps. job_command (watch p) (ps_job st) sp))"
    using 1
  proof (cases rule: withStep_cases)
    case refused then show ?thesis using Cons.prems(2) by simp
  next
    case (ran d stp pi result runErr ok result1 d2 finishErr)
    have "watched (watch p) (step_pipe w st d stp) pi"
      using Cons.prems(3) [of status fn "step_pipe w st d stp" stp] Cons.prems(2) sf ran(2) by simp
    then show ?thesis using ran(4,5) Cons.prems(2) by (auto simp: watched_def carries_def same_job_def)
  qed
  then obtain sps where 2: "client_ok (watch p) st1" "ps_job st1 = ps_job st" "snd (w_ext w1) = snd (w_ext w) @ sps"
    "\<forall>sp\<in>set sps. job_command (watch p) (ps_job st) sp" by blast
  show ?case
  proof (cases err1)
    case (Some e)
    then have "w' = w1" using Cons.prems(1) 1 sf by auto
    then show ?thesis using 2 by blast
  next
    case None
    then have "run_steps (watch p) plan (w1, st1) = ((w', st'), err)" using Cons.prems(1) 1 sf by simp
    then obtain more where "snd (w_ext w') = snd (w_ext w1) @ more" "\<forall>sp\<in>set more. job_command (watch p) (ps_job st) sp"
      using Cons.IH [of w1 st1] Cons.prems(3) 2(1,2) by (metis list.set_intros(2))
    then have "snd (w_ext w') = snd (w_ext w) @ (sps @ more)" "\<forall>sp\<in>set (sps @ more). job_command (watch p) (ps_job st) sp"
      using 2 by auto
    then show ?thesis by blast
  qed
qed simp

lemma watched_plan_ok:
  assumes "(status, fn) \<in> set (if job_Operation j = OperationRollback then rollback_plan (watch p) else deploy_plan (watch p) j)"
    and "client_ok (watch p) (pi_state pi)" "pi_job pi = j"
  shows "watched (watch p) pi (fst (fn stp pi))"
proof (cases "job_Operation j = OperationRollback")
  case True
  then show ?thesis using assms watching.R_steps [where p = p and pi = pi and stp = stp]
    by (auto elim!: rollback_plan_cases simp: phases_def)
next
  case False
  then show ?thesis using assms watching.R_steps [where p = p and pi = pi and stp = stp]
    by (auto elim!: deploy_plan_cases simp: phases_def deploying_def)
qed


subsection \<open>A rejected artifact\<close>

text \<open>
  A small host: docker, and one directory of the runner that is the root of workspaces and of credentials. The
  artifact is the file of the binary, and its digest is not the one the job expects. The functions of the
  processor are constants of their own, so that evaluation does not look into them.
\<close>

definition deploy_host :: fs where
  "deploy_host =
     [([], root_inode Directory), ([''c''], owned Directory (octal 7 1 0) False), ([''usr''], root_inode Directory),
      ([''usr'', ''bin''], root_inode Directory), ([''usr'', ''bin'', ''docker''], root_inode (Regular ''tar''))]"

definition deploy_script :: script where
  "deploy_script = \<lparr>script_ID = ''s1'', script_Name = ''deploy'', script_Version = 1, script_Phase = ''DEPLOY'',
     script_InterpreterPath = ''/bin/sh'', script_SHA256 = [], script_Content = ''true'', script_Args = [''-x''],
     script_Timeout = 0, script_ApprovedAt = Some 1\<rparr>"

definition deploy_job :: job where
  "deploy_job =
     \<lparr>job_ID = ''j1'', job_ReleaseID = ''r1'', RollbackSourceReleaseID = [], RollbackSourceJobID = [],
      job_Application = ''shop'', job_Version = ''1'', job_Environment = ''prod'', job_LockKey = ''shop/prod'',
      ArtifactPath = ''docker'', ExpectedSHA256 = [], ManifestPath = ''m'', job_Operation = OperationDeploy, job_Attempt = 1,
      job_Profile = \<lparr>profile_ID = ''p1'', profile_Name = ''prod'',
        Extraction = \<lparr>MaxArchiveBytes = 9, MaxExtractedBytes = 9, MaxFiles = 2, MaxImages = 1, AllowSymlinks = False\<rparr>,
        Runtime = docker_config, HealthChecks = [], Scripts = [deploy_script], CommandTimeout = 60, MaxLogBytes = 9,
        AutoRollback = False, CleanupWorkspace = True, KeepFailedWorkspace = True\<rparr>,
      TargetCredential = \<lparr>cred_ID = [], cred_Type = [], cred_Version = 0, cred_Ciphertext = [], cred_AAD = []\<rparr>,
      RollbackImages = []\<rparr>"

definition deploy_settings :: settings where
  "deploy_settings = \<lparr>PollInterval = 1, LockRetry = 1, SettingsRefresh = 1, HeartbeatInterval = 1, StaleJobAfter = 3,
     WorkspaceRoot = ''/c'', ArtifactRoot = ''/usr/bin'', CommandPath = ''/bin'', LogChunkBytes = 4\<rparr>"

fun deploy_tar :: "bytes \<Rightarrow> tar_next list" where
  "deploy_tar b = [Entry \<lparr>hdr_Name = ''m'', hdr_Typeflag = TypeReg, hdr_Size = 1, hdr_Linkname = []\<rparr> ''m'']"

fun deploy_yaml :: "bytes \<Rightarrow> release result" where
  "deploy_yaml b = Inr \<lparr>rel_Application = ''shop'', rel_Version = ''1'', rel_Images = []\<rparr>"

fun zero_digest :: "bytes \<Rightarrow> bytes" where "zero_digest b = replicate 32 (CHR 0x00)"

fun no_tar :: "bytes \<Rightarrow> 'a result" where "no_tar b = Inl (Err ''not supported'')"

fun empty_json :: "(string \<times> meta) list \<Rightarrow> string" where "empty_json m = ''{}''"

fun no_http :: "string \<Rightarrow> bool \<Rightarrow> int \<Rightarrow> nat http" where "no_http ca insecure timeout n r = (n, Inl (Err ''offline''))"

fun https_url :: "string \<Rightarrow> url result" where "https_url s = Inr (demo_url ''https'' ''r'')"

fun no_health :: "nat \<Rightarrow> health_request \<Rightarrow> nat \<times> (int \<times> bytes result) result" where "no_health n r = (n, Inl (Err ''offline''))"

fun no_tcp :: "nat \<Rightarrow> string \<Rightarrow> int \<Rightarrow> nat \<times> error option" where "no_tcp n a t = (n, None)"

fun no_wait :: "nat \<Rightarrow> int \<Rightarrow> nat \<times> error option" where "no_wait n t = (n, None)"

fun no_pem :: "string \<Rightarrow> bool" where "no_pem s = False"

fun no_seal :: "bytes \<Rightarrow> bytes \<Rightarrow> bytes \<Rightarrow> bytes" where "no_seal nonce b aad = b"

fun no_open :: "bytes \<Rightarrow> bytes \<Rightarrow> bytes \<Rightarrow> bytes result" where "no_open nonce b aad = Inr b"

definition deploy_processor :: "nat processor" where
  "deploy_processor =
     \<lparr>p_store = demo_store, p_now = 9, p_proc = runner_proc, p_secretBox = \<lparr>Seal = no_seal, Open = no_open\<rparr>,
      p_executor = quiet_exec, p_checker = \<lparr>net_http = no_health, net_tcp = no_tcp, net_wait = no_wait, net_certificates = no_pem\<rparr>,
      p_credentialRoot = ''/c'', p_net = \<lparr>nt_parse = https_url, nt_render = u_Host, nt_certificates = no_pem, nt_quote = rev\<rparr>,
      p_transport = no_http, p_token = no_tar, p_gzip = no_tar, p_untar = deploy_tar, p_yaml = deploy_yaml,
      p_tools = \<lparr>it_docker = no_tar, it_oci = no_tar, it_untar = deploy_tar\<rparr>, p_sha256 = zero_digest,
      p_credential = no_tar, p_json = empty_json, p_suffixes = [''1'']\<rparr>"

text \<open>The tables after the claim, without those that a run does not read.\<close>

definition deploy_db :: db where
  "deploy_db = \<lparr>release_jobs = [\<lparr>jr_id = ''j1'', jr_release_id = ''r1'', jr_rollback_source_release_id = None,
      jr_rollback_source_job_id = None, jr_target_credential_id = None, jr_target_credential_version = None, jr_application = [],
      jr_version = [], jr_environment = [], jr_lock_key = ''k'', jr_artifact_path = [], jr_expected_sha256 = [], jr_manifest_path = [],
      jr_operation = OperationDeploy, jr_attempts = 1, jr_profile_id = [], jr_status = StatusValidating, jr_available_at = 0,
      jr_runner_labels = [], jr_priority = 0, jr_created_at = 0, jr_locked_by = Some ''w1'', jr_locked_at = None,
      jr_heartbeat_at = None, jr_started_at = None, jr_finished_at = None, jr_updated_at = None, jr_failure_message = None\<rparr>],
     release_locks = [\<lparr>lk_lock_key = ''k'', lk_job_id = ''j1'', lk_worker_id = ''w1'', lk_acquired_at = 0, lk_heartbeat_at = 0\<rparr>],
     release_job_steps = [], next_step_id = 1, release_job_logs = [], release_images = [],
     releases = [\<lparr>rl_id = ''r1'', rl_application_id = ''a'', rl_environment_id = ''e'', rl_status = [], rl_updated_at = 0\<rparr>],
     runner_instances = [], deployment_heads = [], target_credentials = [], runner_credentials = [], deployment_profiles = [],
     script_versions = [], deployment_profile_scripts = [], runner_settings = []\<rparr>"

definition deploy_world :: "'x \<Rightarrow> 'x world" where
  "deploy_world x = \<lparr>w_fs = deploy_host, w_db = deploy_db, w_ext = x\<rparr>"

abbreviation deploy_result :: "(nat \<times> spec list) world \<times> error option" where
  "deploy_result \<equiv> Process (watch deploy_processor) None deploy_settings (Some deploy_job) (deploy_world (0, []))"

lemma deploy_run:
  "(case deploy_result of (w, e) \<Rightarrow> (e, snd (w_ext w), map (\<lambda>r. (sr_name r, sr_status r)) (release_job_steps (w_db w)))) =
     (Some (Wrap ''VALIDATING'' (Err ''SHA256 mismatch'')), [], [(StatusValidating, ''FAILED'')])"
  by code_simp

theorem job_runs_its_steps_in_order_witness:
  "snd deploy_result \<noteq> None \<and> \<not> succeeded ''j1'' (w_db (fst deploy_result)) \<and>
     (\<exists>r. release_job_steps (w_db (fst deploy_result)) = [r] \<and> sr_status r = ''FAILED'' \<and> sr_job_id r = ''j1'')"
proof -
  obtain w' e where r: "deploy_result = (w', e)" by fastforce
  then have ev: "e \<noteq> None" "map (\<lambda>r. (sr_name r, sr_status r)) (release_job_steps (w_db w')) = [(StatusValidating, ''FAILED'')]"
    using deploy_run by simp_all
  have d: "job_ID deploy_job = ''j1''" "w_db (deploy_world (0 :: nat, [] :: spec list)) = deploy_db" "release_job_steps deploy_db = []"
    by (simp_all add: deploy_job_def deploy_world_def deploy_db_def)
  have h: "fresh_steps deploy_db" "unfinished ''j1'' deploy_db" by code_simp+
  obtain complete where c: "steps_run (job_statuses deploy_job) ''j1'' (release_job_steps (w_db w')) complete"
    "succeeded ''j1'' (w_db w') \<longrightarrow> complete"
    using job_runs_its_steps_in_order [OF r] h unfolding d by auto
  obtain a where a: "release_job_steps (w_db w') = [a]" "sr_status a = ''FAILED''" using ev(2) by auto
  have "\<not> complete" using c(1) a by (auto simp: steps_run_def job_statuses_def deploy_job_def)
  then show ?thesis using r ev c a by (auto simp: steps_run_def)
qed


end
