(* ===== verification/Pipeline_Files.thy ===== *)
theory Pipeline_Files
  imports Pipeline_Props
begin

text \<open>
  What a job does on the file system of the host: the artifact it stages and what it leaves behind.
\<close>

subsection \<open>The staged artifact\<close>

lemma path_rel_inside:
  assumes "is_abs base" "is_abs targ" "path_rel base targ = Inr rel" "rel \<noteq> dotdot" "\<not> has_prefix rel ''../''"
  shows "prefix (comps base) (comps targ)"
proof (cases "path_clean base = path_clean targ")
  case True
  then show ?thesis by (metis comps_clean prefix_order.refl)
next
  case False
  obtain b t where bt: "strip_common (comps base) (comps targ) = (b, t)" by fastforce
  then obtain cs where cs: "comps base = cs @ b" "comps targ = cs @ t" using strip_common_spec [of "comps base" "comps targ"] by auto
  have rel: "rel = join_with [slash] (replicate (length b) dotdot @ t)"
    using assms(1-3) False bt by (auto simp: path_rel_def rel_elems_def split: if_splits)
  have "b = []"
  proof (rule ccontr)
    assume "b \<noteq> []"
    then obtain n where "rel = join_with [slash] (dotdot # (replicate n dotdot @ t))" using rel by (cases b) auto
    then have "rel = dotdot \<or> has_prefix rel ''../''"
      by (cases "replicate n dotdot @ t = []") (auto simp: join_with_Cons_Cons has_prefix_def)
    then show False using assms(4,5) by blast
  qed
  then show ?thesis using cs by simp
qed

lemma safeArtifact_ok:
  assumes "safeArtifact fs root relative = Inr source"
  obtains rootReal where "eval_symlinks fs root = Inr rootReal" "prefix (comps rootReal) (comps source)"
    "eval_symlinks fs source = Inr source" "\<exists>info. os_lstat fs source = Inr info \<and> is_regular info"
proof -
  from assms obtain rootReal rel info where r: "eval_symlinks fs root = Inr rootReal"
    "path_rel rootReal (path_join [rootReal, path_clean relative]) = Inr rel" "rel \<noteq> dotdot" "\<not> has_prefix rel ''../''"
    "source = path_join [rootReal, path_clean relative]" "eval_symlinks fs source = Inr source"
    "os_lstat fs source = Inr info" "is_regular info"
    by (auto simp: safeArtifact_def Let_def split: if_splits sum.splits)
  have abs: "is_abs rootReal" "is_abs source"
    using r(1,6) by (auto simp: eval_symlinks_def path_render_def split: sum.splits option.splits)
  show ?thesis using that [OF r(1) _ r(6)] path_rel_inside [OF abs r(2) [folded r(5)] r(3,4)] r(7,8) by blast
qed

lemma limit_read_whole: "int (length (limit_read (m + 1) b)) \<le> m \<Longrightarrow> limit_read (m + 1) b = b"
  by (auto simp: limit_read_def split: if_splits)

text \<open>
  C30 (staged_artifact_is_authentic): when the validation step succeeds, the artifact of the job is the file
  \<open>release-package\<close> of the workspace; it did not exist before, it is a byte for byte copy of a regular file whose
  real path lies below the artifact root, its SHA-256 is the one expected, and it is within the size limit.
\<close>

theorem staged_artifact_is_authentic:
  assumes "validateArtifact p stp pi = (pi', result, None)"
    and "is_abs (ps_workspace (pi_state pi))" "real_dir (pi_fs pi) (comps (ps_workspace (pi_state pi)))"
  shows "\<exists>source rootReal b. eval_symlinks (pi_fs pi) (ArtifactRoot (ps_settings (pi_state pi))) = Inr rootReal \<and>
    prefix (comps rootReal) (comps source) \<and> eval_symlinks (pi_fs pi) source = Inr source \<and>
    os_read_file (pi_fs pi) source = Inr b \<and> os_read_file (pi_fs pi') (ps_artifact (pi_state pi')) = Inr b \<and>
    comps (ps_artifact (pi_state pi')) = comps (ps_workspace (pi_state pi)) @ [''release-package''] \<and>
    node_at (pi_fs pi) (comps (ps_artifact (pi_state pi'))) = None \<and>
    equal_fold (hex_encode (p_sha256 p b)) (ExpectedSHA256 (pi_job pi)) \<and>
    int (length b) \<le> MaxArchiveBytes (Extraction (pi_profile pi))"
proof -
  let ?st = "pi_state pi" and ?fs = "pi_fs pi"
  let ?max = "MaxArchiveBytes (Extraction (pi_profile pi))"
  let ?ws = "comps (ps_workspace ?st)"
  define dest where "dest = path_join [ps_workspace ?st, ''release-package'']"
  have nn: "normal_name ''release-package''" by code_simp
  have cf: "clean_form True (?ws @ [''release-package''])" using comps_form [of "ps_workspace ?st"] assms(2) nn by auto
  have dest: "dest = path_render True (?ws @ [''release-package''])"
    unfolding dest_def by (rule path_join_below [OF assms(2)]) (use nn in \<open>simp_all add: path_render_def\<close>)
  from assms(1) obtain fs1 source input fs2 where s: "safeArtifact ?fs (ArtifactRoot (ps_settings ?st)) (ArtifactPath (pi_job pi)) = Inr source"
    and i: "os_read_file ?fs source = Inr input" and c: "os_create_excl (p_proc p) ?fs dest (octal 6 4 0) = (fs1, None)"
    and len: "int (length (limit_read (?max + 1) input)) \<le> ?max"
    and fs2: "fs2 = write_content fs1 dest (limit_read (?max + 1) input)"
    and h: "equal_fold (hex_encode (p_sha256 p (limit_read (?max + 1) input))) (ExpectedSHA256 (pi_job pi))"
    and pi': "ps_artifact (pi_state pi') = dest" "pi_fs pi' = fs2"
    by (auto simp: validateArtifact_def stageArtifact_def dest_def Let_def set_fs_def set_state_def split: if_splits sum.splits option.splits prod.splits)
  note whole = limit_read_whole [OF len]
  have at: "node_at ?fs (?ws @ [''release-package'']) = None"
    and fs1: "fs1 = put_node (?ws @ [''release-package'']) (new_inode ?fs (p_proc p) (?ws @ [''release-package'']) (Regular []) (octal 6 4 0)) ?fs"
    using c create_node_render [OF cf assms(3)] unfolding os_create_excl_def dest by (auto split: if_splits)
  have real1: "real_dir fs1 ?ws" by (rule real_dir_cong [OF _ assms(3)]) (auto simp: fs1 prefix_def)
  define nd where "nd = (new_inode ?fs (p_proc p) (?ws @ [''release-package'']) (Regular []) (octal 6 4 0))\<lparr>kind := Regular input\<rparr>"
  have fs2': "fs2 = put_node (?ws @ [''release-package'']) nd fs1"
    unfolding fs2 whole dest nd_def by (rule write_content_render [OF cf real1]) (simp_all add: fs1 is_regular_def)
  have real2: "real_dir fs2 ?ws" by (rule real_dir_cong [OF _ real1]) (auto simp: fs2' prefix_def)
  have "os_read_file fs2 dest = Inr input"
    using resolve_render [OF cf real2, of True] unfolding dest os_read_file_def os_stat_def lookup_path_def
    by (simp add: fs2' nd_def is_symlink_def is_dir_def content_of_def)
  moreover have "comps dest = ?ws @ [''release-package'']" unfolding dest using cf by (rule comps_render)
  moreover obtain rootReal where "eval_symlinks ?fs (ArtifactRoot (ps_settings ?st)) = Inr rootReal" "prefix (comps rootReal) (comps source)"
    "eval_symlinks ?fs source = Inr source" using safeArtifact_ok [OF s] by blast
  ultimately show ?thesis
    using i at h len pi' whole by auto
qed

subsection \<open>What is left\<close>

text \<open>\<open>fs'\<close> is \<open>fs\<close> with some nodes deleted.\<close>

definition pruned :: "fs \<Rightarrow> fs \<Rightarrow> bool" where
  "pruned fs fs' \<longleftrightarrow> (\<forall>q. node_at fs' q = None \<or> node_at fs' q = node_at fs q)"

lemma pruned_refl [simp]: "pruned fs fs" by (simp add: pruned_def)

lemma pruned_trans: "pruned fs fs1 \<Longrightarrow> pruned fs1 fs2 \<Longrightarrow> pruned fs fs2"
  unfolding pruned_def by metis

lemma pruned_remove_all [simp]: "pruned fs (fst (os_remove_all fs p))"
  by (auto simp: pruned_def os_remove_all_def split: sum.split)

lemma pruned_fold: "pruned fs (fold (\<lambda>name fs. fst (os_remove_all fs (path_join [workspace, name]))) names fs)"
  by (induction names arbitrary: fs) (simp, simp, blast intro: pruned_trans pruned_remove_all)

lemma pruned_cleanupWorkspace: "pruned fs (fst (cleanupWorkspace fs root ws))"
  by (simp add: cleanupWorkspace_def split: sum.split)

lemma pruned_gone: "pruned fs fs' \<Longrightarrow> node_at fs q = None \<Longrightarrow> node_at fs' q = None"
  unfolding pruned_def by metis

lemma pruned_real_dir: "pruned fs fs' \<Longrightarrow> real_dir fs' p \<Longrightarrow> real_dir fs p"
  unfolding real_dir_iff
proof safe
  fix q assume "pruned fs fs'" "\<forall>q. prefix q p \<longrightarrow> is_dir_at fs' q" "prefix q p"
  then have "is_dir_at fs' q" "node_at fs' q = None \<or> node_at fs' q = node_at fs q" by (auto simp: pruned_def)
  then show "is_dir_at fs q" by (cases "node_at fs q") (auto simp: is_dir_at_def)
qed

lemma cleanup_job_fs:
  assumes "cleanup_job p sett j ws ok (w, err) = (w', err')"
  shows "pruned (fst (RemoveCredentialJobDirectory (w_fs w) (p_credentialRoot p) (job_ID j))) (w_fs w')"
proof -
  obtain fs1 ce where r: "RemoveCredentialJobDirectory (w_fs w) (p_credentialRoot p) (job_ID j) = (fs1, ce)" by fastforce
  define fs2 where "fs2 = fold (\<lambda>name fs. fst (os_remove_all fs (path_join [ws, name])))
    [''.containerd-hosts'', ''.registry-certs'', ''.runtime-auth'', CredentialDirectory, ExecutorCredentialDirectory] fs1"
  obtain fs3 ce3 where c: "cleanupWorkspace fs2 (WorkspaceRoot sett) ws = (fs3, ce3)" by fastforce
  have 2: "pruned fs1 fs2" unfolding fs2_def by (rule pruned_fold)
  have 3: "pruned fs1 fs3" using pruned_trans [OF 2 pruned_cleanupWorkspace [of fs2 "WorkspaceRoot sett" ws]] c by simp
  have "w_fs w' = fs2 \<or> w_fs w' = fs3"
    using assms unfolding cleanup_job_def Let_def prod.case r fs2_def [symmetric] c by (auto split: if_splits option.splits)
  then show ?thesis using 2 3 r by auto
qed

text \<open>
  C31 (job_leaves_no_credential_directory): once the credential directory of a job has been created, the end of
  processing removes it with everything in it: whichever step failed, whatever the commands did, as long as the
  credential root is still a real directory at the end. And the end of processing deletes: it creates nothing.
\<close>

theorem job_leaves_no_credential_directory:
  assumes "Process p hb sett (Some j) w = (w', err)" "validateOperation j = None"
    and "createWorkspace (p_proc p) (p_suffixes p) (w_fs w) (WorkspaceRoot sett) (job_ID j) = (fs1, Inr workspace)"
    and "CreateCredentialJobDirectory (p_proc p) fs1 (p_credentialRoot p) (job_ID j) = (fs2, Inr transient)"
    and "real_dir (w_fs w') (comps (p_credentialRoot p))"
  shows "(\<forall>q. prefix (job_path (p_credentialRoot p) (job_ID j)) q \<longrightarrow> node_at (w_fs w') q = None) \<and>
    pruned (w_fs (fst (process_body p hb (w\<lparr>w_fs := fs2\<rparr>, job_state sett j workspace transient)))) (w_fs w')"
proof -
  let ?root = "p_credentialRoot p"
  obtain w3 e3 ok where b: "process_body p hb (w\<lparr>w_fs := fs2\<rparr>, job_state sett j workspace transient) = (w3, e3, ok)"
    by (metis prod_cases3)
  have c: "cleanup_job p sett j workspace ok (w3, e3) = (w', err)"
    using assms(1-4) b by (simp add: Process_def)
  have abs: "is_abs ?root" and dir: "\<exists>d. CredentialJobDirectory ?root (job_ID j) = Inr d"
    using assms(4) by (auto simp: CreateCredentialJobDirectory_def validateOwnedDirectory_def split: option.splits if_splits sum.splits)
  then obtain d where d: "CredentialJobDirectory ?root (job_ID j) = Inr d" by blast
  note ok = CredentialJobDirectory_ok [OF abs d]
  have base: "path_base d = ''job-'' @ job_ID j"
    using path_base_render [of "comps ?root" "''job-'' @ job_ID j"] ok by (simp add: job_path_def)
  have rm: "RemoveCredentialJobDirectory fs ?root (job_ID j) = (del_tree (job_path ?root (job_ID j)) fs, None)"
    if "real_dir fs (comps ?root)" for fs
    using removeDirectChild_eq [of "path_clean ?root" fs "''job-'' @ job_ID j"] that abs job_name_normal [OF ok(1)]
    by (simp add: RemoveCredentialJobDirectory_def d base job_path_def)
  note pr = cleanup_job_fs [OF c]
  have pr0: "pruned fs (fst (RemoveCredentialJobDirectory fs ?root (job_ID j)))" for fs
    by (auto simp: RemoveCredentialJobDirectory_def removeDirectChild_def Let_def split: sum.split prod.split option.split)
      (metis fst_conv pruned_remove_all)+
  have "real_dir (w_fs w3) (comps ?root)" using pruned_real_dir [OF pruned_trans [OF pr0 pr] assms(5)] .
  then have "pruned (del_tree (job_path ?root (job_ID j)) (w_fs w3)) (w_fs w')" using rm pr by simp
  then show ?thesis using pruned_gone pruned_trans [OF pr0 pr] b by fastforce
qed

subsection \<open>Witnesses\<close>

text \<open>The job of the demonstration with the right digest, staged into the directory of the runner.\<close>

definition staged_job :: job where "staged_job = deploy_job\<lparr>ExpectedSHA256 := replicate 64 (CHR ''0'')\<rparr>"

definition stage_pipe :: "nat pipe" where
  "stage_pipe = step_pipe (deploy_world 0) (job_state deploy_settings staged_job ''/c'' ''/c'') deploy_db
     \<lparr>step_ID = 1, step_JobID = ''j1'', step_Name = StatusValidating, step_Number = 1\<rparr>"

theorem staged_artifact_is_authentic_witness:
  "\<exists>b pi' result. validateArtifact deploy_processor \<lparr>step_ID = 1, step_JobID = ''j1'', step_Name = StatusValidating, step_Number = 1\<rparr>
       stage_pipe = (pi', result, None) \<and>
     os_read_file (pi_fs pi') (ps_artifact (pi_state pi')) = Inr b \<and> int (length b) \<le> 9"
proof -
  let ?r = "validateArtifact deploy_processor \<lparr>step_ID = 1, step_JobID = ''j1'', step_Name = StatusValidating, step_Number = 1\<rparr> stage_pipe"
  have "snd (snd ?r) = None" by code_simp
  then have r: "?r = (fst ?r, fst (snd ?r), None)" by (metis prod.collapse)
  have s: "pi_state stage_pipe = job_state deploy_settings staged_job ''/c'' ''/c''" "pi_fs stage_pipe = deploy_host"
    by (simp_all add: stage_pipe_def deploy_world_def)
  have ws: "ps_workspace (pi_state stage_pipe) = ''/c''" "MaxArchiveBytes (Extraction (pi_profile stage_pipe)) = 9"
    unfolding s by (simp_all add: job_state_def staged_job_def deploy_job_def)
  have h: "is_abs ''/c''" "real_dir deploy_host (comps ''/c'')" by code_simp+
  show ?thesis
    using staged_artifact_is_authentic [OF r] h r unfolding ws s(2) by auto
qed

theorem job_leaves_no_credential_directory_witness:
  "(\<exists>fs1 ws fs2 tr. createWorkspace runner_proc [''1''] deploy_host ''/c'' ''j1'' = (fs1, Inr ws) \<and>
     CreateCredentialJobDirectory runner_proc fs1 ''/c'' ''j1'' = (fs2, Inr tr)) \<and>
   node_at (w_fs (fst deploy_result)) (job_path ''/c'' ''j1'') = None"
proof -
  let ?c = "createWorkspace runner_proc [''1''] deploy_host ''/c'' ''j1''"
  let ?d = "CreateCredentialJobDirectory runner_proc (fst ?c) ''/c'' ''j1''"
  have ok: "is_ok (snd ?c)" "is_ok (snd ?d)" by code_simp+
  then obtain ws tr where c: "?c = (fst ?c, Inr ws)" and d: "?d = (fst ?d, Inr tr)"
    by (metis is_ok_iff prod.collapse)
  have f: "p_proc (watch deploy_processor) = runner_proc" "p_suffixes (watch deploy_processor) = [''1'']"
    "p_credentialRoot (watch deploy_processor) = ''/c''" "WorkspaceRoot deploy_settings = ''/c''" "job_ID deploy_job = ''j1''"
    "w_fs (deploy_world (0 :: nat, [] :: spec list)) = deploy_host"
    by (simp_all add: watch_def deploy_processor_def deploy_settings_def deploy_job_def deploy_world_def)
  have v: "validateOperation deploy_job = None" by code_simp
  have real: "real_dir (w_fs (fst deploy_result)) (comps ''/c'')" by code_simp
  have r: "deploy_result = (fst deploy_result, snd deploy_result)" by simp
  have "node_at (w_fs (fst deploy_result)) (job_path ''/c'' ''j1'') = None"
    using job_leaves_no_credential_directory [OF r v, unfolded f, OF c d real] by simp
  then show ?thesis using c d by blast
qed

end
