(* ===== verification/Rbac.thy ===== *)
theory Rbac
  imports Go_Strings
begin

text \<open>
  Roles and users of the control plane: \<open>src/backend/internal/server/rbac_policy.go\<close>, the role and
  user handlers of \<open>admin.go\<close> and \<open>admin_compat.go\<close>, \<open>Principal\<close> and \<open>BootstrapAdmin\<close> of
  \<open>src/backend/internal/store/store.go\<close>, and \<open>withPermission\<close> of \<open>server.go\<close>.

  The state holds the five tables. Every handler runs one serializable transaction under the
  advisory lock of \<open>lockAdminDelegation\<close>, so a handler is one function on the tables: it returns
  them unchanged together with an error reply, or updated with a success reply. A statement that the
  database refuses because of a key, a foreign key or a uniqueness constraint of the schema is a
  branch of the model. \<open>commit\<close> says whether \<open>tx.Commit\<close> succeeds; a connection that fails earlier
  ends in the same rollback. The order of the elements of an aggregated array is never observed.

  Parameters: \<open>env_lower\<close> is \<open>strings.ToLower\<close> and \<open>env_sql_lower\<close> PostgreSQL's \<open>lower\<close>, both
  on arbitrary Unicode text; \<open>env_bcrypt\<close> is \<open>bcrypt.GenerateFromPassword\<close>, which may fail. Identifiers
  from \<open>secure.NewID\<close> are arguments.
\<close>

subsection \<open>State\<close>

record user_row =
  us_id :: string
  us_username :: string
  us_password_hash :: "string option"
  us_display_name :: string
  us_email :: string
  us_auth_source :: string
  us_active :: bool

record role_row =
  ro_id :: string
  ro_name :: string
  ro_description :: string
  ro_system :: bool

record rbac =
  users :: "user_row list"
  roles :: "role_row list"
  permissions :: "string list"
  role_permissions :: "(string \<times> string) list"
  user_roles :: "(string \<times> string) list"

record principal =
  p_UserID :: string
  p_Permissions :: "string list"
  p_Scopes :: "string list"
  p_ViaAPIKey :: bool

record admin_env =
  env_lower :: "string \<Rightarrow> string"
  env_sql_lower :: "string \<Rightarrow> string"
  env_bcrypt :: "string \<Rightarrow> string result"

text \<open>An HTTP reply: its status and, for an error, the code that \<open>writeError\<close> puts in the body.\<close>

datatype reply = Reply (reply_status: int) (reply_code: string)

definition admin_role :: string where "admin_role = ''role-admin''"

definition errDelegationEscalation :: error where
  "errDelegationEscalation = Err ''requested role or permission exceeds the actor's authority''"
definition errTargetAuthority :: error where
  "errTargetAuthority = Err ''the target currently has authority that exceeds the actor's authority''"
definition errProtectedAdminOnly :: error where
  "errProtectedAdminOnly = Err ''only an existing protected Administrator may delegate Administrator''"
definition errLastActiveAdmin :: error where
  "errLastActiveAdmin = Err ''the last active Administrator cannot be removed or deactivated''"
definition errProtectedAdminRole :: error where
  "errProtectedAdminRole = Err ''the protected Administrator role cannot be modified''"

subsection \<open>Constraints of the schema\<close>

text \<open>\<open>INSERT\<close> into a table, \<open>None\<close> when a key, a foreign key or a uniqueness constraint refuses it.\<close>

definition insert_role :: "role_row \<Rightarrow> rbac \<Rightarrow> rbac option" where
  "insert_role r d =
     (if \<exists>x\<in>set (roles d). ro_id x = ro_id r \<or> ro_name x = ro_name r then None
      else Some (d\<lparr>roles := roles d @ [r]\<rparr>))"

definition insert_user :: "user_row \<Rightarrow> rbac \<Rightarrow> rbac option" where
  "insert_user u d =
     (if \<exists>x\<in>set (users d). us_id x = us_id u \<or> us_username x = us_username u then None
      else Some (d\<lparr>users := users d @ [u]\<rparr>))"

definition insert_user_role :: "string \<Rightarrow> string \<Rightarrow> rbac \<Rightarrow> rbac option" where
  "insert_user_role userID roleID d =
     (if (\<exists>u\<in>set (users d). us_id u = userID) \<and> (\<exists>r\<in>set (roles d). ro_id r = roleID) \<and>
         (userID, roleID) \<notin> set (user_roles d)
      then Some (d\<lparr>user_roles := user_roles d @ [(userID, roleID)]\<rparr>) else None)"

definition insert_role_permission :: "string \<Rightarrow> string \<Rightarrow> rbac \<Rightarrow> rbac option" where
  "insert_role_permission roleID code d =
     (if (\<exists>r\<in>set (roles d). ro_id r = roleID) \<and> code \<in> set (permissions d) \<and>
         (roleID, code) \<notin> set (role_permissions d)
      then Some (d\<lparr>role_permissions := role_permissions d @ [(roleID, code)]\<rparr>) else None)"

fun insert_all :: "('a \<Rightarrow> rbac \<Rightarrow> rbac option) \<Rightarrow> 'a list \<Rightarrow> rbac \<Rightarrow> rbac option" where
  "insert_all ins [] d = Some d"
| "insert_all ins (x # xs) d = (case ins x d of None \<Rightarrow> None | Some d' \<Rightarrow> insert_all ins xs d')"

definition clear_role_permissions :: "string \<Rightarrow> rbac \<Rightarrow> rbac" where
  "clear_role_permissions roleID d =
     d\<lparr>role_permissions := filter (\<lambda>(r, _). r \<noteq> roleID) (role_permissions d)\<rparr>"

definition clear_user_roles :: "string \<Rightarrow> rbac \<Rightarrow> rbac" where
  "clear_user_roles userID d = d\<lparr>user_roles := filter (\<lambda>(u, _). u \<noteq> userID) (user_roles d)\<rparr>"

text \<open>\<open>DELETE FROM roles\<close>: the foreign keys of the two relations cascade.\<close>

definition delete_role_rows :: "string \<Rightarrow> rbac \<Rightarrow> rbac" where
  "delete_role_rows roleID d =
     d\<lparr>roles := filter (\<lambda>r. ro_id r \<noteq> roleID) (roles d),
       role_permissions := filter (\<lambda>(r, _). r \<noteq> roleID) (role_permissions d),
       user_roles := filter (\<lambda>(_, r). r \<noteq> roleID) (user_roles d)\<rparr>"

text \<open>\<open>UPDATE\<close> of one role or user; \<open>None\<close> when the new name is taken by another row.\<close>

definition update_role_row :: "string \<Rightarrow> (role_row \<Rightarrow> role_row) \<Rightarrow> rbac \<Rightarrow> rbac option" where
  "update_role_row roleID f d =
     (if \<exists>x\<in>set (roles d). ro_id x = roleID \<and>
           (\<exists>y\<in>set (roles d). ro_id y \<noteq> roleID \<and> ro_name y = ro_name (f x)) then None
      else Some (d\<lparr>roles := map (\<lambda>x. if ro_id x = roleID then f x else x) (roles d)\<rparr>))"

definition update_user_row :: "string \<Rightarrow> (user_row \<Rightarrow> user_row) \<Rightarrow> rbac \<Rightarrow> rbac option" where
  "update_user_row userID f d =
     (if \<exists>x\<in>set (users d). us_id x = userID \<and>
           (\<exists>y\<in>set (users d). us_id y \<noteq> userID \<and> us_username y = us_username (f x)) then None
      else Some (d\<lparr>users := map (\<lambda>x. if us_id x = userID then f x else x) (users d)\<rparr>))"

subsection \<open>Policy\<close>

definition principal_Has :: "principal \<Rightarrow> string \<Rightarrow> bool" where
  "principal_Has p permission \<longleftrightarrow>
     list_ex (\<lambda>granted. granted = permission \<and>
       (\<not> p_ViaAPIKey p \<or> list_ex (\<lambda>scope. scope = permission \<or> scope = ''*'') (p_Scopes p))) (p_Permissions p)"

definition permissionSubset :: "string list \<Rightarrow> string list \<Rightarrow> bool" where
  "permissionSubset granted requested \<longleftrightarrow> list_all (\<lambda>permission. permission \<in> set granted) requested"

definition role_codes :: "rbac \<Rightarrow> string \<Rightarrow> string list" where
  "role_codes d roleID = map snd (filter (\<lambda>(r, _). r = roleID) (role_permissions d))"

definition roles_of :: "rbac \<Rightarrow> string \<Rightarrow> string list" where
  "roles_of d userID = map snd (filter (\<lambda>(u, _). u = userID) (user_roles d))"

text \<open>The aggregate of \<open>actorAuthority\<close> and \<open>validateTargetUserAuthority\<close> over the joined roles.\<close>

definition granted_codes :: "rbac \<Rightarrow> string \<Rightarrow> string list" where
  "granted_codes d userID = remdups (concat (map (role_codes d) (roles_of d userID)))"

definition holds_admin :: "rbac \<Rightarrow> string \<Rightarrow> bool" where
  "holds_admin d userID \<longleftrightarrow> admin_role \<in> set (roles_of d userID)"

definition attenuateDelegatedAuthority ::
  "string list \<Rightarrow> bool \<Rightarrow> principal \<Rightarrow> bool \<Rightarrow> string list \<times> bool" where
  "attenuateDelegatedAuthority perms protectedAdmin p matchesActor =
     (if \<not> matchesActor \<or> \<not> p_ViaAPIKey p then (perms, protectedAdmin)
      else (filter (principal_Has p) perms, False))"

text \<open>The principal of the request is the one of the context.\<close>

definition actorAuthority :: "principal \<Rightarrow> rbac \<Rightarrow> string \<Rightarrow> (string list \<times> bool) result" where
  "actorAuthority p d actorID =
     (if \<exists>u\<in>set (users d). us_id u = actorID \<and> us_active u
      then Inr (attenuateDelegatedAuthority (granted_codes d actorID) (holds_admin d actorID) p (p_UserID p = actorID))
      else Inl ErrNoRows)"

definition validateDelegatedPermissions :: "principal \<Rightarrow> rbac \<Rightarrow> string \<Rightarrow> string list \<Rightarrow> error option" where
  "validateDelegatedPermissions p d actorID requested =
     (case actorAuthority p d actorID of
        Inl e \<Rightarrow> Some e
      | Inr (actorPermissions, _) \<Rightarrow>
          if \<not> permissionSubset actorPermissions requested then Some errDelegationEscalation
          else guard (length (filter (\<lambda>c. c \<in> set requested) (permissions d)) \<noteq> length requested)
                 ''one or more permissions do not exist'')"

fun delegated_roles_loop :: "rbac \<Rightarrow> string list \<Rightarrow> bool \<Rightarrow> string list \<Rightarrow> string list \<Rightarrow> error option" where
  "delegated_roles_loop d actorPermissions protectedAdmin seen [] = None"
| "delegated_roles_loop d actorPermissions protectedAdmin seen (roleID # rs) =
     (if roleID \<in> set seen then Some (Err ''roles must not contain duplicates'')
      else if roleID = admin_role \<and> \<not> protectedAdmin then Some errProtectedAdminOnly
      else if \<not> (\<exists>r\<in>set (roles d). ro_id r = roleID) then Some (Err ''one or more roles do not exist'')
      else if \<not> permissionSubset actorPermissions (role_codes d roleID) then Some errDelegationEscalation
      else delegated_roles_loop d actorPermissions protectedAdmin (roleID # seen) rs)"

definition validateDelegatedRoles :: "principal \<Rightarrow> rbac \<Rightarrow> string \<Rightarrow> string list \<Rightarrow> error option" where
  "validateDelegatedRoles p d actorID roleIDs =
     (case actorAuthority p d actorID of
        Inl e \<Rightarrow> Some e
      | Inr (actorPermissions, protectedAdmin) \<Rightarrow>
          delegated_roles_loop d actorPermissions protectedAdmin [] roleIDs)"

definition roleAuthorityForUpdate :: "rbac \<Rightarrow> string \<Rightarrow> (string list \<times> bool) result" where
  "roleAuthorityForUpdate d roleID =
     (case List.find (\<lambda>r. ro_id r = roleID) (roles d) of
        None \<Rightarrow> Inl ErrNoRows
      | Some r \<Rightarrow> Inr (role_codes d roleID, ro_system r))"

text \<open>The flag of a system role; callers ignore it when there is an error.\<close>

definition validateRoleMutationTarget :: "principal \<Rightarrow> rbac \<Rightarrow> string \<Rightarrow> string \<Rightarrow> bool result" where
  "validateRoleMutationTarget p d actorID roleID =
     (case actorAuthority p d actorID of
        Inl e \<Rightarrow> Inl e
      | Inr (actorPermissions, _) \<Rightarrow>
          (case roleAuthorityForUpdate d roleID of
             Inl e \<Rightarrow> Inl e
           | Inr (perms, system) \<Rightarrow>
               if roleID = admin_role then Inl errProtectedAdminRole
               else if \<not> permissionSubset actorPermissions perms then Inl errTargetAuthority
               else Inr system))"

definition validateRolePermissionMutation ::
  "principal \<Rightarrow> rbac \<Rightarrow> string \<Rightarrow> string \<Rightarrow> string list \<Rightarrow> error option" where
  "validateRolePermissionMutation p d actorID roleID requested =
     (case validateRoleMutationTarget p d actorID roleID of
        Inl e \<Rightarrow> Some e
      | Inr _ \<Rightarrow> validateDelegatedPermissions p d actorID requested)"

definition validateTargetUserAuthority :: "principal \<Rightarrow> rbac \<Rightarrow> string \<Rightarrow> string \<Rightarrow> error option" where
  "validateTargetUserAuthority p d actorID targetID =
     (case actorAuthority p d actorID of
        Inl e \<Rightarrow> Some e
      | Inr (actorPermissions, actorAdmin) \<Rightarrow>
          if \<not> (\<exists>u\<in>set (users d). us_id u = targetID) then Some ErrNoRows
          else if holds_admin d targetID \<and> \<not> actorAdmin then Some errProtectedAdminOnly
          else if \<not> permissionSubset actorPermissions (granted_codes d targetID) then Some errTargetAuthority
          else None)"

definition active_admins :: "rbac \<Rightarrow> string list" where
  "active_admins d = remdups (map us_id (filter (\<lambda>u. us_active u \<and> holds_admin d (us_id u)) (users d)))"

definition protectLastActiveAdmin :: "rbac \<Rightarrow> string \<Rightarrow> bool \<Rightarrow> string list \<Rightarrow> error option" where
  "protectLastActiveAdmin d userID nextActive nextRoleIDs =
     (if userID \<notin> set (active_admins d) \<or> nextActive \<and> admin_role \<in> set nextRoleIDs then None
      else if length (active_admins d) \<le> 1 then Some errLastActiveAdmin
      else None)"

subsection \<open>Inputs\<close>

text \<open>
  A list field of the compatible API, as its JSON value decodes: absent, an array of strings (or
  null), a string, or anything else.
\<close>

datatype json_list = Absent | Strings "string list" | Text string | Other

definition parseStringList :: "json_list \<Rightarrow> string list result" where
  "parseStringList raw =
     (case raw of
        Absent \<Rightarrow> Inr []
      | Strings values \<Rightarrow> Inr values
      | Text text \<Rightarrow> Inr (filter (\<lambda>v. v \<noteq> []) (map trim_space (split_char (CHR '','') text)))
      | Other \<Rightarrow> Inl (Err ''value must be a comma-separated string or string array''))"

record role_input =
  ri_Name :: string
  ri_Description :: string
  ri_Permissions :: json_list

record user_input =
  ui_Username :: string
  ui_DisplayName :: string
  ui_Email :: string
  ui_Password :: string
  ui_Roles :: json_list
  ui_Active :: "bool option"

record user_patch =
  up_DisplayName :: "string option"
  up_Email :: "string option"
  up_Active :: "bool option"

definition NormalizeUsername :: "admin_env \<Rightarrow> string \<Rightarrow> string" where
  "NormalizeUsername env username = env_lower env (trim_space username)"

text \<open>\<open>tx.Commit\<close>: on success the new tables, otherwise the old ones with the handler's reply for it.\<close>

definition tx_commit :: "bool \<Rightarrow> rbac \<Rightarrow> rbac \<Rightarrow> int \<Rightarrow> reply \<Rightarrow> rbac \<times> reply" where
  "tx_commit commit d d' ok failed = (if commit then (d', Reply ok []) else (d, failed))"

definition delegation_reply :: "error \<Rightarrow> reply" where
  "delegation_reply e =
     (if errors_is e ErrNoRows then Reply 404 ''not_found'' else Reply 403 ''delegation_forbidden'')"

subsection \<open>Role handlers\<close>

definition createRole :: "string \<Rightarrow> role_input \<Rightarrow> rbac \<Rightarrow> rbac \<times> reply" where
  "createRole newID input d =
     (let name = trim_space (ri_Name input)
      in if name = [] \<or> length name > 100 then (d, Reply 400 ''invalid_role'')
         else case insert_role \<lparr>ro_id = newID, ro_name = name, ro_description = ri_Description input, ro_system = False\<rparr> d of
                None \<Rightarrow> (d, Reply 409 ''role_conflict'')
              | Some d' \<Rightarrow> (d', Reply 201 []))"

definition updateRole :: "bool \<Rightarrow> principal \<Rightarrow> string \<Rightarrow> role_input \<Rightarrow> rbac \<Rightarrow> rbac \<times> reply" where
  "updateRole commit p id' input d =
     (let name = trim_space (ri_Name input)
      in if name = [] \<or> length name > 100 then (d, Reply 400 ''invalid_role'')
         else case validateRoleMutationTarget p d (p_UserID p) id' of
                Inl e \<Rightarrow> (d, delegation_reply e)
              | Inr _ \<Rightarrow>
                  if \<not> (\<exists>r\<in>set (roles d). ro_id r = id' \<and> \<not> ro_system r) then (d, Reply 400 ''system_role'')
                  else case update_role_row id' (\<lambda>r. r\<lparr>ro_name := name, ro_description := ri_Description input\<rparr>) d of
                         None \<Rightarrow> (d, Reply 409 ''role_conflict'')
                       | Some d' \<Rightarrow> tx_commit commit d d' 200 (Reply 409 ''role_conflict''))"

definition replaceRolePermissions ::
  "bool \<Rightarrow> principal \<Rightarrow> string \<Rightarrow> string list \<Rightarrow> rbac \<Rightarrow> rbac \<times> reply" where
  "replaceRolePermissions commit p id' perms d =
     (if id' = admin_role then (d, Reply 400 ''protected_role'')
      else case validateRolePermissionMutation p d (p_UserID p) id' perms of
             Some e \<Rightarrow> (d, delegation_reply e)
           | None \<Rightarrow>
               (case insert_all (insert_role_permission id') perms (clear_role_permissions id' d) of
                  None \<Rightarrow> (d, Reply 400 ''invalid_permission'')
                | Some d' \<Rightarrow> tx_commit commit d d' 200 (Reply 500 ''database_error'')))"

definition deleteRole :: "bool \<Rightarrow> principal \<Rightarrow> string \<Rightarrow> rbac \<Rightarrow> rbac \<times> reply" where
  "deleteRole commit p id' d =
     (case validateRoleMutationTarget p d (p_UserID p) id' of
        Inl e \<Rightarrow> (d, delegation_reply e)
      | Inr system \<Rightarrow>
          if system then (d, Reply 400 ''system_role'')
          else if \<not> (\<exists>r\<in>set (roles d). ro_id r = id' \<and> \<not> ro_system r) then (d, Reply 400 ''system_role'')
          else tx_commit commit d (delete_role_rows id' d) 204 (Reply 409 ''role_conflict''))"

definition assignRolePermissions :: "principal \<Rightarrow> string \<Rightarrow> string list \<Rightarrow> rbac \<Rightarrow> rbac result" where
  "assignRolePermissions p roleID perms d =
     (case validateRolePermissionMutation p d (p_UserID p) roleID perms of
        Some e \<Rightarrow> Inl e
      | None \<Rightarrow>
          (case insert_all (insert_role_permission roleID) perms (clear_role_permissions roleID d) of
             None \<Rightarrow> Inl (Err ''unknown permission: '')
           | Some d' \<Rightarrow> Inr d'))"

definition createRoleCompat :: "bool \<Rightarrow> principal \<Rightarrow> string \<Rightarrow> role_input \<Rightarrow> rbac \<Rightarrow> rbac \<times> reply" where
  "createRoleCompat commit p newID input d =
     (let name = trim_space (ri_Name input)
      in if name = [] then (d, Reply 400 ''invalid_role'')
         else case parseStringList (ri_Permissions input) of
                Inl _ \<Rightarrow> (d, Reply 400 ''invalid_role'')
              | Inr perms \<Rightarrow>
                  (case insert_role \<lparr>ro_id = newID, ro_name = name, ro_description = ri_Description input, ro_system = False\<rparr> d of
                     None \<Rightarrow> (d, Reply 409 ''role_conflict'')
                   | Some d1 \<Rightarrow>
                       (case assignRolePermissions p newID perms d1 of
                          Inl _ \<Rightarrow> (d, Reply 403 ''delegation_forbidden'')
                        | Inr d2 \<Rightarrow> tx_commit commit d d2 201 (Reply 409 ''role_conflict''))))"

definition putRole :: "bool \<Rightarrow> principal \<Rightarrow> string \<Rightarrow> role_input \<Rightarrow> rbac \<Rightarrow> rbac \<times> reply" where
  "putRole commit p id' input d =
     (case parseStringList (ri_Permissions input) of
        Inl _ \<Rightarrow> (d, Reply 400 ''invalid_role'')
      | Inr perms \<Rightarrow>
          if id' = admin_role then (d, Reply 400 ''protected_role'')
          else case update_role_row id' (\<lambda>r. r\<lparr>ro_name := (if ro_system r then ro_name r else trim_space (ri_Name input)),
                                              ro_description := ri_Description input\<rparr>) d of
                 None \<Rightarrow> (d, Reply 409 ''role_conflict'')
               | Some d1 \<Rightarrow>
                   if \<not> (\<exists>r\<in>set (roles d). ro_id r = id') then (d, Reply 404 ''not_found'')
                   else case assignRolePermissions p id' perms d1 of
                          Inl _ \<Rightarrow> (d, Reply 403 ''delegation_forbidden'')
                        | Inr d2 \<Rightarrow> tx_commit commit d d2 200 (Reply 409 ''role_conflict''))"

subsection \<open>User handlers\<close>

text \<open>
  A role named by its identifier, its name or its short form. The query has no order: the first
  matching row is the one the database returns.
\<close>

fun resolveRoleIDs_loop :: "admin_env \<Rightarrow> rbac \<Rightarrow> string list \<Rightarrow> string list result" where
  "resolveRoleIDs_loop env d [] = Inr []"
| "resolveRoleIDs_loop env d (role # rs) =
     (case List.find (\<lambda>r. ro_id r = role \<or> env_sql_lower env (ro_name r) = env_sql_lower env role \<or>
                          ro_id r = ''role-'' @ env_lower env role) (roles d) of
        None \<Rightarrow> Inl (Err ''unknown role: '')
      | Some r \<Rightarrow> (case resolveRoleIDs_loop env d rs of Inl e \<Rightarrow> Inl e | Inr ids \<Rightarrow> Inr (ro_id r # ids)))"

definition resolveRoleIDs :: "admin_env \<Rightarrow> rbac \<Rightarrow> json_list \<Rightarrow> string list result" where
  "resolveRoleIDs env d raw =
     (case parseStringList raw of Inl e \<Rightarrow> Inl e | Inr rs \<Rightarrow> resolveRoleIDs_loop env d rs)"

definition createUser :: "admin_env \<Rightarrow> bool \<Rightarrow> principal \<Rightarrow> string \<Rightarrow> user_input \<Rightarrow> rbac \<Rightarrow> rbac \<times> reply" where
  "createUser env commit p newID input d =
     (let username = NormalizeUsername env (ui_Username input)
      in if username = [] \<or> length (ui_Password input) < 12 then (d, Reply 400 ''invalid_user'')
         else case env_bcrypt env (ui_Password input) of
                Inl _ \<Rightarrow> (d, Reply 500 ''password_error'')
              | Inr hash \<Rightarrow>
                  (case resolveRoleIDs env d (ui_Roles input) of
                     Inl _ \<Rightarrow> (d, Reply 400 ''invalid_role'')
                   | Inr roleIDs \<Rightarrow>
                       (case validateDelegatedRoles p d (p_UserID p) roleIDs of
                          Some _ \<Rightarrow> (d, Reply 403 ''delegation_forbidden'')
                        | None \<Rightarrow>
                            (case insert_user \<lparr>us_id = newID, us_username = username, us_password_hash = Some hash,
                                    us_display_name = ui_DisplayName input, us_email = ui_Email input,
                                    us_auth_source = ''local'', us_active = (ui_Active input \<noteq> Some False)\<rparr> d of
                               None \<Rightarrow> (d, Reply 409 ''user_conflict'')
                             | Some d1 \<Rightarrow>
                                 (case insert_all (insert_user_role newID) roleIDs d1 of
                                    None \<Rightarrow> (d, Reply 409 ''user_conflict'')
                                  | Some d2 \<Rightarrow> tx_commit commit d d2 201 (Reply 409 ''user_conflict''))))))"

definition user_active :: "rbac \<Rightarrow> string \<Rightarrow> bool option" where
  "user_active d userID = map_option us_active (List.find (\<lambda>u. us_id u = userID) (users d))"

definition updateUser :: "bool \<Rightarrow> principal \<Rightarrow> string \<Rightarrow> user_patch \<Rightarrow> rbac \<Rightarrow> rbac \<times> reply" where
  "updateUser commit p id' input d =
     (if id' = p_UserID p \<and> up_Active input = Some False then (d, Reply 400 ''self_deactivation'')
      else case user_active d id' of
             None \<Rightarrow> (d, Reply 404 ''not_found'')
           | Some currentActive \<Rightarrow>
               if validateTargetUserAuthority p d (p_UserID p) id' \<noteq> None then (d, Reply 403 ''delegation_forbidden'')
               else
                 let nextActive = (case up_Active input of None \<Rightarrow> currentActive | Some a \<Rightarrow> a)
                 in if protectLastActiveAdmin d id' nextActive (roles_of d id') \<noteq> None
                    then (d, Reply 409 ''last_active_admin'')
                    else case update_user_row id' (\<lambda>u. u\<lparr>
                           us_display_name := (case up_DisplayName input of None \<Rightarrow> us_display_name u | Some v \<Rightarrow> v),
                           us_email := (case up_Email input of None \<Rightarrow> us_email u | Some v \<Rightarrow> v),
                           us_active := (case up_Active input of None \<Rightarrow> us_active u | Some v \<Rightarrow> v)\<rparr>) d of
                           None \<Rightarrow> (d, Reply 500 ''database_error'')
                         | Some d' \<Rightarrow> tx_commit commit d d' 200 (Reply 409 ''user_conflict''))"

definition replaceUserRoles :: "bool \<Rightarrow> principal \<Rightarrow> string \<Rightarrow> string list \<Rightarrow> rbac \<Rightarrow> rbac \<times> reply" where
  "replaceUserRoles commit p id' roleIDs d =
     (case user_active d id' of
        None \<Rightarrow> (d, Reply 404 ''not_found'')
      | Some active \<Rightarrow>
          if validateTargetUserAuthority p d (p_UserID p) id' \<noteq> None then (d, Reply 403 ''delegation_forbidden'')
          else if validateDelegatedRoles p d (p_UserID p) roleIDs \<noteq> None then (d, Reply 403 ''delegation_forbidden'')
          else if id' = p_UserID p \<and> holds_admin d id' \<and> admin_role \<notin> set roleIDs then (d, Reply 400 ''self_lockout'')
          else if protectLastActiveAdmin d id' active roleIDs \<noteq> None then (d, Reply 409 ''last_active_admin'')
          else case insert_all (insert_user_role id') roleIDs (clear_user_roles id' d) of
                 None \<Rightarrow> (d, Reply 400 ''invalid_role'')
               | Some d' \<Rightarrow> tx_commit commit d d' 200 (Reply 500 ''database_error''))"

text \<open>The password part of \<open>putUser\<close>: the error of \<open>bcrypt.GenerateFromPassword\<close> is dropped there.\<close>

definition put_password :: "admin_env \<Rightarrow> string \<Rightarrow> string \<Rightarrow> rbac \<Rightarrow> rbac" where
  "put_password env id' password d =
     d\<lparr>users := map (\<lambda>u. if us_id u = id' \<and> us_auth_source u = ''local''
         then u\<lparr>us_password_hash := Some (case env_bcrypt env password of Inl _ \<Rightarrow> [] | Inr hash \<Rightarrow> hash)\<rparr> else u) (users d)\<rparr>"

definition putUser :: "admin_env \<Rightarrow> bool \<Rightarrow> principal \<Rightarrow> string \<Rightarrow> user_input \<Rightarrow> rbac \<Rightarrow> rbac \<times> reply" where
  "putUser env commit p id' input d =
     (let active = (ui_Active input \<noteq> Some False)
      in if id' = p_UserID p \<and> \<not> active then (d, Reply 400 ''self_deactivation'')
         else case resolveRoleIDs env d (ui_Roles input) of
                Inl _ \<Rightarrow> (d, Reply 400 ''invalid_role'')
              | Inr roleIDs \<Rightarrow>
                  if validateDelegatedRoles p d (p_UserID p) roleIDs \<noteq> None then (d, Reply 403 ''delegation_forbidden'')
                  else if user_active d id' = None then (d, Reply 404 ''not_found'')
                  else if validateTargetUserAuthority p d (p_UserID p) id' \<noteq> None then (d, Reply 403 ''delegation_forbidden'')
                  else if id' = p_UserID p \<and> holds_admin d id' \<and> admin_role \<notin> set roleIDs then (d, Reply 400 ''self_lockout'')
                  else if protectLastActiveAdmin d id' active roleIDs \<noteq> None then (d, Reply 409 ''last_active_admin'')
                  else case update_user_row id' (\<lambda>u. u\<lparr>
                         us_username := (if us_auth_source u = ''local'' then NormalizeUsername env (ui_Username input) else us_username u),
                         us_display_name := ui_DisplayName input, us_email := ui_Email input, us_active := active\<rparr>) d of
                         None \<Rightarrow> (d, Reply 409 ''user_conflict'')
                       | Some d1 \<Rightarrow>
                           if ui_Password input \<noteq> [] \<and> length (ui_Password input) < 12 then (d, Reply 400 ''invalid_password'')
                           else
                             let d2 = (if ui_Password input \<noteq> [] then put_password env id' (ui_Password input) d1 else d1)
                             in case insert_all (insert_user_role id') roleIDs (clear_user_roles id' d2) of
                                  None \<Rightarrow> (d, Reply 409 ''user_conflict'')
                                | Some d3 \<Rightarrow> tx_commit commit d d3 200 (Reply 409 ''user_conflict''))"

subsection \<open>Requests\<close>

text \<open>
  The routes of \<open>server.go\<close> that change roles and users, each with the identifier \<open>secure.NewID\<close>
  gives a new row, and the permission \<open>withPermission\<close> asks for. Administration routes also pass the
  source address allowlist, whose verdict is \<open>net\<close>.
\<close>

datatype admin_request =
    CreateRoleReq string role_input
  | CreateRoleCompatReq string role_input
  | UpdateRoleReq string role_input
  | PutRoleReq string role_input
  | ReplaceRolePermissionsReq string "string list"
  | DeleteRoleReq string
  | CreateUserReq string user_input
  | UpdateUserReq string user_patch
  | PutUserReq string user_input
  | ReplaceUserRolesReq string "string list"

fun request_permission :: "admin_request \<Rightarrow> string" where
  "request_permission (CreateRoleReq _ _) = ''admin.rbac.write''"
| "request_permission (CreateRoleCompatReq _ _) = ''admin.rbac.write''"
| "request_permission (UpdateRoleReq _ _) = ''admin.rbac.write''"
| "request_permission (PutRoleReq _ _) = ''admin.rbac.write''"
| "request_permission (ReplaceRolePermissionsReq _ _) = ''admin.rbac.write''"
| "request_permission (DeleteRoleReq _) = ''admin.rbac.write''"
| "request_permission (CreateUserReq _ _) = ''admin.users.write''"
| "request_permission (UpdateUserReq _ _) = ''admin.users.write''"
| "request_permission (PutUserReq _ _) = ''admin.users.write''"
| "request_permission (ReplaceUserRolesReq _ _) = ''admin.users.write''"

fun handle_request :: "admin_env \<Rightarrow> bool \<Rightarrow> principal \<Rightarrow> admin_request \<Rightarrow> rbac \<Rightarrow> rbac \<times> reply" where
  "handle_request env commit p (CreateRoleReq i x) d = createRole i x d"
| "handle_request env commit p (CreateRoleCompatReq i x) d = createRoleCompat commit p i x d"
| "handle_request env commit p (UpdateRoleReq i x) d = updateRole commit p i x d"
| "handle_request env commit p (PutRoleReq i x) d = putRole commit p i x d"
| "handle_request env commit p (ReplaceRolePermissionsReq i x) d = replaceRolePermissions commit p i x d"
| "handle_request env commit p (DeleteRoleReq i) d = deleteRole commit p i d"
| "handle_request env commit p (CreateUserReq i x) d = createUser env commit p i x d"
| "handle_request env commit p (UpdateUserReq i x) d = updateUser commit p i x d"
| "handle_request env commit p (PutUserReq i x) d = putUser env commit p i x d"
| "handle_request env commit p (ReplaceUserRolesReq i x) d = replaceUserRoles commit p i x d"

definition withPermission :: "bool \<Rightarrow> principal \<Rightarrow> string \<Rightarrow> (rbac \<Rightarrow> rbac \<times> reply) \<Rightarrow> rbac \<Rightarrow> rbac \<times> reply" where
  "withPermission net p permission handler d =
     (if \<not> principal_Has p permission then (d, Reply 403 ''forbidden'')
      else if \<not> net then (d, Reply 403 ''admin_network_denied'')
      else handler d)"

definition serve :: "admin_env \<Rightarrow> bool \<Rightarrow> bool \<Rightarrow> principal \<Rightarrow> admin_request \<Rightarrow> rbac \<Rightarrow> rbac \<times> reply" where
  "serve env net commit p req d = withPermission net p (request_permission req) (handle_request env commit p req) d"

text \<open>A sequence of requests, each with its principal and the two verdicts.\<close>

type_synonym arrival = "principal \<times> admin_request \<times> bool \<times> bool"

fun serve_all :: "admin_env \<Rightarrow> arrival list \<Rightarrow> rbac \<Rightarrow> rbac" where
  "serve_all env [] d = d"
| "serve_all env ((p, req, net, commit) # rs) d = serve_all env rs (fst (serve env net commit p req d))"

text \<open>
  \<open>BootstrapAdmin\<close> runs at start-up: it creates the first administrator, or gives the role back to
  an existing account without touching its password.
\<close>

definition BootstrapAdmin :: "admin_env \<Rightarrow> bool \<Rightarrow> string \<Rightarrow> string \<Rightarrow> string \<Rightarrow> rbac \<Rightarrow> rbac \<times> error option" where
  "BootstrapAdmin env commit newID username password d =
     (let name = NormalizeUsername env username
      in if name = [] then (d, Some (Err ''bootstrap username cannot be empty''))
         else case env_bcrypt env password of
                Inl e \<Rightarrow> (d, Some e)
              | Inr hash \<Rightarrow>
                  (case (case List.find (\<lambda>u. env_sql_lower env (us_username u) = env_sql_lower env name) (users d) of
                           Some u \<Rightarrow> Some (us_id u, d)
                         | None \<Rightarrow> map_option (Pair newID) (insert_user \<lparr>us_id = newID, us_username = name,
                             us_password_hash = Some hash, us_display_name = name, us_email = [],
                             us_auth_source = ''local'', us_active = True\<rparr> d)) of
                     None \<Rightarrow> (d, Some (Err ''bootstrap admin lookup/create''))
                   | Some (userID, d1) \<Rightarrow>
                       let d2 = (if (userID, admin_role) \<in> set (user_roles d1) then Some d1
                                 else insert_user_role userID admin_role d1)
                       in case d2 of
                            None \<Rightarrow> (d, Some (Err ''insert user_roles''))
                          | Some d3 \<Rightarrow> if commit then (d3, None) else (d, Some (Err ''commit''))))"

subsection \<open>What the checks guarantee\<close>

lemma granted_iff: "c \<in> set (granted_codes d u) \<longleftrightarrow> (\<exists>r. (u, r) \<in> set (user_roles d) \<and> (r, c) \<in> set (role_permissions d))"
  by (force simp: granted_codes_def roles_of_def role_codes_def)

lemma role_codes_iff: "c \<in> set (role_codes d r) \<longleftrightarrow> (r, c) \<in> set (role_permissions d)"
  by (force simp: role_codes_def)

lemma holds_admin_iff: "holds_admin d u \<longleftrightarrow> (u, admin_role) \<in> set (user_roles d)"
  by (force simp: holds_admin_def roles_of_def)

lemma active_admins_iff: "i \<in> set (active_admins d) \<longleftrightarrow> (\<exists>u\<in>set (users d). us_id u = i \<and> us_active u \<and> holds_admin d i)"
  by (auto simp: active_admins_def)

lemma permissionSubset_iff: "permissionSubset a b \<longleftrightarrow> set b \<subseteq> set a"
  by (auto simp: permissionSubset_def list_all_iff)

lemma actorAuthority_bound:
  assumes "actorAuthority p d (p_UserID p) = Inr (A, adm)"
  shows "set A \<subseteq> set (granted_codes d (p_UserID p))" "adm \<Longrightarrow> holds_admin d (p_UserID p) \<and> \<not> p_ViaAPIKey p"
  using assms by (auto simp: actorAuthority_def attenuateDelegatedAuthority_def split: if_splits)

lemma delegated_roles_loop_None:
  "delegated_roles_loop d A adm seen rs = None \<Longrightarrow> r \<in> set rs \<Longrightarrow>
    set (role_codes d r) \<subseteq> set A \<and> (r = admin_role \<longrightarrow> adm) \<and> (\<exists>x\<in>set (roles d). ro_id x = r)"
  by (induction rs arbitrary: seen) (auto simp: permissionSubset_iff split: if_splits)

lemma validateDelegatedRoles_None:
  assumes "validateDelegatedRoles p d (p_UserID p) rs = None" "r \<in> set rs"
  shows "set (role_codes d r) \<subseteq> set (granted_codes d (p_UserID p))"
    and "r = admin_role \<Longrightarrow> holds_admin d (p_UserID p) \<and> \<not> p_ViaAPIKey p"
    and "\<exists>x\<in>set (roles d). ro_id x = r"
proof -
  obtain A adm where a: "actorAuthority p d (p_UserID p) = Inr (A, adm)"
    and l: "delegated_roles_loop d A adm [] rs = None"
    using assms(1) by (auto simp: validateDelegatedRoles_def split: sum.splits prod.splits)
  note l = delegated_roles_loop_None [OF l assms(2)]
  show "set (role_codes d r) \<subseteq> set (granted_codes d (p_UserID p))" "\<exists>x\<in>set (roles d). ro_id x = r"
    using l actorAuthority_bound(1) [OF a] by auto
  show "holds_admin d (p_UserID p) \<and> \<not> p_ViaAPIKey p" if "r = admin_role"
    using l that actorAuthority_bound(2) [OF a] by simp
qed

lemma validateDelegatedPermissions_None:
  assumes "validateDelegatedPermissions p d (p_UserID p) cs = None"
  shows "set cs \<subseteq> set (granted_codes d (p_UserID p))"
proof -
  obtain A adm where "actorAuthority p d (p_UserID p) = Inr (A, adm)" "set cs \<subseteq> set A"
    using assms
    by (auto simp: validateDelegatedPermissions_def permissionSubset_iff split: sum.splits prod.splits if_splits)
  then show ?thesis using actorAuthority_bound(1) by blast
qed

lemma validateRoleMutationTarget_Inr:
  "validateRoleMutationTarget p d a r = Inr sys \<Longrightarrow> r \<noteq> admin_role"
  by (auto simp: validateRoleMutationTarget_def split: sum.splits prod.splits if_splits)

lemma validateRolePermissionMutation_None:
  assumes "validateRolePermissionMutation p d (p_UserID p) r cs = None"
  shows "r \<noteq> admin_role" "set cs \<subseteq> set (granted_codes d (p_UserID p))"
  using assms validateRoleMutationTarget_Inr validateDelegatedPermissions_None [of p d cs]
  by (auto simp: validateRolePermissionMutation_def split: sum.splits)

text \<open>Another active administrator is left, or the user stays one.\<close>

lemma protectLastActiveAdmin_None:
  assumes "protectLastActiveAdmin d i act rs = None" "active_admins d \<noteq> []"
  shows "(\<exists>j\<in>set (active_admins d). j \<noteq> i) \<or> i \<in> set (active_admins d) \<and> act \<and> admin_role \<in> set rs"
proof -
  have "\<exists>j\<in>set (active_admins d). j \<noteq> i" if "2 \<le> length (active_admins d)"
  proof -
    have "distinct (active_admins d)" by (simp add: active_admins_def)
    then have "\<not> set (active_admins d) \<subseteq> {i}"
      using that card_mono [of "{i}" "set (active_admins d)"] distinct_card by force
    then show ?thesis by auto
  qed
  moreover have "\<exists>j\<in>set (active_admins d). j \<noteq> i" if "i \<notin> set (active_admins d)"
    using that assms(2) by (cases "active_admins d") auto
  ultimately show ?thesis using assms(1) by (auto simp: protectLastActiveAdmin_def split: if_splits)
qed

lemma insert_user_roles:
  "insert_all (insert_user_role u) rs d = Some d' \<Longrightarrow>
     d' = d\<lparr>user_roles := user_roles d @ map (Pair u) rs\<rparr> \<and>
     (\<forall>r\<in>set rs. \<exists>x\<in>set (roles d). ro_id x = r) \<and> distinct rs \<and>
     (\<forall>r\<in>set rs. (u, r) \<notin> set (user_roles d)) \<and> (rs \<noteq> [] \<longrightarrow> (\<exists>x\<in>set (users d). us_id x = u))"
proof (induction rs arbitrary: d)
  case (Cons r rs)
  then obtain d1 where d1: "insert_user_role u r d = Some d1" "insert_all (insert_user_role u) rs d1 = Some d'"
    by (auto split: option.splits)
  from Cons.IH [OF d1(2)] d1(1) show ?case
    by (auto simp: insert_user_role_def split: if_splits)
qed simp

lemma insert_role_codes:
  "insert_all (insert_role_permission r) cs d = Some d' \<Longrightarrow>
     d' = d\<lparr>role_permissions := role_permissions d @ map (Pair r) cs\<rparr> \<and>
     set cs \<subseteq> set (permissions d) \<and> distinct cs \<and> (\<forall>c\<in>set cs. (r, c) \<notin> set (role_permissions d)) \<and>
     (cs \<noteq> [] \<longrightarrow> (\<exists>x\<in>set (roles d). ro_id x = r))"
proof (induction cs arbitrary: d)
  case (Cons c cs)
  then obtain d1 where d1: "insert_role_permission r c d = Some d1" "insert_all (insert_role_permission r) cs d1 = Some d'"
    by (auto split: option.splits)
  from Cons.IH [OF d1(2)] d1(1) show ?case
    by (auto simp: insert_role_permission_def split: if_splits)
qed simp

subsection \<open>The changes handlers make\<close>

text \<open>
  A change of user rows: the rows of one user are mapped by \<open>f\<close>, which keeps the identifier, keeps
  the user active when the handler announced so, and takes no name another user has.
\<close>

definition patch_users :: "string \<Rightarrow> (user_row \<Rightarrow> user_row) \<Rightarrow> rbac \<Rightarrow> rbac" where
  "patch_users i f d = d\<lparr>users := map (\<lambda>u. if us_id u = i then f u else u) (users d)\<rparr>"

definition patch_ok :: "rbac \<Rightarrow> string \<Rightarrow> bool \<Rightarrow> (user_row \<Rightarrow> user_row) \<Rightarrow> bool" where
  "patch_ok d i nextActive f \<longleftrightarrow> (\<forall>u. us_id (f u) = us_id u) \<and>
     (nextActive \<longrightarrow> (\<forall>u. us_active u \<longrightarrow> us_active (f u))) \<and>
     (\<forall>x\<in>set (users d). us_id x = i \<longrightarrow> us_username (f x) = us_username x \<or>
        (\<forall>y\<in>set (users d). us_id y \<noteq> i \<longrightarrow> us_username y \<noteq> us_username (f x)))"

lemma update_user_row_Some:
  "update_user_row i f d = Some d' \<longleftrightarrow> d' = patch_users i f d \<and>
     (\<forall>x\<in>set (users d). us_id x = i \<longrightarrow> (\<forall>y\<in>set (users d). us_id y \<noteq> i \<longrightarrow> us_username y \<noteq> us_username (f x)))"
  by (auto simp: update_user_row_def patch_users_def)

lemma patch_users_same [simp]: "patch_users i (\<lambda>u. u) d = d"
  by (simp add: patch_users_def)

definition hashed :: "admin_env \<Rightarrow> string \<Rightarrow> user_row \<Rightarrow> user_row" where
  "hashed env password u =
     (if us_auth_source u = ''local''
      then u\<lparr>us_password_hash := Some (case env_bcrypt env password of Inl _ \<Rightarrow> [] | Inr hash \<Rightarrow> hash)\<rparr> else u)"

lemma hashed_keeps [simp]:
  "us_id (hashed env pw u) = us_id u" "us_username (hashed env pw u) = us_username u"
  "us_active (hashed env pw u) = us_active u"
  by (simp_all add: hashed_def)

lemma put_password_patch:
  "(\<And>u. us_id (f u) = us_id u) \<Longrightarrow> put_password env i pw (patch_users i f d) = patch_users i (\<lambda>u. hashed env pw (f u)) d"
  by (simp add: put_password_def patch_users_def hashed_def comp_def if_distrib cong: if_cong)

text \<open>
  A relation between the tables before and after a request of \<open>p\<close> holds of every handler when it
  holds of the changes a handler makes once its checks have passed.
\<close>

locale admin_change =
  fixes R :: "principal \<Rightarrow> rbac \<Rightarrow> rbac \<Rightarrow> bool"
  assumes same: "R p d d"
    and trans: "R p d d1 \<Longrightarrow> R p d1 d2 \<Longrightarrow> R p d d2"
    and add_role: "insert_role row d = Some d' \<Longrightarrow> R p d d'"
    and rename_role: "update_role_row i g d = Some d' \<Longrightarrow> (\<And>r. ro_id (g r) = ro_id r) \<Longrightarrow> R p d d'"
    and set_codes: "validateRolePermissionMutation p d (p_UserID p) i cs = None \<Longrightarrow>
      insert_all (insert_role_permission i) cs (clear_role_permissions i d) = Some d' \<Longrightarrow> R p d d'"
    and drop_role: "validateRoleMutationTarget p d (p_UserID p) i = Inr sys \<Longrightarrow> R p d (delete_role_rows i d)"
    and add_user: "validateDelegatedRoles p d (p_UserID p) rs = None \<Longrightarrow> insert_user u d = Some d1 \<Longrightarrow>
      insert_all (insert_user_role (us_id u)) rs d1 = Some d2 \<Longrightarrow> R p d d2"
    and set_user: "protectLastActiveAdmin d i nextActive (roles_of d i) = None \<Longrightarrow> patch_ok d i nextActive f \<Longrightarrow>
      R p d (patch_users i f d)"
    and set_user_roles: "validateDelegatedRoles p d (p_UserID p) rs = None \<Longrightarrow>
      protectLastActiveAdmin d i nextActive rs = None \<Longrightarrow> patch_ok d i nextActive f \<Longrightarrow>
      insert_all (insert_user_role i) rs (clear_user_roles i (patch_users i f d)) = Some d' \<Longrightarrow> R p d d'"
begin

lemma committed: "R p d d' \<Longrightarrow> R p d (fst (tx_commit commit d d' ok failed))"
  by (simp add: tx_commit_def same)

lemma createRole_R: "R p d (fst (createRole i x d))"
  by (auto simp: createRole_def Let_def same add_role split: option.splits)

lemma updateRole_R: "R p d (fst (updateRole commit p i x d))"
  by (auto simp: updateRole_def Let_def same split: sum.splits option.splits intro!: committed rename_role)

lemma replaceRolePermissions_R: "R p d (fst (replaceRolePermissions commit p i cs d))"
  by (auto simp: replaceRolePermissions_def same split: option.splits intro!: committed set_codes)

lemma deleteRole_R: "R p d (fst (deleteRole commit p i d))"
  by (auto simp: deleteRole_def same split: sum.splits intro!: committed drop_role)

lemma assignRolePermissions_R: "assignRolePermissions p i cs d = Inr d' \<Longrightarrow> R p d d'"
  by (auto simp: assignRolePermissions_def split: option.splits intro: set_codes)

lemma createRoleCompat_R: "R p d (fst (createRoleCompat commit p i x d))"
  by (auto simp: createRoleCompat_def Let_def same split: sum.splits option.splits
      intro!: committed intro: trans [OF add_role assignRolePermissions_R])

lemma putRole_R: "R p d (fst (putRole commit p i x d))"
  by (auto simp: putRole_def same split: sum.splits option.splits
      intro!: committed intro: trans [OF rename_role assignRolePermissions_R])

lemma createUser_R: "R p d (fst (createUser env commit p i x d))"
  by (auto simp: createUser_def Let_def same split: sum.splits option.splits
      intro!: committed intro: add_user)

lemma updateUser_R: "R p d (fst (updateUser commit p i x d))"
  by (auto simp: updateUser_def Let_def same update_user_row_Some patch_ok_def split: option.splits
      intro!: committed set_user)

lemma replaceUserRoles_R: "R p d (fst (replaceUserRoles commit p i rs d))"
proof -
  have "R p d d'" if "validateDelegatedRoles p d (p_UserID p) rs = None"
    "protectLastActiveAdmin d i a rs = None"
    "insert_all (insert_user_role i) rs (clear_user_roles i d) = Some d'" for a d'
    using that set_user_roles [of p d rs i a "\<lambda>u. u" d'] by (simp add: patch_ok_def)
  then show ?thesis by (auto simp: replaceUserRoles_def same split: option.splits intro!: committed)
qed

lemma putUser_R: "R p d (fst (putUser env commit p i x d))"
proof -
  define f :: "user_row \<Rightarrow> user_row" where "f = (\<lambda>u. u\<lparr>
    us_username := (if us_auth_source u = ''local'' then NormalizeUsername env (ui_Username x) else us_username u),
    us_display_name := ui_DisplayName x, us_email := ui_Email x, us_active := (ui_Active x \<noteq> Some False)\<rparr>)"
  have ids: "us_id (f u) = us_id u" for u by (simp add: f_def)
  have main: "R p d d3" if "validateDelegatedRoles p d (p_UserID p) rs = None"
    "protectLastActiveAdmin d i (ui_Active x \<noteq> Some False) rs = None" "update_user_row i f d = Some d1"
    "insert_all (insert_user_role i) rs (clear_user_roles i (if pw \<noteq> [] then put_password env i pw d1 else d1)) = Some d3"
    for rs d1 d3 pw
  proof -
    let ?g = "\<lambda>u. if pw \<noteq> [] then hashed env pw (f u) else f u"
    have d1: "(if pw \<noteq> [] then put_password env i pw d1 else d1) = patch_users i ?g d"
      using that(3) by (simp add: update_user_row_Some put_password_patch [OF ids])
    have "patch_ok d i (ui_Active x \<noteq> Some False) ?g"
      using that(3) unfolding update_user_row_Some by (auto simp: patch_ok_def ids) (auto simp: f_def)
    then show ?thesis using that(4) unfolding d1 by (rule set_user_roles [OF that(1,2)])
  qed
  show ?thesis
    unfolding putUser_def Let_def f_def [symmetric]
    using main [where pw = "[]"] main [where pw = "ui_Password x"]
    by (auto simp: same split: sum.splits option.splits intro!: committed)
qed

lemma serve_R: "R p d (fst (serve env net commit p req d))"
  by (cases req) (simp_all add: serve_def withPermission_def same createRole_R createRoleCompat_R updateRole_R
      putRole_R replaceRolePermissions_R deleteRole_R createUser_R updateUser_R putUser_R replaceUserRoles_R)

end

subsection \<open>Delegation is confined\<close>

definition confined :: "principal \<Rightarrow> rbac \<Rightarrow> rbac \<Rightarrow> bool" where
  "confined p d d' \<longleftrightarrow>
     (\<forall>u. set (granted_codes d' u) \<subseteq> set (granted_codes d u) \<union> set (granted_codes d (p_UserID p))) \<and>
     (\<forall>u. holds_admin d' u \<longrightarrow> holds_admin d u \<or> holds_admin d (p_UserID p) \<and> \<not> p_ViaAPIKey p) \<and>
     set (role_codes d' admin_role) = set (role_codes d admin_role)"

lemma confined_unchanged:
  "user_roles d' = user_roles d \<Longrightarrow> role_permissions d' = role_permissions d \<Longrightarrow> confined p d d'"
  by (simp add: confined_def granted_codes_def roles_of_def role_codes_def holds_admin_def cong: map_cong)

lemma confined_set_codes:
  assumes "validateRolePermissionMutation p d (p_UserID p) i cs = None"
    "insert_all (insert_role_permission i) cs (clear_role_permissions i d) = Some d'"
  shows "confined p d d'"
proof -
  note v = validateRolePermissionMutation_None [OF assms(1)]
  have t: "user_roles d' = user_roles d"
    "\<And>r c. (r, c) \<in> set (role_permissions d') \<longleftrightarrow> (r, c) \<in> set (role_permissions d) \<and> r \<noteq> i \<or> r = i \<and> c \<in> set cs"
    using insert_role_codes [OF assms(2)] by (auto simp: clear_role_permissions_def)
  have "c \<in> set (granted_codes d u) \<union> set (granted_codes d (p_UserID p))" if "c \<in> set (granted_codes d' u)" for u c
    using that subsetD [OF v(2), of c] unfolding granted_iff t Un_iff by blast
  then show ?thesis using v(1) by (auto simp: confined_def holds_admin_iff role_codes_iff t)
qed

lemma confined_user_roles:
  assumes "validateDelegatedRoles p d (p_UserID p) rs = None" "role_permissions d' = role_permissions d"
    "set (user_roles d') \<subseteq> set (user_roles d) \<union> Pair i ` set rs"
  shows "confined p d d'"
proof -
  note v = validateDelegatedRoles_None [OF assms(1)]
  have "c \<in> set (granted_codes d u) \<union> set (granted_codes d (p_UserID p))" if c: "c \<in> set (granted_codes d' u)" for u c
  proof -
    obtain r where "(u, r) \<in> set (user_roles d')" and rc: "(r, c) \<in> set (role_permissions d)"
      using c assms(2) by (auto simp: granted_iff)
    then consider "(u, r) \<in> set (user_roles d)" | "r \<in> set rs" using assms(3) by blast
    then show ?thesis using rc v(1) [of r] by cases (auto simp: granted_iff role_codes_iff subset_iff)
  qed
  moreover have "holds_admin d u \<or> holds_admin d (p_UserID p) \<and> \<not> p_ViaAPIKey p" if "holds_admin d' u" for u
    using that assms(3) v(2) by (auto simp: holds_admin_iff)
  ultimately show ?thesis using assms(2) by (auto simp: confined_def role_codes_def)
qed

interpretation delegation: admin_change confined
proof (unfold_locales, goal_cases)
  case (2 p d d1 d2)
  then show ?case unfolding confined_def by blast
next
  case (5 p d i cs d')
  then show ?case by (rule confined_set_codes)
next
  case (6 p d i sys)
  then show ?case using validateRoleMutationTarget_Inr [OF 6]
    by (auto simp: confined_def granted_iff holds_admin_iff role_codes_iff delete_role_rows_def)
next
  case (7 p d rs u d1 d2)
  then show ?case using insert_user_roles [OF 7(3)]
    by (intro confined_user_roles [OF 7(1), of _ "us_id u"]) (auto simp: insert_user_def split: if_splits)
next
  case (9 p d rs i nextActive f d')
  then show ?case using insert_user_roles [OF 9(4)]
    by (intro confined_user_roles [OF 9(1), of _ i]) (auto simp: clear_user_roles_def patch_users_def)
qed (auto simp: insert_role_def update_role_row_def patch_users_def split: if_splits intro!: confined_unchanged)

lemma serve_all_confined:
  "c \<in> set (granted_codes (serve_all env rs d) u) \<Longrightarrow>
     c \<in> set (granted_codes d u) \<or> (\<exists>a\<in>set rs. c \<in> set (granted_codes d (p_UserID (fst a))))"
  "holds_admin (serve_all env rs d) u \<Longrightarrow>
     holds_admin d u \<or> (\<exists>a\<in>set rs. holds_admin d (p_UserID (fst a)) \<and> \<not> p_ViaAPIKey (fst a))"
  "set (role_codes (serve_all env rs d) admin_role) = set (role_codes d admin_role)"
proof (induction rs arbitrary: d u c)
  case (Cons a rs)
  obtain p req net commit where a: "a = (p, req, net, commit)" by (cases a) auto
  define d1 where "d1 = (\<lambda>d. fst (serve env net commit p req d))"
  have "confined p d (d1 d)" for d unfolding d1_def by (rule delegation.serve_R)
  then have g: "\<And>d v c. c \<in> set (granted_codes (d1 d) v) \<Longrightarrow> c \<in> set (granted_codes d v) \<or> c \<in> set (granted_codes d (p_UserID p))"
    and h: "\<And>d v. holds_admin (d1 d) v \<Longrightarrow> holds_admin d v \<or> holds_admin d (p_UserID p) \<and> \<not> p_ViaAPIKey p"
    and k: "\<And>d. set (role_codes (d1 d) admin_role) = set (role_codes d admin_role)"
    unfolding confined_def by blast+
  have s: "serve_all env (a # rs) d = serve_all env rs (d1 d)" for d by (simp add: a d1_def)
  {
    case 1
    from Cons.IH(1) [OF this [unfolded s]] g show ?case by (auto simp: a)
  next
    case 2
    from Cons.IH(2) [OF this [unfolded s]] h show ?case by (auto simp: a)
  next
    case 3
    show ?case unfolding s using Cons.IH(3) k by simp
  }
qed simp_all

subsection \<open>There is always an administrator\<close>

definition keeps_admin :: "principal \<Rightarrow> rbac \<Rightarrow> rbac \<Rightarrow> bool" where
  "keeps_admin p d d' \<longleftrightarrow> (active_admins d \<noteq> [] \<longrightarrow> active_admins d' \<noteq> [])"

lemma active_admins_kept:
  assumes "j \<in> set (active_admins d)"
    "\<And>u. u \<in> set (users d) \<Longrightarrow> us_id u = j \<Longrightarrow> us_active u \<Longrightarrow> \<exists>v\<in>set (users d'). us_id v = j \<and> us_active v"
    "holds_admin d j \<Longrightarrow> holds_admin d' j"
  shows "active_admins d' \<noteq> []"
proof -
  have "j \<in> set (active_admins d')" using assms by (auto simp: active_admins_iff)
  then show ?thesis by auto
qed

lemma keeps_admin_rows:
  assumes "set (users d) \<subseteq> set (users d')" "\<And>u. (u, admin_role) \<in> set (user_roles d) \<Longrightarrow> (u, admin_role) \<in> set (user_roles d')"
  shows "keeps_admin p d d'"
  unfolding keeps_admin_def
proof
  assume "active_admins d \<noteq> []"
  then obtain j where "j \<in> set (active_admins d)" by (cases "active_admins d") auto
  then show "active_admins d' \<noteq> []" by (rule active_admins_kept) (use assms in \<open>auto simp: holds_admin_iff\<close>)
qed

lemma keeps_admin_user:
  assumes "protectLastActiveAdmin d i act rs = None" "patch_ok d i act f"
    "users d' = map (\<lambda>u. if us_id u = i then f u else u) (users d)"
    "\<And>u. u \<noteq> i \<Longrightarrow> (u, admin_role) \<in> set (user_roles d) \<Longrightarrow> (u, admin_role) \<in> set (user_roles d')"
    "admin_role \<in> set rs \<Longrightarrow> (i, admin_role) \<in> set (user_roles d')"
  shows "keeps_admin p d d'"
  unfolding keeps_admin_def
proof
  assume "active_admins d \<noteq> []"
  from protectLastActiveAdmin_None [OF assms(1) this]
  show "active_admins d' \<noteq> []"
  proof (elim disjE bexE conjE)
    fix j assume j: "j \<in> set (active_admins d)" "j \<noteq> i"
    show ?thesis by (rule active_admins_kept [OF j(1)]) (use assms(3,4) j(2) in \<open>auto simp: holds_admin_iff image_iff\<close>)
  next
    assume i: "i \<in> set (active_admins d)" "act" "admin_role \<in> set rs"
    show ?thesis by (rule active_admins_kept [OF i(1)])
        (use assms(2,3,5) i(2,3) in \<open>auto simp: holds_admin_iff patch_ok_def image_iff\<close>)
  qed
qed

interpretation admins: admin_change keeps_admin
proof (unfold_locales, goal_cases)
  case (5 p d i cs d')
  then show ?case using insert_role_codes [OF 5(2)]
    by (intro keeps_admin_rows) (auto simp: clear_role_permissions_def)
next
  case (6 p d i sys)
  then show ?case using validateRoleMutationTarget_Inr [OF 6]
    by (intro keeps_admin_rows) (auto simp: delete_role_rows_def)
next
  case (7 p d rs u d1 d2)
  then show ?case using insert_user_roles [OF 7(3)]
    by (intro keeps_admin_rows) (auto simp: insert_user_def split: if_splits)
next
  case (8 d i nextActive f p)
  then show ?case
    by (intro keeps_admin_user [OF 8]) (auto simp: patch_users_def roles_of_def)
next
  case (9 p d rs i nextActive f d')
  then show ?case using insert_user_roles [OF 9(4)]
    by (intro keeps_admin_user [OF 9(2,3)]) (auto simp: clear_user_roles_def patch_users_def)
qed (auto simp: keeps_admin_def insert_role_def update_role_row_def active_admins_def holds_admin_def roles_of_def
    split: if_splits)

subsection \<open>The schema's constraints\<close>

definition rbac_wf :: "rbac \<Rightarrow> bool" where
  "rbac_wf d \<longleftrightarrow> distinct (map us_id (users d)) \<and> distinct (map us_username (users d)) \<and>
     distinct (map ro_id (roles d)) \<and> distinct (map ro_name (roles d)) \<and>
     distinct (user_roles d) \<and> distinct (role_permissions d) \<and>
     (\<forall>(u, r)\<in>set (user_roles d). u \<in> us_id ` set (users d) \<and> r \<in> ro_id ` set (roles d)) \<and>
     (\<forall>(r, c)\<in>set (role_permissions d). r \<in> ro_id ` set (roles d) \<and> c \<in> set (permissions d))"

definition keeps_wf :: "principal \<Rightarrow> rbac \<Rightarrow> rbac \<Rightarrow> bool" where
  "keeps_wf p d d' \<longleftrightarrow> (rbac_wf d \<longrightarrow> rbac_wf d')"

lemma distinct_names_update:
  assumes "distinct (map key xs)" "distinct (map nm xs)"
    "\<And>x y. x \<in> set xs \<Longrightarrow> y \<in> set xs \<Longrightarrow> key x = i \<Longrightarrow> key y \<noteq> i \<Longrightarrow> nm (f x) = nm x \<or> nm y \<noteq> nm (f x)"
  shows "distinct (map (\<lambda>x. nm (if key x = i then f x else x)) xs)"
proof -
  have k: "inj_on key (set xs)" and n: "inj_on nm (set xs)" and d: "distinct xs"
    using assms(1,2) by (simp_all add: distinct_map)
  have "inj_on (\<lambda>x. nm (if key x = i then f x else x)) (set xs)"
  proof (rule inj_onI)
    fix x y assume xy: "x \<in> set xs" "y \<in> set xs"
      and e: "nm (if key x = i then f x else x) = nm (if key y = i then f y else y)"
    note inj = inj_onD [OF k _ xy] inj_onD [OF n _ xy]
    consider "key x = i" "key y = i" | "key x = i" "key y \<noteq> i" | "key x \<noteq> i" "key y = i" | "key x \<noteq> i" "key y \<noteq> i"
      by blast
    then show "x = y"
    proof cases
      case 1
      then show ?thesis using inj(1) by simp
    next
      case 2
      then have "nm x = nm y" using e assms(3) [OF xy(1,2) 2] by auto
      then show ?thesis by (rule inj(2))
    next
      case 3
      then have "nm x = nm y" using e assms(3) [OF xy(2,1) 3(2,1)] by auto
      then show ?thesis by (rule inj(2))
    next
      case 4
      then show ?thesis using e inj(2) by simp
    qed
  qed
  then show ?thesis using d by (simp add: distinct_map)
qed

lemma map_ids_update: "(\<And>x. key (f x) = key x) \<Longrightarrow> map (\<lambda>x. key (if key x = i then f x else x)) xs = map key xs"
  by simp

lemma wf_patch_users:
  assumes "patch_ok d i act f" "rbac_wf d"
  shows "rbac_wf (patch_users i f d)"
proof -
  let ?d = "patch_users i f d"
  have ids: "map us_id (users ?d) = map us_id (users d)"
    using assms(1) by (simp add: patch_users_def patch_ok_def)
  have "distinct (map us_username (users ?d))"
    using distinct_names_update [of us_id "users d" us_username i f] assms
    by (auto simp: patch_users_def patch_ok_def comp_def rbac_wf_def)
  moreover have "us_id ` set (users ?d) = us_id ` set (users d)" using ids by (metis list.set_map)
  moreover have "distinct (map us_id (users ?d))" using ids assms(2) by (simp add: rbac_wf_def)
  ultimately show ?thesis using assms(2) by (simp add: rbac_wf_def) (simp add: patch_users_def)
qed

lemma wf_append_user_roles:
  assumes "insert_all (insert_user_role i) rs d = Some d'" "rbac_wf d"
  shows "rbac_wf d'"
  using insert_user_roles [OF assms(1)] assms(2)
  by (cases "rs = []") (auto simp: rbac_wf_def distinct_map inj_on_def)

lemma wf_clear_user_roles: "rbac_wf d \<Longrightarrow> rbac_wf (clear_user_roles i d)"
  by (auto simp: rbac_wf_def clear_user_roles_def)

lemma wf_insert_role: "insert_role r d = Some d' \<Longrightarrow> rbac_wf d \<Longrightarrow> rbac_wf d'"
  by (auto simp: rbac_wf_def insert_role_def split: if_splits) blast+

lemma wf_insert_user: "insert_user u d = Some d' \<Longrightarrow> rbac_wf d \<Longrightarrow> rbac_wf d'"
  by (auto simp: rbac_wf_def insert_user_def split: if_splits) blast+

lemma wf_rename_role:
  assumes "update_role_row i f d = Some d'" "\<And>r. ro_id (f r) = ro_id r" "rbac_wf d"
  shows "rbac_wf d'"
proof -
  have n: "\<And>x y. x \<in> set (roles d) \<Longrightarrow> y \<in> set (roles d) \<Longrightarrow> ro_id x = i \<Longrightarrow> ro_id y \<noteq> i \<Longrightarrow> ro_name y \<noteq> ro_name (f x)"
    and d': "d' = d\<lparr>roles := map (\<lambda>x. if ro_id x = i then f x else x) (roles d)\<rparr>"
    using assms(1) by (auto simp: update_role_row_def split: if_splits)
  have ids: "map ro_id (roles d') = map ro_id (roles d)" using assms(2) by (simp add: d')
  have "distinct (map ro_name (roles d'))"
    using distinct_names_update [of ro_id "roles d" ro_name i f] n assms(3) by (simp add: d' comp_def rbac_wf_def)
  moreover have "ro_id ` set (roles d') = ro_id ` set (roles d)" using ids by (metis list.set_map)
  moreover have "distinct (map ro_id (roles d'))" using ids assms(3) by (simp add: rbac_wf_def)
  ultimately show ?thesis using assms(3) by (simp add: rbac_wf_def d')
qed

lemma wf_set_codes:
  assumes "insert_all (insert_role_permission i) cs (clear_role_permissions i d) = Some d'" "rbac_wf d"
  shows "rbac_wf d'"
  using insert_role_codes [OF assms(1)] assms(2)
  by (cases "cs = []") (auto simp: rbac_wf_def clear_role_permissions_def distinct_map inj_on_def)

lemma wf_delete_role: "rbac_wf d \<Longrightarrow> rbac_wf (delete_role_rows i d)"
  by (auto simp: rbac_wf_def delete_role_rows_def distinct_map_filter image_iff)

interpretation schema: admin_change keeps_wf
proof (unfold_locales, goal_cases)
  case (4 i g d d' p)
  then show ?case using wf_rename_role by (simp add: keeps_wf_def)
next
  case (7 p d rs u d1 d2)
  then show ?case using wf_insert_user wf_append_user_roles by (simp add: keeps_wf_def)
next
  case (9 p d rs i nextActive f d')
  then show ?case using wf_patch_users wf_clear_user_roles wf_append_user_roles by (simp add: keeps_wf_def)
qed (auto simp: keeps_wf_def wf_insert_role wf_delete_role wf_patch_users intro: wf_set_codes)

subsection \<open>Sequences of requests\<close>

lemma serve_all_induct:
  assumes "\<And>p d env net commit req. Q d \<Longrightarrow> Q (fst (serve env net commit p req d))" "Q d"
  shows "Q (serve_all env rs d)"
  using assms(2)
proof (induction rs arbitrary: d)
  case (Cons a rs)
  then show ?case using assms(1) by (cases a) simp
qed simp

text \<open>Every error reply comes from a branch that leaves the tables alone.\<close>

lemma tx_commit_error: "400 \<le> reply_status (snd (tx_commit commit d d' ok failed)) \<Longrightarrow> ok < 400 \<Longrightarrow>
  fst (tx_commit commit d d' ok failed) = d"
  by (simp add: tx_commit_def split: if_splits)

lemmas handler_defs = createRole_def updateRole_def replaceRolePermissions_def deleteRole_def createRoleCompat_def
  putRole_def createUser_def updateUser_def replaceUserRoles_def putUser_def

lemma handle_error:
  "400 \<le> reply_status (snd (handle_request env commit p req d)) \<Longrightarrow> fst (handle_request env commit p req d) = d"
  by (cases req) (auto simp: handler_defs Let_def split: if_splits sum.splits option.splits
      dest!: tx_commit_error)

subsection \<open>A small installation\<close>

definition demo_env :: admin_env where
  "demo_env = \<lparr>env_lower = to_lower, env_sql_lower = to_lower,
     env_bcrypt = (\<lambda>pw. if length pw > 72 then Inl (Err ''bcrypt: password length exceeds 72 bytes'') else Inr (rev pw))\<rparr>"

definition demo_user :: "string \<Rightarrow> user_row" where
  "demo_user i = \<lparr>us_id = i, us_username = i, us_password_hash = Some ''x'', us_display_name = i, us_email = [],
     us_auth_source = ''local'', us_active = True\<rparr>"

definition demo_rbac :: rbac where
  "demo_rbac = \<lparr>users = [demo_user ''root'', demo_user ''ops''],
     roles = [\<lparr>ro_id = ''role-admin'', ro_name = ''Administrator'', ro_description = [], ro_system = True\<rparr>,
              \<lparr>ro_id = ''role-operator'', ro_name = ''Operator'', ro_description = [], ro_system = True\<rparr>],
     permissions = [''admin.rbac.write'', ''admin.users.write'', ''releases.submit''],
     role_permissions = [(''role-admin'', ''admin.rbac.write''), (''role-admin'', ''admin.users.write''),
       (''role-admin'', ''releases.submit''), (''role-operator'', ''admin.users.write'')],
     user_roles = [(''root'', ''role-admin''), (''ops'', ''role-operator'')]\<rparr>"

definition demo_session :: "string \<Rightarrow> principal" where
  "demo_session i = \<lparr>p_UserID = i, p_Permissions = granted_codes demo_rbac i, p_Scopes = [], p_ViaAPIKey = False\<rparr>"

text \<open>An operator tries to make himself an administrator, and the administrator to retire.\<close>

definition demo_arrivals :: "arrival list" where
  "demo_arrivals =
     [(demo_session ''ops'', ReplaceUserRolesReq ''ops'' [''role-admin''], True, True),
      (demo_session ''root'', ReplaceUserRolesReq ''root'' [''role-operator''], True, True),
      (demo_session ''root'', ReplaceUserRolesReq ''ops'' [''role-admin''], True, True),
      (demo_session ''ops'', UpdateUserReq ''root'' \<lparr>up_DisplayName = None, up_Email = None, up_Active = Some False\<rparr>, True, True)]"

subsection \<open>Properties\<close>

text \<open>
  C2 (no_privilege_escalation): whatever sequence of role and user requests a group of users sends, with
  sessions or API keys, no user ends up with a permission that neither he nor a member of the group
  had at the start; nobody becomes an administrator unless a member of the group was one and used a
  session; and the permissions of the administrator role stay as they were.
\<close>

theorem no_privilege_escalation:
  "set (granted_codes (serve_all env rs d) u) \<subseteq>
     set (granted_codes d u) \<union> (\<Union>a\<in>set rs. set (granted_codes d (p_UserID (fst a)))) \<and>
   {v. holds_admin (serve_all env rs d) v} \<subseteq>
     {v. holds_admin d v} \<union> {v. \<exists>a\<in>set rs. holds_admin d (p_UserID (fst a)) \<and> \<not> p_ViaAPIKey (fst a)} \<and>
   set (role_codes (serve_all env rs d) admin_role) = set (role_codes d admin_role)"
  using serve_all_confined [where env = env and rs = rs and d = d] by (intro conjI) blast+

text \<open>
  C15 (an_administrator_remains): as long as there is an active administrator, no sequence of requests
  removes, demotes or deactivates the last one.
\<close>

theorem an_administrator_remains:
  assumes "active_admins d \<noteq> []"
  shows "active_admins (serve_all env rs d) \<noteq> []"
  using admins.serve_R by (intro serve_all_induct [where Q = "\<lambda>d. active_admins d \<noteq> []"] assms)
    (auto simp: keeps_admin_def)

theorem an_administrator_remains_witness:
  "active_admins demo_rbac = [''root''] \<and> active_admins (serve_all demo_env demo_arrivals demo_rbac) \<noteq> []"
proof
  show a: "active_admins demo_rbac = [''root'']" by code_simp
  show "active_admins (serve_all demo_env demo_arrivals demo_rbac) \<noteq> []"
    by (rule an_administrator_remains) (simp add: a)
qed



text \<open>
  A request that is answered with an error has changed no table.
\<close>

theorem refused_request_changes_nothing:
  assumes "400 \<le> reply_status (snd (serve env net commit p req d))"
  shows "fst (serve env net commit p req d) = d"
  using assms handle_error by (auto simp: serve_def withPermission_def split: if_splits)

theorem refused_request_changes_nothing_witness:
  "snd (serve demo_env True True (demo_session ''ops'') (ReplaceUserRolesReq ''ops'' [''role-admin'']) demo_rbac) =
     Reply 403 ''delegation_forbidden'' \<and>
   fst (serve demo_env True True (demo_session ''ops'') (ReplaceUserRolesReq ''ops'' [''role-admin'']) demo_rbac) = demo_rbac"
proof
  show a: "snd (serve demo_env True True (demo_session ''ops'') (ReplaceUserRolesReq ''ops'' [''role-admin'']) demo_rbac) =
     Reply 403 ''delegation_forbidden''" by code_simp
  show "fst (serve demo_env True True (demo_session ''ops'') (ReplaceUserRolesReq ''ops'' [''role-admin'']) demo_rbac) = demo_rbac"
    by (rule refused_request_changes_nothing) (simp only: a reply.sel)
qed

text \<open>
  \<open>putUser\<close> drops the error of \<open>bcrypt.GenerateFromPassword\<close>: a password the library refuses is answered
  with 200 and stored as the empty hash, which no password matches.
\<close>

lemma put_user_stores_empty_hash:
  "let input = \<lparr>ui_Username = ''ops'', ui_DisplayName = [], ui_Email = [], ui_Password = replicate 73 (CHR ''a''),
         ui_Roles = Strings [''role-operator''], ui_Active = None\<rparr>;
       r = putUser demo_env True (demo_session ''root'') ''ops'' input demo_rbac
   in snd r = Reply 200 [] \<and> map us_password_hash (users (fst r)) = [Some ''x'', Some []]"
  by code_simp

end
