(* ===== verification/Semver.thy ===== *)
theory Semver
  imports Go_Strings "HOL-Library.Product_Lexorder"
begin

text \<open>
  Versions of quick deployments: the first part of
  \<open>src/backend/internal/server/presets.go\<close>. A quick artifact is named
  \<open><prefix>-v<semver>.tar.gz\<close>; the prefix selects the deployment preset and the version must be newer
  than the deployed one. The theory models the two regular expressions (as parsers of their capture
  groups), \<open>parseQuickArtifactFilename\<close>, \<open>parseSemVersion\<close>, \<open>compareSemVersions\<close>,
  \<open>validateQuickUpgrade\<close> and \<open>validateDeploymentPreset\<close>, and shows that the comparison on strings
  is the precedence order of Semantic Versioning on the numbers the strings denote.
\<close>

subsection \<open>The version syntax\<close>

text \<open>The character class \<open>[0-9A-Za-z-]\<close>.\<close>

definition sem_char :: "char \<Rightarrow> bool" where
  "sem_char c \<longleftrightarrow> is_digit c \<or> is_upper c \<or> is_lower c \<or> c = CHR ''-''"

text \<open>The group \<open>0|[1-9][0-9]*\<close>.\<close>

definition num_ident :: "string \<Rightarrow> bool" where
  "num_ident s \<longleftrightarrow> s = ''0'' \<or> s \<noteq> [] \<and> hd s \<noteq> CHR ''0'' \<and> list_all is_digit s"

text \<open>The group \<open>[0-9A-Za-z-]+(?:\.[0-9A-Za-z-]+)*\<close>.\<close>

definition pre_idents :: "string \<Rightarrow> bool" where
  "pre_idents s \<longleftrightarrow> list_all (\<lambda>p. p \<noteq> [] \<and> list_all sem_char p) (split_char (CHR ''.'') s)"

text \<open>
  \<open>semVersionPattern.FindStringSubmatch\<close>: the four groups. The numbers hold no hyphen, so a
  pre-release part starts at the first one; a group that takes no part in the match is empty.
\<close>

definition semVersionPattern :: "string \<Rightarrow> (string \<times> string \<times> string \<times> string) option" where
  "semVersionPattern s =
     (let core = takeWhile (\<lambda>c. c \<noteq> CHR ''-'') s;
          rest = drop (length core) s
      in case split_char (CHR ''.'') core of
           [a, b, c] \<Rightarrow>
             if num_ident a \<and> num_ident b \<and> num_ident c \<and> (rest = [] \<or> pre_idents (tl rest))
             then Some (a, b, c, tl rest) else None
         | _ \<Rightarrow> None)"

text \<open>The group \<open>[a-z0-9](?:[a-z0-9-]{0,62}[a-z0-9])?\<close>.\<close>

definition prefix_group :: "string \<Rightarrow> bool" where
  "prefix_group p \<longleftrightarrow> p \<noteq> [] \<and> length p \<le> 64 \<and>
     list_all (\<lambda>c. is_lower c \<or> is_digit c \<or> c = CHR ''-'') p \<and> hd p \<noteq> CHR ''-'' \<and> last p \<noteq> CHR ''-''"

text \<open>
  \<open>quickArtifactFilenamePattern.FindStringSubmatch\<close>: the prefix and the version. The prefix holds no
  dot, so the first dot ends the major number, whose digits follow the \<open>-v\<close>.
\<close>

definition quickArtifactFilenamePattern :: "string \<Rightarrow> (string \<times> string) option" where
  "quickArtifactFilenamePattern s =
     (if \<not> has_suffix s ''.tar.gz'' then None
      else
        let stem = trim_suffix s ''.tar.gz'';
            lead = takeWhile (\<lambda>c. c \<noteq> CHR ''.'') stem;
            major = rev (takeWhile is_digit (rev lead));
            front = take (length lead - length major) lead;
            pre = trim_suffix front ''-v'';
            version = major @ drop (length lead) stem
        in if has_suffix front ''-v'' \<and> prefix_group pre \<and> semVersionPattern version \<noteq> None
           then Some (pre, version) else None)"

subsection \<open>Versions\<close>

record semVersionIdentifier =
  si_value :: string
  si_numeric :: bool

record semVersion =
  sem_major :: string
  sem_minor :: string
  sem_patch :: string
  sem_prerelease :: "semVersionIdentifier list"

fun parse_prerelease :: "string list \<Rightarrow> semVersionIdentifier list result" where
  "parse_prerelease [] = Inr []"
| "parse_prerelease (v # vs) =
     (let numeric = list_all is_digit v
      in if numeric \<and> length v > 1 \<and> v ! 0 = CHR ''0''
         then Inl (Err ''numeric pre-release identifiers cannot contain leading zeroes'')
         else case parse_prerelease vs of
                Inl e \<Rightarrow> Inl e
              | Inr is \<Rightarrow> Inr (\<lparr>si_value = v, si_numeric = numeric\<rparr> # is))"

definition parseSemVersion :: "string \<Rightarrow> semVersion result" where
  "parseSemVersion value =
     (case semVersionPattern value of
        None \<Rightarrow> Inl (Err ''version must be strict SemVer without build metadata'')
      | Some (a, b, c, pre) \<Rightarrow>
          if pre = [] then Inr \<lparr>sem_major = a, sem_minor = b, sem_patch = c, sem_prerelease = []\<rparr>
          else case parse_prerelease (split_char (CHR ''.'') pre) of
                 Inl e \<Rightarrow> Inl e
               | Inr is \<Rightarrow> Inr \<lparr>sem_major = a, sem_minor = b, sem_patch = c, sem_prerelease = is\<rparr>)"

record parsedQuickArtifact =
  qa_Filename :: string
  qa_ArtifactPrefix :: string
  qa_Version :: string

definition bad_filename :: error where
  "bad_filename = Err ''filename must match artifact-prefix-v<semver>.tar.gz''"

definition parseQuickArtifactFilename :: "string \<Rightarrow> parsedQuickArtifact result" where
  "parseQuickArtifactFilename filename =
     (if filename = [] \<or> length filename > 256 \<or> trim_space filename \<noteq> filename then Inl bad_filename
      else case quickArtifactFilenamePattern filename of
             None \<Rightarrow> Inl bad_filename
           | Some (pre, version) \<Rightarrow>
               if length version > 128 then Inl bad_filename
               else case parseSemVersion version of
                      Inl e \<Rightarrow> Inl e
                    | Inr _ \<Rightarrow> Inr \<lparr>qa_Filename = filename, qa_ArtifactPrefix = pre, qa_Version = version\<rparr>)"

subsection \<open>Comparison\<close>

text \<open>\<open>strings.Compare\<close>.\<close>

definition strings_Compare :: "string \<Rightarrow> string \<Rightarrow> int" where
  "strings_Compare a b = (if a < b then -1 else if a = b then 0 else 1)"

definition compareNumericIdentifier :: "string \<Rightarrow> string \<Rightarrow> int" where
  "compareNumericIdentifier left right =
     (if length left < length right then -1
      else if length left > length right then 1
      else strings_Compare left right)"

text \<open>The body of the loop over the common indices: 0 goes on to the next one.\<close>

definition compare_identifier :: "semVersionIdentifier \<Rightarrow> semVersionIdentifier \<Rightarrow> int" where
  "compare_identifier l r =
     (if si_numeric l \<and> si_numeric r then compareNumericIdentifier (si_value l) (si_value r)
      else if si_numeric l then -1
      else if si_numeric r then 1
      else strings_Compare (si_value l) (si_value r))"

text \<open>The loop, and after it the comparison of the two lengths.\<close>

fun compare_lists :: "('a \<Rightarrow> 'a \<Rightarrow> int) \<Rightarrow> 'a list \<Rightarrow> 'a list \<Rightarrow> int" where
  "compare_lists cmp [] [] = 0"
| "compare_lists cmp [] (y # ys) = -1"
| "compare_lists cmp (x # xs) [] = 1"
| "compare_lists cmp (x # xs) (y # ys) = (if cmp x y \<noteq> 0 then cmp x y else compare_lists cmp xs ys)"

fun compare_core :: "(string \<times> string) list \<Rightarrow> int" where
  "compare_core [] = 0"
| "compare_core ((l, r) # vs) =
     (if compareNumericIdentifier l r \<noteq> 0 then compareNumericIdentifier l r else compare_core vs)"

definition compare_parsed :: "semVersion \<Rightarrow> semVersion \<Rightarrow> int" where
  "compare_parsed l r =
     (let c = compare_core [(sem_major l, sem_major r), (sem_minor l, sem_minor r), (sem_patch l, sem_patch r)]
      in if c \<noteq> 0 then c
         else if sem_prerelease l = [] \<or> sem_prerelease r = [] then
           (if sem_prerelease l = [] \<and> sem_prerelease r = [] then 0
            else if sem_prerelease l = [] then 1 else -1)
         else compare_lists compare_identifier (sem_prerelease l) (sem_prerelease r))"

definition compareSemVersions :: "string \<Rightarrow> string \<Rightarrow> int result" where
  "compareSemVersions left right =
     (case parseSemVersion left of
        Inl e \<Rightarrow> Inl e
      | Inr l \<Rightarrow> (case parseSemVersion right of Inl e \<Rightarrow> Inl e | Inr r \<Rightarrow> Inr (compare_parsed l r)))"

text \<open>The error code and the error; an upgrade is accepted when there is no error.\<close>

definition validateQuickUpgrade :: "string option \<Rightarrow> string \<Rightarrow> string \<times> error option" where
  "validateQuickUpgrade currentVersion nextVersion =
     (case currentVersion of
        None \<Rightarrow> ([], None)
      | Some cur \<Rightarrow>
          if \<not> is_ok (parseSemVersion cur)
          then (''current_version_not_semver'', Some (Err ''current deployed version is not strict SemVer; use Operations mode or the audited recovery flow''))
          else case compareSemVersions nextVersion cur of
                 Inl e \<Rightarrow> (''invalid_artifact_filename'', Some e)
               | Inr comparison \<Rightarrow>
                   if comparison \<le> 0
                   then (''quick_upgrade_required'', Some (Err ''Quick Deploy only accepts a version newer than the currently deployed version''))
                   else ([], None))"

subsection \<open>Deployment presets\<close>

definition validArtifactPrefix :: "string \<Rightarrow> bool" where
  "validArtifactPrefix pre \<longleftrightarrow> 1 \<le> length pre \<and> length pre \<le> 64 \<and>
     quickArtifactFilenamePattern (pre @ ''-v0.0.0.tar.gz'') \<noteq> None"

text \<open>\<open>validUUID\<close> of \<open>releases.go\<close>.\<close>

definition validUUID :: "string \<Rightarrow> bool" where
  "validUUID s \<longleftrightarrow> length s = 36 \<and>
     list_all (\<lambda>(i, c). if i \<in> {8, 13, 18, 23} then c = CHR ''-'' else is_hex c) (enumerate 0 s)"

record deploymentPresetInput =
  dp_Name :: string
  dp_ArtifactPrefix :: string
  dp_ApplicationID :: string
  dp_EnvironmentID :: string
  dp_DeploymentProfileID :: string
  dp_Active :: "bool option"
  dp_AutoDeployAfterApproval :: "bool option"

definition validateDeploymentPreset :: "deploymentPresetInput \<Rightarrow> error option" where
  "validateDeploymentPreset input =
     first_error
       [guard (trim_space (dp_Name input) = [] \<or> length (trim_space (dp_Name input)) > 200)
          ''name is required and must not exceed 200 characters'',
        guard (dp_ArtifactPrefix input \<noteq> to_lower (trim_space (dp_ArtifactPrefix input)) \<or>
               \<not> validArtifactPrefix (dp_ArtifactPrefix input))
          ''artifactPrefix must contain 1 to 64 lowercase letters, digits, or internal hyphens'',
        guard (\<not> validUUID (dp_ApplicationID input) \<or> \<not> validUUID (dp_EnvironmentID input) \<or>
               \<not> validUUID (dp_DeploymentProfileID input))
          ''applicationId, environmentId, and deploymentProfileId must be UUIDs'']"


subsection \<open>Digits and numbers\<close>

definition digit_value :: "char \<Rightarrow> nat" where "digit_value c = of_char c - 48"

definition decimal :: "string \<Rightarrow> nat" where
  "decimal s = foldl (\<lambda>n c. 10 * n + digit_value c) 0 s"

lemma foldl_decimal: "foldl (\<lambda>n c. 10 * n + digit_value c) k s = k * 10 ^ length s + decimal s"
proof (induction s arbitrary: k)
  case (Cons c s)
  show ?case using Cons [of "10 * k + digit_value c"] Cons [of "digit_value c"]
    by (simp add: decimal_def algebra_simps)
qed (simp add: decimal_def)

lemma decimal_Nil [simp]: "decimal [] = 0"
  by (simp add: decimal_def)

lemma decimal_Cons: "decimal (c # s) = digit_value c * 10 ^ length s + decimal s"
  using foldl_decimal [of "digit_value c" s] by (simp add: decimal_def)

lemma digit_value_bound: "is_digit c \<Longrightarrow> digit_value c < 10"
  by (auto simp: is_digit_def digit_value_def less_eq_char_def)

lemma digit_value_less: "is_digit c \<Longrightarrow> is_digit d \<Longrightarrow> digit_value c < digit_value d \<longleftrightarrow> c < d"
  by (auto simp: is_digit_def digit_value_def less_eq_char_def less_char_def)

lemma digit_value_inj: "is_digit c \<Longrightarrow> is_digit d \<Longrightarrow> digit_value c = digit_value d \<longleftrightarrow> c = d"
  using digit_value_less [of c d] digit_value_less [of d c] by (metis less_irrefl linorder_neqE)

lemma digit_value_pos: "is_digit c \<Longrightarrow> c \<noteq> CHR ''0'' \<Longrightarrow> 0 < digit_value c"
  using digit_value_inj [of c "CHR ''0''"] by (auto simp: digit_value_def is_digit_def)

lemma decimal_bound: "list_all is_digit s \<Longrightarrow> decimal s < 10 ^ length s"
proof (induction s)
  case (Cons c s)
  then have "digit_value c \<le> 9" "decimal s < 10 ^ length s"
    using digit_value_bound [of c] by auto
  moreover have "digit_value c * 10 ^ length s \<le> 9 * 10 ^ length s"
    using calculation by (intro mult_le_mono1)
  ultimately have "digit_value c * 10 ^ length s + decimal s < 10 * 10 ^ length s" by linarith
  then show ?case by (simp add: decimal_Cons)
qed simp

lemma decimal_same_length:
  assumes "list_all is_digit s" "list_all is_digit t" "length s = length t"
  shows "(decimal s < decimal t \<longleftrightarrow> s < t) \<and> (decimal s = decimal t \<longleftrightarrow> s = t)"
  using assms
proof (induction s arbitrary: t)
  case (Cons c s)
  then obtain d u where t: "t = d # u" and u: "list_all is_digit u" "length s = length u" and d: "is_digit d"
    by (cases t) auto
  have c: "is_digit c" and s: "list_all is_digit s" using Cons.prems by auto
  note ih = Cons.IH [OF s u]
  have b: "decimal s < 10 ^ length u" "decimal u < 10 ^ length u"
    using decimal_bound [OF s] decimal_bound [OF u(1)] u(2) by auto
  have gap: "x * 10 ^ length u + a < y * 10 ^ length u + b'" if "x < y" "a < 10 ^ length u" for x y a b' :: nat
    using mult_le_mono1 [of "Suc x" y "10 ^ length u"] that by simp
  consider "digit_value c < digit_value d" | "digit_value d < digit_value c" | "c = d"
    using digit_value_inj [OF c d] by linarith
  then show ?case
  proof cases
    case 1
    then show ?thesis using gap [OF 1 b(1), of "decimal u"] digit_value_less [OF c d] u(2) t
      by (auto simp: decimal_Cons)
  next
    case 2
    then show ?thesis using gap [OF 2 b(2), of "decimal s"] digit_value_less [OF d c] u(2) t
      by (auto simp: decimal_Cons)
  next
    case 3
    then show ?thesis using ih u(2) t by (auto simp: decimal_Cons)
  qed
qed simp

lemma num_ident_digits: "num_ident s \<Longrightarrow> s \<noteq> [] \<and> list_all is_digit s"
  by (auto simp: num_ident_def is_digit_def)

lemma num_ident_lower: "num_ident s \<Longrightarrow> length s \<noteq> 1 \<Longrightarrow> 10 ^ (length s - 1) \<le> decimal s"
proof (cases s)
  case (Cons c r)
  assume "num_ident s" "length s \<noteq> 1"
  then have "0 < digit_value c" using Cons by (auto simp: num_ident_def intro: digit_value_pos)
  then have "1 * 10 ^ length r \<le> digit_value c * 10 ^ length r" by (intro mult_le_mono1) simp
  then have "10 ^ length r \<le> digit_value c * 10 ^ length r + decimal r" by linarith
  then show ?thesis using Cons by (simp add: decimal_Cons)
qed (simp add: num_ident_def)

lemma decimal_longer:
  assumes "num_ident s" "num_ident t" "length s < length t"
  shows "decimal s < decimal t"
proof -
  have "s \<noteq> []" using assms(1) by (auto simp: num_ident_def)
  then have "decimal s < 10 ^ length s" "10 ^ length s \<le> (10::nat) ^ (length t - 1)" "length t \<noteq> 1"
    using decimal_bound num_ident_digits [OF assms(1)] assms(3) by (auto simp: Suc_le_eq)
  then show ?thesis using num_ident_lower [OF assms(2)] by linarith
qed

subsection \<open>Three-way comparisons\<close>

text \<open>
  A three-way comparison orders values by a key. From that one law follow the ones a caller relies
  on, and the law lifts to lists.
\<close>

definition sign_cmp :: "'k::linorder \<Rightarrow> 'k \<Rightarrow> int" where
  "sign_cmp a b = (if a < b then -1 else if a = b then 0 else 1)"

lemma sign_cmp_iff [simp]:
  "sign_cmp a b < 0 \<longleftrightarrow> a < b" "sign_cmp a b = 0 \<longleftrightarrow> a = b" "0 < sign_cmp a b \<longleftrightarrow> b < a"
  "sign_cmp a b \<le> 0 \<longleftrightarrow> a \<le> b"
  by (auto simp: sign_cmp_def)

lemma sign_cmp_Pair: "sign_cmp (a, b) (c, d) = (if sign_cmp a c \<noteq> 0 then sign_cmp a c else sign_cmp b d)"
  by (auto simp: sign_cmp_def less_le)

lemma sign_cmp_Cons: "sign_cmp (a # b) (c # d) = (if sign_cmp a c \<noteq> 0 then sign_cmp a c else sign_cmp b d)"
  by (auto simp: sign_cmp_def)

locale comparison =
  fixes valid :: "'a \<Rightarrow> bool" and cmp :: "'a \<Rightarrow> 'a \<Rightarrow> int" and key :: "'a \<Rightarrow> 'k::linorder"
  assumes cmp_key: "valid x \<Longrightarrow> valid y \<Longrightarrow> cmp x y = sign_cmp (key x) (key y)"
begin

lemma cmp_swap: "valid x \<Longrightarrow> valid y \<Longrightarrow> cmp y x = - cmp x y"
  by (auto simp: cmp_key sign_cmp_def)

lemma cmp_trans:
  "valid x \<Longrightarrow> valid y \<Longrightarrow> valid z \<Longrightarrow> cmp x y \<le> 0 \<Longrightarrow> cmp y z \<le> 0 \<Longrightarrow> cmp x z \<le> 0"
  by (auto simp: cmp_key)

lemma lists_key:
  "list_all valid xs \<Longrightarrow> list_all valid ys \<Longrightarrow> compare_lists cmp xs ys = sign_cmp (map key xs) (map key ys)"
proof (induction xs arbitrary: ys)
  case Nil
  then show ?case by (cases ys) (simp_all add: sign_cmp_def)
next
  case (Cons x xs)
  then show ?case
    by (cases ys) (simp_all add: cmp_key sign_cmp_Cons, simp_all add: sign_cmp_def)
qed

end

lemma strings_Compare_sign: "strings_Compare a b = sign_cmp a b"
  by (simp add: strings_Compare_def sign_cmp_def)

interpretation numbers: comparison num_ident compareNumericIdentifier decimal
proof
  fix x y assume v: "num_ident x" "num_ident y"
  consider "length x < length y" | "length y < length x" | "length x = length y" by linarith
  then show "compareNumericIdentifier x y = sign_cmp (decimal x) (decimal y)"
  proof cases
    case 3
    then show ?thesis using decimal_same_length [of x y] num_ident_digits [OF v(1)] num_ident_digits [OF v(2)]
      by (auto simp: compareNumericIdentifier_def strings_Compare_sign sign_cmp_def)
  qed (use decimal_longer v in \<open>force simp: compareNumericIdentifier_def sign_cmp_def\<close>)+
qed

subsection \<open>Precedence\<close>

text \<open>
  Precedence as Semantic Versioning states it: numeric identifiers compare as numbers and come before
  alphanumeric ones, which compare bytewise; a release comes after its pre-releases, and a shorter
  list of pre-release identifiers before its extensions.
\<close>

datatype precedence_ident = SNum nat | SText string

instantiation precedence_ident :: linorder
begin

definition less_eq_precedence_ident :: "precedence_ident \<Rightarrow> precedence_ident \<Rightarrow> bool" where
  "less_eq_precedence_ident x y =
     (case (x, y) of
        (SNum a, SNum b) \<Rightarrow> a \<le> b
      | (SNum _, SText _) \<Rightarrow> True
      | (SText _, SNum _) \<Rightarrow> False
      | (SText a, SText b) \<Rightarrow> a \<le> b)"

definition less_precedence_ident :: "precedence_ident \<Rightarrow> precedence_ident \<Rightarrow> bool" where
  "less_precedence_ident x y \<longleftrightarrow> x \<le> y \<and> \<not> y \<le> x"

instance
  by standard (auto simp: less_eq_precedence_ident_def less_precedence_ident_def split: precedence_ident.splits)

end

definition ident_key :: "semVersionIdentifier \<Rightarrow> precedence_ident" where
  "ident_key i = (if si_numeric i then SNum (decimal (si_value i)) else SText (si_value i))"

definition precedence :: "semVersion \<Rightarrow> nat \<times> nat \<times> nat \<times> bool \<times> precedence_ident list" where
  "precedence v = (decimal (sem_major v), decimal (sem_minor v), decimal (sem_patch v),
     sem_prerelease v = [], map ident_key (sem_prerelease v))"

definition valid_ident :: "semVersionIdentifier \<Rightarrow> bool" where
  "valid_ident i \<longleftrightarrow> si_value i \<noteq> [] \<and> list_all sem_char (si_value i) \<and>
     (si_numeric i \<longleftrightarrow> list_all is_digit (si_value i)) \<and> (si_numeric i \<longrightarrow> num_ident (si_value i))"

definition valid_version :: "semVersion \<Rightarrow> bool" where
  "valid_version v \<longleftrightarrow> num_ident (sem_major v) \<and> num_ident (sem_minor v) \<and> num_ident (sem_patch v) \<and>
     list_all valid_ident (sem_prerelease v)"

lemma ident_order:
  "SNum a < SNum b \<longleftrightarrow> a < b" "SNum a < SText s" "\<not> SText s < SNum a" "SText s < SText t \<longleftrightarrow> s < t"
  by (auto simp: less_precedence_ident_def less_eq_precedence_ident_def)

interpretation identifiers: comparison valid_ident compare_identifier ident_key
proof
  fix x y assume "valid_ident x" "valid_ident y"
  then show "compare_identifier x y = sign_cmp (ident_key x) (ident_key y)"
    by (auto simp: compare_identifier_def valid_ident_def numbers.cmp_key strings_Compare_sign ident_key_def
        sign_cmp_def ident_order)
qed

interpretation versions: comparison valid_version compare_parsed precedence
proof
  fix x y assume v: "valid_version x" "valid_version y"
  have pre: "compare_lists compare_identifier (sem_prerelease x) (sem_prerelease y) =
      sign_cmp (map ident_key (sem_prerelease x)) (map ident_key (sem_prerelease y))"
    using v by (intro identifiers.lists_key) (auto simp: valid_version_def)
  show "compare_parsed x y = sign_cmp (precedence x) (precedence y)"
    using v
    by (simp add: compare_parsed_def Let_def precedence_def valid_version_def numbers.cmp_key sign_cmp_Pair pre)
      (auto simp: sign_cmp_def)
qed

lemma decimal_inj: "num_ident a \<Longrightarrow> num_ident b \<Longrightarrow> decimal a = decimal b \<Longrightarrow> a = b"
  using decimal_longer [of a b] decimal_longer [of b a] decimal_same_length [of a b] num_ident_digits
  by (metis less_irrefl linorder_neqE)

lemma ident_key_inj: "valid_ident i \<Longrightarrow> valid_ident j \<Longrightarrow> ident_key i = ident_key j \<Longrightarrow> i = j"
  by (cases i; cases j) (auto simp: ident_key_def valid_ident_def dest: decimal_inj split: if_splits)

lemma precedence_inj: "valid_version v \<Longrightarrow> valid_version w \<Longrightarrow> precedence v = precedence w \<Longrightarrow> v = w"
proof -
  assume v: "valid_version v" "valid_version w" and e: "precedence v = precedence w"
  have "sem_prerelease v = sem_prerelease w"
    using e v by (intro list.inj_map_strong [of _ _ ident_key ident_key])
      (auto simp: precedence_def valid_version_def list_all_iff intro: ident_key_inj)
  then show "v = w"
    using v e decimal_inj by (cases v; cases w) (auto simp: precedence_def valid_version_def)
qed

subsection \<open>Parsing and printing\<close>

definition sem_text :: "semVersion \<Rightarrow> string" where
  "sem_text v = sem_major v @ ''.'' @ sem_minor v @ ''.'' @ sem_patch v @
     (if sem_prerelease v = [] then [] else ''-'' @ join_with ''.'' (map si_value (sem_prerelease v)))"

lemma num_ident_free: "num_ident s \<Longrightarrow> CHR ''-'' \<notin> set s \<and> CHR ''.'' \<notin> set s"
  using num_ident_digits [of s] by (auto simp: list_all_iff is_digit_def)

lemma sem_char_dot: "list_all sem_char s \<Longrightarrow> CHR ''.'' \<notin> set s"
  by (auto simp: list_all_iff sem_char_def is_digit_def is_upper_def is_lower_def)

lemma takeWhile_free: "c \<notin> set s \<Longrightarrow> takeWhile (\<lambda>x. x \<noteq> c) s = s"
  by (simp add: takeWhile_eq_all_conv) metis

lemma split_core:
  "num_ident a \<Longrightarrow> num_ident b \<Longrightarrow> num_ident c \<Longrightarrow>
   split_char (CHR ''.'') (a @ CHR ''.'' # b @ CHR ''.'' # c) = [a, b, c]"
  by (simp add: split_char_append split_char_free num_ident_free)

lemma semVersionPattern_iff:
  "semVersionPattern s = Some (a, b, c, d) \<longleftrightarrow>
     num_ident a \<and> num_ident b \<and> num_ident c \<and>
     (d = [] \<and> s = a @ ''.'' @ b @ ''.'' @ c \<or> pre_idents d \<and> s = a @ ''.'' @ b @ ''.'' @ c @ ''-'' @ d)"
    (is "?l \<longleftrightarrow> ?r")
proof
  assume ?l
  define core where "core = takeWhile (\<lambda>x. x \<noteq> CHR ''-'') s"
  have n: "num_ident a" "num_ident b" "num_ident c" and sp: "split_char (CHR ''.'') core = [a, b, c]"
    and d: "d = tl (drop (length core) s)" and r: "drop (length core) s = [] \<or> pre_idents d"
    using \<open>?l\<close> by (auto simp: semVersionPattern_def Let_def core_def split: list.splits if_splits)
  have c: "core = a @ ''.'' @ b @ ''.'' @ c"
    using join_split_char [of "CHR ''.''" core] by (simp add: sp)
  show ?r
  proof (cases "CHR ''-'' \<in> set s")
    case True
    note sp = takeWhile_split [OF True, folded core_def]
    then have "drop (length core) s = CHR ''-'' # drop (Suc (length core)) s"
      using append_eq_conv_conj [of core _ s] by metis
    then have tail: "drop (length core) s = CHR ''-'' # d" using d by simp
    have "core @ drop (length core) s = s"
      using takeWhile_dropWhile_id [of _ s] by (simp add: core_def dropWhile_eq_drop [symmetric])
    then have "core @ CHR ''-'' # d = s" by (simp only: tail)
    moreover have "pre_idents d" using r tail by auto
    ultimately show ?thesis using n c by auto
  next
    case False
    then have "core = s" by (simp add: core_def takeWhile_free)
    then show ?thesis using n c d by simp
  qed
next
  assume r: ?r
  let ?core = "a @ CHR ''.'' # b @ CHR ''.'' # c"
  have f: "CHR ''-'' \<notin> set ?core" using r num_ident_free by auto
  have sp: "split_char (CHR ''.'') ?core = [a, b, c]" using r by (simp add: split_core)
  from r consider "d = []" "s = ?core" | "pre_idents d" "s = ?core @ CHR ''-'' # d" by auto
  then show ?l
  proof cases
    case 1
    then show ?thesis using r by (simp add: semVersionPattern_def Let_def takeWhile_free [OF f] sp)
  next
    case 2
    have "drop (length ?core) s = CHR ''-'' # d" unfolding 2(2) by (rule append_eq_conv_conj [THEN iffD1, THEN conjunct2, symmetric]) simp
    moreover have "takeWhile (\<lambda>x. x \<noteq> CHR ''-'') s = ?core" unfolding 2(2) by (rule takeWhile_sep [OF f])
    ultimately show ?thesis using r 2(1) by (simp only: semVersionPattern_def Let_def sp) simp
  qed
qed

definition mk_ident :: "string \<Rightarrow> semVersionIdentifier" where
  "mk_ident p = \<lparr>si_value = p, si_numeric = list_all is_digit p\<rparr>"

lemma mk_ident_value [simp]: "si_value (mk_ident p) = p"
  by (simp add: mk_ident_def)

lemma valid_mk_ident:
  "valid_ident (mk_ident p) \<longleftrightarrow> p \<noteq> [] \<and> list_all sem_char p \<and>
     \<not> (list_all is_digit p \<and> 1 < length p \<and> p ! 0 = CHR ''0'')"
  by (cases p) (auto simp: valid_ident_def mk_ident_def num_ident_def)

lemma valid_ident_mk: "valid_ident i \<Longrightarrow> mk_ident (si_value i) = i"
  by (cases i) (simp add: valid_ident_def mk_ident_def)

lemma parse_prerelease_alt:
  "parse_prerelease ps =
     (if list_all (\<lambda>p. \<not> (list_all is_digit p \<and> 1 < length p \<and> p ! 0 = CHR ''0'')) ps then Inr (map mk_ident ps)
      else Inl (Err ''numeric pre-release identifiers cannot contain leading zeroes''))"
  by (induction ps) (simp_all add: Let_def mk_ident_def)

lemma parse_prerelease_iff:
  "parse_prerelease ps = Inr is \<longleftrightarrow> is = map mk_ident ps \<and>
     list_all (\<lambda>p. \<not> (list_all is_digit p \<and> 1 < length p \<and> p ! 0 = CHR ''0'')) ps"
  unfolding parse_prerelease_alt by auto

lemma parse_prerelease_valid:
  assumes "pre_idents d"
  shows "parse_prerelease (split_char (CHR ''.'') d) = Inr is \<longleftrightarrow>
    is \<noteq> [] \<and> list_all valid_ident is \<and> d = join_with ''.'' (map si_value is)"
proof
  assume "parse_prerelease (split_char (CHR ''.'') d) = Inr is"
  then show "is \<noteq> [] \<and> list_all valid_ident is \<and> d = join_with ''.'' (map si_value is)"
    using assms by (auto simp: parse_prerelease_iff pre_idents_def list_all_iff valid_mk_ident comp_def)
next
  assume r: "is \<noteq> [] \<and> list_all valid_ident is \<and> d = join_with ''.'' (map si_value is)"
  have "split_char (CHR ''.'') d = map si_value is"
    using r by (auto simp: list_all_iff valid_ident_def sem_char_dot intro!: split_join_char)
  moreover have "map (mk_ident \<circ> si_value) is = is"
    using r by (auto simp: list_all_iff valid_ident_mk intro: map_idI)
  moreover have "\<forall>i\<in>set is. valid_ident (mk_ident (si_value i))"
    using r by (simp add: list_all_iff valid_ident_mk)
  ultimately show "parse_prerelease (split_char (CHR ''.'') d) = Inr is"
    unfolding valid_mk_ident by (auto simp: parse_prerelease_iff list_all_iff)
qed

lemma pre_idents_join:
  assumes "is \<noteq> []" "list_all valid_ident is"
  shows "pre_idents (join_with ''.'' (map si_value is))"
proof -
  have "split_char (CHR ''.'') (join_with ''.'' (map si_value is)) = map si_value is"
    using assms by (auto simp: list_all_iff valid_ident_def sem_char_dot intro!: split_join_char)
  then show ?thesis using assms by (auto simp: pre_idents_def list_all_iff valid_ident_def)
qed

lemma pre_idents_not_Nil: "\<not> pre_idents []"
  by (simp add: pre_idents_def)

lemma parseSemVersion_iff: "parseSemVersion s = Inr v \<longleftrightarrow> valid_version v \<and> s = sem_text v"
proof
  assume p: "parseSemVersion s = Inr v"
  then obtain a b c d where m: "semVersionPattern s = Some (a, b, c, d)"
    by (auto simp: parseSemVersion_def split: option.splits)
  note g = m [unfolded semVersionPattern_iff]
  show "valid_version v \<and> s = sem_text v"
  proof (cases "d = []")
    case True
    then show ?thesis using p g
      by (auto simp: parseSemVersion_def m valid_version_def sem_text_def pre_idents_not_Nil)
  next
    case False
    then obtain "is" where i: "parse_prerelease (split_char (CHR ''.'') d) = Inr is"
      and v: "v = \<lparr>sem_major = a, sem_minor = b, sem_patch = c, sem_prerelease = is\<rparr>"
      using p by (auto simp: parseSemVersion_def m split: sum.splits)
    have "pre_idents d" using g False by simp
    note parse_prerelease_valid [OF this, of "is", THEN iffD1, OF i]
    then show ?thesis using g False by (simp add: v valid_version_def sem_text_def)
  qed
next
  assume r: "valid_version v \<and> s = sem_text v"
  show "parseSemVersion s = Inr v"
  proof (cases "sem_prerelease v = []")
    case True
    then have "semVersionPattern s = Some (sem_major v, sem_minor v, sem_patch v, [])"
      using r by (simp add: semVersionPattern_iff valid_version_def sem_text_def)
    then show ?thesis using True by (simp add: parseSemVersion_def)
  next
    case False
    define d where "d = join_with ''.'' (map si_value (sem_prerelease v))"
    have d: "pre_idents d" using r False by (simp add: d_def valid_version_def pre_idents_join)
    then have m: "semVersionPattern s = Some (sem_major v, sem_minor v, sem_patch v, d)"
      using r False by (simp add: semVersionPattern_iff valid_version_def sem_text_def d_def)
    have "parse_prerelease (split_char (CHR ''.'') d) = Inr (sem_prerelease v)"
      using r False d by (simp add: parse_prerelease_valid d_def valid_version_def)
    moreover have "d \<noteq> []" using d pre_idents_not_Nil by metis
    ultimately show ?thesis by (simp add: parseSemVersion_def m)
  qed
qed

subsection \<open>Artifact file names\<close>

lemma rev_takeWhile_split: "\<exists>front. l = front @ rev (takeWhile P (rev l))"
  by (metis rev_append rev_rev_ident takeWhile_dropWhile_id)

lemma prefix_group_free: "prefix_group p \<Longrightarrow> CHR ''.'' \<notin> set p"
  by (auto simp: prefix_group_def list_all_iff is_lower_def is_digit_def)

lemma quick_pattern_sound:
  assumes "quickArtifactFilenamePattern s = Some (p, v)"
  shows "s = p @ ''-v'' @ v @ ''.tar.gz'' \<and> prefix_group p \<and> semVersionPattern v \<noteq> None"
proof -
  define stem where "stem = trim_suffix s ''.tar.gz''"
  define lead where "lead = takeWhile (\<lambda>c. c \<noteq> CHR ''.'') stem"
  define major where "major = rev (takeWhile is_digit (rev lead))"
  define front where "front = take (length lead - length major) lead"
  have c: "has_suffix s ''.tar.gz''" "has_suffix front ''-v''" "prefix_group p" "semVersionPattern v \<noteq> None"
    "p = trim_suffix front ''-v''" "v = major @ drop (length lead) stem"
    using assms
    by (auto simp: quickArtifactFilenamePattern_def Let_def stem_def lead_def major_def front_def split: if_splits)
  have "s = stem @ ''.tar.gz''" using c(1) by (auto simp: stem_def has_suffix_iff)
  moreover have "lead @ drop (length lead) stem = stem"
    by (simp add: lead_def dropWhile_eq_drop [symmetric])
  moreover obtain f where f: "lead = f @ major" using rev_takeWhile_split unfolding major_def by blast
  then have "front = f" by (simp add: front_def)
  then have "f = p @ ''-v''" using c(2,5) by (auto simp: has_suffix_iff)
  ultimately have "s = p @ ''-v'' @ v @ ''.tar.gz''" using f c(6) by (metis append.assoc)
  then show ?thesis using c by simp
qed

lemma quick_pattern_complete:
  assumes "prefix_group p" "semVersionPattern v \<noteq> None"
  shows "quickArtifactFilenamePattern (p @ ''-v'' @ v @ ''.tar.gz'') = Some (p, v)"
proof -
  obtain a rest where a: "num_ident a" "v = a @ CHR ''.'' # rest"
  proof -
    obtain a b c d where "semVersionPattern v = Some (a, b, c, d)" using assms(2) by auto
    then show ?thesis using that unfolding semVersionPattern_iff by auto
  qed
  let ?lead = "p @ ''-v'' @ a"
  have n: "CHR ''.'' \<notin> set ?lead" using prefix_group_free [OF assms(1)] num_ident_free [OF a(1)] by auto
  have "takeWhile is_digit (rev a @ ''v-'' @ rev p) = rev a"
    using num_ident_digits [OF a(1)] by (subst takeWhile_append2) (auto simp: list_all_iff is_digit_def)
  then have m: "rev (takeWhile is_digit (rev ?lead)) = a" by simp
  have s: "p @ ''-v'' @ v @ ''.tar.gz'' = (p @ ''-v'' @ v) @ ''.tar.gz''" by simp
  have l: "takeWhile (\<lambda>c. c \<noteq> CHR ''.'') (p @ ''-v'' @ v) = ?lead"
    using takeWhile_sep [OF n, of rest] by (simp add: a(2))
  have t: "trim_suffix (take (length ?lead - length a) ?lead) ''-v'' = p"
    "has_suffix (take (length ?lead - length a) ?lead) ''-v''"
    using trim_suffix_append [of p "''-v''"] has_suffix_append [of p "''-v''"] by simp_all
  have d: "a @ drop (length ?lead) (p @ ''-v'' @ v) = v" by (simp add: a(2))
  show ?thesis
    unfolding quickArtifactFilenamePattern_def s trim_suffix_append Let_def l m t d
    using assms t has_suffix_append [of "p @ ''-v'' @ v" "''.tar.gz''"] by (simp only: if_True if_False simp_thms)
qed

lemma quick_pattern_iff:
  "quickArtifactFilenamePattern s = Some (p, v) \<longleftrightarrow>
     s = p @ ''-v'' @ v @ ''.tar.gz'' \<and> prefix_group p \<and> semVersionPattern v \<noteq> None"
  using quick_pattern_sound quick_pattern_complete by blast

text \<open>A string that starts and ends with a letter or digit has no space to trim.\<close>

lemma drop_encoding_head:
  assumes "\<forall>e\<in>set encs. e = [] \<or> hd e \<noteq> c"
  shows "drop_encoding encs (c # s) = None"
proof -
  have "\<not> (e \<noteq> [] \<and> has_prefix (c # s) e)" if "e \<in> set encs" for e
    using assms that by (cases e) (auto simp: has_prefix_iff)
  then have "List.find (\<lambda>e. e \<noteq> [] \<and> has_prefix (c # s) e) encs = None" by (simp add: find_None_iff)
  then show ?thesis by (simp add: drop_encoding_def)
qed

lemma trim_space_id:
  assumes "s \<noteq> []" "is_lower (hd s) \<or> is_digit (hd s)" "is_lower (last s) \<or> is_digit (last s)"
  shows "trim_space s = s"
proof -
  have e: "\<forall>e\<in>set space_encodings. e = [] \<or> \<not> (is_lower (hd e) \<or> is_digit (hd e))"
    "\<forall>e\<in>set (map rev space_encodings). e = [] \<or> \<not> (is_lower (hd e) \<or> is_digit (hd e))"
    by code_simp+
  have d: "drop_encoding space_encodings s = None"
    using assms(1,2) e(1) drop_encoding_head [of space_encodings "hd s" "tl s"] by (cases s) fastforce+
  have r: "rev s = last s # tl (rev s)" using assms(1) by (simp add: hd_rev [symmetric])
  have "drop_encoding (map rev space_encodings) (last s # tl (rev s)) = None"
    using assms(3) e(2) by (intro drop_encoding_head) fastforce
  then have "trim_encodings (map rev space_encodings) (rev s) = rev s"
    by (subst trim_encodings.simps) (simp add: r [symmetric])
  moreover have "trim_encodings space_encodings s = s"
    by (subst trim_encodings.simps) (simp add: d)
  ultimately show ?thesis by (simp add: trim_space_def)
qed

subsection \<open>Properties\<close>

text \<open>
  C19 (semver_comparison_is_precedence): \<open>compareSemVersions\<close>, which compares digit strings by length
  and bytes and never builds a number, decides the precedence order of Semantic Versioning on the
  numbers and identifiers the two strings denote; it returns 0 only for identical strings, and it
  is antisymmetric.
\<close>

theorem semver_comparison_is_precedence:
  assumes "parseSemVersion l = Inr v" "parseSemVersion r = Inr w"
  shows "\<exists>c. compareSemVersions l r = Inr c \<and> compareSemVersions r l = Inr (- c) \<and>
    (c < 0 \<longleftrightarrow> precedence v < precedence w) \<and> (0 < c \<longleftrightarrow> precedence w < precedence v) \<and>
    (c = 0 \<longleftrightarrow> l = r)"
proof -
  have v: "valid_version v" "l = sem_text v" "valid_version w" "r = sem_text w"
    using assms by (auto simp: parseSemVersion_iff)
  have "v = w \<longleftrightarrow> l = r" using v(2,4) assms by (metis sum.inject(2))
  then have "compare_parsed v w = 0 \<longleftrightarrow> l = r"
    unfolding versions.cmp_key [OF v(1,3)] sign_cmp_iff using precedence_inj [OF v(1,3)] by metis
  then show ?thesis
    using versions.cmp_key [OF v(1,3)] versions.cmp_swap [OF v(1,3)] assms
    by (simp add: compareSemVersions_def)
qed

theorem semver_comparison_is_precedence_witness:
  "\<exists>c. compareSemVersions ''1.9.0'' ''1.10.0-rc.1'' = Inr c \<and> compareSemVersions ''1.10.0-rc.1'' ''1.9.0'' = Inr (- c) \<and>
    (c < 0 \<longleftrightarrow> precedence \<lparr>sem_major = ''1'', sem_minor = ''9'', sem_patch = ''0'', sem_prerelease = []\<rparr> <
      precedence \<lparr>sem_major = ''1'', sem_minor = ''10'', sem_patch = ''0'', sem_prerelease = [mk_ident ''rc'', mk_ident ''1'']\<rparr>) \<and>
    (0 < c \<longleftrightarrow> precedence \<lparr>sem_major = ''1'', sem_minor = ''10'', sem_patch = ''0'', sem_prerelease = [mk_ident ''rc'', mk_ident ''1'']\<rparr> <
      precedence \<lparr>sem_major = ''1'', sem_minor = ''9'', sem_patch = ''0'', sem_prerelease = []\<rparr>) \<and>
    (c = 0 \<longleftrightarrow> ''1.9.0'' = ''1.10.0-rc.1'')"
  by (rule semver_comparison_is_precedence; code_simp)

text \<open>
  \<open>parseQuickArtifactFilename\<close> accepts exactly the file names that print a
  preset prefix and a valid version, and returns the prefix and the version they were printed from.
\<close>

theorem quick_filename_roundtrip:
  "parseQuickArtifactFilename f = Inr q \<longleftrightarrow>
     qa_Filename q = f \<and> f = qa_ArtifactPrefix q @ ''-v'' @ qa_Version q @ ''.tar.gz'' \<and>
     prefix_group (qa_ArtifactPrefix q) \<and> (\<exists>v. valid_version v \<and> qa_Version q = sem_text v) \<and>
     length f \<le> 256 \<and> length (qa_Version q) \<le> 128"
    (is "?l \<longleftrightarrow> ?r")
proof
  assume ?l
  then obtain p v w where m: "quickArtifactFilenamePattern f = Some (p, v)" "parseSemVersion v = Inr w"
    "length f \<le> 256" "length v \<le> 128" "q = \<lparr>qa_Filename = f, qa_ArtifactPrefix = p, qa_Version = v\<rparr>"
    by (auto simp: parseQuickArtifactFilename_def split: if_splits option.splits sum.splits)
  then show ?r unfolding quick_pattern_iff parseSemVersion_iff by auto
next
  assume r: ?r
  obtain p v where q: "q = \<lparr>qa_Filename = f, qa_ArtifactPrefix = p, qa_Version = v\<rparr>"
    using r by (cases q) auto
  obtain w where w: "parseSemVersion v = Inr w" using r unfolding q parseSemVersion_iff by auto
  then have s: "semVersionPattern v \<noteq> None"
    by (cases "semVersionPattern v") (simp_all add: parseSemVersion_def)
  have f: "f = p @ ''-v'' @ v @ ''.tar.gz''" and p: "prefix_group p" using r by (simp_all add: q)
  have "last f = CHR ''z''" "f \<noteq> []" "hd f = hd p" using p by (auto simp: f prefix_group_def)
  moreover have "is_lower (hd p) \<or> is_digit (hd p)" using p by (cases p) (auto simp: prefix_group_def)
  ultimately have "trim_space f = f" "f \<noteq> []"
    by (auto intro: trim_space_id simp: is_lower_def)
  moreover have "quickArtifactFilenamePattern f = Some (p, v)" unfolding quick_pattern_iff using f p s by simp
  moreover have "length f \<le> 256" "length v \<le> 128" using r by (blast, simp add: q)
  ultimately show ?l using w by (simp add: parseQuickArtifactFilename_def q)
qed

text \<open>
  A quick deployment onto a target that has a deployed version is accepted
  exactly when both versions are valid and the new one has the higher precedence.
\<close>

theorem quick_upgrade_is_newer:
  "snd (validateQuickUpgrade (Some cur) next) = None \<longleftrightarrow>
     (\<exists>v w. valid_version v \<and> cur = sem_text v \<and> valid_version w \<and> next = sem_text w \<and> precedence v < precedence w)"
proof -
  have "snd (validateQuickUpgrade (Some cur) next) = None \<longleftrightarrow>
      (\<exists>v w. parseSemVersion cur = Inr v \<and> parseSemVersion next = Inr w \<and> 0 < compare_parsed w v)"
    by (auto simp: validateQuickUpgrade_def compareSemVersions_def is_ok_iff split: sum.splits)
  also have "\<dots> \<longleftrightarrow> (\<exists>v w. parseSemVersion cur = Inr v \<and> parseSemVersion next = Inr w \<and> precedence v < precedence w)"
    by (intro ex_cong1 conj_cong refl) (simp add: parseSemVersion_iff versions.cmp_key)
  finally show ?thesis unfolding parseSemVersion_iff by (simp only: conj_assoc)
qed

end
