(* ===== verification/Workflow.thy ===== *)
theory Workflow
  imports Leases Rbac Semver
begin

text \<open>
  The release workflow of the control plane: \<open>src/backend/internal/server/releases.go\<close> (creation,
  artifacts, submission, review, approval, rejection, rollback, retry) and the quick deployments of
  \<open>presets.go\<close>.

  The state holds the tables these handlers read and write. A handler is one function on the state: it
  runs in one transaction that locks the release row first (and the target, before it inserts a
  job), and an error reply leaves the tables as they were. What the database may refuse is an argument,
  the record \<open>verdict\<close>: whether the constraints and triggers accept the statements that write,
  whether the advisory lock of the target is free, whether \<open>COMMIT\<close> succeeds. The theorems hold for
  every verdict. The trigger \<open>release_job_status_sync\<close>, which copies the status of an inserted job to
  its release, is part of \<open>insert_job\<close>. PostgreSQL's \<open>upper\<close> is the parameter \<open>up\<close>; the times of a
  transaction are its argument \<open>now\<close>.

  A job of the queue extends the row the runner claims, so that the queue a handler leaves behind is
  the one the theory \<open>Leases\<close> starts from.
\<close>

subsection \<open>Tables\<close>

record release_entry =
  rs_id :: string
  rs_application_id :: string
  rs_environment_id :: string
  rs_profile_id :: string
  rs_version :: string
  rs_notes :: string
  rs_status :: string
  rs_requested_operation :: string
  rs_rollback_source_release_id :: "string option"
  rs_rollback_source_job_id :: "string option"
  rs_retry_source_job_id :: "string option"
  rs_operation_requested_by :: "string option"
  rs_operation_base_status :: "string option"
  rs_created_by :: string
  rs_reviewed_by :: "string option"
  rs_approved_by :: "string option"
  rs_rejected_by :: "string option"
  rs_decision_note :: string
  rs_deployment_preset_id :: "string option"
  rs_quick_release :: bool
  rs_auto_deploy_after_approval :: bool
  rs_quick_base_release_id :: "string option"
  rs_quick_base_job_id :: "string option"

record queued_job = job_row +
  qj_artifact_id :: string
  qj_retry_of_job_id :: "string option"
  qj_created_by :: string

record artifact =
  ra_id :: string
  ra_release_id :: string
  ra_storage_path :: string
  ra_size_bytes :: int
  ra_sha256 :: string
  ra_created_at :: int

record application =
  ap_id :: string
  ap_code :: string
  ap_active :: bool

record environment =
  en_id :: string
  en_application_id :: string
  en_code :: string
  en_protected :: bool
  en_active :: bool

record deployment_profile =
  df_id :: string
  df_application_id :: string
  df_environment_id :: string
  df_active :: bool
  df_enabled :: bool
  df_revoked_at :: "int option"
  df_approval_required :: bool
  df_runtime_kind :: string
  df_runtime_binary_path :: string
  df_registry_url :: string
  df_registry_host :: string
  df_registry_project :: string
  df_registry_credential_id :: "string option"
  df_target_credential_id :: "string option"
  df_runner_labels :: "string list"

record script_version =
  sc_id :: string
  sc_script_type :: string
  sc_active :: bool
  sc_approved_at :: "int option"
  sc_revoked_at :: "int option"

record preset =
  dpr_id :: string
  dpr_artifact_prefix :: string
  dpr_application_id :: string
  dpr_environment_id :: string
  dpr_profile_id :: string
  dpr_active :: bool
  dpr_auto_deploy_after_approval :: bool
  dpr_updated_at :: int
  dpr_revoked_at :: "int option"

record app_settings =
  as_approval_enabled :: bool
  as_allowSelfApproval :: "bool option"
  as_requireRejectComment :: "bool option"
  as_protectedEnvironments :: "string option"
  as_artifact_max_bytes :: int

record control =
  c_releases :: "release_entry list"
  c_jobs :: "queued_job list"
  c_artifacts :: "artifact list"
  c_applications :: "application list"
  c_environments :: "environment list"
  c_profiles :: "deployment_profile list"
  c_profile_scripts :: "(string \<times> string \<times> string) list"
  c_scripts :: "script_version list"
  c_credentials :: "runner_credential_row list"
  c_target_credentials :: "target_credential_row list"
  c_runners :: "runner_row list"
  c_heads :: "head_row list"
  c_presets :: "preset list"
  c_settings :: app_settings

record verdict =
  v_statement :: bool
  v_lock :: bool
  v_commit :: bool

subsection \<open>Rows\<close>

text \<open>\<open>ORDER BY k DESC LIMIT 1\<close>.\<close>

fun latest_by :: "('a \<Rightarrow> 'k::linorder) \<Rightarrow> 'a list \<Rightarrow> 'a option" where
  "latest_by k [] = None"
| "latest_by k (x # xs) =
     (case latest_by k xs of None \<Rightarrow> Some x | Some y \<Rightarrow> if k y \<le> k x then Some x else Some y)"

definition find_release :: "control \<Rightarrow> string \<Rightarrow> release_entry option" where
  "find_release d i = List.find (\<lambda>r. rs_id r = i) (c_releases d)"

definition find_profile :: "control \<Rightarrow> string \<Rightarrow> deployment_profile option" where
  "find_profile d i = List.find (\<lambda>p. df_id p = i) (c_profiles d)"

definition find_environment :: "control \<Rightarrow> string \<Rightarrow> environment option" where
  "find_environment d i = List.find (\<lambda>e. en_id e = i) (c_environments d)"

definition find_application :: "control \<Rightarrow> string \<Rightarrow> application option" where
  "find_application d i = List.find (\<lambda>a. ap_id a = i) (c_applications d)"

definition find_job :: "control \<Rightarrow> string \<Rightarrow> queued_job option" where
  "find_job d i = List.find (\<lambda>j. jr_id j = i) (c_jobs d)"

definition find_head :: "control \<Rightarrow> string \<Rightarrow> string \<Rightarrow> head_row option" where
  "find_head d app env = List.find (\<lambda>h. hd_application_id h = app \<and> hd_environment_id h = env) (c_heads d)"

definition stored_artifact :: "control \<Rightarrow> string \<Rightarrow> artifact option" where
  "stored_artifact d releaseID =
     latest_by (\<lambda>a. (ra_created_at a, ra_id a))
       (filter (\<lambda>a. ra_release_id a = releaseID \<and> ra_storage_path a \<noteq> []) (c_artifacts d))"

text \<open>\<open>UPDATE releases SET ... WHERE\<close>.\<close>

definition set_where :: "(release_entry \<Rightarrow> bool) \<Rightarrow> (release_entry \<Rightarrow> release_entry) \<Rightarrow> control \<Rightarrow> control" where
  "set_where P f d = d\<lparr>c_releases := map (\<lambda>r. if P r then f r else r) (c_releases d)\<rparr>"

definition set_release :: "string \<Rightarrow> (release_entry \<Rightarrow> release_entry) \<Rightarrow> control \<Rightarrow> control" where
  "set_release i f d = set_where (\<lambda>r. rs_id r = i) f d"

text \<open>Inserting a job, and the trigger that copies its status to the release.\<close>

definition insert_job :: "queued_job \<Rightarrow> control \<Rightarrow> control" where
  "insert_job j d =
     set_release (jr_release_id j) (\<lambda>r. r\<lparr>rs_status := status_text (jr_status j)\<rparr>)
       (d\<lparr>c_jobs := c_jobs d @ [j]\<rparr>)"

text \<open>The insertion is accepted: the primary key is new, and the triggers do not object.\<close>

definition insert_accepted :: "verdict \<Rightarrow> string \<Rightarrow> control \<Rightarrow> bool" where
  "insert_accepted v jobID d \<longleftrightarrow> v_statement v \<and> (\<forall>j\<in>set (c_jobs d). jr_id j \<noteq> jobID)"

text \<open>\<open>regexp_split_to_array(s, '[[:space:]]*,[[:space:]]*')\<close>.\<close>

definition sql_space :: "char \<Rightarrow> bool" where
  "sql_space c \<longleftrightarrow> c \<in> set [CHR 0x20, CHR 0x09, CHR 0x0A, CHR 0x0B, CHR 0x0C, CHR 0x0D]"

definition rstrip :: "string \<Rightarrow> string" where "rstrip s = rev (dropWhile sql_space (rev s))"

fun strip_commas :: "string list \<Rightarrow> string list" where
  "strip_commas [] = []"
| "strip_commas [x] = [x]"
| "strip_commas (x # y # zs) = rstrip x # strip_commas (dropWhile sql_space y # zs)"

definition comma_list :: "string \<Rightarrow> string list" where
  "comma_list s = strip_commas (split_char (CHR '','') s)"

text \<open>The approval condition that every query of the workflow repeats.\<close>

definition approval_required :: "(string \<Rightarrow> string) \<Rightarrow> control \<Rightarrow> deployment_profile \<Rightarrow> environment \<Rightarrow> bool" where
  "approval_required up d p e \<longleftrightarrow>
     as_approval_enabled (c_settings d) \<and>
     (df_approval_required p \<or> en_protected e \<or>
      up (en_code e) \<in> set (comma_list (up (case as_protectedEnvironments (c_settings d) of None \<Rightarrow> [] | Some s \<Rightarrow> s))))"

subsection \<open>Readiness\<close>

fun requiredScriptForOperation :: "string \<Rightarrow> (string \<times> string) option" where
  "requiredScriptForOperation operation =
     (if operation = ''DEPLOY'' then Some (''DEPLOY'', ''DEPLOY'')
      else if operation = ''ROLLBACK'' then Some (''ROLLBACK'', ''ROLLBACK'')
      else None)"

definition deploymentDependenciesReady :: "control \<Rightarrow> string \<Rightarrow> string \<Rightarrow> bool result" where
  "deploymentDependenciesReady d profileID operation =
     (case requiredScriptForOperation operation of
        None \<Rightarrow> Inl (Err ''unsupported release operation'')
      | Some (phase, scriptType) \<Rightarrow>
          Inr (\<exists>p\<in>set (c_profiles d). df_id p = profileID \<and> df_active p \<and> df_enabled p \<and> df_revoked_at p = None \<and>
                 df_runtime_kind p \<in> {''docker'', ''podman'', ''containerd''} \<and>
                 has_prefix (df_runtime_binary_path p) ''/'' \<and>
                 df_registry_url p \<noteq> [] \<and> df_registry_host p \<noteq> [] \<and> df_registry_project p \<noteq> [] \<and>
                 (\<exists>c\<in>set (c_credentials d). Some (rc_id c) = df_registry_credential_id p \<and> rc_active c \<and>
                    rc_approved_at c \<noteq> None \<and> rc_revoked_at c = None) \<and>
                 (\<exists>(pid, ph, sid)\<in>set (c_profile_scripts d). pid = df_id p \<and> ph = phase \<and>
                    (\<exists>sv\<in>set (c_scripts d). sc_id sv = sid \<and> sc_script_type sv = scriptType \<and> sc_active sv \<and>
                       sc_approved_at sv \<noteq> None \<and> sc_revoked_at sv = None))))"

definition matchingRunnerAvailable :: "int \<Rightarrow> control \<Rightarrow> string list \<Rightarrow> bool" where
  "matchingRunnerAvailable now d requiredLabels \<longleftrightarrow>
     (\<exists>r\<in>set (c_runners d). rn_active r \<and> rn_managed_by_runner r \<and> rn_worker_id r \<noteq> [] \<and> runner_fresh now r \<and>
        set requiredLabels \<subseteq> set (rn_labels r))"

definition job_active :: "queued_job \<Rightarrow> bool" where
  "job_active j \<longleftrightarrow> jr_status j \<notin> {StatusSuccess, StatusFailed, StatusRolledBack}"

definition activeTargetJobExists :: "control \<Rightarrow> string \<Rightarrow> bool" where
  "activeTargetJobExists d lockKey \<longleftrightarrow> (\<exists>j\<in>set (c_jobs d). jr_lock_key j = lockKey \<and> job_active j)"

text \<open>The target is busy when the advisory lock is taken or an active job holds the same key.\<close>

definition lockReleaseTargetForJob :: "verdict \<Rightarrow> control \<Rightarrow> string \<Rightarrow> bool" where
  "lockReleaseTargetForJob v d lockKey \<longleftrightarrow>
     \<not> v_lock v \<or> (\<exists>j\<in>set (c_jobs d). to_lower (jr_lock_key j) = to_lower lockKey \<and> job_active j)"

definition loadTargetCredentialSnapshot :: "control \<Rightarrow> string \<Rightarrow> (string option \<times> int option) result" where
  "loadTargetCredentialSnapshot d profileID =
     (case find_profile d profileID of
        None \<Rightarrow> Inl ErrNoRows
      | Some p \<Rightarrow>
          (case df_target_credential_id p of
             None \<Rightarrow> Inr (None, None)
           | Some cid \<Rightarrow>
               (case List.find (\<lambda>c. tc_id c = cid \<and> tc_active c \<and> tc_approved_at c \<noteq> None \<and> tc_revoked_at c = None)
                       (c_target_credentials d) of
                  None \<Rightarrow> Inl (Err ''deployment target credential is inactive or revoked'')
                | Some c \<Rightarrow> Inr (Some cid, Some (tc_version c)))))"

definition releaseCanQueue :: "string \<Rightarrow> bool \<Rightarrow> bool" where
  "releaseCanQueue status required =
     (if status \<in> {''UPLOADED'', ''APPROVED'', ''DRAFT''} then True
      else if status \<in> {''PENDING_REVIEW'', ''UNDER_REVIEW''} then \<not> required
      else if status = ''REJECTED'' then \<not> required
      else False)"

definition releaseTargetLockKey :: "string \<Rightarrow> string \<Rightarrow> string result" where
  "releaseTargetLockKey applicationID environmentID =
     (if \<not> validUUID applicationID \<or> \<not> validUUID environmentID then Inl (Err ''invalid release target identifiers'')
      else Inr (to_lower applicationID @ '':'' @ to_lower environmentID))"

subsection \<open>Deployment history\<close>

text \<open>The newest job of a target.\<close>

definition latest_target_job :: "control \<Rightarrow> string \<Rightarrow> string \<Rightarrow> queued_job option" where
  "latest_target_job d app env =
     latest_by (\<lambda>j. (jr_created_at j, jr_id j))
       (filter (\<lambda>j. \<exists>r\<in>set (c_releases d). rs_id r = jr_release_id j \<and> rs_application_id r = app \<and> rs_environment_id r = env)
          (c_jobs d))"

definition latestFailedDeployJob :: "control \<Rightarrow> string \<Rightarrow> string result" where
  "latestFailedDeployJob d releaseID =
     (case find_release d releaseID of
        None \<Rightarrow> Inl ErrNoRows
      | Some t \<Rightarrow>
          (case latest_target_job d (rs_application_id t) (rs_environment_id t) of
             None \<Rightarrow> Inl (Err ''release is not the latest failed deployment attempt'')
           | Some l \<Rightarrow>
               if jr_release_id l = releaseID \<and> jr_operation l = OperationDeploy \<and> jr_status l = StatusFailed then Inr (jr_id l)
               else Inl (Err ''release is not the latest failed deployment attempt'')))"

record rollbackPlan =
  rp_SourceReleaseID :: string
  rp_SourceJobID :: string
  rp_Mode :: string

text \<open>A job that rolled back, or tried to roll back, to the given source.\<close>

definition rolled_to :: "queued_job \<Rightarrow> job_status \<Rightarrow> string \<Rightarrow> string \<Rightarrow> bool" where
  "rolled_to j st sourceID sourceJobID \<longleftrightarrow> jr_operation j = OperationRollback \<and> jr_status j = st \<and>
     jr_rollback_source_release_id j = Some sourceID \<and> jr_rollback_source_job_id j = Some sourceJobID"

definition resolveRollbackPlan :: "control \<Rightarrow> string \<Rightarrow> bool \<Rightarrow> rollbackPlan result" where
  "resolveRollbackPlan d releaseID allowFailedRollbackRetry =
     (case find_release d releaseID of
        None \<Rightarrow> Inl ErrNoRows
      | Some t \<Rightarrow>
     (case find_head d (rs_application_id t) (rs_environment_id t) of
        None \<Rightarrow> Inl ErrNoRows
      | Some h \<Rightarrow>
     (case find_job d (hd_current_job_id h) of
        None \<Rightarrow> Inl ErrNoRows
      | Some basis \<Rightarrow>
     (case latest_target_job d (rs_application_id t) (rs_environment_id t) of
        None \<Rightarrow> Inl ErrNoRows
      | Some l \<Rightarrow>
          if \<not> (jr_release_id basis = hd_current_release_id h \<and> jr_operation basis = OperationDeploy \<and> jr_status basis = StatusSuccess)
          then Inl ErrNoRows
          else if releaseID = hd_current_release_id h then
            (case (jr_rollback_source_release_id basis, jr_rollback_source_job_id basis) of
               (Some prior, Some priorJob) \<Rightarrow>
                 if jr_id l = hd_current_job_id h \<or>
                    rolled_to l StatusRolledBack (hd_current_release_id h) (hd_current_job_id h) \<or>
                    allowFailedRollbackRetry \<and> jr_release_id l = releaseID \<and> rolled_to l StatusFailed prior priorJob
                 then Inr \<lparr>rp_SourceReleaseID = prior, rp_SourceJobID = priorJob, rp_Mode = ''HEAD''\<rparr>
                 else Inl (Err ''the current deployment is shadowed by a newer deployment attempt'')
             | _ \<Rightarrow> Inl (Err ''the current deployment has no previous verified release''))
          else if jr_release_id l = releaseID \<and> jr_operation l = OperationDeploy \<and> jr_status l = StatusFailed \<or>
                  allowFailedRollbackRetry \<and> jr_release_id l = releaseID \<and>
                    rolled_to l StatusFailed (hd_current_release_id h) (hd_current_job_id h)
          then Inr \<lparr>rp_SourceReleaseID = hd_current_release_id h, rp_SourceJobID = hd_current_job_id h, rp_Mode = ''FAILED_RECOVERY''\<rparr>
          else Inl (Err ''release is not the latest failed deployment attempt'')))))"

subsection \<open>Releases and artifacts\<close>

record release_input =
  in_ApplicationID :: string
  in_EnvironmentID :: string
  in_ProfileID :: string
  in_Version :: string
  in_Notes :: string

definition validateReleaseInput :: "release_input \<Rightarrow> error option" where
  "validateReleaseInput input =
     (let version = trim_space (in_Version input)
      in first_error
        [guard (in_ApplicationID input = [] \<or> in_EnvironmentID input = [] \<or> in_ProfileID input = [])
           ''applicationId, environmentId, and deploymentProfileId are required'',
         guard (version = [] \<or> length version > 128 \<or> contains_any version [CHR 0x00, CHR 0x0D, CHR 0x0A, CHR ''/'', CHR 0x5C])
           ''version is required, must not exceed 128 characters, and cannot contain path separators'',
         guard (length (in_Notes input) > 16384) ''notes must not exceed 16 KiB''])"

definition new_release :: "principal \<Rightarrow> string \<Rightarrow> release_input \<Rightarrow> release_entry" where
  "new_release p newID input =
     \<lparr>rs_id = newID, rs_application_id = in_ApplicationID input, rs_environment_id = in_EnvironmentID input,
      rs_profile_id = in_ProfileID input, rs_version = trim_space (in_Version input), rs_notes = in_Notes input,
      rs_status = ''DRAFT'', rs_requested_operation = ''DEPLOY'', rs_rollback_source_release_id = None,
      rs_rollback_source_job_id = None, rs_retry_source_job_id = None, rs_operation_requested_by = None,
      rs_operation_base_status = None, rs_created_by = p_UserID p, rs_reviewed_by = None, rs_approved_by = None,
      rs_rejected_by = None, rs_decision_note = [], rs_deployment_preset_id = None, rs_quick_release = False,
      rs_auto_deploy_after_approval = False, rs_quick_base_release_id = None, rs_quick_base_job_id = None\<rparr>"

text \<open>\<open>INSERT INTO releases\<close>: the identifier is new, and so is the version of the target.\<close>

definition insert_release :: "release_entry \<Rightarrow> control \<Rightarrow> control option" where
  "insert_release r d =
     (if \<exists>x\<in>set (c_releases d). rs_id x = rs_id r \<or>
           rs_application_id x = rs_application_id r \<and> rs_environment_id x = rs_environment_id r \<and> rs_version x = rs_version r
      then None else Some (d\<lparr>c_releases := c_releases d @ [r]\<rparr>))"

definition insertRelease :: "verdict \<Rightarrow> principal \<Rightarrow> string \<Rightarrow> release_input \<Rightarrow> control \<Rightarrow> control result" where
  "insertRelease v p newID input d =
     (if \<not> v_statement v then Inl (Err ''release version already exists for this application and environment'')
      else if \<not> (\<exists>pr\<in>set (c_profiles d). df_id pr = in_ProfileID input \<and> df_application_id pr = in_ApplicationID input \<and>
              df_environment_id pr = in_EnvironmentID input \<and> df_active pr \<and> df_enabled pr \<and> df_revoked_at pr = None \<and>
              (\<exists>a\<in>set (c_applications d). ap_id a = df_application_id pr \<and> ap_active a) \<and>
              (\<exists>e\<in>set (c_environments d). en_id e = df_environment_id pr \<and> en_active e))
      then Inl (Err ''deployment profile does not match the selected application and environment'')
      else case insert_release (new_release p newID input) d of
             None \<Rightarrow> Inl (Err ''release version already exists for this application and environment'')
           | Some d' \<Rightarrow> Inr d')"

definition createRelease :: "verdict \<Rightarrow> principal \<Rightarrow> string \<Rightarrow> release_input \<Rightarrow> control \<Rightarrow> control \<times> reply" where
  "createRelease v p newID input d =
     (if validateReleaseInput input \<noteq> None then (d, Reply 400 ''invalid_release'')
      else case insertRelease v p newID input d of
             Inl _ \<Rightarrow> (d, Reply 409 ''release_conflict'')
           | Inr d' \<Rightarrow> (d', Reply 201 []))"

text \<open>The states in which a release still accepts changes.\<close>

definition editable :: "string \<Rightarrow> bool" where
  "editable status \<longleftrightarrow> status \<in> {''DRAFT'', ''UPLOADED'', ''REJECTED''}"

definition updateRelease ::
  "verdict \<Rightarrow> string \<Rightarrow> string \<Rightarrow> string \<Rightarrow> string \<Rightarrow> control \<Rightarrow> control \<times> reply" where
  "updateRelease v i version notes profileID d =
     (if trim_space version = [] \<or> profileID = [] then (d, Reply 400 ''invalid_release'')
      else if \<not> v_statement v then (d, Reply 409 ''release_conflict'')
      else
        let matches = (\<lambda>r. rs_id r = i \<and> editable (rs_status r) \<and>
              (\<exists>p\<in>set (c_profiles d). df_id p = profileID \<and> df_application_id p = rs_application_id r \<and>
                 df_environment_id p = rs_environment_id r \<and> df_revoked_at p = None))
        in if \<not> list_ex matches (c_releases d) then (d, Reply 409 ''invalid_state'')
           else (set_where matches (\<lambda>r. r\<lparr>rs_version := trim_space version, rs_notes := notes, rs_profile_id := profileID\<rparr>) d,
                 Reply 200 []))"

text \<open>The rows that \<open>DELETE FROM releases\<close> removes; the foreign keys of artifacts and jobs cascade.\<close>

definition deleteRelease :: "verdict \<Rightarrow> string \<Rightarrow> control \<Rightarrow> control \<times> reply" where
  "deleteRelease v i d =
     (case find_release d i of
        None \<Rightarrow> (d, Reply 404 ''not_found'')
      | Some r \<Rightarrow>
          if \<not> editable (rs_status r) then (d, Reply 409 ''invalid_state'')
          else if \<not> v_statement v then (d, Reply 409 ''invalid_state'')
          else if \<not> v_commit v then (d, Reply 500 ''database_error'')
          else (d\<lparr>c_releases := filter (\<lambda>x. rs_id x \<noteq> i) (c_releases d),
                  c_artifacts := filter (\<lambda>a. ra_release_id a \<noteq> i) (c_artifacts d),
                  c_jobs := filter (\<lambda>j. jr_release_id j \<noteq> i) (c_jobs d)\<rparr>, Reply 204 []))"

definition file_base :: "string \<Rightarrow> string" where
  "file_base s = (let t = rev (dropWhile (\<lambda>c. c = CHR ''/'') (rev s))
     in if s = [] then ''.'' else if t = [] then ''/'' else rev (takeWhile (\<lambda>c. c \<noteq> CHR ''/'') (rev t)))"

definition safeArtifactName :: "string \<Rightarrow> bool" where
  "safeArtifactName name \<longleftrightarrow> name = file_base name \<and>
     \<not> contains_any name [CHR ''/'', CHR 0x5C, CHR 0x00, CHR 0x0D, CHR 0x0A] \<and>
     (has_suffix (to_lower name) ''.tar'' \<or> has_suffix (to_lower name) ''.tar.gz'')"

definition validSHA256 :: "string \<Rightarrow> bool" where
  "validSHA256 s \<longleftrightarrow> length s = 64 \<and> list_all is_hex s \<and> s = to_lower s"

definition createArtifactMetadata ::
  "verdict \<Rightarrow> int \<Rightarrow> string \<Rightarrow> string \<Rightarrow> string \<Rightarrow> int \<Rightarrow> string \<Rightarrow> control \<Rightarrow> control \<times> reply" where
  "createArtifactMetadata v now releaseID newID filename sizeBytes sha256 d =
     (if \<not> safeArtifactName filename \<or> sizeBytes < 0 \<or> sizeBytes > as_artifact_max_bytes (c_settings d) \<or> \<not> validSHA256 sha256
      then (d, Reply 400 ''invalid_artifact'')
      else case find_release d releaseID of
             None \<Rightarrow> (d, Reply 400 ''invalid_artifact'')
           | Some r \<Rightarrow>
               if \<not> editable (rs_status r) then (d, Reply 400 ''invalid_artifact'')
               else if \<exists>a\<in>set (c_artifacts d). ra_release_id a = releaseID \<and> ra_storage_path a \<noteq> []
               then (d, Reply 409 ''artifact_content_exists'')
               else if \<not> v_statement v \<or> \<not> v_commit v then (d, Reply 400 ''invalid_artifact'')
               else (d\<lparr>c_artifacts := c_artifacts d @
                       [\<lparr>ra_id = newID, ra_release_id = releaseID, ra_storage_path = [], ra_size_bytes = sizeBytes,
                         ra_sha256 = sha256, ra_created_at = now\<rparr>]\<rparr>, Reply 201 []))"

definition artifactRelativePath :: "string \<Rightarrow> string \<Rightarrow> string \<Rightarrow> string result" where
  "artifactRelativePath releaseID artifactID extension =
     (if \<not> validUUID releaseID \<or> \<not> validUUID artifactID \<or> extension \<noteq> ''.tar'' \<and> extension \<noteq> ''.tar.gz''
      then Inl (Err ''invalid artifact storage identifier'')
      else Inr (releaseID @ ''/'' @ artifactID @ extension))"

text \<open>
  \<open>persistArtifactTx\<close> on the tables. \<open>stored\<close> is the outcome of writing the content below the storage
  root: the size and the digest of what was written, or the error of the file operations.
\<close>

definition persistArtifactTx ::
  "verdict \<Rightarrow> int \<Rightarrow> string \<Rightarrow> string \<Rightarrow> string \<Rightarrow> (int \<times> string) result \<Rightarrow> bool \<Rightarrow> control \<Rightarrow> control result" where
  "persistArtifactTx v now releaseID newID filename stored allowQuickInitial d =
     (case find_release d releaseID of
        None \<Rightarrow> Inl (Err ''release not found or cannot accept artifacts'')
      | Some r \<Rightarrow>
          if \<not> editable (rs_status r) then Inl (Err ''release not found or cannot accept artifacts'')
          else if rs_quick_release r \<and> \<not> allowQuickInitial
          then Inl (Err ''quick release artifacts are immutable; create a new quick release instead'')
          else case artifactRelativePath releaseID newID (if has_suffix (to_lower filename) ''.tar.gz'' then ''.tar.gz'' else ''.tar'') of
                 Inl e \<Rightarrow> Inl e
               | Inr relativePath \<Rightarrow>
                   (case stored of
                      Inl e \<Rightarrow> Inl e
                    | Inr (written, checksum) \<Rightarrow>
                        if written > as_artifact_max_bytes (c_settings d)
                        then Inl (Err ''artifact exceeds the configured limit or could not be written'')
                        else if \<not> v_statement v then Inl (Err ''release not found or cannot accept artifacts'')
                        else Inr (set_where (\<lambda>x. rs_id x = releaseID \<and> editable (rs_status x)) (\<lambda>x. x\<lparr>rs_status := ''UPLOADED''\<rparr>)
                               (d\<lparr>c_artifacts := filter (\<lambda>a. \<not> (ra_release_id a = releaseID \<and> ra_storage_path a = [])) (c_artifacts d) @
                                 [\<lparr>ra_id = newID, ra_release_id = releaseID, ra_storage_path = relativePath, ra_size_bytes = written,
                                   ra_sha256 = checksum, ra_created_at = now\<rparr>]\<rparr>))))"

definition uploadArtifact ::
  "verdict \<Rightarrow> int \<Rightarrow> string \<Rightarrow> string \<Rightarrow> string \<Rightarrow> (int \<times> string) result \<Rightarrow> control \<Rightarrow> control \<times> reply" where
  "uploadArtifact v now releaseID newID filename stored d =
     (if \<not> safeArtifactName filename \<or> \<not> validUUID releaseID then (d, Reply 400 ''invalid_artifact'')
      else case persistArtifactTx v now releaseID newID filename stored False d of
             Inl _ \<Rightarrow> (d, Reply 400 ''invalid_artifact'')
           | Inr d' \<Rightarrow> if v_commit v then (d', Reply 201 []) else (d, Reply 400 ''invalid_artifact''))"

subsection \<open>Submission\<close>

text \<open>The job that a handler inserts: the columns it does not name have their defaults.\<close>

definition new_job ::
  "int \<Rightarrow> string \<Rightarrow> release_entry \<Rightarrow> string \<Rightarrow> string \<Rightarrow> string \<Rightarrow> string \<Rightarrow> string \<Rightarrow> artifact \<Rightarrow> job_operation \<Rightarrow>
   string option \<Rightarrow> string option \<Rightarrow> string option \<Rightarrow> string option \<times> int option \<Rightarrow> string list \<Rightarrow> string \<Rightarrow> queued_job" where
  "new_job now jobID r profileID app version env lockKey art operation sourceID sourceJobID retryOf credential labels creator =
     \<lparr>jr_id = jobID, jr_release_id = rs_id r, jr_rollback_source_release_id = sourceID,
      jr_rollback_source_job_id = sourceJobID, jr_target_credential_id = fst credential,
      jr_target_credential_version = snd credential, jr_application = app, jr_version = version,
      jr_environment = env, jr_lock_key = lockKey, jr_artifact_path = ra_storage_path art,
      jr_expected_sha256 = ra_sha256 art, jr_manifest_path = ''manifest.yaml'', jr_operation = operation,
      jr_attempts = 0, jr_profile_id = profileID, jr_status = StatusQueued, jr_available_at = now,
      jr_runner_labels = labels, jr_priority = 0, jr_created_at = now, jr_locked_by = None, jr_locked_at = None,
      jr_heartbeat_at = None, jr_started_at = None, jr_finished_at = None, jr_updated_at = Some now,
      jr_failure_message = None, qj_artifact_id = ra_id art, qj_retry_of_job_id = retryOf, qj_created_by = creator\<rparr>"

definition sameNullableString :: "string option \<Rightarrow> string option \<Rightarrow> bool" where
  "sameNullableString left right =
     (if left = None \<or> right = None then left = None \<and> right = None else the left = the right)"

text \<open>The rows a release is joined with: its application, environment and profile.\<close>

definition release_join :: "control \<Rightarrow> string \<Rightarrow> (release_entry \<times> application \<times> environment \<times> deployment_profile) option" where
  "release_join d i =
     (case find_release d i of None \<Rightarrow> None | Some r \<Rightarrow>
     (case find_application d (rs_application_id r) of None \<Rightarrow> None | Some a \<Rightarrow>
     (case find_environment d (rs_environment_id r) of None \<Rightarrow> None | Some e \<Rightarrow>
     (case find_profile d (rs_profile_id r) of None \<Rightarrow> None | Some p \<Rightarrow> Some (r, a, e, p)))))"

definition target_active :: "application \<Rightarrow> environment \<Rightarrow> deployment_profile \<Rightarrow> bool" where
  "target_active a e p \<longleftrightarrow> ap_active a \<and> en_active e \<and> df_active p \<and> df_enabled p \<and> df_revoked_at p = None"

definition profile_matches :: "release_entry \<Rightarrow> deployment_profile \<Rightarrow> bool" where
  "profile_matches r p \<longleftrightarrow> df_application_id p = rs_application_id r \<and> df_environment_id p = rs_environment_id r"

definition invalidate_retry :: "string \<Rightarrow> control \<Rightarrow> control" where
  "invalidate_retry i =
     set_release i (\<lambda>r. r\<lparr>rs_status := ''FAILED'', rs_retry_source_job_id := None, rs_operation_requested_by := None,
       rs_decision_note := ''Retry request invalidated because a newer deployment attempt exists'',
       rs_reviewed_by := None, rs_approved_by := None, rs_rejected_by := None\<rparr>)"

definition submit_review :: "string \<Rightarrow> string option \<Rightarrow> string \<Rightarrow> control \<Rightarrow> control" where
  "submit_review i retrySource userID =
     set_release i (\<lambda>r. r\<lparr>rs_status := ''PENDING_REVIEW'', rs_retry_source_job_id := retrySource, rs_decision_note := [],
       rs_reviewed_by := None, rs_approved_by := None, rs_rejected_by := None,
       rs_operation_requested_by := (if retrySource \<noteq> None then Some userID else rs_operation_requested_by r)\<rparr>)"

text \<open>
  The part of \<open>enqueueRelease\<close> after its state checks: runner, target lock, credential, deployment head,
  and the insertion of the job.
\<close>

definition enqueue_job ::
  "verdict \<Rightarrow> int \<Rightarrow> principal \<Rightarrow> string \<Rightarrow> release_entry \<Rightarrow> application \<Rightarrow> environment \<Rightarrow> deployment_profile \<Rightarrow> artifact \<Rightarrow>
   string option \<Rightarrow> control \<Rightarrow> control \<times> reply" where
  "enqueue_job v now p jobID r a e pr art retrySource d =
     (if \<not> matchingRunnerAvailable now d (df_runner_labels pr) then (d, Reply 409 ''runner_unavailable'')
      else case releaseTargetLockKey (rs_application_id r) (rs_environment_id r) of
        Inl _ \<Rightarrow> (d, Reply 500 ''database_error'')
      | Inr lockKey \<Rightarrow>
      if lockReleaseTargetForJob v d lockKey then (d, Reply 409 ''job_conflict'')
      else case loadTargetCredentialSnapshot d (rs_profile_id r) of
        Inl _ \<Rightarrow> (d, Reply 409 ''target_credential_not_ready'')
      | Inr credential \<Rightarrow>
          let head = find_head d (rs_application_id r) (rs_environment_id r);
              priorHeadID = map_option hd_current_release_id head;
              priorHeadJobID = map_option hd_current_job_id head
          in if rs_quick_release r \<and> (\<not> sameNullableString (rs_quick_base_release_id r) priorHeadID \<or>
                \<not> sameNullableString (rs_quick_base_job_id r) priorHeadJobID)
             then (d, Reply 409 ''deployment_head_changed'')
             else
               let jobCreatorID = (if rs_quick_release r then rs_created_by r else p_UserID p);
                   priorID = (if rs_quick_release r then rs_quick_base_release_id r else priorHeadID);
                   priorJobID = (if rs_quick_release r then rs_quick_base_job_id r else priorHeadJobID);
                   j = new_job now jobID r (rs_profile_id r) (ap_code a) (rs_version r) (en_code e) lockKey art OperationDeploy
                         priorID priorJobID retrySource credential (df_runner_labels pr) jobCreatorID
               in if \<not> insert_accepted v jobID d \<or> \<not> v_commit v then (d, Reply 409 ''job_conflict'')
                  else (set_release (rs_id r) (\<lambda>x. x\<lparr>rs_status := ''QUEUED'', rs_retry_source_job_id := None\<rparr>) (insert_job j d),
                        Reply 200 []))"

subsection \<open>Rollback\<close>

definition invalidate_rollback :: "string \<Rightarrow> string \<Rightarrow> control \<Rightarrow> control" where
  "invalidate_rollback i baseStatus =
     set_release i (\<lambda>r. r\<lparr>rs_status := baseStatus, rs_requested_operation := ''DEPLOY'', rs_rollback_source_release_id := None,
       rs_rollback_source_job_id := None, rs_operation_requested_by := None, rs_operation_base_status := None,
       rs_decision_note := ''Rollback request invalidated because the verified deployment head changed'',
       rs_reviewed_by := None, rs_approved_by := None, rs_rejected_by := None\<rparr>)"

definition coalesce :: "'a option \<Rightarrow> 'a \<Rightarrow> 'a" where
  "coalesce x y = (case x of None \<Rightarrow> y | Some z \<Rightarrow> z)"

text \<open>The source of a rollback: its release, profile, basis job and stored artifact.\<close>

definition rollback_source_rows ::
  "control \<Rightarrow> string \<Rightarrow> string \<Rightarrow> string \<Rightarrow> string \<Rightarrow> (release_entry \<times> deployment_profile \<times> environment \<times> artifact) option" where
  "rollback_source_rows d sourceID sourceJobID appID envID =
     (case find_release d sourceID of None \<Rightarrow> None | Some src \<Rightarrow>
     (case find_profile d (rs_profile_id src) of None \<Rightarrow> None | Some pr \<Rightarrow>
     (case find_job d sourceJobID of None \<Rightarrow> None | Some basis \<Rightarrow>
     (case find_environment d envID of None \<Rightarrow> None | Some e \<Rightarrow>
     (case stored_artifact d (rs_id src) of None \<Rightarrow> None | Some art \<Rightarrow>
        if jr_release_id basis = rs_id src \<and> jr_operation basis = OperationDeploy \<and> jr_status basis = StatusSuccess \<and>
           rs_application_id src = appID \<and> rs_environment_id src = envID
        then Some (src, pr, e, art) else None)))))"

definition submit_rollback :: "string \<Rightarrow> string \<Rightarrow> string \<Rightarrow> string \<Rightarrow> string \<Rightarrow> control \<Rightarrow> control" where
  "submit_rollback i sourceID sourceJobID userID currentStatus =
     set_where (\<lambda>r. rs_id r = i \<and> rs_status r = currentStatus) (\<lambda>r. r\<lparr>rs_status := ''PENDING_REVIEW'',
       rs_requested_operation := ''ROLLBACK'', rs_rollback_source_release_id := Some sourceID,
       rs_rollback_source_job_id := Some sourceJobID, rs_operation_requested_by := Some userID,
       rs_operation_base_status := Some (coalesce (rs_operation_base_status r) currentStatus),
       rs_decision_note := [], rs_reviewed_by := None, rs_approved_by := None, rs_rejected_by := None\<rparr>)"

definition queue_rollback :: "string \<Rightarrow> string \<Rightarrow> string \<Rightarrow> string \<Rightarrow> string \<Rightarrow> control \<Rightarrow> control" where
  "queue_rollback i sourceID sourceJobID userID baseStatus =
     set_release i (\<lambda>r. r\<lparr>rs_status := ''ROLLBACK'', rs_requested_operation := ''ROLLBACK'',
       rs_rollback_source_release_id := Some sourceID, rs_rollback_source_job_id := Some sourceJobID,
       rs_operation_requested_by := Some (coalesce (rs_operation_requested_by r) userID),
       rs_operation_base_status := Some (coalesce (rs_operation_base_status r) baseStatus)\<rparr>)"

text \<open>The part of \<open>rollbackRelease\<close> after the plan: source, readiness, approval, job.\<close>

definition rollback_to ::
  "(string \<Rightarrow> string) \<Rightarrow> verdict \<Rightarrow> int \<Rightarrow> principal \<Rightarrow> string \<Rightarrow> release_entry \<Rightarrow> application \<Rightarrow> environment \<Rightarrow> string \<Rightarrow> bool \<Rightarrow>
   string \<Rightarrow> string \<Rightarrow> control \<Rightarrow> control \<times> reply" where
  "rollback_to up v now p jobID r a e lockKey isExistingRequest sourceID sourceJobID d =
     (case rollback_source_rows d sourceID sourceJobID (rs_application_id r) (rs_environment_id r) of
        None \<Rightarrow> (d, Reply 409 ''rollback_source_invalid'')
      | Some (src, pr, envir, art) \<Rightarrow>
          if \<not> profile_matches r pr then (d, Reply 409 ''release_target_drift'')
          else if deploymentDependenciesReady d (rs_profile_id src) ''ROLLBACK'' \<noteq> Inr True
          then (d, Reply 409 ''rollback_profile_not_ready'')
          else if approval_required up d pr envir \<and> rs_status r \<noteq> ''APPROVED'' then
            (if isExistingRequest then (d, Reply 409 ''approval_required'')
             else if \<not> v_statement v then (d, Reply 409 ''rollback_request_conflict'')
             else if \<not> v_commit v then (d, Reply 409 ''rollback_request_conflict'')
             else (submit_rollback (rs_id r) sourceID sourceJobID (p_UserID p) (rs_status r) d, Reply 200 []))
          else if \<not> matchingRunnerAvailable now d (df_runner_labels pr) then (d, Reply 409 ''runner_unavailable'')
          else
            let baseStatus = coalesce (rs_operation_base_status r) (rs_status r)
            in if baseStatus \<noteq> ''SUCCESS'' \<and> baseStatus \<noteq> ''FAILED'' then (d, Reply 409 ''rollback_request_invalid'')
               else case loadTargetCredentialSnapshot d (rs_profile_id src) of
                      Inl _ \<Rightarrow> (d, Reply 409 ''target_credential_not_ready'')
                    | Inr credential \<Rightarrow>
                        if \<not> insert_accepted v jobID d then (d, Reply 409 ''job_conflict'')
                        else if \<not> v_commit v then (d, Reply 500 ''database_error'')
                        else (queue_rollback (rs_id r) sourceID sourceJobID (p_UserID p) baseStatus
                               (insert_job (new_job now jobID r (rs_profile_id src) (ap_code a) (rs_version src) (en_code e) lockKey art
                                  OperationRollback (Some sourceID) (Some sourceJobID) None credential (df_runner_labels pr) (p_UserID p)) d),
                              Reply 200 []))"

definition rollbackRelease ::
  "(string \<Rightarrow> string) \<Rightarrow> verdict \<Rightarrow> int \<Rightarrow> principal \<Rightarrow> string \<Rightarrow> bool \<Rightarrow> string \<Rightarrow> control \<Rightarrow> control \<times> reply" where
  "rollbackRelease up v now p jobID retry i d =
     (case find_release d i of
        None \<Rightarrow> (d, Reply 404 ''not_found'')
      | Some r \<Rightarrow>
     (case (find_application d (rs_application_id r), find_environment d (rs_environment_id r)) of
        (Some a, Some e) \<Rightarrow>
          let isTerminalRequest = (rs_status r = ''SUCCESS'' \<or> rs_status r = ''FAILED'');
              isExistingRequest = (rs_requested_operation r = ''ROLLBACK'' \<and>
                (rs_status r = ''PENDING_REVIEW'' \<or> rs_status r = ''UNDER_REVIEW'' \<or> rs_status r = ''APPROVED''))
          in if retry \<and> rs_status r \<noteq> ''FAILED'' then (d, Reply 409 ''retry_requires_failed'')
             else if \<not> retry \<and> rs_status r = ''FAILED'' \<and> rs_requested_operation r = ''ROLLBACK'' then (d, Reply 409 ''retry_required'')
             else if \<not> (ap_active a \<and> en_active e) then (d, Reply 409 ''release_target_inactive'')
             else if \<not> isTerminalRequest \<and> \<not> isExistingRequest then (d, Reply 409 ''invalid_state'')
             else case releaseTargetLockKey (rs_application_id r) (rs_environment_id r) of
                    Inl _ \<Rightarrow> (d, Reply 500 ''database_error'')
                  | Inr lockKey \<Rightarrow>
                      if lockReleaseTargetForJob v d lockKey then (d, Reply 409 ''job_conflict'')
                      else case resolveRollbackPlan d i (retry \<or> isExistingRequest) of
                             Inl _ \<Rightarrow>
                               (if isExistingRequest \<and> rs_operation_base_status r \<in> {Some ''SUCCESS'', Some ''FAILED''} \<and>
                                   v_statement v \<and> v_commit v
                                then invalidate_rollback i (the (rs_operation_base_status r)) d else d,
                                Reply 409 ''rollback_target_stale'')
                           | Inr plan \<Rightarrow>
                               let sourceID = rp_SourceReleaseID plan; sourceJobID = rp_SourceJobID plan
                               in if isExistingRequest \<or> retry \<and> rs_requested_operation r = ''ROLLBACK'' \<and> rs_rollback_source_release_id r \<noteq> None
                                  then (if rs_rollback_source_release_id r = None \<or> rs_rollback_source_job_id r = None
                                        then (d, Reply 409 ''rollback_source_invalid'')
                                        else if rs_rollback_source_release_id r \<noteq> Some sourceID \<or> rs_rollback_source_job_id r \<noteq> Some sourceJobID
                                        then (d, Reply 409 ''rollback_target_stale'')
                                        else rollback_to up v now p jobID r a e lockKey isExistingRequest sourceID sourceJobID d)
                                  else rollback_to up v now p jobID r a e lockKey isExistingRequest sourceID sourceJobID d
      | _ \<Rightarrow> (d, Reply 404 ''not_found'')))"

subsection \<open>Enqueue and retry\<close>

text \<open>\<open>enqueueRelease\<close>; \<open>retryRelease\<close> is the same handler with \<open>retry\<close> set.\<close>

definition enqueueRelease ::
  "(string \<Rightarrow> string) \<Rightarrow> verdict \<Rightarrow> int \<Rightarrow> principal \<Rightarrow> string \<Rightarrow> bool \<Rightarrow> string \<Rightarrow> control \<Rightarrow> control \<times> reply" where
  "enqueueRelease up v now p jobID retry i d =
     (if map_option rs_requested_operation (find_release d i) = Some ''ROLLBACK''
      then rollbackRelease up v now p jobID retry i d
      else case release_join d i of
        None \<Rightarrow> (d, Reply 404 ''not_found'')
      | Some (r, a, e, pr) \<Rightarrow>
     (case stored_artifact d i of
        None \<Rightarrow> (d, Reply 409 ''artifact_content_required'')
      | Some art \<Rightarrow>
          if retry \<and> rs_status r \<noteq> ''FAILED'' then (d, Reply 409 ''retry_requires_failed'')
          else
            let persisted = rs_retry_source_job_id r;
                asksRetry = (retry \<or> persisted \<noteq> None);
                latest = latestFailedDeployJob d i;
                required = approval_required up d pr e
            in if asksRetry \<and> (\<not> is_ok latest \<or> persisted \<noteq> None \<and> latest \<noteq> Inr (the persisted))
               then (if persisted \<noteq> None \<and> v_statement v \<and> v_commit v then invalidate_retry i d else d,
                     Reply 409 ''retry_target_stale'')
               else
                 let retrySource = (if asksRetry then (case latest of Inr j \<Rightarrow> Some j | Inl _ \<Rightarrow> None) else None);
                     effectiveRetry = (retrySource \<noteq> None)
                 in if \<not> retry \<and> rs_status r = ''FAILED'' then (d, Reply 409 ''retry_required'')
                    else if \<not> profile_matches r pr then (d, Reply 409 ''release_target_drift'')
                    else if \<not> target_active a e pr then (d, Reply 409 ''release_target_inactive'')
                    else if deploymentDependenciesReady d (rs_profile_id r) ''DEPLOY'' \<noteq> Inr True
                    then (d, Reply 409 ''deployment_profile_not_ready'')
                    else if required \<and> rs_status r \<noteq> ''APPROVED'' then
                      (if rs_status r \<notin> {''UPLOADED'', ''DRAFT'', ''REJECTED''} \<and> \<not> (effectiveRetry \<and> rs_status r = ''FAILED'')
                       then (d, Reply 409 ''invalid_state'')
                       else if \<not> v_statement v \<or> \<not> v_commit v then (d, Reply 500 ''database_error'')
                       else (submit_review i retrySource (p_UserID p) d, Reply 200 []))
                    else if \<not> releaseCanQueue (rs_status r) required \<and> \<not> (effectiveRetry \<and> rs_status r = ''FAILED'')
                    then (d, Reply 409 ''invalid_state'')
                    else enqueue_job v now p jobID r a e pr art retrySource d))"

subsection \<open>Quick deployments\<close>

definition validateAndLockQuickHead :: "control \<Rightarrow> string \<Rightarrow> string \<Rightarrow> string option \<Rightarrow> string option \<Rightarrow> bool" where
  "validateAndLockQuickHead d app env frozenReleaseID frozenJobID \<longleftrightarrow>
     (let head = (case find_head d app env of
                    None \<Rightarrow> None
                  | Some h \<Rightarrow> if find_release d (hd_current_release_id h) = None \<or> find_job d (hd_current_job_id h) = None
                              then None else Some h)
      in sameNullableString frozenReleaseID (map_option hd_current_release_id head) \<and>
         sameNullableString frozenJobID (map_option hd_current_job_id head))"

text \<open>The code of the error, or the tables with the new job.\<close>

definition queueQuickDeployTx ::
  "verdict \<Rightarrow> int \<Rightarrow> string \<Rightarrow> string \<Rightarrow> string \<Rightarrow> control \<Rightarrow> string + control" where
  "queueQuickDeployTx v now jobID releaseID expectedStatus d =
     (case release_join d releaseID of
        None \<Rightarrow> Inl ''not_found''
      | Some (r, a, e, pr) \<Rightarrow>
          if \<not> rs_quick_release r \<or> rs_status r \<noteq> expectedStatus then Inl ''invalid_state''
          else case stored_artifact d releaseID of
            None \<Rightarrow> Inl ''artifact_content_required''
          | Some art \<Rightarrow>
              if \<not> profile_matches r pr then Inl ''release_target_drift''
              else if \<not> target_active a e pr then Inl ''release_target_inactive''
              else if deploymentDependenciesReady d (rs_profile_id r) ''DEPLOY'' \<noteq> Inr True then Inl ''deployment_profile_not_ready''
              else if \<not> matchingRunnerAvailable now d (df_runner_labels pr) then Inl ''runner_unavailable''
              else case releaseTargetLockKey (rs_application_id r) (rs_environment_id r) of
                Inl _ \<Rightarrow> Inl ''database_error''
              | Inr lockKey \<Rightarrow>
                  if lockReleaseTargetForJob v d lockKey then Inl ''job_conflict''
                  else case loadTargetCredentialSnapshot d (rs_profile_id r) of
                    Inl _ \<Rightarrow> Inl ''target_credential_not_ready''
                  | Inr credential \<Rightarrow>
                      if \<not> validateAndLockQuickHead d (rs_application_id r) (rs_environment_id r)
                             (rs_quick_base_release_id r) (rs_quick_base_job_id r)
                      then Inl ''deployment_head_changed''
                      else if \<not> insert_accepted v jobID d then Inl ''job_conflict''
                      else Inr (insert_job (new_job now jobID r (rs_profile_id r) (ap_code a) (rs_version r) (en_code e) lockKey art
                             OperationDeploy (rs_quick_base_release_id r) (rs_quick_base_job_id r) None credential
                             (df_runner_labels pr) (rs_created_by r)) d))"

definition quick_queue_reply :: "string \<Rightarrow> reply" where
  "quick_queue_reply code =
     (if code = ''database_error'' then Reply 500 code
      else if code = ''not_found'' then Reply 404 code else Reply 409 code)"

definition find_preset :: "control \<Rightarrow> string \<Rightarrow> (preset \<times> application \<times> environment \<times> deployment_profile) option" where
  "find_preset d artifactPrefix =
     (case List.find (\<lambda>x. dpr_artifact_prefix x = artifactPrefix \<and> dpr_active x \<and> dpr_revoked_at x = None) (c_presets d) of
        None \<Rightarrow> None
      | Some x \<Rightarrow>
          (case (find_application d (dpr_application_id x), find_environment d (dpr_environment_id x), find_profile d (dpr_profile_id x)) of
             (Some a, Some e, Some pr) \<Rightarrow>
               if en_application_id e = ap_id a \<and> df_application_id pr = ap_id a \<and> df_environment_id pr = en_id e \<and>
                  target_active a e pr
               then Some (x, a, e, pr) else None
           | _ \<Rightarrow> None))"

record quick_input =
  qi_filename :: string
  qi_notes :: string
  qi_expectedPresetID :: string
  qi_expectedPresetUpdatedAt :: int
  qi_expectedCurrentVersion :: string

text \<open>
  \<open>quickRelease\<close> from the parsed form on: \<open>stored\<close> is the outcome of writing the artifact, and the
  three identifiers are those of the release, the artifact and the job. The deployed version is read
  from the head of the target.
\<close>

definition quickRelease ::
  "(string \<Rightarrow> string) \<Rightarrow> verdict \<Rightarrow> int \<Rightarrow> principal \<Rightarrow> string \<Rightarrow> string \<Rightarrow> string \<Rightarrow> quick_input \<Rightarrow> (int \<times> string) result \<Rightarrow>
   control \<Rightarrow> control \<times> reply" where
  "quickRelease up v now p releaseID artifactID jobID input stored d =
     (if \<not> principal_Has p ''releases.submit'' then (d, Reply 403 ''permission_denied'')
      else if length (qi_notes input) > 16384 then (d, Reply 400 ''invalid_release'')
      else if \<not> validUUID (qi_expectedPresetID input) then (d, Reply 400 ''preflight_snapshot_required'')
      else case parseQuickArtifactFilename (qi_filename input) of
        Inl _ \<Rightarrow> (d, Reply 400 ''invalid_artifact_filename'')
      | Inr parsed \<Rightarrow>
     (case find_preset d (qa_ArtifactPrefix parsed) of
        None \<Rightarrow> (d, Reply 409 ''deployment_preset_unavailable'')
      | Some (ps, a, e, pr) \<Rightarrow>
          if dpr_id ps \<noteq> qi_expectedPresetID input \<or> dpr_updated_at ps \<noteq> qi_expectedPresetUpdatedAt input
          then (d, Reply 409 ''deployment_preset_unavailable'')
          else if \<exists>x\<in>set (c_releases d). rs_application_id x = ap_id a \<and> rs_environment_id x = en_id e \<and> rs_version x = qa_Version parsed
          then (d, Reply 409 ''release_conflict'')
          else case releaseTargetLockKey (ap_id a) (en_id e) of
            Inl _ \<Rightarrow> (d, Reply 500 ''database_error'')
          | Inr lockKey \<Rightarrow>
              if activeTargetJobExists d lockKey then (d, Reply 409 ''job_conflict'')
              else
                let current = (case find_head d (ap_id a) (en_id e) of
                                 None \<Rightarrow> None
                               | Some h \<Rightarrow> (case (find_release d (hd_current_release_id h), find_job d (hd_current_job_id h)) of
                                              (Some cr, Some _) \<Rightarrow> Some (h, rs_version cr) | _ \<Rightarrow> None))
                in if (case current of None \<Rightarrow> [] | Some (_, cv) \<Rightarrow> cv) \<noteq> qi_expectedCurrentVersion input
                   then (d, Reply 409 ''deployment_head_changed'')
                   else case validateQuickUpgrade (map_option snd current) (qa_Version parsed) of
                     (code, Some _) \<Rightarrow> (d, Reply 409 code)
                   | (_, None) \<Rightarrow>
                       let base = new_release p releaseID \<lparr>in_ApplicationID = ap_id a, in_EnvironmentID = en_id e, in_ProfileID = df_id pr,
                              in_Version = qa_Version parsed, in_Notes = qi_notes input\<rparr>;
                           r = base\<lparr>rs_version := qa_Version parsed, rs_deployment_preset_id := Some (dpr_id ps), rs_quick_release := True,
                              rs_auto_deploy_after_approval := dpr_auto_deploy_after_approval ps,
                              rs_quick_base_release_id := map_option (\<lambda>(h, _). hd_current_release_id h) current,
                              rs_quick_base_job_id := map_option (\<lambda>(h, _). hd_current_job_id h) current\<rparr>
                       in case (if v_statement v then insert_release r d else None) of
                            None \<Rightarrow> (d, Reply 409 ''release_conflict'')
                          | Some d1 \<Rightarrow>
                              (case persistArtifactTx v now releaseID artifactID (qi_filename input) stored True d1 of
                                 Inl err \<Rightarrow>
                                   if err = Err ''artifact exceeds the configured limit or could not be written''
                                   then (d, Reply 413 ''artifact_too_large'') else (d, Reply 400 ''invalid_artifact'')
                               | Inr d2 \<Rightarrow>
                                   if deploymentDependenciesReady d2 (df_id pr) ''DEPLOY'' \<noteq> Inr True
                                   then (d, Reply 409 ''deployment_profile_not_ready'')
                                   else if approval_required up d pr e then
                                     (if lockReleaseTargetForJob v d2 lockKey then (d, Reply 409 ''job_conflict'')
                                      else if \<not> validateAndLockQuickHead d2 (ap_id a) (en_id e) (rs_quick_base_release_id r) (rs_quick_base_job_id r)
                                      then (d, Reply 409 ''deployment_head_changed'')
                                      else if \<not> v_commit v then (d, Reply 409 ''quick_release_conflict'')
                                      else (set_where (\<lambda>x. rs_id x = releaseID \<and> rs_status x = ''UPLOADED'')
                                              (\<lambda>x. x\<lparr>rs_status := ''PENDING_REVIEW'', rs_decision_note := [], rs_reviewed_by := None,
                                                 rs_approved_by := None, rs_rejected_by := None\<rparr>) d2, Reply 201 []))
                                   else case queueQuickDeployTx v now jobID releaseID ''UPLOADED'' d2 of
                                          Inl code \<Rightarrow> (d, quick_queue_reply code)
                                        | Inr d3 \<Rightarrow> if v_commit v then (d3, Reply 201 []) else (d, Reply 409 ''quick_release_conflict''))))"

subsection \<open>Decisions\<close>

datatype decision_kind = Review | Approve | Reject

fun decision_status :: "decision_kind \<Rightarrow> string" where
  "decision_status Review = ''UNDER_REVIEW''"
| "decision_status Approve = ''APPROVED''"
| "decision_status Reject = ''REJECTED''"

fun decision_allowed :: "decision_kind \<Rightarrow> string list" where
  "decision_allowed Review = [''PENDING_REVIEW'']"
| "decision_allowed Approve = [''PENDING_REVIEW'', ''UNDER_REVIEW'']"
| "decision_allowed Reject = [''PENDING_REVIEW'', ''UNDER_REVIEW'']"

text \<open>The actor column of the decision.\<close>

fun set_actor :: "decision_kind \<Rightarrow> string \<Rightarrow> release_entry \<Rightarrow> release_entry" where
  "set_actor Review u r = r\<lparr>rs_reviewed_by := Some u\<rparr>"
| "set_actor Approve u r = r\<lparr>rs_approved_by := Some u\<rparr>"
| "set_actor Reject u r = r\<lparr>rs_rejected_by := Some u\<rparr>"

text \<open>Who asked for the operation that is decided on.\<close>

definition requester :: "release_entry \<Rightarrow> string" where
  "requester r = coalesce (rs_operation_requested_by r) (rs_created_by r)"

text \<open>The checks of an approval; \<open>None\<close> when it may go on.\<close>

definition approve_checks :: "control \<Rightarrow> principal \<Rightarrow> release_entry \<Rightarrow> deployment_profile \<Rightarrow> reply option" where
  "approve_checks d p r pr =
     (let allowSelf = coalesce (as_allowSelfApproval (c_settings d)) False
      in if requester r = p_UserID p \<and> \<not> allowSelf then Some (Reply 403 ''self_approval_forbidden'')
         else if rs_retry_source_job_id r \<noteq> None \<and> latestFailedDeployJob d (rs_id r) \<noteq> Inr (the (rs_retry_source_job_id r))
         then Some (Reply 409 ''retry_target_stale'')
         else if rs_requested_operation r = ''ROLLBACK'' then
           (case (rs_rollback_source_release_id r, rs_rollback_source_job_id r) of
              (Some srcID, Some srcJobID) \<Rightarrow>
                (case resolveRollbackPlan d (rs_id r) True of
                   Inl _ \<Rightarrow> Some (Reply 409 ''rollback_target_stale'')
                 | Inr plan \<Rightarrow>
                     if rp_SourceReleaseID plan \<noteq> srcID \<or> rp_SourceJobID plan \<noteq> srcJobID then Some (Reply 409 ''rollback_target_stale'')
                     else case (find_release d srcID, find_job d srcJobID) of
                            (Some src, Some basis) \<Rightarrow>
                              (case find_profile d (rs_profile_id src) of
                                 None \<Rightarrow> Some (Reply 409 ''rollback_source_invalid'')
                               | Some spr \<Rightarrow>
                                   if jr_release_id basis = rs_id src \<and> jr_operation basis = OperationDeploy \<and> jr_status basis = StatusSuccess \<and>
                                      rs_application_id src = rs_application_id r \<and> rs_environment_id src = rs_environment_id r
                                   then if \<not> profile_matches r spr then Some (Reply 409 ''release_target_drift'')
                                        else if deploymentDependenciesReady d (rs_profile_id src) ''ROLLBACK'' \<noteq> Inr True
                                        then Some (Reply 409 ''deployment_profile_not_ready'') else None
                                   else Some (Reply 409 ''rollback_source_invalid''))
                          | _ \<Rightarrow> Some (Reply 409 ''rollback_source_invalid''))
            | _ \<Rightarrow> Some (Reply 409 ''rollback_source_invalid''))
         else if \<not> profile_matches r pr then Some (Reply 409 ''release_target_drift'')
         else if deploymentDependenciesReady d (rs_profile_id r) ''DEPLOY'' \<noteq> Inr True
         then Some (Reply 409 ''deployment_profile_not_ready'') else None)"

definition decide_row ::
  "decision_kind \<Rightarrow> string \<Rightarrow> string \<Rightarrow> string \<Rightarrow> bool \<Rightarrow> bool \<Rightarrow> release_entry \<Rightarrow> release_entry" where
  "decide_row k targetStatus userID comment clearRollback clearRetry r =
     set_actor k userID (r\<lparr>rs_status := targetStatus, rs_decision_note := comment,
       rs_requested_operation := (if clearRollback then ''DEPLOY'' else rs_requested_operation r),
       rs_rollback_source_release_id := (if clearRollback then None else rs_rollback_source_release_id r),
       rs_rollback_source_job_id := (if clearRollback then None else rs_rollback_source_job_id r),
       rs_retry_source_job_id := (if clearRetry then None else rs_retry_source_job_id r),
       rs_operation_requested_by := (if clearRollback \<or> clearRetry then None else rs_operation_requested_by r),
       rs_operation_base_status := (if clearRollback \<or> clearRetry then None else rs_operation_base_status r)\<rparr>)"

definition decision ::
  "(string \<Rightarrow> string) \<Rightarrow> verdict \<Rightarrow> int \<Rightarrow> principal \<Rightarrow> string \<Rightarrow> decision_kind \<Rightarrow> string \<Rightarrow> string \<Rightarrow> control \<Rightarrow> control \<times> reply" where
  "decision up v now p jobID k comment i d =
     (if length comment > 4096 then (d, Reply 400 ''invalid_comment'')
      else case find_release d i of
        None \<Rightarrow> (d, Reply 404 ''not_found'')
      | Some r \<Rightarrow>
     (case (find_profile d (rs_profile_id r), find_environment d (rs_environment_id r)) of
        (Some pr, Some e) \<Rightarrow>
          if \<not> (rs_status r \<in> {''PENDING_REVIEW'', ''UNDER_REVIEW''} \<or> approval_required up d pr e)
          then (d, Reply 409 ''approval_disabled'')
          else case (if k = Approve then approve_checks d p r pr else None) of
            Some e' \<Rightarrow> (d, e')
          | None \<Rightarrow>
              if k = Reject \<and> trim_space comment = [] \<and> coalesce (as_requireRejectComment (c_settings d)) True
              then (d, Reply 400 ''reject_comment_required'')
              else if rs_status r \<notin> set (decision_allowed k) then (d, Reply 409 ''invalid_state'')
              else if k = Approve \<and> rs_quick_release r \<and> rs_auto_deploy_after_approval r \<and>
                      rs_requested_operation r = ''DEPLOY'' \<and> rs_retry_source_job_id r = None then
                (if \<not> v_statement v then (d, Reply 409 ''approval_conflict'')
                 else
                   let d1 = set_where (\<lambda>x. rs_id x = i \<and> rs_status x \<in> set (decision_allowed k))
                              (\<lambda>x. x\<lparr>rs_status := ''APPROVED'', rs_approved_by := Some (p_UserID p), rs_decision_note := comment\<rparr>) d
                   in case queueQuickDeployTx v now jobID i ''APPROVED'' d1 of
                        Inl code \<Rightarrow> (d, quick_queue_reply code)
                      | Inr d2 \<Rightarrow> if v_commit v then (d2, Reply 200 []) else (d, Reply 409 ''approval_conflict''))
              else
                let clearRollback = (k = Reject \<and> rs_requested_operation r = ''ROLLBACK'');
                    clearRetry = (k = Reject \<and> rs_retry_source_job_id r \<noteq> None)
                in if clearRollback \<and> rs_operation_base_status r \<notin> {Some ''SUCCESS'', Some ''FAILED''}
                   then (d, Reply 409 ''rollback_request_invalid'')
                   else if \<not> v_statement v then (d, Reply 500 ''database_error'')
                   else if \<not> v_commit v then (d, Reply 409 ''approval_conflict'')
                   else (set_where (\<lambda>x. rs_id x = i \<and> rs_status x \<in> set (decision_allowed k))
                           (decide_row k (if clearRollback then the (rs_operation_base_status r) else decision_status k)
                              (p_UserID p) comment clearRollback clearRetry) d, Reply 200 [])
      | _ \<Rightarrow> (d, Reply 404 ''not_found'')))"

end
