(* ===== verification/Workflow_Effects.thy ===== *)
theory Workflow_Effects
  imports Workflow
begin

text \<open>
  What a request of the release workflow may change. Every handler of \<open>Workflow\<close> has one of a few effects
  on the tables (\<open>workflow_effect\<close>): it creates, changes or deletes a release, or it inserts a job.
  The effect is established once per handler (\<open>workflow_handle_effect\<close>); the properties of
  \<open>Workflow_Props\<close> follow by cases over the effects.
\<close>

subsection \<open>Requests\<close>

datatype workflow_request =
    CreateReleaseReq string release_input
  | UpdateReleaseReq string string string string
  | DeleteReleaseReq string
  | ArtifactMetadataReq string string string int string
  | UploadArtifactReq string string string "(int \<times> string) result"
  | EnqueueReq bool string
  | RollbackReq string
  | DecisionReq decision_kind string string
  | QuickReleaseReq string string quick_input "(int \<times> string) result"

text \<open>
  \<open>jobID\<close> is the identifier \<open>secure.NewID\<close> gives the job, if one is inserted. The routes \<open>enqueue\<close>,
  \<open>submit-review\<close> and \<open>deploy\<close> share one handler; \<open>retry\<close> is the same with its flag set.
\<close>

fun workflow_handle ::
  "(string \<Rightarrow> string) \<Rightarrow> verdict \<Rightarrow> int \<Rightarrow> principal \<Rightarrow> string \<Rightarrow> workflow_request \<Rightarrow> control \<Rightarrow> control \<times> reply" where
  "workflow_handle up v now p jobID (CreateReleaseReq i x) d = createRelease v p i x d"
| "workflow_handle up v now p jobID (UpdateReleaseReq i ver notes pr) d = updateRelease v i ver notes pr d"
| "workflow_handle up v now p jobID (DeleteReleaseReq i) d = deleteRelease v i d"
| "workflow_handle up v now p jobID (ArtifactMetadataReq i a f n h) d = createArtifactMetadata v now i a f n h d"
| "workflow_handle up v now p jobID (UploadArtifactReq i a f st) d = uploadArtifact v now i a f st d"
| "workflow_handle up v now p jobID (EnqueueReq retry i) d = enqueueRelease up v now p jobID retry i d"
| "workflow_handle up v now p jobID (RollbackReq i) d = rollbackRelease up v now p jobID False i d"
| "workflow_handle up v now p jobID (DecisionReq k c i) d = decision up v now p jobID k c i d"
| "workflow_handle up v now p jobID (QuickReleaseReq i a x st) d = quickRelease up v now p i a jobID x st d"

subsection \<open>Tables of releases\<close>

definition content :: "release_entry \<Rightarrow> string \<times> string \<times> string \<times> string \<times> string" where
  "content r = (rs_id r, rs_application_id r, rs_environment_id r, rs_profile_id r, rs_version r)"

lemma content_id: "content x = content y \<Longrightarrow> rs_id x = rs_id y"
  by (simp add: content_def)

lemma find_map_same:
  assumes "\<And>x. rs_id (f x) = rs_id x"
  shows "List.find (\<lambda>r. rs_id r = i) (map f xs) = map_option f (List.find (\<lambda>r. rs_id r = i) xs)"
  using assms by (induction xs) auto

lemma find_set_where:
  assumes "\<And>x. rs_id (f x) = rs_id x"
  shows "find_release (set_where P f d) i = map_option (\<lambda>r. if P r then f r else r) (find_release d i)"
  using find_map_same [of "\<lambda>r. if P r then f r else r" i "c_releases d"] assms
  by (simp add: find_release_def set_where_def)

lemma find_release_id: "find_release d i = Some r \<Longrightarrow> rs_id r = i"
  by (auto simp: find_release_def find_Some_iff)

lemma find_release_eq: "c_releases d' = c_releases d \<Longrightarrow> find_release d' i = find_release d i"
  by (simp add: find_release_def)

lemma find_append: "List.find P (xs @ ys) = (case List.find P xs of None \<Rightarrow> List.find P ys | Some x \<Rightarrow> Some x)"
  by (induction xs) auto

lemma insert_release_find:
  assumes "insert_release r d = Some d'"
  shows "find_release d (rs_id r) = None \<and> find_release d' i = (if i = rs_id r then Some r else find_release d i)"
proof -
  have new: "\<forall>x\<in>set (c_releases d). rs_id x \<noteq> rs_id r" and d': "d' = d\<lparr>c_releases := c_releases d @ [r]\<rparr>"
    using assms by (auto simp: insert_release_def split: if_splits)
  have "List.find (\<lambda>x. rs_id x = rs_id r) (c_releases d) = None"
    using new by (simp add: find_None_iff)
  then show ?thesis by (auto simp: d' find_release_def find_append split: option.splits)
qed

lemma find_insert_job:
  "find_release (insert_job j d) i =
     map_option (\<lambda>r. if rs_id r = jr_release_id j then r\<lparr>rs_status := status_text (jr_status j)\<rparr> else r) (find_release d i)"
  by (simp add: insert_job_def set_release_def find_set_where find_release_eq [of "d\<lparr>c_jobs := c_jobs d @ [j]\<rparr>" d])

lemma tables_kept [simp]:
  "c_jobs (set_where P f d) = c_jobs d" "c_artifacts (set_where P f d) = c_artifacts d"
  "c_settings (set_where P f d) = c_settings d" "c_profiles (set_where P f d) = c_profiles d"
  "c_environments (set_where P f d) = c_environments d" "c_heads (set_where P f d) = c_heads d"
  "c_jobs (set_release i f d) = c_jobs d" "c_artifacts (set_release i f d) = c_artifacts d"
  "c_settings (set_release i f d) = c_settings d"
  "c_jobs (insert_job j d) = c_jobs d @ [j]" "c_artifacts (insert_job j d) = c_artifacts d"
  "c_settings (insert_job j d) = c_settings d"
  by (simp_all add: set_where_def set_release_def insert_job_def)

subsection \<open>Effects\<close>

text \<open>The approval that a job of a release needs, by the profile it runs with.\<close>

definition needs_approval :: "(string \<Rightarrow> string) \<Rightarrow> control \<Rightarrow> string \<Rightarrow> string \<Rightarrow> bool" where
  "needs_approval up d environmentID profileID \<longleftrightarrow>
     (case (find_profile d profileID, find_environment d environmentID) of
        (Some pr, Some e) \<Rightarrow> approval_required up d pr e
      | _ \<Rightarrow> False)"

text \<open>The source of a rollback job: a verified deployment of the same target, with its artifact.\<close>

definition verified_source :: "control \<Rightarrow> release_entry \<Rightarrow> queued_job \<Rightarrow> bool" where
  "verified_source d r j \<longleftrightarrow>
     (case (jr_rollback_source_release_id j, jr_rollback_source_job_id j) of
        (Some s, Some b) \<Rightarrow>
          (case (find_release d s, find_job d b, stored_artifact d s) of
             (Some src, Some basis, Some art) \<Rightarrow>
               jr_release_id basis = s \<and> jr_operation basis = OperationDeploy \<and> jr_status basis = StatusSuccess \<and>
               rs_application_id src = rs_application_id r \<and> rs_environment_id src = rs_environment_id r \<and>
               jr_profile_id j = rs_profile_id src \<and> jr_version j = rs_version src \<and>
               jr_artifact_path j = ra_storage_path art \<and> jr_expected_sha256 j = ra_sha256 art
           | _ \<Rightarrow> False)
      | _ \<Rightarrow> False)"

text \<open>The artifact, profile and version of a deployment job are those of its release.\<close>

definition own_content :: "control \<Rightarrow> release_entry \<Rightarrow> queued_job \<Rightarrow> bool" where
  "own_content d r j \<longleftrightarrow> jr_profile_id j = rs_profile_id r \<and> jr_version j = rs_version r \<and>
     (case stored_artifact d (rs_id r) of
        Some art \<Rightarrow> jr_artifact_path j = ra_storage_path art \<and> jr_expected_sha256 j = ra_sha256 art
      | None \<Rightarrow> False)"

text \<open>
  A release row as one request may change it: the target stays, its content changes only while it is
  editable, and it becomes approved only by someone else than the requester (unless self-approval is
  switched on).
\<close>

definition may_approve :: "control \<Rightarrow> principal \<Rightarrow> release_entry \<Rightarrow> bool" where
  "may_approve d p r \<longleftrightarrow> rs_status r \<in> {''PENDING_REVIEW'', ''UNDER_REVIEW''} \<and>
     (requester r \<noteq> p_UserID p \<or> as_allowSelfApproval (c_settings d) = Some True)"

definition row_step :: "control \<Rightarrow> principal \<Rightarrow> release_entry \<Rightarrow> release_entry \<Rightarrow> bool" where
  "row_step d p x y \<longleftrightarrow> rs_id y = rs_id x \<and> (editable (rs_status x) \<or> content y = content x) \<and>
     (rs_status y = ''APPROVED'' \<longrightarrow>
        y = x \<or> may_approve d p x \<and> requester y = requester x \<and> rs_approved_by y = Some (p_UserID p))"

text \<open>A release row when a job is inserted: its content stays, and only its status of review may end.\<close>

definition row_queued :: "release_entry \<Rightarrow> release_entry \<Rightarrow> bool" where
  "row_queued x y \<longleftrightarrow> content y = content x \<and> (rs_status y = ''APPROVED'' \<longrightarrow> y = x)"

text \<open>The job a request inserts for the release \<open>r\<close>.\<close>

definition job_new :: "control \<Rightarrow> queued_job \<Rightarrow> bool" where
  "job_new d j \<longleftrightarrow> jr_status j = StatusQueued \<and> jr_locked_by j = None \<and>
     (\<forall>x\<in>set (c_jobs d). jr_id x \<noteq> jr_id j \<and> (job_active x \<longrightarrow> to_lower (jr_lock_key x) \<noteq> to_lower (jr_lock_key j)))"

definition job_allowed :: "(string \<Rightarrow> string) \<Rightarrow> principal \<Rightarrow> control \<Rightarrow> release_entry \<Rightarrow> queued_job \<Rightarrow> bool" where
  "job_allowed up p d r j \<longleftrightarrow>
     (needs_approval up d (rs_environment_id r) (jr_profile_id j) \<longrightarrow> rs_status r = ''APPROVED'' \<or> may_approve d p r) \<and>
     (if jr_operation j = OperationRollback then verified_source d r j else own_content d r j)"

text \<open>The artifacts of all releases but one, and the configuration, are as before.\<close>

definition other_artifacts :: "string \<Rightarrow> control \<Rightarrow> control \<Rightarrow> bool" where
  "other_artifacts i d d' \<longleftrightarrow>
     filter (\<lambda>a. ra_release_id a \<noteq> i) (c_artifacts d') = filter (\<lambda>a. ra_release_id a \<noteq> i) (c_artifacts d)"

definition same_config :: "control \<Rightarrow> control \<Rightarrow> bool" where
  "same_config d d' \<longleftrightarrow> d'\<lparr>c_releases := c_releases d, c_jobs := c_jobs d, c_artifacts := c_artifacts d\<rparr> = d"

text \<open>\<open>dels\<close> tells whether the request is a deletion.\<close>

inductive workflow_effect :: "bool \<Rightarrow> (string \<Rightarrow> string) \<Rightarrow> principal \<Rightarrow> control \<Rightarrow> control \<Rightarrow> bool"
  for dels :: bool and up :: "string \<Rightarrow> string" and p :: principal and d :: control where
  none: "workflow_effect dels up p d d"
| created: "same_config d d' \<Longrightarrow> c_jobs d' = c_jobs d \<Longrightarrow> other_artifacts (rs_id r) d d' \<Longrightarrow>
     find_release d (rs_id r) = None \<Longrightarrow> (\<And>i. find_release d' i = (if i = rs_id r then Some r else find_release d i)) \<Longrightarrow>
     rs_status r \<in> {''DRAFT'', ''PENDING_REVIEW''} \<Longrightarrow> workflow_effect dels up p d d'"
| changed: "same_config d d' \<Longrightarrow> c_jobs d' = c_jobs d \<Longrightarrow>
     c_artifacts d' = c_artifacts d \<or>
       (\<exists>k r. find_release d k = Some r \<and> editable (rs_status r) \<and> other_artifacts k d d') \<Longrightarrow>
     (\<And>i. rel_option (row_step d p) (find_release d i) (find_release d' i)) \<Longrightarrow> workflow_effect dels up p d d'"
| deleted: "dels \<Longrightarrow> same_config d d' \<Longrightarrow> c_jobs d' = filter (\<lambda>j. jr_release_id j \<noteq> k) (c_jobs d) \<Longrightarrow> other_artifacts k d d' \<Longrightarrow>
     find_release d k = Some r \<Longrightarrow> editable (rs_status r) \<Longrightarrow>
     (\<And>i. find_release d' i = (if i = k then None else find_release d i)) \<Longrightarrow> workflow_effect dels up p d d'"
| queued: "same_config d d' \<Longrightarrow> c_jobs d' = c_jobs d @ [j] \<Longrightarrow> c_artifacts d' = c_artifacts d \<Longrightarrow>
     find_release d (jr_release_id j) = Some r \<Longrightarrow> job_new d j \<Longrightarrow> job_allowed up p d r j \<Longrightarrow>
     (\<And>i. rel_option row_queued (find_release d i) (find_release d' i)) \<Longrightarrow> workflow_effect dels up p d d'"
| quick_queued: "same_config d d' \<Longrightarrow> c_jobs d' = c_jobs d @ [j] \<Longrightarrow> other_artifacts (rs_id r) d d' \<Longrightarrow>
     find_release d (jr_release_id j) = None \<Longrightarrow> jr_release_id j = rs_id r \<Longrightarrow>
     (\<And>i. find_release d' i = (if i = rs_id r then Some r else find_release d i)) \<Longrightarrow> rs_status r = ''QUEUED'' \<Longrightarrow>
     job_new d j \<Longrightarrow> jr_operation j = OperationDeploy \<Longrightarrow> own_content d' r j \<Longrightarrow>
     \<not> needs_approval up d (rs_environment_id r) (jr_profile_id j) \<Longrightarrow> workflow_effect dels up p d d'"

lemma effect_none [simp]: "workflow_effect dels up p d d"
  by (rule workflow_effect.none)

lemma same_config_intros [simp, intro]:
  "same_config d (set_where P f d)" "same_config d (set_release i f d)"
  "same_config d (insert_job j d)" "same_config d (d\<lparr>c_releases := rs\<rparr>)"
  "same_config d (d\<lparr>c_artifacts := as\<rparr>)"
  by (simp_all add: same_config_def set_where_def set_release_def insert_job_def)

lemma same_config_tables:
  "same_config d d' \<Longrightarrow> find_profile d' = find_profile d \<and> find_environment d' = find_environment d \<and>
     find_application d' = find_application d \<and> c_settings d' = c_settings d \<and> c_heads d' = c_heads d"
  by (cases d; cases d') (auto simp: same_config_def find_profile_def find_environment_def find_application_def fun_eq_iff)

lemma same_config_trans: "same_config d d1 \<Longrightarrow> same_config d1 d2 \<Longrightarrow> same_config d d2"
  by (cases d; cases d1; cases d2) (auto simp: same_config_def)

lemma row_stepI:
  assumes "content y = content x" "rs_status y \<noteq> ''APPROVED''"
  shows "row_step d p x y"
  using assms content_id [OF assms(1)] by (simp add: row_step_def)

lemma row_queued_step: "row_queued x y \<Longrightarrow> row_step d p x y"
  using content_id [of y x] by (auto simp: row_queued_def row_step_def)

lemma row_step_refl [simp]: "row_step d p x x"
  by (simp add: row_step_def)

lemma rows_set_where:
  assumes "\<And>x. rs_id (f x) = rs_id x" "\<And>i x. find_release d i = Some x \<Longrightarrow> P x \<Longrightarrow> row_step d p x (f x)"
    "c_releases d1 = c_releases d"
  shows "rel_option (row_step d p) (find_release d i) (find_release (set_where P f d1) i)"
  using assms(1,2)
  by (cases "find_release d i") (simp_all add: find_set_where find_release_eq [OF assms(3)])

lemma rows_changed:
  assumes "\<And>x. rs_id (f x) = rs_id x" "\<And>i x. find_release d i = Some x \<Longrightarrow> P x \<Longrightarrow> row_step d p x (f x)"
  shows "workflow_effect dels up p d (set_where P f d)"
  by (rule workflow_effect.changed) (use assms rows_set_where in auto)

subsection \<open>Effects of the handlers\<close>

lemma insert_release_Some: "insert_release r d = Some d' \<Longrightarrow> d' = d\<lparr>c_releases := c_releases d @ [r]\<rparr>"
  by (simp add: insert_release_def split: if_splits)

lemma insert_release_effect:
  assumes "insert_release r d = Some d'" "rs_status r = ''DRAFT''"
  shows "workflow_effect dels up p d d'"
  by (rule workflow_effect.created [where r = r])
    (use assms insert_release_find [OF assms(1)] in \<open>auto simp: insert_release_Some [OF assms(1)] other_artifacts_def\<close>)

lemma createRelease_effect: "workflow_effect dels up p d (fst (createRelease v p i x d))"
  unfolding createRelease_def insertRelease_def
  by (auto split: option.splits if_splits intro: insert_release_effect simp: new_release_def)

lemma updateRelease_effect: "workflow_effect dels up p d (fst (updateRelease v i ver notes pr d))"
  unfolding updateRelease_def Let_def
  by (auto split: if_splits intro!: rows_changed simp: row_step_def content_def editable_def)


lemma find_release_filter:
  "find_release (d\<lparr>c_releases := filter (\<lambda>x. rs_id x \<noteq> k) rs\<rparr>) i = (if i = k then None else find_release (d\<lparr>c_releases := rs\<rparr>) i)"
  by (induction rs) (auto simp: find_release_def)

lemma deleteRelease_effect: "workflow_effect True up p d (fst (deleteRelease v i d))"
proof (cases "fst (deleteRelease v i d) = d")
  case False
  then obtain r where r: "find_release d i = Some r" "editable (rs_status r)"
    and d': "fst (deleteRelease v i d) = d\<lparr>c_releases := filter (\<lambda>x. rs_id x \<noteq> i) (c_releases d),
       c_artifacts := filter (\<lambda>a. ra_release_id a \<noteq> i) (c_artifacts d),
       c_jobs := filter (\<lambda>j. jr_release_id j \<noteq> i) (c_jobs d)\<rparr>" (is "_ = ?d")
    by (auto simp: deleteRelease_def split: option.splits if_splits)
  have "find_release ?d k = (if k = i then None else find_release d k)" for k
    using find_release_filter [where d = d and k = i and rs = "c_releases d"]
    by (simp add: find_release_eq [of ?d "d\<lparr>c_releases := filter (\<lambda>x. rs_id x \<noteq> i) (c_releases d)\<rparr>"])
  then show ?thesis unfolding d'
    by (intro workflow_effect.deleted [OF _ _ _ _ r]) (simp_all add: same_config_def other_artifacts_def)
qed simp

lemma createArtifactMetadata_effect: "workflow_effect dels up p d (fst (createArtifactMetadata v now i a f n h d))"
proof (cases "fst (createArtifactMetadata v now i a f n h d) = d")
  case False
  then obtain r where r: "find_release d i = Some r" "editable (rs_status r)"
    and d': "fst (createArtifactMetadata v now i a f n h d) = d\<lparr>c_artifacts := c_artifacts d @
      [\<lparr>ra_id = a, ra_release_id = i, ra_storage_path = [], ra_size_bytes = n, ra_sha256 = h, ra_created_at = now\<rparr>]\<rparr>"
      (is "_ = ?d")
    by (auto simp: createArtifactMetadata_def split: option.splits if_splits)
  have "other_artifacts i d ?d" by (simp add: other_artifacts_def)
  moreover have "rel_option (row_step d p) (find_release d k) (find_release ?d k)" for k
    using find_release_eq [of ?d d k] by (simp add: option.rel_refl)
  ultimately show ?thesis unfolding d' using r
    by (intro workflow_effect.changed) (simp, simp, blast, blast)
qed simp

definition stored_row :: "int \<Rightarrow> string \<Rightarrow> string \<Rightarrow> string \<Rightarrow> int \<times> string \<Rightarrow> artifact" where
  "stored_row now i a path w = \<lparr>ra_id = a, ra_release_id = i, ra_storage_path = path, ra_size_bytes = fst w, ra_sha256 = snd w,
     ra_created_at = now\<rparr>"

lemma persist_cases:
  assumes "persistArtifactTx v now i a f st q d = Inr d'"
  obtains r path w where "find_release d i = Some r" "editable (rs_status r)"
    "d' = set_where (\<lambda>x. rs_id x = i \<and> editable (rs_status x)) (\<lambda>x. x\<lparr>rs_status := ''UPLOADED''\<rparr>)
       (d\<lparr>c_artifacts := filter (\<lambda>a. \<not> (ra_release_id a = i \<and> ra_storage_path a = [])) (c_artifacts d) @
          [stored_row now i a path w]\<rparr>)"
proof -
  obtain r where r: "find_release d i = Some r" "editable (rs_status r)"
    using assms by (auto simp: persistArtifactTx_def split: option.splits if_splits)
  obtain path w where "artifactRelativePath i a (if has_suffix (to_lower f) ''.tar.gz'' then ''.tar.gz'' else ''.tar'') = Inr path"
    and w: "st = Inr w"
    using assms r by (auto simp: persistArtifactTx_def split: if_splits sum.splits)
  then have "d' = set_where (\<lambda>x. rs_id x = i \<and> editable (rs_status x)) (\<lambda>x. x\<lparr>rs_status := ''UPLOADED''\<rparr>)
       (d\<lparr>c_artifacts := filter (\<lambda>a. \<not> (ra_release_id a = i \<and> ra_storage_path a = [])) (c_artifacts d) @
          [stored_row now i a path w]\<rparr>)"
    using assms r by (simp add: persistArtifactTx_def stored_row_def split: if_splits prod.splits)
  with r show ?thesis by (rule that)
qed

lemma stored_row_keeps_others:
  "filter (\<lambda>x. ra_release_id x \<noteq> i) (filter (\<lambda>a. \<not> (ra_release_id a = i \<and> ra_storage_path a = [])) as @ [stored_row now i a path w]) =
     filter (\<lambda>x. ra_release_id x \<noteq> i) as"
  by (induction as) (auto simp: stored_row_def)

lemma set_where_config: "same_config d d1 \<Longrightarrow> same_config d (set_where P f d1)"
  using same_config_trans same_config_intros(1) by blast

lemma uploadArtifact_effect: "workflow_effect dels up p d (fst (uploadArtifact v now i a f st d))"
proof (cases "fst (uploadArtifact v now i a f st d) = d")
  case False
  then obtain d' where st: "persistArtifactTx v now i a f st False d = Inr d'" and d': "fst (uploadArtifact v now i a f st d) = d'"
    by (auto simp: uploadArtifact_def split: sum.splits if_splits)
  from st obtain r path w where r: "find_release d i = Some r" "editable (rs_status r)"
    and eq: "d' = set_where (\<lambda>x. rs_id x = i \<and> editable (rs_status x)) (\<lambda>x. x\<lparr>rs_status := ''UPLOADED''\<rparr>)
       (d\<lparr>c_artifacts := filter (\<lambda>a. \<not> (ra_release_id a = i \<and> ra_storage_path a = [])) (c_artifacts d) @
          [stored_row now i a path w]\<rparr>)"
    by (rule persist_cases)
  have "rel_option (row_step d p) (find_release d k) (find_release d' k)" for k
    unfolding eq by (rule rows_set_where) (simp_all add: row_stepI content_def)
  moreover have "other_artifacts i d d'"
    unfolding eq other_artifacts_def using stored_row_keeps_others by simp
  ultimately show ?thesis unfolding d' using r
    by (intro workflow_effect.changed) (auto simp: eq intro: set_where_config)
qed simp

text \<open>The rows of a release, and the job that a handler makes for it.\<close>

lemma release_join_Some:
  assumes "release_join d i = Some (r, a, e, pr)"
  shows "find_release d i = Some r \<and> rs_id r = i \<and> find_profile d (rs_profile_id r) = Some pr \<and>
    find_environment d (rs_environment_id r) = Some e"
  using assms find_release_id by (auto simp: release_join_def split: option.splits)

lemma new_job_fields [simp]:
  "jr_release_id (new_job now jobID r pid app ver env key art op s sj rt c ls u) = rs_id r"
  "jr_profile_id (new_job now jobID r pid app ver env key art op s sj rt c ls u) = pid"
  "jr_version (new_job now jobID r pid app ver env key art op s sj rt c ls u) = ver"
  "jr_operation (new_job now jobID r pid app ver env key art op s sj rt c ls u) = op"
  "jr_status (new_job now jobID r pid app ver env key art op s sj rt c ls u) = StatusQueued"
  "jr_artifact_path (new_job now jobID r pid app ver env key art op s sj rt c ls u) = ra_storage_path art"
  "jr_expected_sha256 (new_job now jobID r pid app ver env key art op s sj rt c ls u) = ra_sha256 art"
  "jr_rollback_source_release_id (new_job now jobID r pid app ver env key art op s sj rt c ls u) = s"
  "jr_rollback_source_job_id (new_job now jobID r pid app ver env key art op s sj rt c ls u) = sj"
  by (simp_all add: new_job_def)

lemma new_job_new:
  assumes "insert_accepted v jobID d" "\<not> lockReleaseTargetForJob v d key"
  shows "job_new d (new_job now jobID r pid app ver env key art op s sj rt c ls u)"
  using assms by (auto simp: job_new_def insert_accepted_def lockReleaseTargetForJob_def new_job_def)

lemma new_job_own:
  assumes "stored_artifact d (rs_id r) = Some art"
  shows "own_content d r (new_job now jobID r (rs_profile_id r) app (rs_version r) env key art op s sj rt c ls u)"
  using assms by (simp add: own_content_def)

lemma queue_rows:
  assumes "jr_release_id j = i" "\<And>x. content (f x) = content x" "\<And>x. rs_status (f x) \<noteq> ''APPROVED''"
  shows "rel_option row_queued (find_release d k) (find_release (set_release i f (insert_job j d)) k)"
proof -
  have "content (f (x\<lparr>rs_status := s\<rparr>)) = content x" for x s by (simp add: assms(2)) (simp add: content_def)
  then have "row_queued x (f (x\<lparr>rs_status := s\<rparr>))" for x s using assms(3) by (simp add: row_queued_def)
  then show ?thesis
    using content_id [OF assms(2)] assms(1)
    by (cases "find_release d k") (auto simp: set_release_def find_set_where find_insert_job row_queued_def)
qed

lemma queue_effect:
  assumes "find_release d i = Some r" "jr_release_id j = i" "job_new d j" "job_allowed up p d r j"
    "\<And>x. content (f x) = content x" "\<And>x. rs_status (f x) \<noteq> ''APPROVED''"
  shows "workflow_effect dels up p d (set_release i f (insert_job j d))"
proof (rule workflow_effect.queued [OF _ _ _ _ assms(3,4)])
  show "same_config d (set_release i f (insert_job j d))"
    using same_config_trans same_config_intros by blast
qed (use assms(1,2) queue_rows [OF assms(2,5,6)] in simp_all)

lemma enqueue_job_effect:
  assumes join: "release_join d i = Some (r, a, e, pr)" and art: "stored_artifact d i = Some art"
    and ok: "approval_required up d pr e \<longrightarrow> rs_status r = ''APPROVED''"
  shows "workflow_effect dels up p d (fst (enqueue_job v now p jobID r a e pr art src d))"
proof (cases "fst (enqueue_job v now p jobID r a e pr art src d) = d")
  case False
  note rows = release_join_Some [OF join]
  from False obtain j key s sj c u where j: "j = new_job now jobID r (rs_profile_id r) (ap_code a) (rs_version r) (en_code e)
        key art OperationDeploy s sj src c (df_runner_labels pr) u"
    and new: "insert_accepted v jobID d" "\<not> lockReleaseTargetForJob v d key"
    and d': "fst (enqueue_job v now p jobID r a e pr art src d) =
      set_release (rs_id r) (\<lambda>x. x\<lparr>rs_status := ''QUEUED'', rs_retry_source_job_id := None\<rparr>) (insert_job j d)"
    by (auto simp: enqueue_job_def Let_def split: sum.splits if_splits)
  have "job_allowed up p d r j"
    using rows ok art by (simp add: j job_allowed_def needs_approval_def new_job_own)
  then show ?thesis
    unfolding d' using rows new_job_new [OF new] by (intro queue_effect) (simp_all add: j content_def)
qed simp

lemma rows_set_release:
  assumes "\<And>x. content (f x) = content x" "\<And>x. rs_status (f x) \<noteq> ''APPROVED''"
  shows "workflow_effect dels up p d (set_where P f d)"
  by (rule rows_changed) (simp_all add: content_id [OF assms(1)] row_stepI assms)

lemma submit_effects:
  "workflow_effect dels up p d (submit_review i src u d)" "workflow_effect dels up p d (invalidate_retry i d)"
  "workflow_effect dels up p d (submit_rollback i s sj u st d)"
  "b \<noteq> ''APPROVED'' \<Longrightarrow> workflow_effect dels up p d (invalidate_rollback i b d)"
  by (simp_all add: submit_review_def invalidate_retry_def submit_rollback_def invalidate_rollback_def set_release_def
      rows_set_release content_def)

text \<open>The effect of a handler, branch by branch.\<close>

lemma effect_branches:
  "workflow_effect dels up p d (fst (d, e))"
  "(c \<Longrightarrow> workflow_effect dels up p d x') \<Longrightarrow> workflow_effect dels up p d (fst (if c then x' else d, e))"
  "(c \<Longrightarrow> workflow_effect dels up p d (fst x)) \<Longrightarrow> (\<not> c \<Longrightarrow> workflow_effect dels up p d (fst y)) \<Longrightarrow>
     workflow_effect dels up p d (fst (if c then x else y))"
  "(opt = None \<Longrightarrow> workflow_effect dels up p d (fst x)) \<Longrightarrow> (\<And>z. opt = Some z \<Longrightarrow> workflow_effect dels up p d (fst (f z))) \<Longrightarrow>
     workflow_effect dels up p d (fst (case opt of None \<Rightarrow> x | Some z \<Rightarrow> f z))"
  "(\<And>z. res = Inl z \<Longrightarrow> workflow_effect dels up p d (fst (g z))) \<Longrightarrow> (\<And>z. res = Inr z \<Longrightarrow> workflow_effect dels up p d (fst (f' z))) \<Longrightarrow>
     workflow_effect dels up p d (fst (case res of Inl z \<Rightarrow> g z | Inr z \<Rightarrow> f' z))"
  "(\<And>w z. pair = (w, z) \<Longrightarrow> workflow_effect dels up p d (fst (h w z))) \<Longrightarrow> workflow_effect dels up p d (fst (case pair of (w, z) \<Rightarrow> h w z))"
  "workflow_effect dels up p d (fst (l t)) \<Longrightarrow> workflow_effect dels up p d (fst (Let t l))"
  by (simp_all split: option.split sum.split prod.split)

lemma rollback_source_Some:
  assumes "rollback_source_rows d s sj app env = Some (src, pr, e, art)"
  obtains basis where "find_release d s = Some src" "rs_id src = s" "find_profile d (rs_profile_id src) = Some pr"
    "find_job d sj = Some basis" "find_environment d env = Some e" "stored_artifact d s = Some art"
    "jr_release_id basis = s" "jr_operation basis = OperationDeploy" "jr_status basis = StatusSuccess"
    "rs_application_id src = app" "rs_environment_id src = env"
  using assms find_release_id [of d s src] by (auto simp: rollback_source_rows_def split: option.splits if_splits)

lemma rollback_to_effect:
  assumes r: "find_release d i = Some r" and free: "\<not> lockReleaseTargetForJob v d key"
  shows "workflow_effect dels up p d (fst (rollback_to up v now p jobID r a e key ex s sj d))"
proof (cases "rollback_source_rows d s sj (rs_application_id r) (rs_environment_id r)")
  case (Some x)
  obtain src pr e' art where x: "x = (src, pr, e', art)" by (cases x) auto
  from Some [unfolded x] obtain basis where src: "find_release d s = Some src" "rs_id src = s"
    "find_profile d (rs_profile_id src) = Some pr" "find_job d sj = Some basis"
    "find_environment d (rs_environment_id r) = Some e'" "stored_artifact d s = Some art"
    "jr_release_id basis = s" "jr_operation basis = OperationDeploy" "jr_status basis = StatusSuccess"
    "rs_application_id src = rs_application_id r" "rs_environment_id src = rs_environment_id r"
    by (rule rollback_source_Some)
  have queue: "workflow_effect dels up p d (queue_rollback (rs_id r) s sj (p_UserID p) b
      (insert_job (new_job now jobID r (rs_profile_id src) (ap_code a) (rs_version src) (en_code e) key art
         OperationRollback (Some s) (Some sj) None c (df_runner_labels pr) (p_UserID p)) d))" (is "_ (queue_rollback _ _ _ _ _ (insert_job ?j d))")
    if "\<not> (approval_required up d pr e' \<and> rs_status r \<noteq> ''APPROVED'')" "\<not> \<not> insert_accepted v jobID d" for b c
  proof -
    have "job_allowed up p d r ?j"
      using src that(1) by (simp add: job_allowed_def needs_approval_def verified_source_def)
    moreover have "job_new d ?j" using that(2) by (intro new_job_new [OF _ free]) simp
    ultimately show ?thesis
      unfolding queue_rollback_def using r find_release_id [OF r] by (intro queue_effect) (simp_all add: content_def)
  qed
  show ?thesis
    unfolding rollback_to_def Some x option.case prod.case
    by (intro effect_branches; (unfold fst_conv)?; (rule submit_effects queue; assumption)?)
qed (simp add: rollback_to_def)

lemma rollbackRelease_effect: "workflow_effect dels up p d (fst (rollbackRelease up v now p jobID retry i d))"
proof (cases "find_release d i")
  case (Some r)
  note r = rollback_to_effect [OF Some]
  show ?thesis unfolding rollbackRelease_def Some Let_def option.case prod.case
    by (intro effect_branches r submit_effects) auto
qed (simp add: rollbackRelease_def)

lemma enqueueRelease_effect: "workflow_effect dels up p d (fst (enqueueRelease up v now p jobID retry i d))"
proof (cases "map_option rs_requested_operation (find_release d i) = Some ''ROLLBACK''")
  case False
  show ?thesis
  proof (cases "release_join d i")
    case (Some x)
    obtain r a e pr where x: "x = (r, a, e, pr)" by (cases x) auto
    note job = enqueue_job_effect [OF Some [unfolded x]]
    show ?thesis unfolding enqueueRelease_def if_not_P [OF False] Some x Let_def option.case prod.case
      by (intro effect_branches job) (simp_all add: submit_effects)
  qed (simp add: enqueueRelease_def rollbackRelease_effect)
qed (simp add: enqueueRelease_def rollbackRelease_effect)

lemma queueQuickDeployTx_cases:
  assumes "queueQuickDeployTx v now jobID i st d = Inr d'"
  obtains r j where "find_release d i = Some r" "rs_id r = i" "rs_status r = st" "d' = insert_job j d" "jr_release_id j = i"
    "jr_profile_id j = rs_profile_id r" "jr_operation j = OperationDeploy" "jr_status j = StatusQueued" "job_new d j" "own_content d r j"
proof -
  obtain r a e pr where join: "release_join d i = Some (r, a, e, pr)"
    using assms by (auto simp: queueQuickDeployTx_def split: option.splits)
  note rows = release_join_Some [OF join]
  obtain art where art: "stored_artifact d i = Some art"
    using assms by (auto simp: queueQuickDeployTx_def join split: option.splits if_splits)
  have st: "rs_status r = st" and "\<exists>key c. insert_accepted v jobID d \<and> \<not> lockReleaseTargetForJob v d key \<and>
      d' = insert_job (new_job now jobID r (rs_profile_id r) (ap_code a) (rs_version r) (en_code e) key art
        OperationDeploy (rs_quick_base_release_id r) (rs_quick_base_job_id r) None c (df_runner_labels pr) (rs_created_by r)) d"
    using assms by (auto simp: queueQuickDeployTx_def join art split: if_splits sum.splits)
  then obtain key c where new: "insert_accepted v jobID d" "\<not> lockReleaseTargetForJob v d key"
    and d': "d' = insert_job (new_job now jobID r (rs_profile_id r) (ap_code a) (rs_version r) (en_code e) key art
        OperationDeploy (rs_quick_base_release_id r) (rs_quick_base_job_id r) None c (df_runner_labels pr) (rs_created_by r)) d"
    by blast
  show ?thesis
    by (rule that [OF _ _ st d']) (use rows new_job_new [OF new] new_job_own [of d r art] art in simp_all)
qed

lemma stored_artifact_eq: "c_artifacts d' = c_artifacts d \<Longrightarrow> stored_artifact d' i = stored_artifact d i"
  by (simp add: stored_artifact_def)

lemma decide_row_keeps:
  "content (decide_row k st u c cr ct r) = content r" "rs_status (decide_row k st u c cr ct r) = st"
  by (cases k; simp add: decide_row_def content_def)+

lemma decide_row_approve:
  "requester (decide_row Approve st u c False False r) = requester r" "rs_approved_by (decide_row Approve st u c False False r) = Some u"
  by (simp_all add: decide_row_def requester_def)

lemma approve_checks_pass:
  "approve_checks d p r pr = None \<Longrightarrow> requester r \<noteq> p_UserID p \<or> as_allowSelfApproval (c_settings d) = Some True"
  by (auto simp: approve_checks_def coalesce_def Let_def split: if_splits option.splits)

lemma find_release_inject: "find_release d i = Some r \<Longrightarrow> find_release d k = Some x \<Longrightarrow> rs_id x = i \<Longrightarrow> x = r"
  using find_release_id by fastforce

lemma decided_effect:
  assumes r: "find_release d i = Some r" and k: "k = Approve \<Longrightarrow> may_approve d p r \<and> st = ''APPROVED'' \<and> \<not> cr \<and> \<not> ct"
    "k \<noteq> Approve \<Longrightarrow> st \<noteq> ''APPROVED''"
  shows "workflow_effect dels up p d (set_where (\<lambda>x. rs_id x = i \<and> P x) (decide_row k st (p_UserID p) c cr ct) d)"
proof (rule rows_changed)
  show "rs_id (decide_row k st (p_UserID p) c cr ct x) = rs_id x" for x
    by (rule content_id) (rule decide_row_keeps)
next
  fix n x assume "find_release d n = Some x" "rs_id x = i \<and> P x"
  then have "x = r" using find_release_inject [OF r] by blast
  then show "row_step d p x (decide_row k st (p_UserID p) c cr ct x)"
    using k by (cases "k = Approve")
      (auto simp: row_step_def decide_row_keeps decide_row_approve content_id [OF decide_row_keeps(1)])
qed

lemma approve_queue_effect:
  assumes r: "find_release d i = Some r" and ok: "may_approve d p r"
    and d1: "d1 = set_where (\<lambda>x. rs_id x = i \<and> P x)
      (\<lambda>x. x\<lparr>rs_status := ''APPROVED'', rs_approved_by := Some (p_UserID p), rs_decision_note := c\<rparr>) d"
    and q: "queueQuickDeployTx v now jobID i ''APPROVED'' d1 = Inr d2"
  shows "workflow_effect dels up p d d2"
proof -
  from q obtain r1 j where r1: "find_release d1 i = Some r1" and j: "d2 = insert_job j d1" "jr_release_id j = i"
    "jr_profile_id j = rs_profile_id r1" "jr_operation j = OperationDeploy" "jr_status j = StatusQueued" "job_new d1 j" "own_content d1 r1 j"
    by (rule queueQuickDeployTx_cases)
  have content: "content r1 = content r" using r1 r by (auto simp: d1 find_set_where content_def)
  have "own_content d r j"
    using j(7) content stored_artifact_eq [of d1 d] by (simp add: own_content_def content_def d1)
  then have allowed: "job_allowed up p d r j" using j ok by (simp add: job_allowed_def)
  have new: "job_new d j" using j(6) by (simp add: job_new_def d1)
  show ?thesis
  proof (rule workflow_effect.queued [OF _ _ _ _ new allowed])
    show "same_config d d2"
      using same_config_trans [OF same_config_intros(1) same_config_intros(3)] by (simp add: j d1)
    show "rel_option row_queued (find_release d k) (find_release d2 k)" for k
      by (cases "find_release d k")
        (auto simp: j d1 find_insert_job find_set_where content_def row_queued_def)
  qed (use r j in \<open>simp_all add: d1\<close>)
qed

lemma decision_effect: "workflow_effect dels up p d (fst (decision up v now p jobID k c i d))"
proof (cases "find_release d i")
  case (Some r)
  have approve: "may_approve d p r"
    if "(if k = Approve then approve_checks d p r pr else None) = None" "\<not> rs_status r \<notin> set (decision_allowed k)" "k = Approve" for pr
    using that approve_checks_pass [of d p r pr] by (simp add: may_approve_def)
  have queue: "workflow_effect dels up p d d2"
    if "(if k = Approve then approve_checks d p r pr else None) = None" "\<not> rs_status r \<notin> set (decision_allowed k)"
      "k = Approve \<and> Q" "queueQuickDeployTx v now jobID i ''APPROVED'' (set_where (\<lambda>x. rs_id x = i \<and> rs_status x \<in> set (decision_allowed k))
        (\<lambda>x. x\<lparr>rs_status := ''APPROVED'', rs_approved_by := Some (p_UserID p), rs_decision_note := c\<rparr>) d) = Inr d2" for pr d2 Q
    using approve_queue_effect [OF Some approve refl that(4)] that by blast
  have decide: "workflow_effect dels up p d (set_where (\<lambda>x. rs_id x = i \<and> rs_status x \<in> set (decision_allowed k))
      (decide_row k (if k = Reject \<and> rs_requested_operation r = ''ROLLBACK'' then the (rs_operation_base_status r) else decision_status k)
        (p_UserID p) c (k = Reject \<and> rs_requested_operation r = ''ROLLBACK'') (k = Reject \<and> rs_retry_source_job_id r \<noteq> None)) d)"
    if "(if k = Approve then approve_checks d p r pr else None) = None" "\<not> rs_status r \<notin> set (decision_allowed k)"
      "\<not> ((k = Reject \<and> rs_requested_operation r = ''ROLLBACK'') \<and> rs_operation_base_status r \<notin> {Some ''SUCCESS'', Some ''FAILED''})" for pr
  proof (rule decided_effect [OF Some])
    show "(if k = Reject \<and> rs_requested_operation r = ''ROLLBACK'' then the (rs_operation_base_status r) else decision_status k) \<noteq> ''APPROVED''"
      if "k \<noteq> Approve"
      using that \<open>\<not> (_ \<and> _ \<notin> _)\<close> by (cases k) auto
  qed (use approve [OF that(1,2)] in auto)
  show ?thesis
    unfolding decision_def Some Let_def option.case prod.case
    by (intro effect_branches; (unfold fst_conv)?; (rule queue decide; assumption)?)
qed (simp add: decision_def)

lemma find_preset_Some:
  assumes "find_preset d x = Some (ps, a, e, pr)"
  shows "find_environment d (en_id e) = Some e \<and> find_profile d (df_id pr) = Some pr"
  using assms
  by (auto simp: find_preset_def find_environment_def find_profile_def find_Some_iff split: option.splits if_splits)

text \<open>The tables after a quick release has inserted its row and stored its artifact.\<close>

lemma quick_stored:
  assumes ins: "insert_release r d = Some d1" and st: "rs_status r = ''DRAFT''"
    and per: "persistArtifactTx v now (rs_id r) a f st' True d1 = Inr d2"
  shows "find_release d (rs_id r) = None \<and> same_config d d2 \<and> c_jobs d2 = c_jobs d \<and> other_artifacts (rs_id r) d d2 \<and>
    (\<forall>k. find_release d2 k = (if k = rs_id r then Some (r\<lparr>rs_status := ''UPLOADED''\<rparr>) else find_release d k))"
proof -
  from per obtain r1 path w where eq: "d2 = set_where (\<lambda>x. rs_id x = rs_id r \<and> editable (rs_status x)) (\<lambda>x. x\<lparr>rs_status := ''UPLOADED''\<rparr>)
       (d1\<lparr>c_artifacts := filter (\<lambda>a. \<not> (ra_release_id a = rs_id r \<and> ra_storage_path a = [])) (c_artifacts d1) @
          [stored_row now (rs_id r) a path w]\<rparr>)" (is "_ = set_where _ _ ?d1")
    by (rule persist_cases)
  note d1 = insert_release_Some [OF ins]
  have find: "find_release ?d1 k = (if k = rs_id r then Some r else find_release d k)" for k
    using insert_release_find [OF ins, of k] find_release_eq [of ?d1 d1 k] by simp
  have "find_release d2 k = (if k = rs_id r then Some (r\<lparr>rs_status := ''UPLOADED''\<rparr>) else find_release d k)" for k
  proof -
    have "find_release d2 k = map_option (\<lambda>x. if rs_id x = rs_id r \<and> editable (rs_status x) then x\<lparr>rs_status := ''UPLOADED''\<rparr> else x)
        (if k = rs_id r then Some r else find_release d k)"
      unfolding eq by (subst find_set_where, simp) (simp only: find)
    moreover have "editable (rs_status r)" by (simp add: st editable_def)
    moreover have "rs_id x \<noteq> rs_id r" if "find_release d k = Some x" "k \<noteq> rs_id r" for x
      using find_release_id [OF that(1)] that(2) by metis
    ultimately show ?thesis by (cases "find_release d k"; simp)
  qed
  moreover have "other_artifacts (rs_id r) d d2"
    unfolding eq other_artifacts_def using stored_row_keeps_others by (simp add: d1)
  moreover have "same_config d d2"
    unfolding eq d1 by (rule set_where_config) (simp add: same_config_def)
  ultimately show ?thesis using insert_release_find [OF ins] by (simp add: eq d1)
qed

lemma quick_review_effect:
  assumes ins: "insert_release r d = Some d1" and st: "rs_status r = ''DRAFT''" "rs_id r = i"
    and per: "persistArtifactTx v now i a f st' True d1 = Inr d2"
    and g: "\<And>x. content (g x) = content x" "\<And>x. rs_status (g x) = ''PENDING_REVIEW''"
  shows "workflow_effect dels up p d (set_where (\<lambda>x. rs_id x = i \<and> rs_status x = ''UPLOADED'') g d2)"
proof -
  note s = quick_stored [OF ins st(1) per [folded st(2)]]
  let ?r = "g (r\<lparr>rs_status := ''UPLOADED''\<rparr>)"
  have id: "rs_id (g x) = rs_id x" for x by (rule content_id) (rule g)
  have rid: "rs_id ?r = i" using st(2) by (simp add: id)
  have "find_release (set_where (\<lambda>x. rs_id x = i \<and> rs_status x = ''UPLOADED'') g d2) k = (if k = rs_id ?r then Some ?r else find_release d k)" for k
    using s find_release_id [of d k] st(2) rid
    by (cases "find_release d k") (auto simp: find_set_where [OF id])
  then show ?thesis
    using s st(2) rid set_where_config
    by (intro workflow_effect.created [where r = ?r]) (simp_all add: g other_artifacts_def)
qed

lemma quick_queue_effect:
  assumes ins: "insert_release r d = Some d1" and st: "rs_status r = ''DRAFT''" "rs_id r = i"
    and per: "persistArtifactTx v now i a f st' True d1 = Inr d2"
    and q: "queueQuickDeployTx v now jobID i ''UPLOADED'' d2 = Inr d3"
    and no: "\<not> needs_approval up d (rs_environment_id r) (rs_profile_id r)"
  shows "workflow_effect dels up p d d3"
proof -
  note s = quick_stored [OF ins st(1) per [folded st(2)]]
  let ?r = "r\<lparr>rs_status := ''QUEUED''\<rparr>"
  from q obtain r2 j where r2: "find_release d2 i = Some r2" and j: "d3 = insert_job j d2" "jr_release_id j = i"
    "jr_profile_id j = rs_profile_id r2" "jr_operation j = OperationDeploy" "jr_status j = StatusQueued" "job_new d2 j" "own_content d2 r2 j"
    by (rule queueQuickDeployTx_cases)
  have r2': "r2 = r\<lparr>rs_status := ''UPLOADED''\<rparr>" using s r2 st(2) by simp
  have find: "find_release d3 k = (if k = rs_id ?r then Some ?r else find_release d k)" for k
    using s find_release_id [of d k] st(2) j(2,5)
    by (cases "find_release d k") (auto simp: j(1) find_insert_job)
  have own: "own_content d3 ?r j"
    using j(7) stored_artifact_eq [of d3 d2] by (simp add: own_content_def r2' j(1))
  show ?thesis
  proof (rule workflow_effect.quick_queued [where r = ?r and j = j])
    show "same_config d d3" using s same_config_trans [OF _ same_config_intros(3)] by (simp add: j(1))
    show "other_artifacts (rs_id ?r) d d3" using s by (simp add: j(1) other_artifacts_def)
    show "job_new d j" using j(6) s by (simp add: job_new_def)
  qed (use s st(2) j no find own in \<open>simp_all add: r2'\<close>)
qed

lemma if_Some: "(if c then x else None) = Some y \<Longrightarrow> x = Some y"
  by (simp split: if_splits)

lemma quickRelease_effect: "workflow_effect dels up p d (fst (quickRelease up v now p i a jobID x st d))"
  unfolding quickRelease_def
  apply (intro effect_branches; (unfold fst_conv)?)
  subgoal
    by (rule quick_review_effect [OF if_Some], assumption, simp add: new_release_def, simp add: new_release_def, assumption)
      (simp_all add: content_def)
  subgoal
    by (rule quick_queue_effect [OF if_Some], assumption, simp add: new_release_def, simp add: new_release_def, assumption, assumption)
      (simp add: new_release_def needs_approval_def find_preset_Some)
  done

lemma workflow_handle_effect: "workflow_effect (\<exists>i. q = DeleteReleaseReq i) up p d (fst (workflow_handle up v now p jobID q d))"
  by (cases q) (simp_all add: createRelease_effect updateRelease_effect deleteRelease_effect createArtifactMetadata_effect
      uploadArtifact_effect enqueueRelease_effect rollbackRelease_effect decision_effect quickRelease_effect)

end
