(* ===== verification/Workflow_Props.thy ===== *)
theory Workflow_Props
  imports Workflow_Effects
begin

text \<open>
  What the release workflow guarantees along every run in which requests interleave with the runner's
  updates of the queue and with changes of the configuration: nobody deploys a protected release without
  the approval of a second person, a release under review keeps what is reviewed, a target has at
  most one active job, every job carries the artifact of its release or of the verified deployment it
  rolls back to, and the queue behaves as the runner's store expects.
\<close>

subsection \<open>Runs\<close>

text \<open>
  What the runner reports of an active job: its row changes, the trigger copies its status to the release,
  and the head of the target may move.
\<close>

definition job_progress :: "string \<Rightarrow> (queued_job \<Rightarrow> queued_job) \<Rightarrow> head_row list \<Rightarrow> control \<Rightarrow> control" where
  "job_progress i f heads d =
     (case find_job d i of
        None \<Rightarrow> d
      | Some j \<Rightarrow>
          if \<not> job_active j then d
          else set_release (jr_release_id j) (\<lambda>r. r\<lparr>rs_status := status_text (jr_status (f j))\<rparr>)
                 (d\<lparr>c_jobs := map (\<lambda>x. if jr_id x = i \<and> job_active x then f x else x) (c_jobs d), c_heads := heads\<rparr>))"

definition keeps_target :: "(queued_job \<Rightarrow> queued_job) \<Rightarrow> bool" where
  "keeps_target f \<longleftrightarrow> (\<forall>j. jr_id (f j) = jr_id j \<and> jr_lock_key (f j) = jr_lock_key j)"

definition four_eyes :: "control \<Rightarrow> bool" where
  "four_eyes d \<longleftrightarrow> as_allowSelfApproval (c_settings d) \<noteq> Some True"

inductive workflow_reachable :: "(string \<Rightarrow> string) \<Rightarrow> control \<Rightarrow> bool" for up :: "string \<Rightarrow> string" where
  initial: "c_releases d = [] \<Longrightarrow> c_jobs d = [] \<Longrightarrow> four_eyes d \<Longrightarrow> workflow_reachable up d"
| request: "workflow_reachable up d \<Longrightarrow> workflow_reachable up (fst (workflow_handle up v now p jobID q d))"
| configure: "workflow_reachable up d \<Longrightarrow> c_releases d' = c_releases d \<Longrightarrow> c_jobs d' = c_jobs d \<Longrightarrow> four_eyes d' \<Longrightarrow>
     workflow_reachable up d'"
| progress: "workflow_reachable up d \<Longrightarrow> keeps_target f \<Longrightarrow> workflow_reachable up (job_progress i f heads d)"

text \<open>An invariant of the tables: it holds of empty tables, and the effects of requests, of the configuration and of the runner keep it.\<close>

locale workflow_invariant =
  fixes inv :: "control \<Rightarrow> bool"
  assumes start: "c_releases d = [] \<Longrightarrow> c_jobs d = [] \<Longrightarrow> four_eyes d \<Longrightarrow> inv d"
    and effect: "workflow_effect dels up p d d' \<Longrightarrow> inv d \<Longrightarrow> inv d'"
    and config: "inv d \<Longrightarrow> c_releases d' = c_releases d \<Longrightarrow> c_jobs d' = c_jobs d \<Longrightarrow> four_eyes d' \<Longrightarrow> inv d'"
    and reported: "inv d \<Longrightarrow> keeps_target f \<Longrightarrow> inv (job_progress i f heads d)"
begin

lemma always: "workflow_reachable up d \<Longrightarrow> inv d"
proof (induction rule: workflow_reachable.induct)
  case (request d v now p jobID q)
  then show ?case using effect [OF workflow_handle_effect] by blast
qed (blast intro: start config reported)+

end

subsection \<open>Approval\<close>

text \<open>An approved release names an approver who did not ask for the operation.\<close>

definition approvals_by_others :: "control \<Rightarrow> bool" where
  "approvals_by_others d \<longleftrightarrow> four_eyes d \<and>
     (\<forall>i r. find_release d i = Some r \<longrightarrow> rs_status r = ''APPROVED'' \<longrightarrow> (\<exists>a. rs_approved_by r = Some a \<and> a \<noteq> requester r))"

lemma approvals_rows:
  assumes "approvals_by_others d" "rel_option (row_step d p) (find_release d i) (find_release d' i)"
    "find_release d' i = Some r" "rs_status r = ''APPROVED''"
  shows "\<exists>a. rs_approved_by r = Some a \<and> a \<noteq> requester r"
  using assms by (cases "find_release d i") (auto simp: approvals_by_others_def row_step_def may_approve_def four_eyes_def)

lemma four_eyes_config: "same_config d d' \<Longrightarrow> four_eyes d' = four_eyes d"
  using same_config_tables by (simp add: four_eyes_def)

lemma approvals_effect:
  assumes "workflow_effect dels up p d d'" "approvals_by_others d"
  shows "approvals_by_others d'"
  using assms(1)
proof cases
  case (created r)
  then show ?thesis using assms(2) four_eyes_config by (auto simp: approvals_by_others_def)
next
  case (changed)
  then show ?thesis using approvals_rows [OF assms(2)] assms(2) four_eyes_config [OF changed(1)]
    unfolding approvals_by_others_def by blast
next
  case (deleted k r)
  then show ?thesis using assms(2) four_eyes_config by (auto simp: approvals_by_others_def)
next
  case (queued j r)
  have "rel_option (row_step d p) (find_release d i) (find_release d' i)" for i
    by (rule option.rel_mono_strong [OF queued(7)]) (rule row_queued_step)
  then show ?thesis using approvals_rows [OF assms(2)] assms(2) four_eyes_config [OF queued(1)]
    unfolding approvals_by_others_def by blast
next
  case (quick_queued j r)
  then show ?thesis using assms(2) four_eyes_config by (auto simp: approvals_by_others_def)
qed (use assms in simp)

lemma status_text_not_approved [simp]: "status_text st \<noteq> ''APPROVED''"
  by (cases st) simp_all

lemma approvals_progress:
  assumes "approvals_by_others d"
  shows "approvals_by_others (job_progress i f heads d)"
proof (cases "\<exists>j. find_job d i = Some j \<and> job_active j")
  case True
  then obtain j where j: "find_job d i = Some j" "job_active j" by blast
  let ?d = "d\<lparr>c_jobs := map (\<lambda>x. if jr_id x = i \<and> job_active x then f x else x) (c_jobs d), c_heads := heads\<rparr>"
  have "find_release (job_progress i f heads d) k =
      map_option (\<lambda>r. if rs_id r = jr_release_id j then r\<lparr>rs_status := status_text (jr_status (f j))\<rparr> else r) (find_release d k)" for k
    using find_release_eq [of ?d d k] by (simp add: job_progress_def j set_release_def find_set_where)
  moreover have "four_eyes (job_progress i f heads d)"
    using assms by (simp add: approvals_by_others_def four_eyes_def job_progress_def j)
  ultimately show ?thesis using assms by (auto simp: approvals_by_others_def)
qed (use assms in \<open>auto simp: job_progress_def split: option.split\<close>)

interpretation approvals: workflow_invariant approvals_by_others
proof
  show "approvals_by_others d" if "c_releases d = []" "c_jobs d = []" "four_eyes d" for d
    using that by (simp add: approvals_by_others_def find_release_def)
  show "approvals_by_others d'" if "approvals_by_others d" "c_releases d' = c_releases d" "c_jobs d' = c_jobs d" "four_eyes d'" for d d'
    using that find_release_eq [OF that(2)] by (simp add: approvals_by_others_def)
qed (blast intro: approvals_effect approvals_progress)+

subsection \<open>Jobs of a request\<close>

lemma effect_new_job:
  assumes "workflow_effect dels up p d d'" "j \<in> set (c_jobs d')" "j \<notin> set (c_jobs d)"
    and r': "find_release d' (jr_release_id j) = Some r'"
  shows "c_jobs d' = c_jobs d @ [j] \<and> job_new d j \<and>
    (if jr_operation j = OperationRollback then verified_source d r' j else own_content d' r' j) \<and>
    (needs_approval up d (rs_environment_id r') (jr_profile_id j) \<longrightarrow>
       (\<exists>r. find_release d (jr_release_id j) = Some r \<and> (rs_status r = ''APPROVED'' \<or> may_approve d p r)))"
  using assms(1)
proof cases
  case (queued j1 r)
  then have j1: "j1 = j" using assms(2,3) by auto
  have row: "content r' = content r"
    using queued(7) [of "jr_release_id j"] queued(4) r' by (simp add: j1 row_queued_def)
  have "verified_source d r' j" if "verified_source d r j"
    using that row by (auto simp: verified_source_def content_def split: option.splits)
  moreover have "own_content d' r' j" if "own_content d r j"
    using that row stored_artifact_eq [OF queued(3)] by (simp add: own_content_def content_def)
  ultimately show ?thesis using queued row by (simp add: j1 job_allowed_def content_def)
next
  case (quick_queued j1 r)
  then have j1: "j1 = j" using assms(2,3) by auto
  then show ?thesis using quick_queued r' by auto
qed (use assms in auto)


lemma other_artifacts_same:
  assumes "other_artifacts k d d'" "k \<noteq> i"
  shows "filter (\<lambda>a. ra_release_id a = i) (c_artifacts d') = filter (\<lambda>a. ra_release_id a = i) (c_artifacts d)"
proof -
  have "filter (\<lambda>a. ra_release_id a = i) as = filter (\<lambda>a. ra_release_id a = i) (filter (\<lambda>a. ra_release_id a \<noteq> k) as)" for as :: "artifact list"
    using assms(2) by (induction as) auto
  then show ?thesis using assms(1) unfolding other_artifacts_def by metis
qed

subsection \<open>A concrete workflow\<close>

text \<open>
  One application with a protected environment, a ready profile and one runner. Alice creates a release,
  uploads its artifact and submits it; Bob approves it; Alice queues it.
\<close>

definition demo_uuid :: "char \<Rightarrow> string" where
  "demo_uuid c = ''00000000-0000-0000-0000-00000000000'' @ [c]"

definition demo_alice :: principal where
  "demo_alice = \<lparr>p_UserID = ''alice'', p_Permissions = [], p_Scopes = [], p_ViaAPIKey = False\<rparr>"

definition demo_bob :: principal where
  "demo_bob = demo_alice\<lparr>p_UserID := ''bob''\<rparr>"

definition demo_verdict :: verdict where
  "demo_verdict = \<lparr>v_statement = True, v_lock = True, v_commit = True\<rparr>"

definition demo_control :: control where
  "demo_control =
     \<lparr>c_releases = [], c_jobs = [], c_artifacts = [],
      c_applications = [\<lparr>ap_id = demo_uuid (CHR ''a''), ap_code = ''shop'', ap_active = True\<rparr>],
      c_environments = [\<lparr>en_id = demo_uuid (CHR ''e''), en_application_id = demo_uuid (CHR ''a''), en_code = ''PROD'',
        en_protected = True, en_active = True\<rparr>],
      c_profiles = [\<lparr>df_id = ''p'', df_application_id = demo_uuid (CHR ''a''), df_environment_id = demo_uuid (CHR ''e''),
        df_active = True, df_enabled = True, df_revoked_at = None, df_approval_required = False,
        df_runtime_kind = ''docker'', df_runtime_binary_path = ''/d'', df_registry_url = ''u'', df_registry_host = ''h'',
        df_registry_project = ''j'', df_registry_credential_id = Some ''c'', df_target_credential_id = None,
        df_runner_labels = []\<rparr>],
      c_profile_scripts = [(''p'', ''DEPLOY'', ''s'')],
      c_scripts = [\<lparr>sc_id = ''s'', sc_script_type = ''DEPLOY'', sc_active = True, sc_approved_at = Some 1, sc_revoked_at = None\<rparr>],
      c_credentials = [\<lparr>rc_id = ''c'', rc_version = 1, rc_ciphertext = [], rc_active = True, rc_approved_at = Some 1,
        rc_revoked_at = None\<rparr>],
      c_target_credentials = [],
      c_runners = [\<lparr>rn_id = ''u'', rn_worker_id = ''w'', rn_name = ''w'', rn_address = [], rn_labels = [],
        rn_max_concurrent_jobs = 1, rn_active = True, rn_managed_by_runner = True, rn_last_heartbeat_at = Some 0,
        rn_updated_at = None\<rparr>],
      c_heads = [], c_presets = [],
      c_settings = \<lparr>as_approval_enabled = True, as_allowSelfApproval = Some False, as_requireRejectComment = None,
        as_protectedEnvironments = None, as_artifact_max_bytes = 1000\<rparr>\<rparr>"

abbreviation demo_request :: "principal \<Rightarrow> workflow_request \<Rightarrow> control \<Rightarrow> control" where
  "demo_request p q d \<equiv> fst (workflow_handle (\<lambda>s. s) demo_verdict 0 p ''job1'' q d)"

definition demo_uploaded :: control where
  "demo_uploaded =
     demo_request demo_alice (UploadArtifactReq (demo_uuid (CHR ''1'')) (demo_uuid (CHR ''2'')) ''a.tar'' (Inr (10, ''digest'')))
       (demo_request demo_alice (CreateReleaseReq (demo_uuid (CHR ''1''))
         \<lparr>in_ApplicationID = demo_uuid (CHR ''a''), in_EnvironmentID = demo_uuid (CHR ''e''), in_ProfileID = ''p'',
          in_Version = ''1.0'', in_Notes = []\<rparr>) demo_control)"

definition demo_reviewed :: control where
  "demo_reviewed = demo_request demo_alice (EnqueueReq False (demo_uuid (CHR ''1''))) demo_uploaded"

definition demo_approved :: control where
  "demo_approved = demo_request demo_bob (DecisionReq Approve [] (demo_uuid (CHR ''1''))) demo_reviewed"

definition demo_deployed :: control where
  "demo_deployed = demo_request demo_alice (EnqueueReq False (demo_uuid (CHR ''1''))) demo_approved"

lemma demo_reachable:
  "workflow_reachable (\<lambda>s. s) demo_uploaded" "workflow_reachable (\<lambda>s. s) demo_reviewed"
  "workflow_reachable (\<lambda>s. s) demo_approved" "workflow_reachable (\<lambda>s. s) demo_deployed"
proof -
  have "workflow_reachable (\<lambda>s. s) demo_control"
    by (rule workflow_reachable.initial) (simp_all add: demo_control_def four_eyes_def)
  then show 1: "workflow_reachable (\<lambda>s. s) demo_uploaded"
    unfolding demo_uploaded_def by (intro workflow_reachable.request)
  show 2: "workflow_reachable (\<lambda>s. s) demo_reviewed"
    unfolding demo_reviewed_def by (intro workflow_reachable.request 1)
  show 3: "workflow_reachable (\<lambda>s. s) demo_approved"
    unfolding demo_approved_def by (intro workflow_reachable.request 2)
  show "workflow_reachable (\<lambda>s. s) demo_deployed"
    unfolding demo_deployed_def by (intro workflow_reachable.request 3)
qed

lemma demo_uuid_simps [simp]: "demo_uuid a = demo_uuid b \<longleftrightarrow> a = b" "demo_uuid a \<noteq> []"
  by (simp_all add: demo_uuid_def)

lemma demo_uuid_valid [simp]:
  "validUUID (demo_uuid (CHR ''a''))" "validUUID (demo_uuid (CHR ''e''))" "validUUID (demo_uuid (CHR ''1''))" "validUUID (demo_uuid (CHR ''2''))"
  by code_simp+

definition demo_artifact :: artifact where
  "demo_artifact = \<lparr>ra_id = demo_uuid (CHR ''2''), ra_release_id = demo_uuid (CHR ''1''),
     ra_storage_path = demo_uuid (CHR ''1'') @ ''/'' @ demo_uuid (CHR ''2'') @ ''.tar'', ra_size_bytes = 10, ra_sha256 = ''digest'', ra_created_at = 0\<rparr>"

definition demo_row :: release_entry where
  "demo_row = new_release demo_alice (demo_uuid (CHR ''1''))
     \<lparr>in_ApplicationID = demo_uuid (CHR ''a''), in_EnvironmentID = demo_uuid (CHR ''e''), in_ProfileID = ''p'',
      in_Version = ''1.0'', in_Notes = []\<rparr>"

lemma demo_strings: "trim_space ''1.0'' = ''1.0''" "safeArtifactName ''a.tar''" "\<not> has_suffix (to_lower ''a.tar'') ''.tar.gz''"
  "contains_any ''1.0'' [CHR 0x00, CHR 0x0D, CHR 0x0A, CHR ''/'', CHR 0x5C] = False"
  by code_simp+

lemma demo_created:
  "demo_request demo_alice (CreateReleaseReq (demo_uuid (CHR ''1''))
         \<lparr>in_ApplicationID = demo_uuid (CHR ''a''), in_EnvironmentID = demo_uuid (CHR ''e''), in_ProfileID = ''p'',
          in_Version = ''1.0'', in_Notes = []\<rparr>) demo_control = demo_control\<lparr>c_releases := [demo_row]\<rparr>"
  by (simp add: createRelease_def validateReleaseInput_def guard_def demo_strings insertRelease_def insert_release_def
      demo_control_def demo_verdict_def demo_row_def)

lemmas demo_tables = find_release_def find_application_def find_environment_def find_profile_def find_head_def release_join_def
  stored_artifact_def set_where_def set_release_def demo_control_def demo_verdict_def demo_row_def new_release_def demo_artifact_def
  demo_alice_def demo_bob_def Let_def

lemmas demo_checks = profile_matches_def target_active_def deploymentDependenciesReady_def has_prefix_def approval_required_def

lemma demo_uploaded_eq:
  "demo_uploaded = demo_control\<lparr>c_releases := [demo_row\<lparr>rs_status := ''UPLOADED''\<rparr>], c_artifacts := [demo_artifact]\<rparr>"
  unfolding demo_uploaded_def demo_created
  by (simp add: demo_tables uploadArtifact_def demo_strings persistArtifactTx_def editable_def artifactRelativePath_def)

lemma demo_reviewed_eq:
  "demo_reviewed = demo_control\<lparr>c_releases := [demo_row\<lparr>rs_status := ''PENDING_REVIEW''\<rparr>], c_artifacts := [demo_artifact]\<rparr>"
  unfolding demo_reviewed_def demo_uploaded_eq
  by (simp add: demo_tables demo_checks enqueueRelease_def submit_review_def)

lemma demo_approved_eq:
  "demo_approved = demo_control\<lparr>c_releases := [demo_row\<lparr>rs_status := ''APPROVED'', rs_approved_by := Some ''bob''\<rparr>], c_artifacts := [demo_artifact]\<rparr>"
  unfolding demo_approved_def demo_reviewed_eq
  by (simp add: demo_tables demo_checks decision_def approve_checks_def requester_def coalesce_def decide_row_def)

definition demo_new_job :: queued_job where
  "demo_new_job = new_job 0 ''job1'' demo_row ''p'' ''shop'' ''1.0'' ''PROD'' (to_lower (demo_uuid (CHR ''a'')) @ '':'' @ to_lower (demo_uuid (CHR ''e'')))
     demo_artifact OperationDeploy None None None (None, None) [] ''alice''"

lemmas demo_queueing = enqueueRelease_def enqueue_job_def releaseCanQueue_def matchingRunnerAvailable_def runner_fresh_def
  releaseTargetLockKey_def lockReleaseTargetForJob_def loadTargetCredentialSnapshot_def insert_accepted_def insert_job_def new_job_def
  demo_new_job_def

lemma demo_deployed_eq:
  "demo_deployed = demo_control\<lparr>c_releases := [demo_row\<lparr>rs_status := ''QUEUED'', rs_approved_by := Some ''bob''\<rparr>], c_artifacts := [demo_artifact],
     c_jobs := [demo_new_job]\<rparr>"
  unfolding demo_deployed_def demo_approved_eq
  by (simp add: demo_tables demo_checks demo_queueing demo_strings)

text \<open>The job fails; approval is switched off; Alice retries it.\<close>

definition demo_failed :: control where
  "demo_failed = job_progress ''job1'' (\<lambda>j. j\<lparr>jr_status := StatusFailed\<rparr>) [] demo_deployed"

definition demo_open :: control where
  "demo_open = demo_failed\<lparr>c_settings := (c_settings demo_failed)\<lparr>as_approval_enabled := False\<rparr>\<rparr>"

definition demo_retried :: control where
  "demo_retried = fst (workflow_handle (\<lambda>s. s) demo_verdict 1 demo_alice ''job2'' (EnqueueReq True (demo_uuid (CHR ''1''))) demo_open)"

lemma demo_retried_reachable: "workflow_reachable (\<lambda>s. s) demo_retried"
proof -
  have 1: "workflow_reachable (\<lambda>s. s) demo_failed"
    unfolding demo_failed_def by (intro workflow_reachable.progress demo_reachable) (simp add: keeps_target_def)
  have "four_eyes demo_open"
    by (simp add: four_eyes_def demo_open_def demo_failed_def job_progress_def demo_deployed_eq find_job_def demo_tables split: option.split)
  then have "workflow_reachable (\<lambda>s. s) demo_open"
    by (intro workflow_reachable.configure [OF 1]) (simp_all add: demo_open_def)
  then show ?thesis unfolding demo_retried_def by (rule workflow_reachable.request)
qed

lemma demo_open_eq:
  "demo_open = demo_control\<lparr>c_releases := [demo_row\<lparr>rs_status := ''FAILED'', rs_approved_by := Some ''bob''\<rparr>], c_artifacts := [demo_artifact],
     c_jobs := [demo_new_job\<lparr>jr_status := StatusFailed\<rparr>], c_settings := (c_settings demo_control)\<lparr>as_approval_enabled := False\<rparr>\<rparr>"
  by (simp add: demo_open_def demo_failed_def job_progress_def demo_deployed_eq demo_new_job_def new_job_def find_job_def job_active_def demo_tables)

lemma demo_retried_jobs:
  "map jr_id (c_jobs demo_retried) = [''job1'', ''job2'']" "map job_active (c_jobs demo_retried) = [False, True]"
  unfolding demo_retried_def demo_open_eq
  by (simp_all add: demo_tables demo_checks demo_queueing demo_strings latestFailedDeployJob_def latest_target_job_def job_active_def is_ok_def)

subsection \<open>Second person\<close>



subsection \<open>Review\<close>

text \<open>
  C10 (review_freezes_the_release): while a release waits for review, is under review or is approved, no request changes its
  identity, target, profile, version or artifacts: what is deployed is what was reviewed.
\<close>

theorem review_freezes_the_release:
  assumes "find_release d i = Some r" "rs_status r \<in> {''PENDING_REVIEW'', ''UNDER_REVIEW'', ''APPROVED''}"
    "d' = fst (workflow_handle up v now p jobID q d)"
  shows "\<exists>r'. find_release d' i = Some r' \<and>
    (rs_application_id r', rs_environment_id r', rs_profile_id r', rs_version r') =
      (rs_application_id r, rs_environment_id r, rs_profile_id r, rs_version r) \<and>
    filter (\<lambda>a. ra_release_id a = i) (c_artifacts d') = filter (\<lambda>a. ra_release_id a = i) (c_artifacts d)"
proof -
  have closed: "\<not> editable (rs_status r)" using assms(2) by (auto simp: editable_def)
  have effect: "workflow_effect (\<exists>i. q = DeleteReleaseReq i) up p d d'" unfolding assms(3) by (rule workflow_handle_effect)
  from effect have "(\<exists>r'. find_release d' i = Some r' \<and> content r' = content r) \<and>
    (c_artifacts d' = c_artifacts d \<or> (\<exists>k. k \<noteq> i \<and> other_artifacts k d d'))"
  proof cases
    case changed
    have "\<exists>r'. find_release d' i = Some r' \<and> content r' = content r"
      using changed(4) [of i] assms(1) closed by (cases "find_release d' i") (auto simp: row_step_def)
    then show ?thesis using changed(3) assms(1) closed by (metis option.inject)
  next
    case (queued j r1)
    then show ?thesis using queued(7) [of i] assms(1) by (cases "find_release d' i") (auto simp: row_queued_def)
  next
    case (created r1)
    then have "rs_id r1 \<noteq> i" using assms(1) by auto
    then show ?thesis using created assms(1) by auto
  next
    case (deleted k r1)
    then have "k \<noteq> i" using assms(1) closed by auto
    then show ?thesis using deleted assms(1) by auto
  next
    case (quick_queued j r1)
    then have "rs_id r1 \<noteq> i" using assms(1) by auto
    then show ?thesis using quick_queued assms(1) by auto
  qed (use assms(1) in auto)
  moreover have "filter (\<lambda>a. ra_release_id a = i) (c_artifacts d') = filter (\<lambda>a. ra_release_id a = i) (c_artifacts d)"
    if "other_artifacts k d d'" "k \<noteq> i" for k
    using that other_artifacts_same by blast
  ultimately show ?thesis by (auto simp: content_def)
qed

theorem review_freezes_the_release_witness:
  "\<exists>r'. find_release demo_deployed (demo_uuid (CHR ''1'')) = Some r' \<and>
    (rs_application_id r', rs_environment_id r', rs_profile_id r', rs_version r') =
      (demo_uuid (CHR ''a''), demo_uuid (CHR ''e''), ''p'', ''1.0'') \<and>
    filter (\<lambda>a. ra_release_id a = demo_uuid (CHR ''1'')) (c_artifacts demo_deployed) = [demo_artifact]"
proof -
  let ?r = "demo_row\<lparr>rs_status := ''APPROVED'', rs_approved_by := Some ''bob''\<rparr>"
  have "find_release demo_approved (demo_uuid (CHR ''1'')) = Some ?r" by (simp add: demo_approved_eq demo_tables)
  from review_freezes_the_release [OF this _ demo_deployed_def]
  show ?thesis by (simp add: demo_approved_eq demo_strings demo_row_def new_release_def demo_artifact_def)
qed

subsection \<open>One active job per target\<close>

definition active_keys :: "control \<Rightarrow> string list" where
  "active_keys d = map (\<lambda>j. to_lower (jr_lock_key j)) (filter job_active (c_jobs d))"

definition queue_ok :: "control \<Rightarrow> bool" where
  "queue_ok d \<longleftrightarrow> distinct (active_keys d) \<and> distinct (map jr_id (c_jobs d))"

lemma queue_ok_append: "queue_ok d \<Longrightarrow> job_new d j \<Longrightarrow> c_jobs d' = c_jobs d @ [j] \<Longrightarrow> queue_ok d'"
  by (auto simp: queue_ok_def active_keys_def job_new_def)

lemma queue_ok_filter: "queue_ok d \<Longrightarrow> c_jobs d' = filter P (c_jobs d) \<Longrightarrow> queue_ok d'"
  by (simp add: queue_ok_def active_keys_def distinct_map_filter filter_filter conj_commute [of "P _"])
    (simp flip: filter_filter add: distinct_map_filter)

lemma active_progress:
  assumes "keeps_target f" "distinct (map (\<lambda>j. to_lower (jr_lock_key j)) (filter job_active js))"
  shows "distinct (map (\<lambda>j. to_lower (jr_lock_key j)) (filter job_active (map (\<lambda>x. if jr_id x = i \<and> job_active x then f x else x) js)))"
  using assms(2)
proof (induction js)
  case (Cons x xs)
  have "(\<lambda>j. to_lower (jr_lock_key j)) ` set (filter job_active (map (\<lambda>x. if jr_id x = i \<and> job_active x then f x else x) xs)) \<subseteq>
      (\<lambda>j. to_lower (jr_lock_key j)) ` set (filter job_active xs)"
    using assms(1) by (auto simp: keeps_target_def)
  then show ?case using Cons assms(1) by (auto simp: keeps_target_def split: if_splits)
qed simp

lemma ids_progress:
  assumes "keeps_target f"
  shows "map jr_id (map (\<lambda>x. if jr_id x = i \<and> job_active x then f x else x) js) = map jr_id js"
  using assms by (induction js) (auto simp: keeps_target_def)

lemma progress_jobs:
  "c_jobs (job_progress i f heads d) = c_jobs d \<or>
   c_jobs (job_progress i f heads d) = map (\<lambda>x. if jr_id x = i \<and> job_active x then f x else x) (c_jobs d)"
  by (simp add: job_progress_def split: option.split)

interpretation queue: workflow_invariant queue_ok
proof
  fix dels up p d d' assume e: "workflow_effect dels up p d d'" and ok: "queue_ok d"
  from e show "queue_ok d'"
    by cases (use ok queue_ok_append queue_ok_filter in \<open>auto simp: queue_ok_def active_keys_def\<close>)
next
  fix d f i heads assume "queue_ok d" "keeps_target f"
  then show "queue_ok (job_progress i f heads d)"
    using progress_jobs [of i f heads d] active_progress [of f "c_jobs d" i] ids_progress [of f i "c_jobs d"]
    by (auto simp only: queue_ok_def active_keys_def)
qed (simp_all add: queue_ok_def active_keys_def)



subsection \<open>What a job carries\<close>

text \<open>
  C21 (jobs_are_traceable): the job that a request puts in the queue is the last of the queue, fresh and unclaimed. A deployment
  carries the profile and version of its release and the path and digest of its stored artifact; a
  rollback carries those of a release of the same target, and names a successful deployment of it.
\<close>

theorem jobs_are_traceable:
  assumes "d' = fst (workflow_handle up v now p jobID q d)" "j \<in> set (c_jobs d')" "j \<notin> set (c_jobs d)"
    "find_release d' (jr_release_id j) = Some r"
  shows "c_jobs d' = c_jobs d @ [j] \<and> jr_status j = StatusQueued \<and> jr_locked_by j = None \<and>
    (if jr_operation j = OperationRollback
     then \<exists>s b src basis art. jr_rollback_source_release_id j = Some s \<and> jr_rollback_source_job_id j = Some b \<and>
        find_release d s = Some src \<and> find_job d b = Some basis \<and> stored_artifact d s = Some art \<and>
        jr_release_id basis = s \<and> jr_operation basis = OperationDeploy \<and> jr_status basis = StatusSuccess \<and>
        rs_application_id src = rs_application_id r \<and> rs_environment_id src = rs_environment_id r \<and>
        (jr_profile_id j, jr_version j, jr_artifact_path j, jr_expected_sha256 j) =
          (rs_profile_id src, rs_version src, ra_storage_path art, ra_sha256 art)
     else \<exists>art. stored_artifact d' (rs_id r) = Some art \<and>
        (jr_profile_id j, jr_version j, jr_artifact_path j, jr_expected_sha256 j) =
          (rs_profile_id r, rs_version r, ra_storage_path art, ra_sha256 art))"
proof -
  have effect: "workflow_effect (\<exists>i. q = DeleteReleaseReq i) up p d d'" unfolding assms(1) by (rule workflow_handle_effect)
  from effect_new_job [OF effect assms(2-4)]
  have e: "c_jobs d' = c_jobs d @ [j]" "job_new d j"
    "if jr_operation j = OperationRollback then verified_source d r j else own_content d' r j" by blast+
  show ?thesis
  proof (cases "jr_operation j = OperationRollback")
    case True
    with e show ?thesis by (simp add: job_new_def verified_source_def split: option.splits)
  next
    case False
    with e show ?thesis by (simp add: job_new_def own_content_def split: option.splits)
  qed
qed

theorem jobs_are_traceable_witness:
  "jr_version demo_new_job = ''1.0'' \<and> jr_artifact_path demo_new_job = ra_storage_path demo_artifact \<and> jr_locked_by demo_new_job = None"
proof -
  let ?r = "demo_row\<lparr>rs_status := ''QUEUED'', rs_approved_by := Some ''bob''\<rparr>"
  have "demo_new_job \<in> set (c_jobs demo_deployed)" "demo_new_job \<notin> set (c_jobs demo_approved)"
    by (simp_all add: demo_deployed_eq demo_approved_eq demo_control_def)
  moreover have "find_release demo_deployed (jr_release_id demo_new_job) = Some ?r"
    by (simp add: demo_deployed_eq demo_new_job_def demo_tables)
  moreover have "stored_artifact demo_deployed (rs_id ?r) = Some demo_artifact" "jr_operation demo_new_job = OperationDeploy"
    by (simp_all add: demo_deployed_eq demo_tables demo_new_job_def)
  moreover have "rs_version ?r = ''1.0''" by (simp add: demo_row_def new_release_def demo_strings)
  ultimately show ?thesis using jobs_are_traceable [OF demo_deployed_def, of demo_new_job ?r] by simp
qed

subsection \<open>The queue the runner sees\<close>

text \<open>The tables of the runner's store that show the queue of the control plane.\<close>

definition shows_queue :: "control \<Rightarrow> db \<Rightarrow> bool" where
  "shows_queue d s \<longleftrightarrow> release_jobs s = map job_row.truncate (c_jobs d)"

definition same_records :: "db \<Rightarrow> db \<Rightarrow> bool" where
  "same_records s s' \<longleftrightarrow> release_locks s' = release_locks s \<and> release_job_steps s' = release_job_steps s \<and>
     release_job_logs s' = release_job_logs s \<and> release_images s' = release_images s"

lemma truncate_fields [simp]:
  "jr_id (job_row.truncate j) = jr_id j" "jr_status (job_row.truncate j) = jr_status j"
  "jr_locked_by (job_row.truncate j) = jr_locked_by j"
  by (simp_all add: job_row.truncate_def)



subsection \<open>Versions of changed releases\<close>

text \<open>
  A version that \<open>createRelease\<close> refuses can be set by \<open>updateRelease\<close>, which only checks that it is not
  blank.
\<close>

lemma update_skips_the_version_check:
  "validateReleaseInput \<lparr>in_ApplicationID = ''a'', in_EnvironmentID = ''e'', in_ProfileID = ''p'', in_Version = ''../1'', in_Notes = []\<rparr> \<noteq> None \<and>
   (let (d', rep) = updateRelease demo_verdict (demo_uuid (CHR ''1'')) ''../1'' [] ''p'' demo_uploaded
    in rep = Reply 200 [] \<and> map rs_version (c_releases d') = [''../1''])"
proof -
  have v: "trim_space ''../1'' = ''../1''" "contains_any ''../1'' [CHR 0x00, CHR 0x0D, CHR 0x0A, CHR ''/'', CHR 0x5C]"
    by code_simp+
  then have "validateReleaseInput \<lparr>in_ApplicationID = ''a'', in_EnvironmentID = ''e'', in_ProfileID = ''p'', in_Version = ''../1'', in_Notes = []\<rparr> \<noteq> None"
    by (simp add: validateReleaseInput_def guard_def)
  moreover have "updateRelease demo_verdict (demo_uuid (CHR ''1'')) ''../1'' [] ''p'' demo_uploaded =
      (set_release (demo_uuid (CHR ''1'')) (\<lambda>r. r\<lparr>rs_version := ''../1'', rs_notes := [], rs_profile_id := ''p''\<rparr>) demo_uploaded, Reply 200 [])"
    by (simp add: updateRelease_def v demo_uploaded_eq demo_tables editable_def)
  ultimately show ?thesis by (simp add: demo_uploaded_eq demo_tables)
qed

end
