(* ===== verification/Simple_Config.thy ===== *)
theory Simple_Config
  imports Localexec Workflow
begin

text \<open>
  The configuration of simple mode: \<open>src/backend/internal/server/simple_config.go\<close> and the handlers of
  \<open>admin_simple.go\<close> that change it. A target is a directory that packages are uploaded to; the
  settings say which command runs after an upload, the one of the target or a shared one, and which
  stages follow it.

  The state is the part of the database these files use, \<open>simple_db\<close>: the settings row, the targets,
  the runs, and of the registries their identifiers and whether they are in use. The constraints of
  the migrations 017, 022 and 024 are the predicates \<open>target_row_allowed\<close> and \<open>settings_allowed\<close>; a statement
  that violates one fails. Apart from that the statements succeed, and requests are handled one after another; identifiers of a
  request are UUIDs. Messages for the user, which the source has in Korean, are given in English. PostgreSQL's \<open>lower\<close> is \<open>to_lower\<close>.
\<close>

subsection \<open>Settings and targets\<close>

definition artifactPlaceholder :: string where "artifactPlaceholder = ''{{artifact}}''"

definition commandModePerTarget :: string where "commandModePerTarget = ''PER_TARGET''"
definition commandModeShared :: string where "commandModeShared = ''SHARED''"

definition stageScopeEach :: string where "stageScopeEach = ''EACH''"
definition stageScopeOnce :: string where "stageScopeOnce = ''ONCE''"

definition stageStatusNone :: string where "stageStatusNone = ''NONE''"
definition stageStatusSkipped :: string where "stageStatusSkipped = ''SKIPPED''"
definition stageStatusSuccess :: string where "stageStatusSuccess = ''SUCCESS''"

lemmas simple_consts = commandModePerTarget_def commandModeShared_def stageScopeEach_def stageScopeOnce_def
  stageStatusNone_def stageStatusSkipped_def stageStatusSuccess_def

definition managedDataRoot :: string where "managedDataRoot = ''/var/lib/releasedock''"

record simpleSettings =
  DefaultUIMode :: string
  CommandMode :: string
  SharedCommandPath :: string
  SharedCommandArgs :: "string list"
  SharedWorkingDir :: string
  SharedTimeoutSeconds :: int
  UploadRoot :: string
  ReplicationEnabled :: bool
  ReplicationRegistry :: string
  ReplicationPolicyID :: int
  ReplicationPolicy :: string
  ReplicationTimeout :: int
  ReplicationScope :: string
  AppDeployEnabled :: bool
  AppDeployScope :: string
  AppDeployPath :: string
  AppDeployArgs :: "string list"
  AppDeployDir :: string
  AppDeployTimeout :: int

record simpleTarget =
  st_ID :: string
  st_Name :: string
  st_Description :: string
  st_UploadDir :: string
  st_CommandPath :: string
  st_CommandArgs :: "string list"
  st_WorkingDir :: string
  st_TimeoutSeconds :: int
  st_MaxUploadBytes :: int
  st_Active :: bool

subsection \<open>Stages\<close>

definition stageRuns :: "string \<Rightarrow> bool \<Rightarrow> bool" where
  "stageRuns scope batchLast \<longleftrightarrow> scope \<noteq> stageScopeOnce \<or> batchLast"

definition appDeployStageRuns :: "string \<Rightarrow> bool \<Rightarrow> string \<Rightarrow> bool" where
  "appDeployStageRuns scope batchLast replicationStatus \<longleftrightarrow>
     (if replicationStatus = stageStatusSkipped then False else stageRuns scope batchLast)"

definition stageHeldForIncompleteUpload :: "string \<Rightarrow> bool \<Rightarrow> bool" where
  "stageHeldForIncompleteUpload scope uploadIncomplete \<longleftrightarrow> scope = stageScopeOnce \<and> uploadIncomplete"

definition outcomeWithHeldStages :: "string \<Rightarrow> string \<Rightarrow> bool \<Rightarrow> string \<times> string" where
  "outcomeWithHeldStages status message held =
     (if \<not> held \<or> status \<noteq> ''SUCCESS'' then (status, message)
      else (''FAILED'', ''the command succeeded, but another package of the upload was not deployed: the stages that run once per upload were not run''))"

definition outcomeWithoutStageSettings :: "string \<Rightarrow> string \<Rightarrow> error option \<Rightarrow> string \<times> string" where
  "outcomeWithoutStageSettings status message err =
     (case err of
        None \<Rightarrow> (status, message)
      | Some e \<Rightarrow>
          if status \<noteq> ''SUCCESS'' then (status, message)
          else (''FAILED'', ''the command succeeded, but the settings of the stages could not be read: '' @ error_text e))"

subsection \<open>Commands\<close>

record resolvedCommand =
  cmd_Source :: string
  cmd_Path :: string
  cmd_Args :: "string list"
  cmd_Dir :: string
  cmd_Timeout :: int

definition seconds :: "int \<Rightarrow> int" where "seconds n = n * 1000000000"

definition resolveCommand :: "simpleSettings \<Rightarrow> simpleTarget \<Rightarrow> resolvedCommand result" where
  "resolveCommand cfg target =
     (if CommandMode cfg = commandModeShared then
        if SharedCommandPath cfg = [] then Inl (Err ''the shared command is not set'')
        else Inr \<lparr>cmd_Source = commandModeShared, cmd_Path = SharedCommandPath cfg, cmd_Args = SharedCommandArgs cfg,
                  cmd_Dir = (if SharedWorkingDir cfg = [] then st_UploadDir target else SharedWorkingDir cfg),
                  cmd_Timeout = seconds (SharedTimeoutSeconds cfg)\<rparr>
      else if st_CommandPath target = [] then Inl (Err ''this target has no command'')
      else Inr \<lparr>cmd_Source = commandModePerTarget, cmd_Path = st_CommandPath target, cmd_Args = st_CommandArgs target,
                cmd_Dir = (if st_WorkingDir target = [] then st_UploadDir target else st_WorkingDir target),
                cmd_Timeout = seconds (if st_TimeoutSeconds target \<le> 0 then 600 else st_TimeoutSeconds target)\<rparr>)"

text \<open>\<open>strings.ReplaceAll\<close> for a text to replace that is not empty, from left to right.\<close>

function replace_all :: "string \<Rightarrow> string \<Rightarrow> string \<Rightarrow> string" where
  "replace_all s old new =
     (if old = [] then s
      else case index_of s old of
        None \<Rightarrow> s
      | Some i \<Rightarrow> take i s @ new @ replace_all (drop (i + length old) s) old new)"
  by pat_completeness auto
termination
proof (relation "measure (\<lambda>(s, old, new). length s)")
  fix s old new :: string and i
  assume old: "old \<noteq> []" and i: "index_of s old = Some i"
  then show "((drop (i + length old) s, old, new), (s, old, new)) \<in> measure (\<lambda>(s, old, new). length s)"
    using index_of_Some_bound [OF i] by (cases old) auto
qed simp

declare replace_all.simps [simp del]

definition expandArgs :: "string list \<Rightarrow> string \<Rightarrow> string list" where
  "expandArgs args artifactPath = map (\<lambda>arg. replace_all arg artifactPlaceholder artifactPath) args"

text \<open>A relative path that leaves the directory it starts from.\<close>

definition leaves_root :: "string \<Rightarrow> bool" where
  "leaves_root relative \<longleftrightarrow> relative = dotdot \<or> has_prefix relative (dotdot @ [slash])"

definition normalizeUploadDir :: "string \<Rightarrow> string \<Rightarrow> string result" where
  "normalizeUploadDir root v =
     (let clean = path_clean (trim_space v) in
      if \<not> is_abs clean \<or> clean = [slash] then Inl (Err ''the upload directory must be an absolute path other than the root'')
      else case path_rel (path_clean root) clean of
        Inl _ \<Rightarrow> Inl (Err (''the upload directory must be below '' @ path_clean root))
      | Inr relative \<Rightarrow>
          if leaves_root relative then Inl (Err (''the upload directory must be below '' @ path_clean root))
          else Inr clean)"

definition normalizeUploadRoot :: "string \<Rightarrow> string result" where
  "normalizeUploadRoot v =
     (let clean = path_clean (trim_space v) in
      if \<not> is_abs clean \<or> clean = [slash] then Inl (Err ''the upload root must be an absolute path other than the root'')
      else case path_rel managedDataRoot clean of
        Inl _ \<Rightarrow> Inl (Err ''the upload root must be below /var/lib/releasedock'')
      | Inr relative \<Rightarrow>
          if relative = dot \<or> leaves_root relative then Inl (Err ''the upload root must be below /var/lib/releasedock'')
          else Inr clean)"

definition ensureUploadDir :: "proc \<Rightarrow> fs \<Rightarrow> string \<Rightarrow> fs \<times> error option" where
  "ensureUploadDir pr fs dir =
     (case os_mkdir_all pr fs dir (octal 7 5 0) of
        (fs', Some e) \<Rightarrow> (fs', Some (Wrap ''cannot create the upload directory'' e))
      | (fs', None) \<Rightarrow>
          (case os_lstat fs' dir of
             Inl e \<Rightarrow> (fs', Some (Wrap ''cannot check the upload directory'' e))
           | Inr info \<Rightarrow>
               (fs', if is_symlink info then Some (Err ''the upload directory must not be a symbolic link'')
                     else guard (\<not> is_dir info) ''the upload directory is not a directory'')))"

definition validateCommandFields :: "fs \<Rightarrow> string \<Rightarrow> string list \<Rightarrow> string \<Rightarrow> int \<Rightarrow> error option" where
  "validateCommandFields fs commandPath args workingDir timeoutSeconds =
     (case ValidateCommandPath fs commandPath of
        Some e \<Rightarrow> Some (Wrap ''command'' e)
      | None \<Rightarrow>
          (case ValidateArgs args of
             Some e \<Rightarrow> Some e
           | None \<Rightarrow>
               if length args > 64 then Some (Err ''a command may not have more than 64 arguments'')
               else case (if workingDir = [] then None else ValidateDir fs workingDir) of
                 Some e \<Rightarrow> Some (Wrap ''working directory'' e)
               | None \<Rightarrow> guard (timeoutSeconds < 1 \<or> timeoutSeconds > 86400) ''the time limit must be between 1 and 86400 seconds''))"

subsection \<open>Tables\<close>

record target_row =
  tr_id :: string
  tr_name :: string
  tr_description :: string
  tr_upload_dir :: string
  tr_command_path :: "string option"
  tr_command_args :: "string list"
  tr_working_dir :: "string option"
  tr_timeout_seconds :: "int option"
  tr_max_upload_bytes :: int
  tr_active :: bool
  tr_revoked :: bool

record simple_run =
  run_id :: string
  run_target_id :: string
  run_actor_id :: string
  run_original_filename :: string
  run_stored_path :: string
  run_size_bytes :: int
  run_sha256 :: string
  run_command_source :: string
  run_command_path :: string
  run_command_args :: "string list"
  run_timeout_seconds :: int
  run_batch_id :: string
  run_batch_last :: bool
  run_status :: string
  run_exit_code :: "int option"
  run_error :: string
  run_replication_status :: string
  run_replication_execution_id :: "int option"
  run_replication_error :: string
  run_app_deploy_status :: string
  run_app_deploy_error :: string

record simple_db =
  sd_settings :: simpleSettings
  sd_targets :: "target_row list"
  sd_runs :: "simple_run list"
  sd_registries :: "(string \<times> bool) list"

text \<open>\<open>NULLIF(v, '')\<close> and \<open>COALESCE(c, v)\<close>.\<close>

definition nullif :: "'a \<Rightarrow> 'a \<Rightarrow> 'a option" where "nullif v none = (if v = none then None else Some v)"
definition coalesce :: "'a option \<Rightarrow> 'a \<Rightarrow> 'a" where "coalesce c v = (case c of None \<Rightarrow> v | Some x \<Rightarrow> x)"

definition listed :: "target_row \<Rightarrow> bool" where "listed t \<longleftrightarrow> tr_active t \<and> \<not> tr_revoked t"

definition scanSimpleTarget :: "target_row \<Rightarrow> simpleTarget" where
  "scanSimpleTarget t = \<lparr>st_ID = tr_id t, st_Name = tr_name t, st_Description = tr_description t,
     st_UploadDir = tr_upload_dir t, st_CommandPath = coalesce (tr_command_path t) [],
     st_CommandArgs = tr_command_args t, st_WorkingDir = coalesce (tr_working_dir t) [],
     st_TimeoutSeconds = coalesce (tr_timeout_seconds t) 0, st_MaxUploadBytes = tr_max_upload_bytes t,
     st_Active = listed t\<rparr>"

definition in_flight :: "simple_run \<Rightarrow> bool" where
  "in_flight r \<longleftrightarrow> run_status r = ''PENDING'' \<or> run_status r = ''RUNNING''"

text \<open>The checks of a row, and the two unique indexes against the rows that stay.\<close>

definition btrim_lower :: "string \<Rightarrow> string" where "btrim_lower s = to_lower (trim_cut s '' '')"

definition target_row_allowed :: "target_row list \<Rightarrow> target_row \<Rightarrow> bool" where
  "target_row_allowed others t \<longleftrightarrow>
     trim_cut (tr_name t) '' '' \<noteq> [] \<and> length (utf8_runes (trim_cut (tr_name t) '' '')) \<le> 200 \<and>
     is_abs (tr_upload_dir t) \<and>
     (case tr_command_path t of None \<Rightarrow> True | Some p \<Rightarrow> is_abs p) \<and>
     (case tr_working_dir t of None \<Rightarrow> True | Some p \<Rightarrow> is_abs p) \<and>
     (case tr_timeout_seconds t of None \<Rightarrow> True | Some n \<Rightarrow> 1 \<le> n \<and> n \<le> 86400) \<and>
     tr_max_upload_bytes t > 0 \<and>
     (tr_revoked t \<or> list_all (\<lambda>u. tr_revoked u \<or> btrim_lower (tr_name u) \<noteq> btrim_lower (tr_name t) \<and>
                                   tr_upload_dir u \<noteq> tr_upload_dir t) others)"

definition settings_allowed :: "(string \<times> bool) list \<Rightarrow> simpleSettings \<Rightarrow> bool" where
  "settings_allowed registries cfg \<longleftrightarrow>
     DefaultUIMode cfg \<in> {''simple'', ''full''} \<and> CommandMode cfg \<in> {commandModePerTarget, commandModeShared} \<and>
     1 \<le> SharedTimeoutSeconds cfg \<and> SharedTimeoutSeconds cfg \<le> 86400 \<and> is_abs (UploadRoot cfg) \<and>
     (CommandMode cfg = commandModeShared \<longrightarrow> is_abs (SharedCommandPath cfg)) \<and>
     (ReplicationRegistry cfg \<noteq> [] \<longrightarrow> ReplicationRegistry cfg \<in> set (map fst registries)) \<and>
     1 \<le> ReplicationTimeout cfg \<and> ReplicationTimeout cfg \<le> 86400 \<and>
     (ReplicationEnabled cfg \<longrightarrow> ReplicationRegistry cfg \<noteq> [] \<and> ReplicationPolicyID cfg \<noteq> 0) \<and>
     ReplicationScope cfg \<in> {stageScopeEach, stageScopeOnce} \<and> AppDeployScope cfg \<in> {stageScopeEach, stageScopeOnce} \<and>
     1 \<le> AppDeployTimeout cfg \<and> AppDeployTimeout cfg \<le> 86400 \<and>
     (AppDeployEnabled cfg \<longrightarrow> is_abs (AppDeployPath cfg))"

definition initial_settings :: simpleSettings where
  "initial_settings = \<lparr>DefaultUIMode = ''full'', CommandMode = commandModePerTarget, SharedCommandPath = [],
     SharedCommandArgs = [], SharedWorkingDir = [], SharedTimeoutSeconds = 600,
     UploadRoot = ''/var/lib/releasedock/simple'', ReplicationEnabled = False, ReplicationRegistry = [],
     ReplicationPolicyID = 0, ReplicationPolicy = [], ReplicationTimeout = 900, ReplicationScope = stageScopeOnce,
     AppDeployEnabled = False, AppDeployScope = stageScopeOnce, AppDeployPath = [], AppDeployArgs = [],
     AppDeployDir = [], AppDeployTimeout = 600\<rparr>"

subsection \<open>Administration of targets\<close>

record simpleTargetInput =
  ti_Name :: string
  ti_Description :: string
  ti_UploadDir :: string
  ti_CommandPath :: string
  ti_CommandArgs :: string
  ti_WorkingDir :: string
  ti_TimeoutSeconds :: "int option"
  ti_MaxUploadBytes :: "int option"
  ti_Active :: "bool option"

definition splitCommandArgs :: "string \<Rightarrow> string list" where
  "splitCommandArgs raw =
     filter (\<lambda>line. trim_space line \<noteq> []) (map (\<lambda>line. trim_right_cut line [CHR 0x0D]) (split_char (CHR 0x0A) raw))"

definition joinCommandArgs :: "string list \<Rightarrow> string" where
  "joinCommandArgs args = join_with [CHR 0x0A] args"

definition normalizeSimpleTarget ::
  "proc \<Rightarrow> fs \<Rightarrow> simpleSettings \<Rightarrow> simpleTargetInput \<Rightarrow> fs \<times> simpleTarget result" where
  "normalizeSimpleTarget pr fs cfg input =
     (let name = trim_space (ti_Name input);
          description = trim_space (ti_Description input);
          commandPath = trim_space (ti_CommandPath input);
          workingDir = trim_space (ti_WorkingDir input);
          args = splitCommandArgs (ti_CommandArgs input);
          timeout = coalesce (ti_TimeoutSeconds input) 600;
          maxBytes = coalesce (ti_MaxUploadBytes input) (10 * 2 ^ 30);
          active = coalesce (ti_Active input) True
      in if name = [] \<or> length name > 200 then (fs, Inl (Err ''the name must have 1 to 200 characters''))
         else if length description > 1000 then (fs, Inl (Err ''the description may not exceed 1000 characters''))
         else case normalizeUploadDir (UploadRoot cfg) (ti_UploadDir input) of
           Inl e \<Rightarrow> (fs, Inl e)
         | Inr dir \<Rightarrow>
             if maxBytes < 2 ^ 20 \<or> maxBytes > 2 ^ 40
             then (fs, Inl (Err ''the upload limit must be between 1 MiB and 1 TiB''))
             else case (if commandPath \<noteq> [] then validateCommandFields fs commandPath args workingDir timeout
                        else guard (CommandMode cfg = commandModePerTarget \<and> active)
                               ''an active target needs a command in PER_TARGET mode'') of
               Some e \<Rightarrow> (fs, Inl e)
             | None \<Rightarrow>
                 (case ensureUploadDir pr fs dir of
                    (fs', Some e) \<Rightarrow> (fs', Inl e)
                  | (fs', None) \<Rightarrow>
                      (fs', Inr \<lparr>st_ID = [], st_Name = name, st_Description = description, st_UploadDir = dir,
                                 st_CommandPath = commandPath, st_CommandArgs = args, st_WorkingDir = workingDir,
                                 st_TimeoutSeconds = timeout, st_MaxUploadBytes = maxBytes, st_Active = active\<rparr>)))"

text \<open>The row that \<open>INSERT\<close> and \<open>UPDATE\<close> store for a normalized target.\<close>

definition target_columns :: "string \<Rightarrow> simpleTarget \<Rightarrow> target_row" where
  "target_columns i t = \<lparr>tr_id = i, tr_name = st_Name t, tr_description = st_Description t, tr_upload_dir = st_UploadDir t,
     tr_command_path = nullif (st_CommandPath t) [], tr_command_args = st_CommandArgs t,
     tr_working_dir = nullif (st_WorkingDir t) [], tr_timeout_seconds = Some (st_TimeoutSeconds t),
     tr_max_upload_bytes = st_MaxUploadBytes t, tr_active = st_Active t, tr_revoked = False\<rparr>"

definition createSimpleTarget ::
  "proc \<Rightarrow> string result \<Rightarrow> simpleTargetInput \<Rightarrow> fs \<times> simple_db \<Rightarrow> (fs \<times> simple_db) \<times> reply" where
  "createSimpleTarget pr newID input = (\<lambda>(fs, d).
     case normalizeSimpleTarget pr fs (sd_settings d) input of
       (fs', Inl _) \<Rightarrow> ((fs', d), Reply 400 ''invalid_simple_target'')
     | (fs', Inr target) \<Rightarrow>
         (case newID of
            Inl _ \<Rightarrow> ((fs', d), Reply 500 ''id_error'')
          | Inr i \<Rightarrow>
              let row = target_columns i target
              in if i \<in> set (map tr_id (sd_targets d)) \<or> \<not> target_row_allowed (sd_targets d) row
                 then ((fs', d), Reply 409 ''simple_target_conflict'')
                 else ((fs', d\<lparr>sd_targets := sd_targets d @ [row]\<rparr>), Reply 201 [])))"

definition updateSimpleTarget ::
  "proc \<Rightarrow> string \<Rightarrow> simpleTargetInput \<Rightarrow> fs \<times> simple_db \<Rightarrow> (fs \<times> simple_db) \<times> reply" where
  "updateSimpleTarget pr i input = (\<lambda>(fs, d).
     case normalizeSimpleTarget pr fs (sd_settings d) input of
       (fs', Inl _) \<Rightarrow> ((fs', d), Reply 400 ''invalid_simple_target'')
     | (fs', Inr target) \<Rightarrow>
         let row = target_columns i target;
             hit = (\<lambda>t. tr_id t = i \<and> \<not> tr_revoked t)
         in if list_ex hit (sd_targets d) \<and> \<not> target_row_allowed (filter (\<lambda>t. \<not> hit t) (sd_targets d)) row
            then ((fs', d), Reply 409 ''simple_target_conflict'')
            else if \<not> list_ex hit (sd_targets d) then ((fs', d), Reply 404 ''not_found'')
            else ((fs', d\<lparr>sd_targets := map (\<lambda>t. if hit t then row else t) (sd_targets d)\<rparr>), Reply 200 []))"

definition revokeSimpleTarget :: "string \<Rightarrow> simple_db \<Rightarrow> simple_db \<times> reply" where
  "revokeSimpleTarget i d =
     (if list_ex (\<lambda>r. run_target_id r = i \<and> in_flight r) (sd_runs d) then (d, Reply 409 ''simple_target_busy'')
      else if \<not> list_ex (\<lambda>t. tr_id t = i \<and> \<not> tr_revoked t) (sd_targets d) then (d, Reply 404 ''not_found'')
      else (d\<lparr>sd_targets := map (\<lambda>t. if tr_id t = i \<and> \<not> tr_revoked t then t\<lparr>tr_active := False, tr_revoked := True\<rparr> else t)
                 (sd_targets d)\<rparr>, Reply 204 []))"

subsection \<open>Administration of the settings\<close>

record simpleSettingsInput =
  si_DefaultUIMode :: "string option"
  si_CommandMode :: "string option"
  si_SharedCommandPath :: "string option"
  si_SharedCommandArgs :: "string option"
  si_SharedWorkingDir :: "string option"
  si_SharedTimeoutSeconds :: "int option"
  si_ReplicationEnabled :: "bool option"
  si_ReplicationRegistry :: "string option"
  si_ReplicationPolicyID :: "int option"
  si_ReplicationPolicy :: "string option"
  si_ReplicationTimeout :: "int option"
  si_ReplicationScope :: "string option"
  si_AppDeployEnabled :: "bool option"
  si_AppDeployScope :: "string option"
  si_AppDeployPath :: "string option"
  si_AppDeployArgs :: "string option"
  si_AppDeployDir :: "string option"
  si_AppDeployTimeout :: "int option"
  si_UploadRoot :: "string option"

definition normalizeStageScope :: "string \<Rightarrow> string result" where
  "normalizeStageScope v =
     (let scope = to_upper (trim_space v)
      in if scope \<noteq> stageScopeEach \<and> scope \<noteq> stageScopeOnce then Inl (Err ''the scope must be EACH or ONCE'') else Inr scope)"

text \<open>A field that is checked when it is given and kept when it is not.\<close>

definition given :: "'b option \<Rightarrow> 'a \<Rightarrow> ('b \<Rightarrow> 'a result) \<Rightarrow> 'a result" where
  "given field old f = (case field of None \<Rightarrow> Inr old | Some v \<Rightarrow> f v)"

definition normalize_ui_mode :: "string \<Rightarrow> string result" where
  "normalize_ui_mode v =
     (let mode = to_lower (trim_space v)
      in if mode \<noteq> ''simple'' \<and> mode \<noteq> ''full'' then Inl (Err ''the mode must be simple or full'') else Inr mode)"

definition normalize_command_mode :: "string \<Rightarrow> string result" where
  "normalize_command_mode v =
     (let mode = to_upper (trim_space v)
      in if mode \<noteq> commandModePerTarget \<and> mode \<noteq> commandModeShared
         then Inl (Err ''the command mode must be PER_TARGET or SHARED'') else Inr mode)"

text \<open>The settings with the given fields, up to the command mode, which is read later.\<close>

definition merge_settings :: "simpleSettingsInput \<Rightarrow> simpleSettings \<Rightarrow> simpleSettings result" where
  "merge_settings input cfg =
     (case given (si_DefaultUIMode input) (DefaultUIMode cfg) normalize_ui_mode of
        Inl e \<Rightarrow> Inl e
      | Inr mode \<Rightarrow>
     (case given (si_UploadRoot input) (UploadRoot cfg) normalizeUploadRoot of
        Inl e \<Rightarrow> Inl e
      | Inr root \<Rightarrow>
     (case given (si_ReplicationScope input) (ReplicationScope cfg) normalizeStageScope of
        Inl e \<Rightarrow> Inl e
      | Inr rscope \<Rightarrow>
     (case given (si_AppDeployScope input) (AppDeployScope cfg) normalizeStageScope of
        Inl e \<Rightarrow> Inl e
      | Inr ascope \<Rightarrow>
          Inr (cfg\<lparr>DefaultUIMode := mode, UploadRoot := root,
            SharedCommandPath := coalesce (map_option trim_space (si_SharedCommandPath input)) (SharedCommandPath cfg),
            SharedCommandArgs := coalesce (map_option splitCommandArgs (si_SharedCommandArgs input)) (SharedCommandArgs cfg),
            SharedWorkingDir := coalesce (map_option trim_space (si_SharedWorkingDir input)) (SharedWorkingDir cfg),
            SharedTimeoutSeconds := coalesce (si_SharedTimeoutSeconds input) (SharedTimeoutSeconds cfg),
            ReplicationEnabled := coalesce (si_ReplicationEnabled input) (ReplicationEnabled cfg),
            ReplicationRegistry := coalesce (map_option trim_space (si_ReplicationRegistry input)) (ReplicationRegistry cfg),
            ReplicationPolicyID := coalesce (si_ReplicationPolicyID input) (ReplicationPolicyID cfg),
            ReplicationPolicy := coalesce (map_option trim_space (si_ReplicationPolicy input)) (ReplicationPolicy cfg),
            ReplicationTimeout := coalesce (si_ReplicationTimeout input) (ReplicationTimeout cfg),
            ReplicationScope := rscope,
            AppDeployEnabled := coalesce (si_AppDeployEnabled input) (AppDeployEnabled cfg),
            AppDeployScope := ascope,
            AppDeployPath := coalesce (map_option trim_space (si_AppDeployPath input)) (AppDeployPath cfg),
            AppDeployArgs := coalesce (map_option splitCommandArgs (si_AppDeployArgs input)) (AppDeployArgs cfg),
            AppDeployDir := coalesce (map_option trim_space (si_AppDeployDir input)) (AppDeployDir cfg),
            AppDeployTimeout := coalesce (si_AppDeployTimeout input) (AppDeployTimeout cfg)\<rparr>)))))"

definition checkCommandModeSwitch :: "target_row list \<Rightarrow> simpleSettings \<Rightarrow> error option" where
  "checkCommandModeSwitch targets cfg =
     (if CommandMode cfg = commandModeShared
      then guard (SharedCommandPath cfg = []) ''SHARED mode needs a shared command''
      else guard (0 < length (filter (\<lambda>t. \<not> tr_revoked t \<and> tr_active t \<and> tr_command_path t = None) targets))
             ''PER_TARGET mode needs a command for every active target'')"

definition putSimpleSettings :: "fs \<Rightarrow> simpleSettingsInput \<Rightarrow> simple_db \<Rightarrow> simple_db \<times> reply" where
  "putSimpleSettings fs input d =
     (case merge_settings input (sd_settings d) of
        Inl _ \<Rightarrow> (d, Reply 400 ''invalid_simple_settings'')
      | Inr cfg \<Rightarrow>
          if ReplicationTimeout cfg < 1 \<or> ReplicationTimeout cfg > 86400 then (d, Reply 400 ''invalid_simple_settings'')
          else if ReplicationEnabled cfg \<and> (ReplicationRegistry cfg = [] \<or> ReplicationPolicyID cfg \<le> 0)
          then (d, Reply 400 ''invalid_simple_settings'')
          else if ReplicationEnabled cfg \<and> \<not> list_ex (\<lambda>(i, usable). i = ReplicationRegistry cfg \<and> usable) (sd_registries d)
          then (d, Reply 400 ''invalid_simple_settings'')
          else if AppDeployPath cfg \<noteq> [] \<and>
                  validateCommandFields fs (AppDeployPath cfg) (AppDeployArgs cfg) (AppDeployDir cfg) (AppDeployTimeout cfg) \<noteq> None
          then (d, Reply 400 ''invalid_app_deploy_command'')
          else if AppDeployPath cfg = [] \<and> AppDeployEnabled cfg then (d, Reply 400 ''invalid_simple_settings'')
          else case given (si_CommandMode input) (CommandMode cfg) normalize_command_mode of
            Inl _ \<Rightarrow> (d, Reply 400 ''invalid_simple_settings'')
          | Inr mode \<Rightarrow>
              let cfg = cfg\<lparr>CommandMode := mode\<rparr>
              in if SharedCommandPath cfg \<noteq> [] \<and>
                    validateCommandFields fs (SharedCommandPath cfg) (SharedCommandArgs cfg) (SharedWorkingDir cfg) (SharedTimeoutSeconds cfg) \<noteq> None
                 then (d, Reply 400 ''invalid_shared_command'')
                 else if checkCommandModeSwitch (sd_targets d) cfg \<noteq> None then (d, Reply 409 ''command_mode_unavailable'')
                 else if \<not> settings_allowed (sd_registries d) cfg then (d, Reply 500 ''database_error'')
                 else (d\<lparr>sd_settings := cfg\<rparr>, Reply 200 []))"

subsection \<open>Where uploads go\<close>

lemma rel_stays_inside:
  assumes r: "path_rel base targ = Inr relative" and inside: "\<not> leaves_root relative" and abs: "is_abs targ"
  shows "is_abs base \<and> prefix (comps base) (comps targ) \<and> (relative = dot \<longleftrightarrow> comps base = comps targ)"
proof (cases "path_clean base = path_clean targ")
  case True
  then show ?thesis using r abs by (simp add: path_rel_def path_clean_eq_iff)
next
  case False
  obtain b t where bt: "strip_common (comps base) (comps targ) = (b, t)" by fastforce
  have a: "is_abs base" using r abs False by (auto simp: path_rel_def split: if_splits)
  with r abs False bt have rel: "relative = join_with [slash] (replicate (length b) dotdot @ t)"
    by (auto simp: path_rel_def rel_elems_def split: if_splits)
  have b: "b = []"
  proof (cases b)
    case (Cons x b')
    then have "leaves_root relative"
      using rel join_with_Cons_Cons [of "replicate (length b') dotdot @ t" "[slash]" dotdot]
      by (cases "replicate (length b') dotdot @ t = []") (auto simp: leaves_root_def has_prefix_iff)
    with inside show ?thesis by simp
  qed
  from strip_common_spec [of "comps base" "comps targ"] have t: "comps targ = comps base @ t"
    by (auto simp: bt b)
  with False a abs have "t \<noteq> []" by (auto simp: path_clean_eq_iff)
  moreover have n: "\<forall>n\<in>set t. normal_name n" using comps_abs_normal [OF abs] t by auto
  have "relative \<noteq> dot"
  proof
    assume d: "relative = dot"
    from n have "clean_form False t" by (rule clean_form_normal)
    then have "split_char slash (join_with [slash] t) = t" using \<open>t \<noteq> []\<close> n
      by (intro split_join_char) (auto simp: normal_name_def)
    then have "t = split_char slash dot" using rel d b by simp
    with n show False by simp
  qed
  ultimately show ?thesis using a t by simp
qed

lemma normalizeUploadDir_inside:
  "normalizeUploadDir root v = Inr d \<Longrightarrow> is_abs d \<and> path_clean d = d \<and> is_abs root \<and> prefix (comps root) (comps d)"
  using rel_stays_inside [of "path_clean root" "path_clean (trim_space v)"]
  by (auto simp: normalizeUploadDir_def Let_def split: if_splits sum.splits)

lemma normalizeUploadRoot_inside:
  "normalizeUploadRoot v = Inr d \<Longrightarrow> is_abs d \<and> strict_prefix (comps managedDataRoot) (comps d)"
  using rel_stays_inside [of managedDataRoot "path_clean (trim_space v)"]
  by (auto simp: normalizeUploadRoot_def Let_def strict_prefix_def split: if_splits sum.splits)

subsection \<open>The configuration invariant\<close>

definition settings_ok :: "simpleSettings \<Rightarrow> bool" where
  "settings_ok cfg \<longleftrightarrow>
     CommandMode cfg \<in> {commandModePerTarget, commandModeShared} \<and>
     (CommandMode cfg = commandModeShared \<longrightarrow> is_abs (SharedCommandPath cfg)) \<and>
     1 \<le> SharedTimeoutSeconds cfg \<and> SharedTimeoutSeconds cfg \<le> 86400 \<and>
     is_abs (UploadRoot cfg) \<and> strict_prefix (comps managedDataRoot) (comps (UploadRoot cfg)) \<and>
     (ReplicationEnabled cfg \<longrightarrow> ReplicationRegistry cfg \<noteq> [] \<and> 0 < ReplicationPolicyID cfg) \<and>
     (AppDeployEnabled cfg \<longrightarrow> AppDeployPath cfg \<noteq> []) \<and>
     ReplicationScope cfg \<in> {stageScopeEach, stageScopeOnce} \<and> AppDeployScope cfg \<in> {stageScopeEach, stageScopeOnce} \<and>
     1 \<le> ReplicationTimeout cfg \<and> 1 \<le> AppDeployTimeout cfg \<and> AppDeployTimeout cfg \<le> 86400"

definition row_ok :: "target_row \<Rightarrow> bool" where
  "row_ok t \<longleftrightarrow>
     (case tr_command_path t of None \<Rightarrow> True | Some p \<Rightarrow> is_abs p) \<and>
     (case tr_timeout_seconds t of None \<Rightarrow> True | Some n \<Rightarrow> 1 \<le> n \<and> n \<le> 86400) \<and>
     is_abs (tr_upload_dir t) \<and> strict_prefix (comps managedDataRoot) (comps (tr_upload_dir t))"

definition simple_ok :: "simple_db \<Rightarrow> bool" where
  "simple_ok d \<longleftrightarrow> settings_ok (sd_settings d) \<and> distinct (map tr_id (sd_targets d)) \<and>
     (\<forall>t\<in>set (sd_targets d). row_ok t \<and>
        (CommandMode (sd_settings d) = commandModePerTarget \<and> listed t \<longrightarrow> tr_command_path t \<noteq> None)) \<and>
     (\<forall>t\<in>set (sd_targets d). \<forall>u\<in>set (sd_targets d).
        tr_id t \<noteq> tr_id u \<and> \<not> tr_revoked t \<and> \<not> tr_revoked u \<longrightarrow> tr_upload_dir t \<noteq> tr_upload_dir u)"

lemma normalizeSimpleTarget_row:
  assumes "normalizeSimpleTarget pr fs cfg input = (fs', Inr t)" "settings_ok cfg" "target_row_allowed others (target_columns i t)"
  shows "row_ok (target_columns i t) \<and>
    (CommandMode cfg = commandModePerTarget \<and> listed (target_columns i t) \<longrightarrow> tr_command_path (target_columns i t) \<noteq> None)"
proof -
  from assms(1) have dir: "normalizeUploadDir (UploadRoot cfg) (ti_UploadDir input) = Inr (st_UploadDir t)"
    and command: "st_CommandPath t = [] \<longrightarrow> \<not> (CommandMode cfg = commandModePerTarget \<and> st_Active t)"
    by (auto simp: normalizeSimpleTarget_def Let_def guard_def split: if_splits sum.splits option.splits prod.splits)
  from normalizeUploadDir_inside [OF dir] assms(2)
  have "is_abs (st_UploadDir t)" "strict_prefix (comps managedDataRoot) (comps (st_UploadDir t))"
    by (auto simp: settings_ok_def intro: prefix_order.less_le_trans)
  with assms(3) command show ?thesis
    by (auto simp: row_ok_def target_row_allowed_def target_columns_def listed_def nullif_def)
qed

lemma target_row_allowed_dirs:
  "target_row_allowed others t \<Longrightarrow> u \<in> set others \<Longrightarrow> \<not> tr_revoked t \<Longrightarrow> \<not> tr_revoked u \<Longrightarrow> tr_upload_dir u \<noteq> tr_upload_dir t"
  by (auto simp: target_row_allowed_def list_all_iff)

lemma create_keeps:
  assumes "simple_ok d"
  shows "simple_ok (snd (fst (createSimpleTarget pr newID input (fs, d))))"
proof -
  have "simple_ok (d\<lparr>sd_targets := sd_targets d @ [target_columns i t]\<rparr>)"
    if n: "normalizeSimpleTarget pr fs (sd_settings d) input = (fs', Inr t)" and i: "i \<notin> set (map tr_id (sd_targets d))"
      and a: "target_row_allowed (sd_targets d) (target_columns i t)" for i t fs'
  proof -
    have "settings_ok (sd_settings d)" using assms by (simp add: simple_ok_def)
    from normalizeSimpleTarget_row [OF n this a] target_row_allowed_dirs [OF a] i assms
    show ?thesis unfolding simple_ok_def by (auto simp: target_columns_def) metis+
  qed
  with assms show ?thesis
    by (auto simp: createSimpleTarget_def Let_def split: prod.splits sum.splits)
qed

lemma simple_ok_map:
  assumes ok: "simple_ok d" and ids: "\<And>u. u \<in> set (sd_targets d) \<Longrightarrow> tr_id (f u) = tr_id u"
    and rows: "\<And>u. u \<in> set (sd_targets d) \<Longrightarrow> row_ok (f u) \<and>
      (CommandMode (sd_settings d) = commandModePerTarget \<and> listed (f u) \<longrightarrow> tr_command_path (f u) \<noteq> None)"
    and dirs: "\<And>u w. u \<in> set (sd_targets d) \<Longrightarrow> w \<in> set (sd_targets d) \<Longrightarrow> tr_id u \<noteq> tr_id w \<Longrightarrow>
      \<not> tr_revoked (f u) \<Longrightarrow> \<not> tr_revoked (f w) \<Longrightarrow> tr_upload_dir (f u) \<noteq> tr_upload_dir (f w)"
  shows "simple_ok (d\<lparr>sd_targets := map f (sd_targets d)\<rparr>)"
proof -
  have "map tr_id (map f (sd_targets d)) = map tr_id (sd_targets d)" using ids by simp
  then have "distinct (map tr_id (map f (sd_targets d)))" using ok by (simp only: simple_ok_def)
  moreover have "settings_ok (sd_settings d)" using ok by (simp add: simple_ok_def)
  ultimately show ?thesis using rows dirs ids unfolding simple_ok_def by simp
qed

lemma simple_ok_rowD:
  "simple_ok d \<Longrightarrow> u \<in> set (sd_targets d) \<Longrightarrow> row_ok u \<and>
     (CommandMode (sd_settings d) = commandModePerTarget \<and> listed u \<longrightarrow> tr_command_path u \<noteq> None)"
  by (simp add: simple_ok_def)

lemma simple_ok_dirD:
  "simple_ok d \<Longrightarrow> u \<in> set (sd_targets d) \<Longrightarrow> w \<in> set (sd_targets d) \<Longrightarrow> tr_id u \<noteq> tr_id w \<Longrightarrow>
     \<not> tr_revoked u \<Longrightarrow> \<not> tr_revoked w \<Longrightarrow> tr_upload_dir u \<noteq> tr_upload_dir w"
  by (simp add: simple_ok_def)

lemma update_keeps:
  assumes "simple_ok d"
  shows "simple_ok (snd (fst (updateSimpleTarget pr i input (fs, d))))"
proof -
  let ?hit = "\<lambda>t. tr_id t = i \<and> \<not> tr_revoked t"
  have "simple_ok (d\<lparr>sd_targets := map (\<lambda>u. if ?hit u then target_columns i t else u) (sd_targets d)\<rparr>)"
    if n: "normalizeSimpleTarget pr fs (sd_settings d) input = (fs', Inr t)"
      and a: "target_row_allowed (filter (\<lambda>t. \<not> ?hit t) (sd_targets d)) (target_columns i t)" for t fs'
  proof (rule simple_ok_map [OF assms])
    fix u assume u: "u \<in> set (sd_targets d)"
    show "tr_id (if ?hit u then target_columns i t else u) = tr_id u" by (simp add: target_columns_def)
    have ok: "settings_ok (sd_settings d)" using assms by (simp add: simple_ok_def)
    show "row_ok (if ?hit u then target_columns i t else u) \<and>
      (CommandMode (sd_settings d) = commandModePerTarget \<and> listed (if ?hit u then target_columns i t else u) \<longrightarrow>
        tr_command_path (if ?hit u then target_columns i t else u) \<noteq> None)"
      using normalizeSimpleTarget_row [OF n ok a] simple_ok_rowD [OF assms u] by simp
    fix w assume w: "w \<in> set (sd_targets d)" and ne: "tr_id u \<noteq> tr_id w"
      and live: "\<not> tr_revoked (if ?hit u then target_columns i t else u)" "\<not> tr_revoked (if ?hit w then target_columns i t else w)"
    have new: "\<not> tr_revoked (target_columns i t)" by (simp add: target_columns_def)
    show "tr_upload_dir (if ?hit u then target_columns i t else u) \<noteq> tr_upload_dir (if ?hit w then target_columns i t else w)"
      using simple_ok_dirD [OF assms u w ne] target_row_allowed_dirs [OF a _ new, of u]
        target_row_allowed_dirs [OF a _ new, of w] u w ne live
      by (cases "?hit u"; cases "?hit w") auto
  qed
  with assms show ?thesis
    by (auto simp: updateSimpleTarget_def Let_def split: prod.splits sum.splits)
qed

lemma revoke_keeps:
  assumes "simple_ok d"
  shows "simple_ok (fst (revokeSimpleTarget i d))"
proof -
  have "simple_ok (d\<lparr>sd_targets := map (\<lambda>t. if tr_id t = i \<and> \<not> tr_revoked t then t\<lparr>tr_active := False, tr_revoked := True\<rparr> else t) (sd_targets d)\<rparr>)"
    by (rule simple_ok_map [OF assms])
      (use simple_ok_rowD [OF assms] simple_ok_dirD [OF assms] in \<open>auto simp: row_ok_def listed_def split: if_splits\<close>)
  with assms show ?thesis by (auto simp: revokeSimpleTarget_def)
qed

lemma merge_settings_root:
  assumes m: "merge_settings input cfg = Inr cfg'" and ok: "settings_ok cfg"
  shows "is_abs (UploadRoot cfg') \<and> strict_prefix (comps managedDataRoot) (comps (UploadRoot cfg'))"
proof -
  from m have "given (si_UploadRoot input) (UploadRoot cfg) normalizeUploadRoot = Inr (UploadRoot cfg')"
    unfolding merge_settings_def by (clarsimp split: sum.splits)
  with ok normalizeUploadRoot_inside show ?thesis
    by (cases "si_UploadRoot input") (auto simp: given_def settings_ok_def)
qed

lemma put_settings_cases:
  assumes p: "putSimpleSettings fs input d = (d', rep)" and "d' \<noteq> d"
  obtains cfg mode where "merge_settings input (sd_settings d) = Inr cfg" "d' = d\<lparr>sd_settings := cfg\<lparr>CommandMode := mode\<rparr>\<rparr>"
    "ReplicationEnabled cfg \<longrightarrow> 0 < ReplicationPolicyID cfg" "AppDeployEnabled cfg \<longrightarrow> AppDeployPath cfg \<noteq> []"
    "checkCommandModeSwitch (sd_targets d) (cfg\<lparr>CommandMode := mode\<rparr>) = None"
    "settings_allowed (sd_registries d) (cfg\<lparr>CommandMode := mode\<rparr>)"
proof -
  obtain cfg where cfg: "merge_settings input (sd_settings d) = Inr cfg"
    using assms by (cases "merge_settings input (sd_settings d)") (simp_all add: putSimpleSettings_def)
  obtain mode where mode: "given (si_CommandMode input) (CommandMode cfg) normalize_command_mode = Inr mode"
    using assms cfg by (cases "given (si_CommandMode input) (CommandMode cfg) normalize_command_mode")
      (simp_all add: putSimpleSettings_def split: if_splits)
  show thesis
    by (rule that [OF cfg])
      (use assms in \<open>simp add: putSimpleSettings_def cfg mode Let_def not_le split: if_splits; fail | force simp: putSimpleSettings_def cfg mode Let_def split: if_splits\<close>)+
qed

lemma put_settings_keeps:
  assumes "simple_ok d"
  shows "simple_ok (fst (putSimpleSettings fs input d))"
proof -
  obtain d' rep where p: "putSimpleSettings fs input d = (d', rep)" by fastforce
  have "simple_ok d'" if "d' \<noteq> d"
    using p that
  proof (cases rule: put_settings_cases)
    case (1 cfg mode)
    let ?cfg = "cfg\<lparr>CommandMode := mode\<rparr>"
    have "settings_ok (sd_settings d)" using assms by (simp add: simple_ok_def)
    with merge_settings_root [OF 1(1)] 1 have "settings_ok ?cfg"
      by (simp add: settings_ok_def settings_allowed_def)
    moreover have "CommandMode ?cfg = commandModePerTarget \<and> listed t \<longrightarrow> tr_command_path t \<noteq> None"
      if "t \<in> set (sd_targets d)" for t
      using 1(5) that by (auto simp: checkCommandModeSwitch_def listed_def guard_def simple_consts filter_empty_conv split: if_splits)
    ultimately show ?thesis using assms 1 by (simp add: simple_ok_def)
  qed
  with assms p show ?thesis by (cases "d' = d") auto
qed

text \<open>
  Everything that can happen to the configuration: the four handlers, and, from outside, changes of
  the file system, of the runs and of the registries.
\<close>

inductive simple_step :: "fs \<times> simple_db \<Rightarrow> fs \<times> simple_db \<Rightarrow> bool" where
  create: "createSimpleTarget pr newID input s = (s', rep) \<Longrightarrow> simple_step s s'"
| update: "updateSimpleTarget pr i input s = (s', rep) \<Longrightarrow> simple_step s s'"
| revoke: "revokeSimpleTarget i d = (d', rep) \<Longrightarrow> simple_step (fs, d) (fs, d')"
| settings: "putSimpleSettings fs input d = (d', rep) \<Longrightarrow> simple_step (fs, d) (fs, d')"
| outside: "simple_step (fs, d) (fs', d\<lparr>sd_runs := runs, sd_registries := registries\<rparr>)"

inductive_cases simple_stepE: "simple_step (fs, d) s'"

definition initial_db :: simple_db where
  "initial_db = \<lparr>sd_settings = initial_settings, sd_targets = [], sd_runs = [], sd_registries = []\<rparr>"

lemma simple_ok_initial: "simple_ok initial_db"
proof -
  have "comps managedDataRoot = [''var'', ''lib'', ''releasedock'']"
    "comps ''/var/lib/releasedock/simple'' = [''var'', ''lib'', ''releasedock'', ''simple'']"
    by (simp_all add: managedDataRoot_def comps_def)
  then show ?thesis
    by (simp add: simple_ok_def settings_ok_def initial_db_def initial_settings_def simple_consts strict_prefix_def)
qed

lemma simple_step_keeps: "simple_step s s' \<Longrightarrow> simple_ok (snd s) \<Longrightarrow> simple_ok (snd s')"
proof (induction rule: simple_step.induct)
  case (create pr newID input s s' rep)
  then show ?case using create_keeps [of "snd s" pr newID input "fst s"] by simp
next
  case (update pr i input s s' rep)
  then show ?case using update_keeps [of "snd s" pr i input "fst s"] by simp
next
  case (revoke i d d' rep fs)
  then show ?case using revoke_keeps [of d i] by simp
next
  case (settings fs input d d' rep)
  then show ?case using put_settings_keeps [of d fs input] by simp
qed (simp add: simple_ok_def)

lemma simple_reachable: "simple_step\<^sup>*\<^sup>* (fs, initial_db) (fs', d) \<Longrightarrow> simple_ok d"
proof -
  have "simple_step\<^sup>*\<^sup>* s s' \<Longrightarrow> simple_ok (snd s) \<Longrightarrow> simple_ok (snd s')" for s s'
    by (induction rule: rtranclp_induct) (auto intro: simple_step_keeps)
  from this [of "(fs, initial_db)" "(fs', d)"] show "simple_step\<^sup>*\<^sup>* (fs, initial_db) (fs', d) \<Longrightarrow> simple_ok d"
    by (simp add: simple_ok_initial)
qed

lemma resolve_total:
  assumes "settings_ok cfg" "row_ok t \<and> (CommandMode cfg = commandModePerTarget \<and> listed t \<longrightarrow> tr_command_path t \<noteq> None)" "listed t"
  shows "\<exists>c. resolveCommand cfg (scanSimpleTarget t) = Inr c \<and> is_abs (cmd_Path c) \<and>
      seconds 1 \<le> cmd_Timeout c \<and> cmd_Timeout c \<le> MaxTimeout"
proof (cases "CommandMode cfg = commandModeShared")
  case True
  with assms(1) show ?thesis
    by (auto simp: resolveCommand_def settings_ok_def seconds_def MaxTimeout_def)
next
  case False
  with assms(1) have "CommandMode cfg = commandModePerTarget" by (simp add: settings_ok_def)
  with assms(2,3) obtain p where "tr_command_path t = Some p" "is_abs p"
    by (auto simp: row_ok_def)
  with False assms(2) show ?thesis
    by (auto simp: resolveCommand_def scanSimpleTarget_def coalesce_def row_ok_def seconds_def MaxTimeout_def
        split: option.splits)
qed


definition demo_target_input :: simpleTargetInput where
  "demo_target_input = \<lparr>ti_Name = ''shop'', ti_Description = [], ti_UploadDir = ''/var/lib/releasedock/simple/shop'',
     ti_CommandPath = ''/sh'', ti_CommandArgs = ''-c'', ti_WorkingDir = [], ti_TimeoutSeconds = None,
     ti_MaxUploadBytes = None, ti_Active = None\<rparr>"

definition demo_proc_root :: proc where "demo_proc_root = \<lparr>proc_uid = 0, proc_gid = 0\<rparr>"

definition demo_config :: "fs \<times> simple_db" where
  "demo_config = fst (createSimpleTarget demo_proc_root (Inr ''t1'') demo_target_input (local_fs, initial_db))"

definition demo_target :: target_row where
  "demo_target = \<lparr>tr_id = ''t1'', tr_name = ''shop'', tr_description = [], tr_upload_dir = ''/var/lib/releasedock/simple/shop'',
     tr_command_path = Some ''/sh'', tr_command_args = [''-c''], tr_working_dir = None, tr_timeout_seconds = Some 600,
     tr_max_upload_bytes = 10 * 2 ^ 30, tr_active = True, tr_revoked = False\<rparr>"

lemma demo_config_targets: "sd_targets (snd demo_config) = [demo_target]"
  by code_simp

lemma demo_config_step: "simple_step\<^sup>*\<^sup>* (local_fs, initial_db) demo_config"
  unfolding demo_config_def by (rule r_into_rtranclp, rule simple_step.create, rule prod.collapse [symmetric])


subsection \<open>Command arguments\<close>

lemma trim_right_cut_idem [simp]: "trim_right_cut (trim_right_cut s cs) cs = trim_right_cut s cs"
  by (simp add: trim_right_cut_def)

lemma set_trim_right_cut: "set (trim_right_cut s cs) \<subseteq> set s"
  unfolding trim_right_cut_def using set_dropWhileD by fastforce

text \<open>C40 (command_args_round_trip): the text that the administration shows for stored arguments gives the same
  arguments when it is saved again, and no argument is split at a space or joined: each is one line of the
  text as written, less carriage returns at its end.\<close>

theorem command_args_round_trip:
  "splitCommandArgs (joinCommandArgs (splitCommandArgs raw)) = splitCommandArgs raw \<and>
   (\<exists>keep. splitCommandArgs raw = map (\<lambda>line. trim_right_cut line [CHR 0x0D]) (filter keep (split_char (CHR 0x0A) raw)))"
proof
  let ?args = "splitCommandArgs raw"
  have line: "CHR 0x0A \<notin> set a \<and> trim_right_cut a [CHR 0x0D] = a \<and> trim_space a \<noteq> []" if "a \<in> set ?args" for a
    using that split_char_no_sep [of _ "CHR 0x0A" raw] set_trim_right_cut
    by (fastforce simp: splitCommandArgs_def)
  show "splitCommandArgs (joinCommandArgs ?args) = ?args"
  proof (cases "?args = []")
    case True
    have "trim_space [] = []" using length_trim_space [of "[]"] by simp
    then show ?thesis unfolding True by (simp add: joinCommandArgs_def splitCommandArgs_def trim_right_cut_def)
  next
    case False
    have "split_char (CHR 0x0A) (joinCommandArgs ?args) = ?args"
      unfolding joinCommandArgs_def using False line by (intro split_join_char) auto
    then show ?thesis using line by (simp add: splitCommandArgs_def [of "joinCommandArgs _"] map_idI)
  qed
  show "\<exists>keep. ?args = map (\<lambda>line. trim_right_cut line [CHR 0x0D]) (filter keep (split_char (CHR 0x0A) raw))"
    unfolding splitCommandArgs_def filter_map by (rule exI, rule refl)
qed

end
