(* ===== verification/Simple_Upload.thy ===== *)
theory Simple_Upload
  imports Simple_Config Secrets Vault
begin

text \<open>
  Uploads of simple mode, the part of \<open>src/backend/internal/server/simple.go\<close> that reads a request and
  writes the package: the fields of the multipart form, the batch they describe, the staged file that
  becomes the package when it is committed, and the removal of what a killed process left behind.

  A multipart stream is the list of its parts and the error it ends with; the body of a part is its bytes and
  the error that cuts it short, if any. SHA-256 and the random source are arguments. Whether writing,
  syncing and closing the file succeed, and whether syncing its directory does, are arguments too.
\<close>

subsection \<open>The form\<close>

record part =
  pt_FormName :: string
  pt_FileName :: string
  pt_data :: bytes
  pt_err :: "error option"

text \<open>Reading through \<open>io.LimitReader\<close>: past the limit the reader ends, and an error behind it is not seen.\<close>

definition read_limited :: "nat \<Rightarrow> part \<Rightarrow> bytes \<times> error option" where
  "read_limited n p = (take n (pt_data p), if n \<le> length (pt_data p) then None else pt_err p)"

definition maxSimpleUploadFieldBytes :: nat where "maxSimpleUploadFieldBytes = 4 * 2 ^ 10"
definition maxSimpleUploadFields :: nat where "maxSimpleUploadFields = 8"

type_synonym simpleUploadFields = "(string \<times> string) list"

definition fields_value :: "simpleUploadFields \<Rightarrow> string \<Rightarrow> string" where
  "fields_value f name = coalesce (map_of f name) []"

definition fields_read :: "simpleUploadFields \<Rightarrow> part \<Rightarrow> simpleUploadFields" where
  "fields_read f p =
     (if pt_FileName p \<noteq> [] \<or> pt_FormName p = [] \<or> length f \<ge> maxSimpleUploadFields then f
      else case read_limited maxSimpleUploadFieldBytes p of
        (_, Some _) \<Rightarrow> f
      | (v, None) \<Rightarrow> AList.update (pt_FormName p) v f)"

definition errMissingArtifact :: error where "errMissingArtifact = Err ''upload has no artifact part''"

fun nextSimpleArtifactPart ::
  "error \<Rightarrow> part list \<Rightarrow> simpleUploadFields \<Rightarrow> (part \<times> part list) result \<times> simpleUploadFields" where
  "nextSimpleArtifactPart fin [] form = (Inl (if errors_is fin errEOF then errMissingArtifact else fin), form)"
| "nextSimpleArtifactPart fin (p # parts) form =
     (if pt_FormName p = ''artifact'' \<and> pt_FileName p \<noteq> [] then (Inr (p, parts), form)
      else nextSimpleArtifactPart fin parts (fields_read form p))"

definition readSimpleUploadFields :: "part list \<Rightarrow> simpleUploadFields \<Rightarrow> simpleUploadFields" where
  "readSimpleUploadFields parts form = foldl fields_read form parts"

record uploadBatch =
  batch_ID :: string
  batch_Last :: bool

definition batch_char :: "char \<Rightarrow> bool" where
  "batch_char c \<longleftrightarrow> is_lower c \<or> is_upper c \<or> is_digit c \<or> c = CHR ''-'' \<or> c = CHR ''_''"

text \<open>\<open>strconv.ParseBool\<close>.\<close>

definition parse_bool :: "string \<Rightarrow> bool option" where
  "parse_bool s =
     (if s \<in> {''1'', ''t'', ''T'', ''TRUE'', ''true'', ''True''} then Some True
      else if s \<in> {''0'', ''f'', ''F'', ''FALSE'', ''false'', ''False''} then Some False
      else None)"

definition readUploadBatch :: "(string \<Rightarrow> string) \<Rightarrow> uploadBatch" where
  "readUploadBatch v =
     (let i = trim_space (v ''batchId'');
          raw = trim_space (v ''batchLast'')
      in \<lparr>batch_ID = (if length i \<le> 64 \<and> list_all batch_char i then i else []),
          batch_Last = (if raw \<noteq> [] then coalesce (parse_bool raw) True else True)\<rparr>)"

subsection \<open>Staged files\<close>

text \<open>
  \<open>rename(2)\<close>: the entry moves to the new name and replaces what is there, in one step; a directory is
  only replaced by a directory, and only when it is empty.
\<close>

definition os_rename :: "fs \<Rightarrow> string \<Rightarrow> string \<Rightarrow> fs \<times> error option" where
  "os_rename fs old new =
     (case (resolve fs old False, resolve fs new False) of
        (Inl e, _) \<Rightarrow> (fs, Some e)
      | (_, Inl e) \<Rightarrow> (fs, Some e)
      | (Inr p, Inr q) \<Rightarrow>
          (case node_at fs p of
             None \<Rightarrow> (fs, Some errNotExist)
           | Some nd \<Rightarrow>
               if p = q then (fs, None)
               else if is_dir nd then
                 if prefix p q \<or> (\<exists>nd'\<in>set_option (node_at fs q). \<not> is_dir nd') \<or> children fs q \<noteq> [] then (fs, Some errNotDir)
                 else (map (\<lambda>(x, y). (if prefix p x then q @ drop (length p) x else x, y)) (del_node q fs), None)
               else if is_dir_at fs q then (fs, Some errIsDir)
               else (put_node q nd (del_node p fs), None)))"

definition stagedUploadMarker :: string where "stagedUploadMarker = ''.partial-''"
definition stagedUploadBytes :: int where "stagedUploadBytes = 16"

text \<open>\<open>strings.LastIndex\<close>.\<close>

definition last_index_of :: "string \<Rightarrow> string \<Rightarrow> nat option" where
  "last_index_of s pat =
     (case index_of (rev s) (rev pat) of None \<Rightarrow> None | Some i \<Rightarrow> Some (length s - i - length pat))"

text \<open>\<open>base64.RawURLEncoding\<close>: the length of an encoding, and decoding.\<close>

definition raw_encoded_len :: "int \<Rightarrow> int" where "raw_encoded_len n = n div 3 * 4 + (n mod 3 * 8 + 5) div 6"

definition from_url_char :: "char \<Rightarrow> char" where
  "from_url_char c = (if c = CHR ''-'' then CHR ''+'' else if c = CHR ''_'' then CHR 0x2F else c)"

definition url_decode :: "string \<Rightarrow> bytes result" where
  "url_decode s = (if contains_any s [CHR ''+'', CHR 0x2F] then Inl errCorrupt else b64_decode False (map from_url_char s))"

definition isStagedUploadName :: "string \<Rightarrow> bool" where
  "isStagedUploadName name =
     (case last_index_of name stagedUploadMarker of
        None \<Rightarrow> False
      | Some marker \<Rightarrow>
          marker > 0 \<and>
          (let token = drop (marker + length stagedUploadMarker) name
           in int (length token) = raw_encoded_len stagedUploadBytes \<and> is_ok (url_decode token)))"

record stagedArtifact =
  sa_path :: string
  sa_partial :: string
  sa_size :: int
  sa_checksum :: string

definition staged_discard :: "fs \<Rightarrow> stagedArtifact \<Rightarrow> fs \<times> stagedArtifact" where
  "staged_discard fs a =
     (if sa_partial a = [] then (fs, a) else (fst (os_remove fs (sa_partial a)), a\<lparr>sa_partial := []\<rparr>))"

definition syncDirectory :: "bool \<Rightarrow> fs \<Rightarrow> string \<Rightarrow> error option" where
  "syncDirectory synced fs path =
     (case os_stat fs path of Inl e \<Rightarrow> Some e | Inr _ \<Rightarrow> guard (\<not> synced) ''sync failed'')"

definition staged_commit :: "bool \<Rightarrow> fs \<Rightarrow> stagedArtifact \<Rightarrow> fs \<times> stagedArtifact \<times> error option" where
  "staged_commit synced fs a =
     (case os_rename fs (sa_partial a) (sa_path a) of
        (fs', Some _) \<Rightarrow> (fs', a, Some (Err ''the upload could not be published''))
      | (fs', None) \<Rightarrow>
          (fs', a\<lparr>sa_partial := []\<rparr>,
           if syncDirectory synced fs' (path_dir (sa_path a)) \<noteq> None
           then Some (Err ''the upload directory could not be synced'') else None))"

definition stageSimpleArtifact ::
  "(bytes \<Rightarrow> bytes) \<Rightarrow> (nat \<Rightarrow> bytes result) \<Rightarrow> bool \<Rightarrow> proc \<Rightarrow> fs \<Rightarrow> string \<Rightarrow> string \<Rightarrow> part \<Rightarrow> int \<Rightarrow> fs \<times> stagedArtifact result" where
  "stageSimpleArtifact sha256 random stored pr fs dir filename file maxBytes =
     (case ensureUploadDir pr fs dir of
        (fs1, Some e) \<Rightarrow> (fs1, Inl e)
      | (fs1, None) \<Rightarrow>
          (case eval_symlinks fs1 dir of
             Inl _ \<Rightarrow> (fs1, Inl (Err ''the upload directory cannot be checked''))
           | Inr root \<Rightarrow>
               let target = path_join [root, filename] in
               if path_dir target \<noteq> path_clean root then (fs1, Inl (Err ''the file name leaves the upload directory''))
               else case RandomToken random stagedUploadBytes of
                 Inl _ \<Rightarrow> (fs1, Inl (Err ''no temporary name''))
               | Inr token \<Rightarrow>
                   let staged = \<lparr>sa_path = target, sa_partial = target @ stagedUploadMarker @ token, sa_size = 0, sa_checksum = []\<rparr>
                   in case os_create_excl pr fs1 (sa_partial staged) (octal 6 4 0) of
                     (fs2, Some _) \<Rightarrow> (fst (staged_discard fs2 staged), Inl (Err ''the upload file cannot be created''))
                   | (fs2, None) \<Rightarrow>
                       (case read_limited (nat (maxBytes + 1)) file of
                          (copied, copyErr) \<Rightarrow>
                            let fs3 = write_content fs2 (sa_partial staged) copied in
                            if copyErr \<noteq> None \<or> \<not> stored
                            then (fst (staged_discard fs3 staged), Inl (Err ''the upload file cannot be stored''))
                            else if int (length copied) > maxBytes
                            then (fst (staged_discard fs3 staged), Inl (Err ''the package exceeds the limit''))
                            else (fs3, Inr (staged\<lparr>sa_size := int (length copied), sa_checksum := hex_encode (sha256 copied)\<rparr>)))))"

subsection \<open>Recovery\<close>

fun remove_staged_items :: "string \<Rightarrow> string list \<Rightarrow> fs \<Rightarrow> nat \<Rightarrow> fs \<times> nat" where
  "remove_staged_items dir [] fs removed = (fs, removed)"
| "remove_staged_items dir (item # items) fs removed =
     (let path = path_join [dir, item] in
      if \<not> (case os_lstat fs path of Inr nd \<Rightarrow> is_regular nd | Inl _ \<Rightarrow> False) \<or> \<not> isStagedUploadName item
      then remove_staged_items dir items fs removed
      else case os_remove fs path of
        (fs', err) \<Rightarrow>
          if err \<noteq> None \<and> err \<noteq> Some errNotExist then remove_staged_items dir items fs' removed
          else remove_staged_items dir items fs' (Suc removed))"

fun removeStagedUploads :: "string list \<Rightarrow> fs \<Rightarrow> nat \<Rightarrow> fs \<times> nat" where
  "removeStagedUploads [] fs removed = (fs, removed)"
| "removeStagedUploads (dir # dirs) fs removed =
     (case os_read_dir fs dir of
        Inl _ \<Rightarrow> removeStagedUploads dirs fs removed
      | Inr items \<Rightarrow> (case remove_staged_items dir items fs removed of
          (fs', removed') \<Rightarrow> removeStagedUploads dirs fs' removed'))"

definition RemoveStagedSimpleUploads :: "fs \<Rightarrow> simple_db \<Rightarrow> fs" where
  "RemoveStagedSimpleUploads fs d = fst (removeStagedUploads (remdups (map tr_upload_dir (sd_targets d))) fs 0)"

subsection \<open>Names\<close>

lemma b64_groups_values: "b64_groups False s = Inr out \<Longrightarrow> c \<in> set s \<Longrightarrow> b64_value c \<noteq> None"
proof (induction "False" s arbitrary: out rule: b64_groups.induct)
  case (5 w x y z rest)
  then show ?case by (auto split: option.splits sum.splits)
qed (auto split: option.splits)

lemma url_decode_chars: "is_ok (url_decode s) \<Longrightarrow> CHR ''.'' \<notin> set s"
proof
  assume ok: "is_ok (url_decode s)" and dot: "CHR ''.'' \<in> set s"
  have v: "b64_value (CHR ''.'') = None" by code_simp
  have "CHR ''.'' \<in> set (filter (\<lambda>c. c \<noteq> CHR 0x0A \<and> c \<noteq> CHR 0x0D) (map from_url_char s))"
    using dot by (auto simp: from_url_char_def intro!: image_eqI [of _ _ "CHR ''.''"])
  moreover obtain out where "b64_groups False (filter (\<lambda>c. c \<noteq> CHR 0x0A \<and> c \<noteq> CHR 0x0D) (map from_url_char s)) = Inr out"
    using ok by (auto simp: url_decode_def b64_decode_def is_ok_def split: if_splits sum.splits)
  ultimately show False using b64_groups_values v by blast
qed

lemma url_decode_encode: "url_decode (map url_char (b64_encode False b)) = Inr b"
proof -
  have no: "c \<noteq> CHR ''-'' \<and> c \<noteq> CHR ''_''" if "c \<in> set (b64_encode False b)" for c
  proof -
    have "c \<in> insert (CHR ''='') (set b64_alphabet)"
      using b64_encode_chars that by (fastforce simp: b64_char_def b64_alphabet)
    then show ?thesis unfolding b64_alphabet_def by auto
  qed
  have "map (from_url_char \<circ> url_char) (b64_encode False b) = b64_encode False b"
    by (rule map_idI) (use no in \<open>auto simp: from_url_char_def url_char_def\<close>)
  moreover have "\<not> contains_any (map url_char (b64_encode False b)) [CHR ''+'', CHR 0x2F]"
    by (auto simp: contains_any_def url_char_def split: if_splits)
  ultimately show ?thesis by (simp add: url_decode_def)
qed

lemma token_chars:
  assumes "RandomToken random stagedUploadBytes = Inr token"
  shows "slash \<notin> set token" "CHR ''.'' \<notin> set token" "is_ok (url_decode token)"
proof -
  obtain b where t: "token = map url_char (b64_encode False b)"
    using assms by (auto simp: RandomToken_def stagedUploadBytes_def split: sum.splits)
  show "is_ok (url_decode token)" using url_decode_encode [of b] by (simp add: t is_ok_def)
  then show "CHR ''.'' \<notin> set token" by (rule url_decode_chars)
  show "slash \<notin> set token" by (auto simp: t url_char_def)
qed

lemma last_index_of_marker:
  assumes "CHR ''.'' \<notin> set token"
  shows "last_index_of (name @ stagedUploadMarker @ token) stagedUploadMarker = Some (length name)"
proof -
  have m: "rev stagedUploadMarker = ''-laitrap'' @ ''.''" by (simp add: stagedUploadMarker_def)
  have "length (rev token) \<le> length a"
    if eq: "rev (name @ stagedUploadMarker @ token) = a @ rev stagedUploadMarker @ b" for a b
  proof (rule ccontr)
    assume "\<not> ?thesis"
    then have lt: "length a < length token" by simp
    have "rev (name @ stagedUploadMarker @ token) ! (length a + 8) = CHR ''.''"
      unfolding eq m by (simp add: nth_append)
    moreover have "rev (name @ stagedUploadMarker @ token) = (rev token @ ''-laitrap'') @ ''.'' @ rev name"
      using m by simp
    ultimately have "(rev token @ ''-laitrap'') ! (length a + 8) = CHR ''.''"
      using lt by (simp only: nth_append) simp
    moreover have "(rev token @ ''-laitrap'') ! (length a + 8) \<in> set (rev token @ ''-laitrap'')"
      using lt by (intro nth_mem) simp
    ultimately show False using assms by simp
  qed
  then have "index_of (rev (name @ stagedUploadMarker @ token)) (rev stagedUploadMarker) = Some (length (rev token))"
    by (intro index_of_eqI [of _ _ _ "rev name"]) simp_all
  then show ?thesis by (simp add: last_index_of_def)
qed

lemma staged_name:
  assumes "RandomToken random stagedUploadBytes = Inr token" "length token = 22" "name \<noteq> []"
  shows "isStagedUploadName (name @ stagedUploadMarker @ token)"
  using token_chars [OF assms(1)] assms(2,3)
  by (simp add: isStagedUploadName_def last_index_of_marker raw_encoded_len_def stagedUploadBytes_def)

lemma last_index_of_bound: "last_index_of s pat = Some i \<Longrightarrow> i + length pat \<le> length s"
  using index_of_Some_bound [of "rev s" "rev pat"] by (auto simp: last_index_of_def split: option.splits)

text \<open>A package is never taken for a staged file.\<close>

lemma to_lower_dot: "to_lower_char c = CHR ''.'' \<longleftrightarrow> c = CHR ''.''"
  by (auto simp: to_lower_char_def less_eq_char_def char_of_mod split: if_splits)

lemma package_not_staged:
  assumes "safeArtifactName name"
  shows "\<not> isStagedUploadName name"
proof
  assume "isStagedUploadName name"
  then obtain m where m: "is_ok (url_decode (drop (m + length stagedUploadMarker) name))"
    "length (drop (m + length stagedUploadMarker) name) = 22"
    by (auto simp: isStagedUploadName_def Let_def raw_encoded_len_def stagedUploadBytes_def split: option.splits)
  from assms obtain k where "k \<le> 7" "k \<le> length name" "CHR ''.'' \<in> set (drop (length name - k) (to_lower name))"
  proof -
    have "\<exists>k. k \<le> 7 \<and> k \<le> length name \<and> CHR ''.'' \<in> set (drop (length name - k) (to_lower name))"
      if "has_suffix (to_lower name) e" "length e \<le> 7" "CHR ''.'' \<in> set e" for e
    proof -
      from that(1) obtain t where t: "to_lower name = t @ e" by (auto simp: has_suffix_iff)
      then have "length name = length t + length e" by (metis length_append length_to_lower)
      with t that show ?thesis by (intro exI [of _ "length e"]) simp
    qed
    from this [of "''.tar''"] this [of "''.tar.gz''"] assms that show thesis
      by (fastforce simp: safeArtifactName_def)
  qed
  then have "CHR ''.'' \<in> set (drop (length name - k) name)"
    by (auto simp: to_lower_def drop_map) (metis to_lower_dot)
  moreover have "set (drop (length name - k) name) \<subseteq> set (drop (m + length stagedUploadMarker) name)"
    using m(2) \<open>k \<le> 7\<close> by (intro set_drop_subset_set_drop) simp
  ultimately show False using url_decode_chars [OF m(1)] by blast
qed

lemma safe_name_normal:
  assumes "safeArtifactName name"
  shows "normal_name name"
proof -
  have suffix: "length e \<le> length name" if "has_suffix (to_lower name) e" for e
    using that by (metis has_suffix_iff length_append length_to_lower le_add2)
  have "4 \<le> length name"
    using assms suffix [of "''.tar''"] suffix [of "''.tar.gz''"] unfolding safeArtifactName_def by auto
  moreover have "slash \<notin> set name" using assms by (auto simp: safeArtifactName_def contains_any_def)
  ultimately show ?thesis unfolding normal_name_def by auto
qed

lemma render_not_Nil [simp]: "path_render True q \<noteq> []"
  by (simp add: path_render_def)

lemma render_append: "path_render True (q @ [a]) @ b = path_render True (q @ [a @ b])"
  by (cases "q = []") (simp_all add: path_render_def join_with_snoc)

lemma partial_normal: "safeArtifactName name \<Longrightarrow> slash \<notin> set token \<Longrightarrow> normal_name (name @ stagedUploadMarker @ token)"
  using safe_name_normal [of name] by (auto simp: normal_name_def stagedUploadMarker_def Cons_eq_append_conv append_eq_Cons_conv)

subsection \<open>Directories\<close>

lemma walk_not_symlink:
  "walk n fs cur cs follow = Inr q \<Longrightarrow> follow \<Longrightarrow> real_dir fs cur \<Longrightarrow> node_at fs q = Some nd \<Longrightarrow> \<not> is_symlink nd"
proof (induction n fs cur cs follow rule: walk.induct)
  case (1 n fs cur follow)
  then show ?case using real_dir_is_dir [of fs cur] by (auto simp: is_dir_at_def is_symlink_def)
next
  case (2 n fs cur c cs follow)
  have root: "real_dir fs []" "real_dir fs (butlast cur)"
    using "2.prems"(3) real_dir_prefix by (blast intro: prefixeq_butlast Nil_prefix)+
  show ?case
  proof (cases "c = [] \<or> c = dot \<or> c = dotdot")
    case True
    then show ?thesis using 2 root by (auto split: if_splits)
  next
    case c: False
    show ?thesis
    proof (cases "node_at fs (cur @ [c])")
      case None
      with 2 c show ?thesis by (auto split: if_splits)
    next
      case (Some nd')
      show ?thesis
      proof (cases "kind nd'")
        case Directory
        then have "real_dir fs (cur @ [c])" using "2.prems"(3) Some by (simp add: real_dir_snoc is_dir_at_def)
        with 2 c Some Directory show ?thesis by auto
      next
        case (Symlink t)
        have "real_dir fs (if is_abs t then [] else cur)" using root "2.prems"(3) by simp
        with "2.IH"(4) [of nd' t] "2.prems" c Some Symlink show ?thesis by (auto split: if_splits)
      qed (use 2 c Some in \<open>auto simp: is_symlink_def split: if_splits\<close>)
    qed
  qed
qed

text \<open>What \<open>EvalSymlinks\<close> returns is a directory reached through directories, or a file.\<close>

lemma eval_symlinks_dir:
  assumes "eval_symlinks fs p = Inr root" "is_dir_at fs []"
  obtains q where "root = path_render True q" "\<forall>x\<in>set q. normal_name x" "real_dir fs q"
  | d c nd where "root = path_render True (d @ [c])" "\<forall>x\<in>set (d @ [c]). normal_name x" "real_dir fs d"
    "node_at fs (d @ [c]) = Some nd" "\<not> is_dir nd" "\<not> is_symlink nd"
proof -
  obtain q nd where q: "walk 255 fs [] (split_char slash p) True = Inr q" "root = path_render True q" "node_at fs q = Some nd"
    using assms(1) by (auto simp: eval_symlinks_def split: sum.splits option.splits)
  have real: "real_dir fs []" using assms(2) by (simp add: real_dir_iff)
  have link: "\<not> is_symlink nd" using walk_not_symlink [OF q(1) _ real q(3)] by simp
  let ?I = "\<lambda>d. real_dir fs d \<and> (\<forall>x\<in>set d. normal_name x)"
  have "?I q \<or> (\<exists>d c. q = d @ [c] \<and> ?I d \<and> normal_name c)"
  proof (rule walk_invariant [OF q(1)])
    show "?I []" "?I []" using real by simp_all
    show "?I (butlast d)" if "?I d" for d
      using that by (meson in_set_butlastD prefixeq_butlast real_dir_prefix)
    show "?I (d @ [c])" if "?I d" "normal_name c" "node_at fs (d @ [c]) = Some nd" "kind nd = Directory" for d c nd
      using that by (simp add: real_dir_snoc is_dir_at_def)
  qed (use split_char_no_sep in fastforce)
  then show thesis
  proof
    assume "?I q" then show thesis using that(1) q(2) by blast
  next
    assume "\<exists>d c. q = d @ [c] \<and> ?I d \<and> normal_name c"
    then obtain d c where dc: "q = d @ [c]" "?I d" "normal_name c" by blast
    show thesis
    proof (cases "is_dir nd")
      case True
      then have "real_dir fs q" using dc q(3) by (simp add: real_dir_snoc is_dir_at_def is_dir_def)
      then show thesis using that(1) q(2) dc by auto
    next
      case False
      then show thesis using that(2) [of d c nd] q dc link by auto
    qed
  qed
qed

lemma walk_real_prefix:
  "real_dir fs (cur @ d) \<Longrightarrow> \<forall>x\<in>set d. normal_name x \<Longrightarrow> walk n fs cur (d @ cs) follow = walk n fs (cur @ d) cs follow"
proof (induction d arbitrary: cur)
  case (Cons x d)
  have "is_dir_at fs (cur @ [x])" using Cons.prems(1) by (auto simp: real_dir_iff)
  moreover have "walk n fs (cur @ [x]) (d @ cs) follow = walk n fs ((cur @ [x]) @ d) cs follow"
    using Cons.prems by (intro Cons.IH) simp_all
  ultimately show ?case using Cons.prems(2) by (auto simp: is_dir_at_def normal_name_def split: option.splits)
qed simp

lemma resolve_below_file:
  assumes "real_dir fs d" "\<forall>x\<in>set (d @ [c, x]). normal_name x" "node_at fs (d @ [c]) = Some nd" "\<not> is_dir nd" "\<not> is_symlink nd"
  shows "resolve fs (path_render True (d @ [c, x])) follow = Inl errNotDir"
proof -
  have "split_char slash (path_render True (d @ [c, x])) = [] # d @ [c, x]"
    using assms(2) by (intro split_render_abs) auto
  moreover have "path_render True (d @ [c, x]) \<noteq> []" by (simp add: path_render_def)
  moreover have "walk max_links fs [] (d @ [c, x]) follow = walk max_links fs d [c, x] follow"
    using walk_real_prefix [of fs "[]" d] assms(1,2) by simp
  moreover have "walk max_links fs d [c, x] follow = Inl errNotDir"
    using assms(2-5) by (cases "kind nd") (auto simp: is_dir_def is_symlink_def normal_name_def)
  ultimately show ?thesis by (simp add: resolve_def)
qed

lemma stat_real_dir:
  assumes "real_dir fs q" "\<forall>x\<in>set q. normal_name x"
  shows "\<exists>nd. os_stat fs (path_render True q) = Inr nd"
proof -
  have "resolve fs (path_render True q) True = Inr q"
  proof (cases q rule: rev_cases)
    case Nil
    then show ?thesis by (simp add: resolve_def path_render_def)
  next
    case (snoc d c)
    with assms have "real_dir fs d" "clean_form True (d @ [c])" "is_dir_at fs (d @ [c])"
      by (auto simp: real_dir_snoc)
    then show ?thesis unfolding snoc
      by (intro resolve_render) (auto simp: is_dir_at_def is_symlink_def split: option.splits)
  qed
  with real_dir_is_dir [OF assms(1)] show ?thesis
    by (auto simp: os_stat_def lookup_path_def is_dir_at_def split: option.splits)
qed

subsection \<open>An upload takes effect as a whole or not at all\<close>

definition partial_name :: "string \<Rightarrow> string \<Rightarrow> string" where
  "partial_name filename token = filename @ stagedUploadMarker @ token"

lemma real_dir_put_below: "real_dir fs q \<Longrightarrow> real_dir (put_node (q @ [c]) nd fs) q"
  by (rule real_dir_cong [of q _ fs]) auto

text \<open>The file system while the upload is staged, in a real directory \<open>q\<close> that has no such entry.\<close>

lemma staged_ops:
  assumes q: "real_dir fs q" "\<forall>x\<in>set q. normal_name x" "normal_name c" "normal_name f" "c \<noteq> f"
    and fresh: "node_at fs (q @ [c]) = None"
  shows "os_create_excl pr fs (path_render True (q @ [c])) pm = (put_node (q @ [c]) (new_inode fs pr (q @ [c]) (Regular []) pm) fs, None)"
    and "write_content (put_node (q @ [c]) (new_inode fs pr (q @ [c]) (Regular []) pm) fs) (path_render True (q @ [c])) b =
      put_node (q @ [c]) ((new_inode fs pr (q @ [c]) (Regular []) pm)\<lparr>kind := Regular b\<rparr>)
        (put_node (q @ [c]) (new_inode fs pr (q @ [c]) (Regular []) pm) fs)"
    and "node_at fs' = (node_at fs)(q @ [c] \<mapsto> nd) \<Longrightarrow> is_regular nd \<Longrightarrow>
      os_remove fs' (path_render True (q @ [c])) = (del_node (q @ [c]) fs', None)"
    and "node_at fs' = (node_at fs)(q @ [c] \<mapsto> nd) \<Longrightarrow> is_regular nd \<Longrightarrow>
      os_rename fs' (path_render True (q @ [c])) (path_render True (q @ [f])) =
        (if is_dir_at fs (q @ [f]) then (fs', Some errIsDir) else (put_node (q @ [f]) nd (del_node (q @ [c]) fs'), None))"
proof -
  have cf: "clean_form True (q @ [c])" "clean_form True (q @ [f])" using q(2-4) by auto
  show "os_create_excl pr fs (path_render True (q @ [c])) pm = (put_node (q @ [c]) (new_inode fs pr (q @ [c]) (Regular []) pm) fs, None)"
    using create_node_render [OF cf(1) q(1)] fresh by (simp add: os_create_excl_def)
  show "write_content (put_node (q @ [c]) (new_inode fs pr (q @ [c]) (Regular []) pm) fs) (path_render True (q @ [c])) b =
      put_node (q @ [c]) ((new_inode fs pr (q @ [c]) (Regular []) pm)\<lparr>kind := Regular b\<rparr>)
        (put_node (q @ [c]) (new_inode fs pr (q @ [c]) (Regular []) pm) fs)"
    by (rule write_content_render [OF cf(1) real_dir_put_below [OF q(1)]]) (simp_all add: is_regular_def)
  assume fs': "node_at fs' = (node_at fs)(q @ [c] \<mapsto> nd)" and nd: "is_regular nd"
  have dir: "real_dir fs' q" by (rule real_dir_cong [OF _ q(1)]) (auto simp: fs')
  have nodir: "\<not> is_dir nd" using nd by (auto simp: is_regular_def is_dir_def split: node_kind.splits)
  show "os_remove fs' (path_render True (q @ [c])) = (del_node (q @ [c]) fs', None)"
    using nodir by (intro remove_render [OF cf(1) dir]) (simp_all add: fs')
  show "os_rename fs' (path_render True (q @ [c])) (path_render True (q @ [f])) =
        (if is_dir_at fs (q @ [f]) then (fs', Some errIsDir) else (put_node (q @ [f]) nd (del_node (q @ [c]) fs'), None))"
    using nodir q(5) by (simp add: os_rename_def resolve_render [OF cf(1) dir] resolve_render [OF cf(2) dir] fs' is_dir_at_def)
qed

text \<open>Where a staged upload stands, when the token has not been used.\<close>

lemma stage_cases:
  assumes st: "stageSimpleArtifact sha256 random stored pr fs dir filename file maxBytes = (fs', r)"
    and root: "is_dir_at fs1 []" and safe: "safeArtifactName filename" and fs1: "fs1 = fst (ensureUploadDir pr fs dir)"
    and fresh: "\<And>q token. RandomToken random stagedUploadBytes = Inr token \<Longrightarrow> node_at fs1 (q @ [partial_name filename token]) = None"
  obtains e where "r = Inl e" "node_at fs' = node_at fs1"
  | q token nd where "r = Inr \<lparr>sa_path = path_render True (q @ [filename]), sa_partial = path_render True (q @ [partial_name filename token]),
        sa_size = int (length (pt_data file)), sa_checksum = hex_encode (sha256 (pt_data file))\<rparr>"
      "real_dir fs1 q" "\<forall>x\<in>set q. normal_name x" "RandomToken random stagedUploadBytes = Inr token"
      "node_at fs' = (node_at fs1)(q @ [partial_name filename token] \<mapsto> nd)" "kind nd = Regular (pt_data file)" "perm nd = octal 6 4 0"
      "pt_err file = None" "int (length (pt_data file)) \<le> maxBytes"
proof (cases "snd (ensureUploadDir pr fs dir)")
  case (Some e)
  with st fs1 show thesis by (intro that(1)) (auto simp: stageSimpleArtifact_def split: prod.splits)
next
  case None
  with fs1 have dir: "ensureUploadDir pr fs dir = (fs1, None)" by (simp add: prod_eq_iff)
  show thesis
  proof (cases "eval_symlinks fs1 dir")
    case (Inl e)
    with st show thesis by (intro that(1)) (auto simp: stageSimpleArtifact_def dir)
  next
    case root': (Inr root')
    let ?target = "path_join [root', filename]"
    show thesis
    proof (cases "path_dir ?target \<noteq> path_clean root' \<or> (\<exists>e. RandomToken random stagedUploadBytes = Inl e)")
      case True
      with st have "fs' = fs1 \<and> (\<exists>e. r = Inl e)"
        by (auto simp: stageSimpleArtifact_def dir root' Let_def split: if_splits)
      then show thesis using that(1) by blast
    next
      case False
      then obtain token where token: "RandomToken random stagedUploadBytes = Inr token"
        by (cases "RandomToken random stagedUploadBytes") auto
      let ?c = "partial_name filename token"
      have names: "normal_name filename" "normal_name ?c"
        using safe_name_normal [OF safe] partial_normal [OF safe token_chars(1) [OF token]] by (simp_all add: partial_name_def)
      have ne: "?c \<noteq> filename" by (simp add: partial_name_def stagedUploadMarker_def)
      from root' root show thesis
      proof (cases rule: eval_symlinks_dir)
        case (1 q)
        have target: "?target = path_render True (q @ [filename])"
          "path_render True (q @ [filename]) @ stagedUploadMarker @ token = path_render True (q @ [?c])"
          using 1 names path_join_name [of q filename] by (simp_all add: render_append partial_name_def)
        note ops = staged_ops [OF 1(3,2) names(2,1) ne fresh [OF token]]
        let ?nd = "(new_inode fs1 pr (q @ [?c]) (Regular []) (octal 6 4 0))\<lparr>kind := Regular (take (nat (maxBytes + 1)) (pt_data file))\<rparr>"
        let ?fs3 = "put_node (q @ [?c]) ?nd (put_node (q @ [?c]) (new_inode fs1 pr (q @ [?c]) (Regular []) (octal 6 4 0)) fs1)"
        have at: "node_at ?fs3 = (node_at fs1)(q @ [?c] \<mapsto> ?nd)" by auto
        have reg: "is_regular ?nd" by (simp add: is_regular_def)
        let ?a = "\<lparr>sa_path = path_render True (q @ [filename]), sa_partial = path_render True (q @ [?c]), sa_size = 0, sa_checksum = []\<rparr>"
        have undone: "node_at (fst (staged_discard ?fs3 ?a)) = node_at fs1"
          using ops(3) [OF at reg] fresh [OF token, of q] by (auto simp: staged_discard_def)
        let ?copied = "take (nat (maxBytes + 1)) (pt_data file)"
        let ?good = "snd (read_limited (nat (maxBytes + 1)) file) = None \<and> stored \<and> int (length ?copied) \<le> maxBytes"
        show thesis
        proof (cases ?good)
          case good: True
          then have len: "int (length (pt_data file)) \<le> maxBytes" by (auto simp: min_def split: if_splits)
          then have all: "?copied = pt_data file" "pt_err file = None"
            using good by (auto simp: read_limited_def split: if_splits)
          have "(fs', r) = (?fs3, Inr (?a\<lparr>sa_size := int (length ?copied), sa_checksum := hex_encode (sha256 ?copied)\<rparr>))"
            using st good False token ops(1,2) by (simp add: stageSimpleArtifact_def dir root' Let_def target read_limited_def)
          then show thesis
            using that(2) [of q token ?nd] 1 token at all len by (simp add: new_inode_def Let_def)
        next
          case bad: False
          have "fs' = fst (staged_discard ?fs3 ?a) \<and> (\<exists>e. r = Inl e)"
            using st bad False token ops(1,2)
            by (auto simp: stageSimpleArtifact_def dir root' Let_def target read_limited_def split: if_splits)
          then show thesis using that(1) undone by auto
        qed
      next
        case (2 d c nd)
        have "resolve fs1 (path_render True (d @ [c, ?c])) False = Inl errNotDir"
          using 2 names by (intro resolve_below_file) auto
        moreover have "?target @ stagedUploadMarker @ token = path_render True (d @ [c, ?c])"
          using 2 names path_join_name [of "d @ [c]" filename] render_append [of "d @ [c]" filename] by (simp add: partial_name_def)
        ultimately have "fs' = fs1 \<and> (\<exists>e. r = Inl e)" using st False token
          by (auto simp: stageSimpleArtifact_def dir root' Let_def os_create_excl_def create_node_def
              staged_discard_def os_remove_def split: if_splits)
        then show thesis using that(1) by blast
      qed
    qed
  qed
qed

text \<open>C13 (upload_is_all_or_nothing): whatever an upload sends and wherever it fails, the file system ends up in
  one of two states: as it was once the upload directory exists, or with the package replaced by the whole upload.
  While the upload is staged every other entry, the old package included, is untouched; discarding it restores
  everything; committing it puts the complete content, whose SHA-256 is the recorded checksum and whose size is
  within the limit, at the package's path, and changes nothing else. A directory at that path is never replaced.
  The token must not have been used before.\<close>

theorem upload_is_all_or_nothing:
  assumes "stageSimpleArtifact sha256 random stored pr fs dir filename file maxBytes = (fs', r)"
    and "fs1 = fst (ensureUploadDir pr fs dir)" "is_dir_at fs1 []" "safeArtifactName filename"
    and "\<forall>token q. RandomToken random stagedUploadBytes = Inr token \<longrightarrow> node_at fs1 (q @ [partial_name filename token]) = None"
  shows "case r of
      Inl _ \<Rightarrow> node_at fs' = node_at fs1
    | Inr a \<Rightarrow> \<exists>q staged package.
        sa_path a = path_render True (q @ [filename]) \<and> staged \<noteq> q @ [filename] \<and>
        sa_size a = int (length (pt_data file)) \<and> sa_size a \<le> maxBytes \<and> pt_err file = None \<and>
        sa_checksum a = hex_encode (sha256 (pt_data file)) \<and>
        kind package = Regular (pt_data file) \<and> perm package = octal 6 4 0 \<and>
        node_at fs' = (node_at fs1)(staged \<mapsto> package) \<and>
        node_at (fst (staged_discard fs' a)) = node_at fs1 \<and>
        (case staged_commit synced fs' a of (fs'', a', err) \<Rightarrow>
           if is_dir_at fs1 (q @ [filename]) then err \<noteq> None \<and> a' = a \<and> fs'' = fs'
           else node_at fs'' = (node_at fs1)(q @ [filename] \<mapsto> package) \<and> sa_partial a' = [] \<and> (err = None \<longleftrightarrow> synced))"
proof (rule stage_cases [OF assms(1,3,4,2)])
  show "node_at fs1 (q @ [partial_name filename token]) = None" if "RandomToken random stagedUploadBytes = Inr token" for q token
    using assms(5) that by blast
next
  fix e assume "r = Inl e" "node_at fs' = node_at fs1"
  then show ?thesis by simp
next
  fix q token nd
  let ?c = "partial_name filename token"
  let ?a = "\<lparr>sa_path = path_render True (q @ [filename]), sa_partial = path_render True (q @ [?c]),
        sa_size = int (length (pt_data file)), sa_checksum = hex_encode (sha256 (pt_data file))\<rparr>"
  assume r: "r = Inr ?a" and q: "real_dir fs1 q" "\<forall>x\<in>set q. normal_name x" and token: "RandomToken random stagedUploadBytes = Inr token"
    and fs': "node_at fs' = (node_at fs1)(q @ [?c] \<mapsto> nd)" and nd: "kind nd = Regular (pt_data file)" "perm nd = octal 6 4 0"
    and src: "pt_err file = None" "int (length (pt_data file)) \<le> maxBytes"
  have names: "normal_name ?c" "normal_name filename" and ne: "?c \<noteq> filename"
    using safe_name_normal [OF assms(4)] partial_normal [OF assms(4) token_chars(1) [OF token]]
    by (simp_all add: partial_name_def stagedUploadMarker_def)
  have fresh: "node_at fs1 (q @ [?c]) = None" using assms(5) token by blast
  have reg: "is_regular nd" using nd by (simp add: is_regular_def)
  note ops = staged_ops [OF q names ne fresh]
  have "node_at (fst (staged_discard fs' ?a)) = node_at fs1"
    using ops(3) [OF fs' reg] fresh by (auto simp: staged_discard_def fs')
  moreover have "case staged_commit synced fs' ?a of (fs'', a', err) \<Rightarrow>
      if is_dir_at fs1 (q @ [filename]) then err \<noteq> None \<and> a' = ?a \<and> fs'' = fs'
      else node_at fs'' = (node_at fs1)(q @ [filename] \<mapsto> nd) \<and> sa_partial a' = [] \<and> (err = None \<longleftrightarrow> synced)"
  proof (cases "is_dir_at fs1 (q @ [filename])")
    case True
    then show ?thesis using ops(4) [OF fs' reg] by (simp add: staged_commit_def)
  next
    case False
    let ?fs2 = "put_node (q @ [filename]) nd (del_node (q @ [?c]) fs')"
    have at: "node_at ?fs2 = (node_at fs1)(q @ [filename] \<mapsto> nd)" using fresh ne by (auto simp: fs')
    have "path_dir (path_render True (q @ [filename])) = path_render True q"
      using q(2) names by (intro path_dir_render) auto
    moreover have "real_dir ?fs2 q" by (rule real_dir_cong [OF _ q(1)]) (auto simp: at)
    then have "\<exists>nd. os_stat ?fs2 (path_render True q) = Inr nd" using q(2) by (rule stat_real_dir)
    ultimately have "syncDirectory synced ?fs2 (path_dir (path_render True (q @ [filename]))) = None \<longleftrightarrow> synced"
      by (auto simp: syncDirectory_def guard_simps split: sum.splits)
    then show ?thesis using ops(4) [OF fs' reg] False at by (simp add: staged_commit_def)
  qed
  ultimately show ?thesis unfolding r sum.case using nd src fs' ne
    by (intro exI [of _ q] exI [of _ "q @ [?c]"] exI [of _ nd] conjI) simp_all
qed

definition demo_random :: "nat \<Rightarrow> bytes result" where "demo_random n = Inr (replicate n (CHR 0x00))"

definition demo_part :: part where
  "demo_part = \<lparr>pt_FormName = ''artifact'', pt_FileName = ''a.tar'', pt_data = ''abc'', pt_err = None\<rparr>"

definition demo_upload :: "fs \<times> stagedArtifact result" where
  "demo_upload = stageSimpleArtifact (\<lambda>b. b) demo_random True demo_proc_root local_fs ''/up'' ''a.tar'' demo_part 8"

definition demo_fs1 :: fs where "demo_fs1 = fst (ensureUploadDir demo_proc_root local_fs ''/up'')"

lemma demo_token: "RandomToken demo_random stagedUploadBytes = Inr (replicate 22 (CHR ''A''))"
proof -
  have "replicate 16 x = [x,x,x,x,x,x,x,x,x,x,x,x,x,x,x,x]" "replicate 22 x = [x,x,x,x,x,x,x,x,x,x,x,x,x,x,x,x,x,x,x,x,x,x]"
    for x :: char by (simp_all add: numeral_eq_Suc)
  moreover have "b64_char 0 = CHR ''A''" by (simp add: b64_char_def b64_alphabet_def)
  ultimately show ?thesis
    by (simp add: RandomToken_def stagedUploadBytes_def demo_random_def url_char_def)
qed

lemma demo_upload_facts:
  "snd (ensureUploadDir demo_proc_root local_fs ''/up'') = None"
  "eval_symlinks demo_fs1 ''/up'' = Inr ''/up''"
  "path_dir (path_join [''/up'', ''a.tar'']) = path_clean ''/up''"
  "safeArtifactName ''a.tar''"
  "is_dir_at demo_fs1 []"
  "snd (os_create_excl demo_proc_root demo_fs1 (path_join [''/up'', ''a.tar''] @ stagedUploadMarker @ replicate 22 (CHR ''A'')) (octal 6 4 0)) = None"
  "map fst demo_fs1 = [[], [''sh''], [''up'']]"
  by code_simp+

lemma demo_upload_ok: "\<exists>fs' a. demo_upload = (fs', Inr a)"
  using demo_upload_facts
  by (auto simp: demo_upload_def stageSimpleArtifact_def demo_fs1_def Let_def demo_token read_limited_def demo_part_def
      split: prod.splits option.splits)

theorem upload_is_all_or_nothing_witness:
  "\<exists>a. snd demo_upload = Inr a \<and> sa_size a = 3 \<and> node_at (fst (staged_discard (fst demo_upload) a)) = node_at demo_fs1"
proof -
  obtain fs' a where up: "demo_upload = (fs', Inr a)" using demo_upload_ok by blast
  have "node_at demo_fs1 (q @ [partial_name ''a.tar'' token]) = None" for q token
  proof -
    have "q @ [partial_name ''a.tar'' token] \<notin> set (map fst demo_fs1)"
      unfolding demo_upload_facts(7) by (auto simp: partial_name_def append_eq_Cons_conv)
    then show ?thesis by (simp add: node_at_def map_of_eq_None_iff)
  qed
  then have "\<exists>q staged package. sa_size a = int (length (pt_data demo_part)) \<and> node_at (fst (staged_discard fs' a)) = node_at demo_fs1"
    using upload_is_all_or_nothing [OF up [unfolded demo_upload_def] demo_fs1_def demo_upload_facts(5,4), of True]
    unfolding sum.case by blast
  then show ?thesis by (simp add: up demo_part_def)
qed

subsection \<open>Recovery removes staged files only\<close>

lemma walk_last:
  "walk n fs cur cs follow = Inr q \<Longrightarrow> \<not> follow \<Longrightarrow> cs \<noteq> [] \<Longrightarrow> normal_name (last cs) \<Longrightarrow> q \<noteq> [] \<and> last q = last cs"
proof (induction n fs cur cs follow rule: walk.induct)
  case (2 n fs cur c cs follow)
  show ?case
  proof (cases "cs = []")
    case True
    then show ?thesis using "2.prems"
      by (auto simp: normal_name_def split: if_splits option.splits node_kind.splits)
  next
    case False
    then show ?thesis using 2
      by (auto split: if_splits option.splits node_kind.splits)
  qed
qed simp

text \<open>One step of the sweep: the entry that is removed is the one that was inspected.\<close>

lemma remove_staged_one:
  assumes "is_abs dir" "normal_name item" "os_lstat fs (path_join [dir, item]) = Inr nd" "is_regular nd"
  obtains p where "os_remove fs (path_join [dir, item]) = (del_node p fs, None)" "node_at fs p = Some nd" "p \<noteq> []" "last p = item"
proof -
  have path: "path_join [dir, item] = path_render True (comps dir @ [item])"
    using assms(1,2) path_join_below [of dir item "[item]"] by (simp add: path_render_def)
  have cf: "clean_form True (comps dir @ [item])" using assms(1,2) comps_form [of dir] by auto
  obtain p where p: "resolve fs (path_join [dir, item]) False = Inr p" "node_at fs p = Some nd"
    using assms(3) by (auto simp: os_lstat_def lookup_path_def split: sum.splits option.splits)
  have "walk max_links fs [] ([] # comps dir @ [item]) False = Inr p"
    using p(1) split_render_abs [OF cf] by (simp add: path resolve_def)
  then have "p \<noteq> [] \<and> last p = item" using walk_last [of max_links fs "[]" "[] # comps dir @ [item]" False p] assms(2) by simp
  moreover have "\<not> is_dir nd" using assms(4) by (auto simp: is_regular_def is_dir_def split: node_kind.splits)
  ultimately show thesis using that p by (simp add: os_remove_def)
qed

definition swept :: "fs \<Rightarrow> fs \<Rightarrow> bool" where
  "swept fs fs' \<longleftrightarrow> (\<forall>p. node_at fs' p = node_at fs p \<or>
     node_at fs' p = None \<and> p \<noteq> [] \<and> isStagedUploadName (last p) \<and> (\<exists>nd. node_at fs p = Some nd \<and> is_regular nd))"

lemma swept_refl [simp]: "swept fs fs" by (simp add: swept_def)

lemma swept_trans: "swept fs fs' \<Longrightarrow> swept fs' fs'' \<Longrightarrow> swept fs fs''"
  unfolding swept_def by (metis option.distinct(1))

lemma swept_dir:
  assumes "swept fs fs'"
  shows "is_dir_at fs' p = is_dir_at fs p"
proof (cases "node_at fs' p = node_at fs p")
  case False
  with assms obtain nd where "node_at fs' p = None" "node_at fs p = Some nd" "is_regular nd" by (metis swept_def)
  then show ?thesis by (auto simp: is_dir_at_def is_regular_def)
qed (simp add: is_dir_at_def)

lemma swept_real_dir: "swept fs fs' \<Longrightarrow> real_dir fs' p = real_dir fs p"
  by (simp add: real_dir_iff swept_dir)

definition plain_names :: "fs \<Rightarrow> bool" where
  "plain_names fs \<longleftrightarrow> (\<forall>p\<in>dom (node_at fs). \<forall>c\<in>set p. slash \<notin> set c)"

lemma swept_plain: "swept fs fs' \<Longrightarrow> plain_names fs \<Longrightarrow> plain_names fs'"
  unfolding swept_def plain_names_def by (metis domIff)

lemma staged_normal: "isStagedUploadName name \<Longrightarrow> slash \<notin> set name \<Longrightarrow> normal_name name"
  using last_index_of_bound [of name stagedUploadMarker]
  by (auto simp: normal_name_def isStagedUploadName_def stagedUploadMarker_def split: option.splits)

lemma sweep_items:
  "is_abs dir \<Longrightarrow> \<forall>item\<in>set items. slash \<notin> set item \<Longrightarrow> swept fs (fst (remove_staged_items dir items fs k))"
proof (induction dir items fs k rule: remove_staged_items.induct)
  case (2 dir item items fs k)
  let ?path = "path_join [dir, item]"
  show ?case
  proof (cases "(\<exists>nd. os_lstat fs ?path = Inr nd \<and> is_regular nd) \<and> isStagedUploadName item")
    case True
    then obtain nd where nd: "os_lstat fs ?path = Inr nd" "is_regular nd" by blast
    have "normal_name item" using True "2.prems"(2) staged_normal by simp
    with remove_staged_one [OF "2.prems"(1) _ nd] obtain p where
      p: "os_remove fs ?path = (del_node p fs, None)" "node_at fs p = Some nd" "p \<noteq> []" "last p = item" by blast
    have one: "swept fs (del_node p fs)" unfolding swept_def using p nd True by auto
    have "swept (del_node p fs) (fst (remove_staged_items dir items (del_node p fs) (Suc k)))"
      using "2.IH" True nd p(1) "2.prems" by simp
    from swept_trans [OF one this] show ?thesis using True nd p(1) by (simp add: Let_def)
  next
    case False
    then show ?thesis using 2 by (auto simp: Let_def split: sum.splits)
  qed
qed simp

lemma children_plain: "plain_names fs \<Longrightarrow> c \<in> set (children fs q) \<Longrightarrow> slash \<notin> set c"
proof -
  assume plain: "plain_names fs" and "c \<in> set (children fs q)"
  then obtain p nd where p: "(p, nd) \<in> set fs" "p \<noteq> []" "c = last p" by (auto simp: children_def)
  then have "p \<in> dom (node_at fs)" using weak_map_of_SomeI [OF p(1)] by (auto simp: domIff node_at_def)
  with plain p show ?thesis by (auto simp: plain_names_def)
qed

lemma sweep_swept:
  "\<forall>dir\<in>set dirs. is_abs dir \<Longrightarrow> plain_names fs \<Longrightarrow> swept fs (fst (removeStagedUploads dirs fs k))"
proof (induction dirs fs k rule: removeStagedUploads.induct)
  case (2 dir dirs fs k)
  show ?case
  proof (cases "os_read_dir fs dir")
    case (Inl e)
    then show ?thesis using 2 by simp
  next
    case (Inr items)
    then have "\<forall>item\<in>set items. slash \<notin> set item"
      using children_plain [OF "2.prems"(2)] by (auto simp: os_read_dir_def split: sum.splits if_splits)
    then have one: "swept fs (fst (remove_staged_items dir items fs k))" using sweep_items "2.prems"(1) by simp
    obtain fs1 k1 where r: "remove_staged_items dir items fs k = (fs1, k1)" by fastforce
    have "swept fs1 (fst (removeStagedUploads dirs fs1 k1))"
      using "2.IH"(2) [OF Inr r [symmetric]] "2.prems"(1) swept_plain [OF one "2.prems"(2)] r by simp
    then show ?thesis using one Inr r by (auto intro: swept_trans)
  qed
qed simp

text \<open>In a real directory every staged file is removed.\<close>

lemma swept_gone: "swept fs fs' \<Longrightarrow> \<not> (\<exists>nd. node_at fs p = Some nd \<and> is_regular nd) \<Longrightarrow> \<not> (\<exists>nd. node_at fs' p = Some nd \<and> is_regular nd)"
  unfolding swept_def by (metis option.distinct(1))

lemma sweep_items_complete:
  assumes "real_dir fs q" "\<forall>x\<in>set q. normal_name x" "\<forall>i\<in>set items. slash \<notin> set i" "item \<in> set items" "isStagedUploadName item"
  shows "\<not> (\<exists>nd. node_at (fst (remove_staged_items (path_render True q) items fs k)) (q @ [item]) = Some nd \<and> is_regular nd)"
  using assms(1,3,4)
proof (induction items arbitrary: fs k)
  case (Cons i items)
  let ?dir = "path_render True q"
  have cfq: "clean_form True q" using assms(2) by simp
  then have dir: "is_abs ?dir" by simp
  obtain fs1 k1 where r: "remove_staged_items ?dir (i # items) fs k = remove_staged_items ?dir items fs1 k1"
    and sw: "swept fs fs1" and gone: "i = item \<Longrightarrow> \<not> (\<exists>nd. node_at fs1 (q @ [item]) = Some nd \<and> is_regular nd)"
  proof (cases "(\<exists>nd. os_lstat fs (path_join [?dir, i]) = Inr nd \<and> is_regular nd) \<and> isStagedUploadName i")
    case True
    then obtain nd where nd: "os_lstat fs (path_join [?dir, i]) = Inr nd" "is_regular nd" by blast
    have n: "normal_name i" using True Cons.prems(2) staged_normal by simp
    have path: "path_join [?dir, i] = path_render True (q @ [i])" using assms(2) n by (intro path_join_name) auto
    have cf: "clean_form True (q @ [i])" using assms(2) n by auto
    have at: "node_at fs (q @ [i]) = Some nd"
      using nd lstat_render [OF cf Cons.prems(1)] by (auto simp: path split: option.splits)
    have "\<not> is_dir nd" using nd(2) by (auto simp: is_regular_def is_dir_def split: node_kind.splits)
    then have rm: "os_remove fs (path_join [?dir, i]) = (del_node (q @ [i]) fs, None)"
      using remove_render [OF cf Cons.prems(1) at] by (simp add: path)
    show thesis
      by (rule that [of "del_node (q @ [i]) fs" "Suc k"]) (use True nd rm at in \<open>auto simp: swept_def Let_def\<close>)
  next
    case False
    show thesis
    proof (rule that [of fs k])
      show "remove_staged_items ?dir (i # items) fs k = remove_staged_items ?dir items fs k"
        using False by (auto simp: Let_def split: sum.splits)
      assume i: "i = item"
      with False assms(5) have no: "\<not> (\<exists>nd. os_lstat fs (path_join [?dir, item]) = Inr nd \<and> is_regular nd)" by simp
      have n: "normal_name item" using staged_normal assms(5) Cons.prems(2) i by simp
      have cf: "clean_form True (q @ [item])" using assms(2) n by auto
      have "path_join [?dir, item] = path_render True (q @ [item])" using assms(2) n by (intro path_join_name) auto
      with no lstat_render [OF cf Cons.prems(1)] show "\<not> (\<exists>nd. node_at fs (q @ [item]) = Some nd \<and> is_regular nd)" by auto
    qed simp
  qed
  have real: "real_dir fs1 q" using Cons.prems(1) sw by (simp add: swept_real_dir)
  show ?case
  proof (cases "item \<in> set items")
    case True
    then show ?thesis using Cons.IH [OF real] Cons.prems(2) unfolding r by simp
  next
    case False
    then have "i = item" using Cons.prems(3) by simp
    have "swept fs1 (fst (remove_staged_items ?dir items fs1 k1))" using sweep_items [OF dir] Cons.prems(2) by simp
    from swept_gone [OF this gone [OF \<open>i = item\<close>]] show ?thesis unfolding r .
  qed
qed simp

lemma read_real_dir:
  assumes "real_dir fs q" "\<forall>x\<in>set q. normal_name x" "q \<noteq> []"
  shows "os_read_dir fs (path_render True q) = Inr (children fs q)"
proof -
  obtain d c where dc: "q = d @ [c]" using assms(3) by (metis append_butlast_last_id)
  have "real_dir fs d" "clean_form True (d @ [c])" "is_dir_at fs q" using assms by (auto simp: dc real_dir_snoc)
  then have "resolve fs (path_render True q) True = Inr q" unfolding dc
    by (intro resolve_render) (auto simp: is_dir_at_def is_symlink_def split: option.splits)
  with \<open>is_dir_at fs q\<close> show ?thesis by (simp add: os_read_dir_def)
qed

lemma sweep_complete:
  assumes "\<forall>dir\<in>set dirs. is_abs dir" "plain_names fs" "path_render True q \<in> set dirs" "real_dir fs q"
    "\<forall>x\<in>set q. normal_name x" "q \<noteq> []" "isStagedUploadName item"
  shows "\<not> (\<exists>nd. node_at (fst (removeStagedUploads dirs fs k)) (q @ [item]) = Some nd \<and> is_regular nd)"
  using assms(1-4)
proof (induction dirs fs k rule: removeStagedUploads.induct)
  case (2 dir dirs fs k)
  show ?case
  proof (cases "dir = path_render True q")
    case True
    obtain fs1 k1 where r: "remove_staged_items dir (children fs q) fs k = (fs1, k1)" by fastforce
    have run: "removeStagedUploads (dir # dirs) fs k = removeStagedUploads dirs fs1 k1"
      using read_real_dir [OF "2.prems"(4) assms(5,6)] r by (simp add: True)
    have plain: "\<forall>i\<in>set (children fs q). slash \<notin> set i" using children_plain [OF "2.prems"(2)] by blast
    have sw: "swept fs fs1" using sweep_items [of dir "children fs q" fs k] plain "2.prems"(1) r by simp
    have "\<not> (\<exists>nd. node_at fs1 (q @ [item]) = Some nd \<and> is_regular nd)"
    proof (cases "item \<in> set (children fs q)")
      case item: True
      then show ?thesis using sweep_items_complete [OF "2.prems"(4) assms(5) plain item assms(7), of k] r True by simp
    next
      case False
      then have "node_at fs (q @ [item]) = None"
        by (force simp: children_def node_at_def map_of_eq_None_iff)
      with swept_gone [OF sw, of "q @ [item]"] show ?thesis by simp
    qed
    moreover have "swept fs1 (fst (removeStagedUploads dirs fs1 k1))"
      using sweep_swept "2.prems"(1) swept_plain [OF sw "2.prems"(2)] by simp
    ultimately show ?thesis using swept_gone unfolding run by blast
  next
    case False
    then have mem: "path_render True q \<in> set dirs" "\<forall>a\<in>set dirs. is_abs a" using "2.prems" by auto
    show ?thesis
    proof (cases "os_read_dir fs dir")
      case (Inl e)
      with "2.IH"(1) [OF Inl mem(2) "2.prems"(2) mem(1) "2.prems"(4)] show ?thesis by simp
    next
      case (Inr items)
      obtain fs1 k1 where r: "remove_staged_items dir items fs k = (fs1, k1)" by fastforce
      have "\<forall>i\<in>set items. slash \<notin> set i"
        using Inr children_plain [OF "2.prems"(2)] by (auto simp: os_read_dir_def split: sum.splits if_splits)
      then have sw: "swept fs fs1" using sweep_items [of dir items fs k] "2.prems"(1) r by simp
      have "real_dir fs1 q" using "2.prems"(4) sw by (simp add: swept_real_dir)
      from "2.IH"(2) [OF Inr r [symmetric] mem(2) swept_plain [OF sw "2.prems"(2)] mem(1) this] show ?thesis by (simp add: Inr r)
    qed
  qed
qed simp


definition demo_sweep_db :: simple_db where
  "demo_sweep_db = initial_db\<lparr>sd_targets := [demo_target]\<rparr>"

definition demo_sweep_fs :: fs where
  "demo_sweep_fs =
     (let d = \<lparr>kind = Directory, perm = octal 7 5 5, setgid = False, sticky = False, uid = 0, gid = 0\<rparr>;
          f = \<lparr>kind = Regular ''x'', perm = octal 6 4 0, setgid = False, sticky = False, uid = 0, gid = 0\<rparr>;
          shop = [''var'', ''lib'', ''releasedock'', ''simple'', ''shop'']
      in [([], d), (take 1 shop, d), (take 2 shop, d), (take 3 shop, d), (take 4 shop, d), (shop, d),
          (shop @ [''a.tar''], f), (shop @ [''a.tar.partial-AAAAAAAAAAAAAAAAAAAAAA''], f)])"


end
