(* ===== verification/Simple_Log.thy ===== *)
theory Simple_Log
  imports Go_Strings Encoding
begin

text \<open>
  The log of a simple run, \<open>src/backend/internal/server/simple.go\<close>: the byte budgets of the command and of the
  server's own lines, the logger that cuts the output of the command into lines, the log download
  and the name it is saved under.

  A logger carries the rows it has stored; whether the database takes an insertion (or the update of the byte
  count) is the argument \<open>db\<close>, asked for each insertion in turn. The order in which \<open>flush\<close> visits the
  streams is an argument too, since Go leaves the order of a map open. The lock of the logger makes every
  operation atomic. The notices are the UTF-8 bytes of the Korean text.
\<close>

subsection \<open>Budgets\<close>

definition maxSimpleRunLogBytes :: int where "maxSimpleRunLogBytes = 8 * 2 ^ 20"

definition maxSimpleRunSystemLogBytes :: int where "maxSimpleRunSystemLogBytes = 64 * 2 ^ 10"

definition streamSystem :: string where "streamSystem = ''system''"

record logBudget =
  lb_command :: int
  lb_system :: int

definition newLogBudget :: logBudget where
  "newLogBudget = \<lparr>lb_command = maxSimpleRunLogBytes, lb_system = maxSimpleRunSystemLogBytes\<rparr>"

definition emptyLineCost :: int where "emptyLineCost = 1"

definition budget_left :: "logBudget \<Rightarrow> string \<Rightarrow> int" where
  "budget_left b stream = (if stream = streamSystem then lb_system b else lb_command b)"

definition set_left :: "logBudget \<Rightarrow> string \<Rightarrow> int \<Rightarrow> logBudget" where
  "set_left b stream n = (if stream = streamSystem then b\<lparr>lb_system := n\<rparr> else b\<lparr>lb_command := n\<rparr>)"

text \<open>The new budget, the bytes allowed, whether the line is stored, whether the command budget ended.\<close>

definition budget_take :: "logBudget \<Rightarrow> string \<Rightarrow> int \<Rightarrow> logBudget \<times> int \<times> bool \<times> bool" where
  "budget_take b stream size' =
     (let remaining = budget_left b stream
      in if remaining \<le> 0 then (b, 0, False, False)
         else
           let sz = max 0 size';
               charge = min (if sz = 0 then emptyLineCost else sz) remaining
           in (set_left b stream (remaining - charge), if sz > 0 then charge else 0, True,
               stream \<noteq> streamSystem \<and> remaining - charge = 0))"

subsection \<open>Lines\<close>

definition RuneStart :: "char \<Rightarrow> bool" where "RuneStart c \<longleftrightarrow> \<not> cont_byte c"

text \<open>The walk back of \<open>trimToRuneBoundary\<close>: at most \<open>n\<close> steps.\<close>

fun walk_back :: "nat \<Rightarrow> bytes \<Rightarrow> nat \<Rightarrow> nat" where
  "walk_back 0 payload allowed = allowed"
| "walk_back (Suc n) payload allowed =
     (if 0 < allowed \<and> \<not> RuneStart (payload ! allowed) then walk_back n payload (allowed - 1) else allowed)"

definition trimToRuneBoundary :: "bytes \<Rightarrow> int \<Rightarrow> bytes" where
  "trimToRuneBoundary payload allowed =
     (if allowed \<ge> int (length payload) then payload
      else take (walk_back 3 payload (nat allowed)) payload)"

definition logCapReachedNotice :: bytes where
  "logCapReachedNotice =
     [CHR 0xEB, CHR 0xA1, CHR 0x9C, CHR 0xEA, CHR 0xB7, CHR 0xB8, CHR 0x20, CHR 0xEC, CHR 0xA0, CHR 0x80, CHR 0xEC,
     CHR 0x9E, CHR 0xA5, CHR 0x20, CHR 0xED, CHR 0x95, CHR 0x9C, CHR 0xEB, CHR 0x8F, CHR 0x84, CHR 0xEC, CHR 0x97,
     CHR 0x90, CHR 0x20, CHR 0xEB, CHR 0x8F, CHR 0x84, CHR 0xEB, CHR 0x8B, CHR 0xAC, CHR 0xED, CHR 0x95, CHR 0x98,
     CHR 0xEC, CHR 0x97, CHR 0xAC, CHR 0x20, CHR 0xEC, CHR 0x9D, CHR 0xB4, CHR 0xED, CHR 0x9B, CHR 0x84, CHR 0x20,
     CHR 0xEB, CHR 0xAA, CHR 0x85, CHR 0xEB, CHR 0xA0, CHR 0xB9, CHR 0x20, CHR 0xEC, CHR 0xB6, CHR 0x9C, CHR 0xEB,
     CHR 0xA0, CHR 0xA5, CHR 0xEC, CHR 0x9D, CHR 0x80, CHR 0x20, CHR 0xEA, CHR 0xB8, CHR 0xB0, CHR 0xEB, CHR 0xA1,
     CHR 0x9D, CHR 0xED, CHR 0x95, CHR 0x98, CHR 0xEC, CHR 0xA7, CHR 0x80, CHR 0x20, CHR 0xEC, CHR 0x95, CHR 0x8A,
     CHR 0xEC, CHR 0x8A, CHR 0xB5, CHR 0xEB, CHR 0x8B, CHR 0x88, CHR 0xEB, CHR 0x8B, CHR 0xA4]"

record log_db =
  db_insert :: "nat \<Rightarrow> bool"
  db_count :: "nat \<Rightarrow> bool"

record simpleRunLogger =
  lg_budget :: logBudget
  lg_pending :: "string \<Rightarrow> bytes"
  lg_rows :: "(string \<times> bytes) list"
  lg_bytes :: int
  lg_tries :: nat

definition new_logger :: simpleRunLogger where
  "new_logger = \<lparr>lg_budget = newLogBudget, lg_pending = (\<lambda>_. []), lg_rows = [], lg_bytes = 0, lg_tries = 0\<rparr>"

text \<open>The statements that store one line.\<close>

definition store_line :: "log_db \<Rightarrow> string \<Rightarrow> bytes \<Rightarrow> simpleRunLogger \<Rightarrow> simpleRunLogger" where
  "store_line db stream payload l =
     l\<lparr>lg_rows := lg_rows l @ [(stream, payload)], lg_tries := Suc (lg_tries l),
       lg_bytes := lg_bytes l + (if db_count db (lg_tries l) then int (length payload) else 0)\<rparr>"

lemma budget_take_exhausted: "budget_take b stream n = (b', allowed, store, True) \<Longrightarrow> stream \<noteq> streamSystem"
  by (auto simp: budget_take_def Let_def split: if_splits)

function logger_append :: "log_db \<Rightarrow> simpleRunLogger \<Rightarrow> string \<Rightarrow> bytes \<Rightarrow> simpleRunLogger" where
  "logger_append db l stream payload =
     (case budget_take (lg_budget l) stream (int (length payload)) of
        (b, allowed, store, exhausted) \<Rightarrow>
          let l1 = l\<lparr>lg_budget := b\<rparr>
          in if \<not> store then l1
             else if \<not> db_insert db (lg_tries l1) then l1\<lparr>lg_tries := Suc (lg_tries l1)\<rparr>
             else
               let l2 = store_line db stream (trimToRuneBoundary payload allowed) l1
               in if exhausted then logger_append db l2 streamSystem logCapReachedNotice else l2)"
  by pat_completeness auto
termination
  by (relation "measure (\<lambda>(db, l, stream, payload). if stream = streamSystem then 0 else 1)")
    (auto dest: budget_take_exhausted [OF sym])

declare logger_append.simps [simp del]

definition logger_system :: "log_db \<Rightarrow> simpleRunLogger \<Rightarrow> bytes \<Rightarrow> simpleRunLogger" where
  "logger_system db l message = logger_append db l streamSystem message"

definition indexByte :: "bytes \<Rightarrow> char \<Rightarrow> nat option" where
  "indexByte data target = index_where (\<lambda>b. b = target) data"

definition trimCR :: "bytes \<Rightarrow> bytes" where
  "trimCR data = (if data \<noteq> [] \<and> last data = CHR 0x0D then butlast data else data)"

text \<open>The loop of \<open>write\<close>: every complete line is appended; the rest of the buffer is returned.\<close>

function write_lines :: "log_db \<Rightarrow> simpleRunLogger \<Rightarrow> string \<Rightarrow> bytes \<Rightarrow> simpleRunLogger \<times> bytes" where
  "write_lines db l stream buffer =
     (case indexByte buffer (CHR 0x0A) of
        None \<Rightarrow> (l, buffer)
      | Some i \<Rightarrow> write_lines db (logger_append db l stream (trimCR (take i buffer))) stream (drop (Suc i) buffer))"
  by pat_completeness auto
termination
  by (relation "measure (\<lambda>(db, l, stream, buffer). length buffer)") (auto simp: indexByte_def index_where_Some)

declare write_lines.simps [simp del]

definition line_limit :: nat where "line_limit = 64 * 2 ^ 10"

definition logger_write :: "log_db \<Rightarrow> simpleRunLogger \<Rightarrow> string \<Rightarrow> bytes \<Rightarrow> simpleRunLogger" where
  "logger_write db l stream chunk =
     (case write_lines db l stream (lg_pending l stream @ chunk) of
        (l1, buffer) \<Rightarrow>
          if length buffer > line_limit
          then (logger_append db l1 stream buffer)\<lparr>lg_pending := (lg_pending l1)(stream := [])\<rparr>
          else l1\<lparr>lg_pending := (lg_pending l1)(stream := buffer)\<rparr>)"

fun logger_flush :: "log_db \<Rightarrow> simpleRunLogger \<Rightarrow> string list \<Rightarrow> simpleRunLogger" where
  "logger_flush db l [] = l"
| "logger_flush db l (stream # order) =
     logger_flush db
       ((if lg_pending l stream \<noteq> [] then logger_append db l stream (lg_pending l stream) else l)
        \<lparr>lg_pending := (lg_pending l)(stream := [])\<rparr>) order"

subsection \<open>Download\<close>

definition simpleRunLogTruncatedNotice :: bytes where
  "simpleRunLogTruncatedNotice =
     [CHR 0x5B, CHR 0x72, CHR 0x65, CHR 0x6C, CHR 0x65, CHR 0x61, CHR 0x73, CHR 0x65, CHR 0x64, CHR 0x6F, CHR 0x63,
     CHR 0x6B, CHR 0x5D, CHR 0x20, CHR 0xEB, CHR 0xA1, CHR 0x9C, CHR 0xEA, CHR 0xB7, CHR 0xB8, CHR 0xEB, CHR 0xA5,
     CHR 0xBC, CHR 0x20, CHR 0xEB, CHR 0x81, CHR 0x9D, CHR 0xEA, CHR 0xB9, CHR 0x8C, CHR 0xEC, CHR 0xA7, CHR 0x80,
     CHR 0x20, CHR 0xEC, CHR 0x9D, CHR 0xBD, CHR 0xEC, CHR 0xA7, CHR 0x80, CHR 0x20, CHR 0xEB, CHR 0xAA, CHR 0xBB,
     CHR 0xED, CHR 0x95, CHR 0xB4, CHR 0x20, CHR 0xEC, CHR 0x9D, CHR 0xB4, CHR 0x20, CHR 0xED, CHR 0x8C, CHR 0x8C,
     CHR 0xEC, CHR 0x9D, CHR 0xBC, CHR 0xEC, CHR 0x9D, CHR 0x80, CHR 0x20, CHR 0xEC, CHR 0x9E, CHR 0x98, CHR 0xEB,
     CHR 0xA0, CHR 0xA4, CHR 0x20, CHR 0xEC, CHR 0x9E, CHR 0x88, CHR 0xEC, CHR 0x8A, CHR 0xB5, CHR 0xEB, CHR 0x8B,
     CHR 0x88, CHR 0xEB, CHR 0x8B, CHR 0xA4, CHR 0x3A, CHR 0x20]"

text \<open>The rows as they are read: a row, or the error of scanning it; then the error of the whole query.\<close>

fun writeSimpleRunLog :: "(string \<times> bytes) result list \<Rightarrow> error option \<Rightarrow> bytes" where
  "writeSimpleRunLog [] err =
     (case err of None \<Rightarrow> [] | Some e \<Rightarrow> simpleRunLogTruncatedNotice @ error_text e @ [CHR 0x0A])"
| "writeSimpleRunLog (Inl e # rows) err = simpleRunLogTruncatedNotice @ error_text e @ [CHR 0x0A]"
| "writeSimpleRunLog (Inr (stream, payload) # rows) err =
     (if stream = ''stderr'' then ''[stderr] '' else []) @ payload @ [CHR 0x0A] @ writeSimpleRunLog rows err"

definition safe_rune :: "string \<Rightarrow> bool" where
  "safe_rune r \<longleftrightarrow> (case r of [c] \<Rightarrow> is_lower c \<or> is_upper c \<or> is_digit c \<or> c = CHR ''.'' \<or> c = CHR ''_'' | _ \<Rightarrow> False)"

text \<open>The loop over the runes of the value; a rune beyond ASCII is one of several bytes.\<close>

fun sanitize_loop :: "nat \<Rightarrow> bool \<Rightarrow> string list \<Rightarrow> string list \<Rightarrow> string list" where
  "sanitize_loop limit keepUnicode out [] = out"
| "sanitize_loop limit keepUnicode out (r # rs) =
     (let safe = safe_rune r \<or> keepUnicode \<and> length r > 1
      in if \<not> safe \<and> out \<noteq> [] \<and> last out = ''-'' then sanitize_loop limit keepUnicode out rs
         else
           let out' = out @ [if safe then r else ''-'']
           in if length out' \<ge> limit then out' else sanitize_loop limit keepUnicode out' rs)"

definition sanitizeNameSegment :: "string \<Rightarrow> nat \<Rightarrow> bool \<Rightarrow> string" where
  "sanitizeNameSegment value' limit keepUnicode =
     trim_cut (concat (sanitize_loop limit keepUnicode [] (utf8_runes value'))) ''-.''"

definition runLogDownloadName :: "string \<Rightarrow> string \<Rightarrow> string \<Rightarrow> bool \<Rightarrow> string" where
  "runLogDownloadName filename status runID keepUnicode =
     (let name = sanitizeNameSegment filename 60 keepUnicode;
          outcome = sanitizeNameSegment status 16 False;
          i = sanitizeNameSegment runID 40 False
      in join_with ''-'' ([''releasedock''] @ (if name \<noteq> [] then [name] else []) @
           (if outcome \<noteq> [] then [outcome] else []) @ [if i = [] then ''run'' else i]) @ ''.log'')"

definition percent_hex :: "nat \<Rightarrow> char" where "percent_hex n = to_upper_char (hex_char n)"

definition unreserved :: "char \<Rightarrow> bool" where
  "unreserved b \<longleftrightarrow> is_lower b \<or> is_upper b \<or> is_digit b \<or> b = CHR ''.'' \<or> b = CHR ''_'' \<or> b = CHR ''-''"

definition encodeExtendedHeaderValue :: "string \<Rightarrow> string" where
  "encodeExtendedHeaderValue value' =
     concat (map (\<lambda>b. if unreserved b then [b] else [CHR ''%'', percent_hex (of_char b div 16), percent_hex (of_char b mod 16)]) value')"

text \<open>\<open>%q\<close> puts a name of safe characters between quotes as it is.\<close>

definition runLogDisposition :: "string \<Rightarrow> string \<Rightarrow> string \<Rightarrow> string" where
  "runLogDisposition filename status runID =
     ''attachment; filename='' @ [CHR 0x22] @ runLogDownloadName filename status runID False @ [CHR 0x22] @
     ''; filename*=UTF-8'' @ [CHR 0x27, CHR 0x27] @ encodeExtendedHeaderValue (runLogDownloadName filename status runID True)"

subsection \<open>Events\<close>

text \<open>What happens to a logger during a run: output of the command, a line of the server, a flush.\<close>

datatype log_event = Output string bytes | Message bytes | Flush "string list"

fun logger_event :: "log_db \<Rightarrow> log_event \<Rightarrow> simpleRunLogger \<Rightarrow> simpleRunLogger" where
  "logger_event db (Output stream chunk) l = logger_write db l stream chunk"
| "logger_event db (Message m) l = logger_system db l m"
| "logger_event db (Flush order) l = logger_flush db l order"

text \<open>An invariant of the stored rows and the budget, kept by the three things that an appended line can do.\<close>

locale logger_invariant =
  fixes inv :: "simpleRunLogger \<Rightarrow> bool"
  assumes dropped: "inv l \<Longrightarrow> budget_take (lg_budget l) stream (int (length p)) = (b, n, store, ex) \<Longrightarrow> inv (l\<lparr>lg_budget := b\<rparr>)"
    and stored: "inv l \<Longrightarrow> budget_take (lg_budget l) stream (int (length p)) = (b, n, True, ex) \<Longrightarrow>
       inv (store_line db stream (trimToRuneBoundary p n) (l\<lparr>lg_budget := b\<rparr>))"
    and tried: "inv l \<Longrightarrow> inv (l\<lparr>lg_tries := k\<rparr>)"
    and pending: "inv l \<Longrightarrow> inv (l\<lparr>lg_pending := f\<rparr>)"
begin

lemma keeps_append: "inv l \<Longrightarrow> inv (logger_append db l stream p)"
proof (induction db l stream p rule: logger_append.induct)
  case (1 db l stream p)
  obtain b n store ex where t: "budget_take (lg_budget l) stream (int (length p)) = (b, n, store, ex)"
    by (cases "budget_take (lg_budget l) stream (int (length p))") auto
  have d: "inv (l\<lparr>lg_budget := b\<rparr>)" using dropped [OF "1.prems" t] .
  show ?case
  proof (cases "store \<and> db_insert db (lg_tries l)")
    case True
    with stored [OF "1.prems"] t
    have s: "inv (store_line db stream (trimToRuneBoundary p n) (l\<lparr>lg_budget := b\<rparr>))" by simp
    show ?thesis
      using s True "1.IH" [OF t [symmetric] refl refl refl _ _ refl]
      by (simp add: logger_append.simps [of db l stream p] t Let_def)
  next
    case False
    then show ?thesis using d tried [OF d] by (auto simp: logger_append.simps [of db l stream p] t Let_def)
  qed
qed

lemma keeps_lines: "inv l \<Longrightarrow> inv (fst (write_lines db l stream buffer))"
proof (induction db l stream buffer rule: write_lines.induct)
  case (1 db l stream buffer)
  then show ?case
    by (cases "indexByte buffer (CHR 0x0A)") (simp_all add: write_lines.simps [of db l stream buffer] keeps_append)
qed

lemma keeps_flush: "inv l \<Longrightarrow> inv (logger_flush db l order)"
  by (induction db l order rule: logger_flush.induct) (simp_all add: keeps_append pending)

lemma keeps_event: "inv l \<Longrightarrow> inv (logger_event db e l)"
proof (cases e)
  case (Output stream chunk)
  assume "inv l"
  then have "inv (fst (write_lines db l stream (lg_pending l stream @ chunk)))" by (rule keeps_lines)
  then show ?thesis
    by (auto simp: Output logger_write_def keeps_append pending split: prod.split)
qed (simp_all add: logger_system_def keeps_append keeps_flush)

lemma always: "inv l \<Longrightarrow> inv (fold (logger_event db) es l)"
  by (induction es arbitrary: l) (simp_all add: keeps_event)

end

subsection \<open>Storage\<close>

definition rows_of :: "bool \<Rightarrow> (string \<times> bytes) list \<Rightarrow> bytes list" where
  "rows_of own rows = map snd (filter (\<lambda>(stream, _). (stream = streamSystem) = own) rows)"

definition row_bytes :: "bytes list \<Rightarrow> int" where
  "row_bytes ps = (\<Sum>p\<leftarrow>ps. int (length p))"

text \<open>What is stored, and as many rows as are stored, has been paid for.\<close>

definition paid :: "int \<Rightarrow> int \<Rightarrow> bytes list \<Rightarrow> bool" where
  "paid cap left ps \<longleftrightarrow> 0 \<le> left \<and> row_bytes ps + left \<le> cap \<and> int (length ps) + left \<le> cap"

definition accounted :: "simpleRunLogger \<Rightarrow> bool" where
  "accounted l \<longleftrightarrow>
     paid maxSimpleRunSystemLogBytes (lb_system (lg_budget l)) (rows_of True (lg_rows l)) \<and>
     paid maxSimpleRunLogBytes (lb_command (lg_budget l)) (rows_of False (lg_rows l))"

lemma walk_back_le: "walk_back n p k \<le> k"
  by (induction n p k rule: walk_back.induct) auto

lemma length_trim: "0 \<le> n \<Longrightarrow> int (length (trimToRuneBoundary p n)) \<le> n"
  using walk_back_le [of 3 p "nat n"] by (auto simp: trimToRuneBoundary_def min_def)

lemma budget_take_cases:
  assumes "budget_take b stream (int n) = (b', allowed, store, ex)" "0 \<le> lb_command b" "0 \<le> lb_system b"
  shows "0 \<le> allowed \<and> lb_command b' \<ge> 0 \<and> lb_system b' \<ge> 0 \<and>
    lb_command b' \<le> lb_command b \<and> lb_system b' \<le> lb_system b \<and>
    (store \<longrightarrow> (if stream = streamSystem
       then lb_command b' = lb_command b \<and> lb_system b' \<le> lb_system b - allowed \<and> lb_system b' \<le> lb_system b - 1
       else lb_system b' = lb_system b \<and> lb_command b' \<le> lb_command b - allowed \<and> lb_command b' \<le> lb_command b - 1))"
  using assms by (auto simp: budget_take_def Let_def budget_left_def set_left_def emptyLineCost_def split: if_splits)

interpretation accounting: logger_invariant accounted
proof
  fix l stream and p :: bytes and b n store ex
  assume "accounted l" "budget_take (lg_budget l) stream (int (length p)) = (b, n, store, ex)"
  then show "accounted (l\<lparr>lg_budget := b\<rparr>)"
    using budget_take_cases [of "lg_budget l" stream "length p" b n store ex]
    by (simp add: accounted_def paid_def)
next
  fix l stream and p :: bytes and b n ex db
  assume a: "accounted l" and t: "budget_take (lg_budget l) stream (int (length p)) = (b, n, True, ex)"
  have "0 \<le> lb_command (lg_budget l)" "0 \<le> lb_system (lg_budget l)" using a by (simp_all add: accounted_def paid_def)
  note c = budget_take_cases [OF t this]
  have "int (length (trimToRuneBoundary p n)) \<le> n" using c by (intro length_trim) simp
  then show "accounted (store_line db stream (trimToRuneBoundary p n) (l\<lparr>lg_budget := b\<rparr>))"
    using a c by (cases "stream = streamSystem")
      (simp_all add: accounted_def paid_def store_line_def rows_of_def row_bytes_def)
qed (simp_all add: accounted_def)

text \<open>
  C38 (simple_log_is_bounded): whatever a command prints, however its output is cut into writes, whatever the
  server adds and whichever insertions the database refuses: the log of a run holds at most 8 MiB of
  command output in at most as many rows, and at most 64 KiB of the server's own lines.
\<close>

theorem simple_log_is_bounded:
  "let rows = lg_rows (fold (logger_event db) es new_logger)
   in row_bytes (rows_of False rows) \<le> 8 * 2 ^ 20 \<and> length (rows_of False rows) \<le> 8 * 2 ^ 20 \<and>
      row_bytes (rows_of True rows) \<le> 64 * 2 ^ 10 \<and> length (rows_of True rows) \<le> 64 * 2 ^ 10"
proof -
  have "accounted new_logger"
    by (simp add: accounted_def paid_def new_logger_def newLogBudget_def rows_of_def row_bytes_def
        maxSimpleRunLogBytes_def maxSimpleRunSystemLogBytes_def)
  then have "accounted (fold (logger_event db) es new_logger)" by (rule accounting.always)
  then show ?thesis
    by (simp add: accounted_def paid_def Let_def maxSimpleRunLogBytes_def maxSimpleRunSystemLogBytes_def)
qed

subsection \<open>Lines do not depend on the writes\<close>

lemma append_pending:
  "logger_append db (l\<lparr>lg_pending := f\<rparr>) stream p = (logger_append db l stream p)\<lparr>lg_pending := f\<rparr> \<and>
   lg_pending (logger_append db l stream p) = lg_pending l"
proof (induction db l stream p rule: logger_append.induct)
  case (1 db l stream p)
  obtain b n store ex where t: "budget_take (lg_budget l) stream (int (length p)) = (b, n, store, ex)"
    by (cases "budget_take (lg_budget l) stream (int (length p))") auto
  have *: "store_line db stream q (l\<lparr>lg_pending := f, lg_budget := b\<rparr>) = (store_line db stream q (l\<lparr>lg_budget := b\<rparr>))\<lparr>lg_pending := f\<rparr>"
    "lg_pending (store_line db stream q (l\<lparr>lg_budget := b\<rparr>)) = lg_pending l" for q
    by (simp_all add: store_line_def)
  show ?case
    using "1.IH" [OF t [symmetric] refl refl refl _ _ refl]
    by (cases "store \<and> db_insert db (lg_tries l) \<and> ex")
      (auto simp: logger_append.simps [of db l stream p] logger_append.simps [of db "l\<lparr>lg_pending := f\<rparr>" stream p] t Let_def *)
qed

lemmas append_pending_simps [simp] = append_pending [THEN conjunct1] append_pending [THEN conjunct2]

definition append_lines :: "log_db \<Rightarrow> string \<Rightarrow> bytes list \<Rightarrow> simpleRunLogger \<Rightarrow> simpleRunLogger" where
  "append_lines db stream ps l = fold (\<lambda>p l. logger_append db l stream p) ps l"

lemma append_lines_pending [simp]:
  "append_lines db stream ps (l\<lparr>lg_pending := f\<rparr>) = (append_lines db stream ps l)\<lparr>lg_pending := f\<rparr>"
  "lg_pending (append_lines db stream ps l) = lg_pending l"
  by (induction ps arbitrary: l) (simp_all add: append_lines_def)

lemma append_lines_append: "append_lines db stream (ps @ qs) l = append_lines db stream qs (append_lines db stream ps l)"
  by (simp add: append_lines_def)

abbreviation newline :: char where "newline \<equiv> CHR 0x0A"

lemma split_char_app:
  "split_char c (a @ b) = butlast (split_char c a) @ split_char c (last (split_char c a) @ b)"
proof (induction a)
  case (Cons x a)
  then show ?case by (cases "split_char c a") (auto split: if_splits list.splits)
qed simp

text \<open>Without the limit on a line, the loop of \<open>write\<close> splits at the newlines.\<close>

lemma write_lines_split:
  "write_lines db l stream buffer =
     (append_lines db stream (map trimCR (butlast (split_char newline buffer))) l, last (split_char newline buffer))"
proof (induction db l stream buffer rule: write_lines.induct)
  case (1 db l stream buffer)
  show ?case
  proof (cases "indexByte buffer newline")
    case None
    then have "newline \<notin> set buffer" by (auto simp: indexByte_def index_where_None)
    then show ?thesis by (simp add: write_lines.simps [of db l stream buffer] None split_char_free append_lines_def)
  next
    case (Some i)
    then have i: "i < length buffer" "buffer ! i = newline" "newline \<notin> set (take i buffer)"
      by (auto simp: indexByte_def index_where_Some in_set_conv_nth)
    have "buffer = take i buffer @ newline # drop (Suc i) buffer"
      using i(1,2) id_take_nth_drop by metis
    then have "split_char newline buffer = take i buffer # split_char newline (drop (Suc i) buffer)"
      using split_char_append [OF i(3)] by metis
    then show ?thesis
      using "1.IH" [OF Some] by (simp add: write_lines.simps [of db l stream buffer] Some append_lines_def)
  qed
qed

lemma hd_split_char: "c \<notin> set a \<Longrightarrow> length a \<le> length (hd (split_char c (a @ b)))"
proof (induction a)
  case (Cons x a)
  then show ?case by (cases "split_char c (a @ b)") auto
qed simp

lemma last_split_char: "c \<notin> set (last (split_char c s))"
  using split_char_no_sep [of "last (split_char c s)" c s] by simp

lemma writes_split:
  assumes "\<forall>x\<in>set (split_char newline (lg_pending l stream @ concat chunks)). length x \<le> line_limit"
    "newline \<notin> set (lg_pending l stream)"
  shows "fold (\<lambda>c l. logger_write db l stream c) chunks l =
    (append_lines db stream (map trimCR (butlast (split_char newline (lg_pending l stream @ concat chunks)))) l)
      \<lparr>lg_pending := (lg_pending l)(stream := last (split_char newline (lg_pending l stream @ concat chunks)))\<rparr>"
  using assms
proof (induction chunks arbitrary: l)
  case Nil
  then show ?case by (simp add: split_char_free append_lines_def)
next
  case (Cons c cs)
  let ?B = "lg_pending l stream @ c"
  let ?r = "last (split_char newline ?B)"
  have split: "split_char newline (lg_pending l stream @ c @ concat cs) =
      butlast (split_char newline ?B) @ split_char newline (?r @ concat cs)"
    using split_char_app [of newline ?B "concat cs"] by simp
  have "hd (split_char newline (?r @ concat cs)) \<in> set (split_char newline (lg_pending l stream @ concat (c # cs)))"
    by (simp add: split)
  then have "length ?r \<le> line_limit"
    using Cons.prems(1) hd_split_char [OF last_split_char [of newline ?B], of "concat cs"] by fastforce
  then have w: "logger_write db l stream c =
      (append_lines db stream (map trimCR (butlast (split_char newline ?B))) l)\<lparr>lg_pending := (lg_pending l)(stream := ?r)\<rparr>"
    by (simp add: logger_write_def write_lines_split)
  have ih: "\<forall>x\<in>set (split_char newline (?r @ concat cs)). length x \<le> line_limit"
    using Cons.prems by (simp add: split)
  show ?case
    using Cons.IH [of "logger_write db l stream c"] ih last_split_char [of newline ?B]
    by (simp add: w split append_lines_append butlast_append fun_upd_def cong: if_cong)
qed

text \<open>The lines of an output: a carriage return before a newline is dropped, a last line without newline is kept if it is not empty.\<close>

lemma pending_same: "lg_pending x = f \<Longrightarrow> x\<lparr>lg_pending := f\<rparr> = x"
  by (cases x) simp

lemma append_line: "append_lines db stream [p] l = logger_append db l stream p"
  by (simp add: append_lines_def)

definition log_lines :: "bytes \<Rightarrow> bytes list" where
  "log_lines out =
     (let ls = split_char newline out in map trimCR (butlast ls) @ (if last ls = [] then [] else [last ls]))"


definition demo_log_db :: log_db where
  "demo_log_db = \<lparr>db_insert = (\<lambda>_. True), db_count = (\<lambda>_. True)\<rparr>"

definition demo_chunks :: "bytes list" where
  "demo_chunks = [''a'', ''b'' @ [CHR 0x0D], newline # ''cd'']"


subsection \<open>Characters\<close>

definition valid_text :: "bytes \<Rightarrow> bool" where "valid_text s \<longleftrightarrow> concat (utf8_runes s) = s"

text \<open>One encoded character: a first byte and up to three continuation bytes.\<close>

definition encoded_rune :: "bytes \<Rightarrow> bool" where
  "encoded_rune r \<longleftrightarrow> (\<exists>b cs. r = b # cs \<and> RuneStart b \<and> list_all cont_byte cs \<and> length cs \<le> 3)"

lemma take_rune:
  assumes "rune_length s = Some n"
  shows "encoded_rune (take n s) \<and> 1 \<le> n \<and> n \<le> length s"
proof -
  obtain b r where s: "s = b # r" using assms by (cases s) (simp_all add: rune_length_def)
  have b: "RuneStart b" using assms
    by (auto simp: s rune_length_def RuneStart_def cont_byte_def in_range_def split: if_splits)
  have "\<exists>m\<le>3. n = Suc m \<and> m \<le> length r \<and> (\<forall>i<m. cont_byte (r ! i))"
  proof -
    have c: "in_range 0xA0 0xBF x \<Longrightarrow> cont_byte x" "in_range 0x80 0x9F x \<Longrightarrow> cont_byte x"
      "in_range 0x90 0xBF x \<Longrightarrow> cont_byte x" "in_range 0x80 0x8F x \<Longrightarrow> cont_byte x" for x
      by (auto simp: cont_byte_def in_range_def)
    have i2: "(\<forall>i<2. cont_byte (r ! i)) \<longleftrightarrow> cont_byte (r ! 0) \<and> cont_byte (r ! 1)" by (auto simp: less_2_cases_iff)
    have i3: "(\<forall>i<3. cont_byte (r ! i)) \<longleftrightarrow> cont_byte (r ! 0) \<and> cont_byte (r ! 1) \<and> cont_byte (r ! 2)"
      by (auto simp: numeral_3_eq_3 numeral_2_eq_2 less_Suc_eq)
    consider "n = 1" | "n = 2" "1 \<le> length r" "cont_byte (r ! 0)"
      | "n = 3" "2 \<le> length r" "cont_byte (r ! 0)" "cont_byte (r ! 1)"
      | "n = 4" "3 \<le> length r" "cont_byte (r ! 0)" "cont_byte (r ! 1)" "cont_byte (r ! 2)"
      using assms c by (auto simp: s rune_length_def split: if_splits)
    then show ?thesis
    proof cases
      case 1 then show ?thesis by (intro exI [of _ 0]) simp
    next
      case 2 then show ?thesis by (intro exI [of _ 1]) simp
    next
      case 3 then show ?thesis by (intro exI [of _ 2]) (simp add: i2)
    next
      case 4 then show ?thesis by (intro exI [of _ 3]) (simp add: i3)
    qed
  qed
  then obtain m where "m \<le> 3" "n = Suc m" "m \<le> length r" "\<forall>i<m. cont_byte (r ! i)" by blast
  then show ?thesis using b
    by (auto simp: s encoded_rune_def list_all_length)
qed

lemma utf8_runes_encoded:
  "r \<in> set (utf8_runes s) \<Longrightarrow> encoded_rune r"
proof (induction s rule: utf8_runes.induct)
  case (1 s)
  have "encoded_rune [CHR 0xEF, CHR 0xBF, CHR 0xBD]"
    by (simp add: encoded_rune_def RuneStart_def cont_byte_def in_range_def)
  then show ?case
    using "1.prems" "1.IH" take_rune [of s]
    by (subst (asm) utf8_runes.simps) (auto split: if_splits option.splits)
qed

lemma walk_back_rune:
  assumes "RuneStart b" "list_all cont_byte cs" "off \<le> length cs" "off \<le> n"
  shows "walk_back n (x @ (b # cs) @ y) (length x + off) = length x"
  using assms(3,4)
proof (induction off arbitrary: n)
  case 0
  then show ?case by (cases n) (simp_all add: nth_append assms(1))
next
  case (Suc off)
  obtain m where n: "n = Suc m" using Suc.prems(2) by (cases n) simp_all
  have "(x @ (b # cs) @ y) ! (length x + Suc off) = cs ! off"
    using Suc.prems(1) by (simp add: nth_append)
  moreover have "cont_byte (cs ! off)" using assms(2) Suc.prems(1) by (simp add: list_all_length)
  ultimately show ?case using Suc.IH [of m] Suc.prems by (simp add: n RuneStart_def)
qed

text \<open>The character at a position of a text.\<close>

lemma rune_at:
  assumes "n < length (concat rs)"
  shows "\<exists>k off. k < length rs \<and> off < length (rs ! k) \<and> n = length (concat (take k rs)) + off"
  using assms
proof (induction rs arbitrary: n)
  case (Cons r rs)
  show ?case
  proof (cases "n < length r")
    case True
    then show ?thesis by (intro exI [of _ 0] exI [of _ n]) simp
  next
    case False
    then have "n - length r < length (concat rs)" using Cons.prems by simp
    from Cons.IH [OF this] obtain k off
      where "k < length rs" "off < length (rs ! k)" "n - length r = length (concat (take k rs)) + off" by blast
    then show ?thesis using False by (intro exI [of _ "Suc k"] exI [of _ off]) simp
  qed
qed simp

text \<open>
  A line that is cut because the budget ends keeps whole characters: of a valid UTF-8 text, the
  longest sequence of whole characters that fits the allowed bytes.
\<close>

theorem cut_lines_keep_whole_characters:
  assumes "valid_text payload" "0 \<le> allowed" "allowed < int (length payload)"
  shows "\<exists>k < length (utf8_runes payload). trimToRuneBoundary payload allowed = concat (take k (utf8_runes payload)) \<and>
    int (length (concat (take k (utf8_runes payload)))) \<le> allowed \<and>
    allowed < int (length (concat (take (Suc k) (utf8_runes payload))))"
proof -
  let ?rs = "utf8_runes payload"
  have p: "concat ?rs = payload" using assms(1) by (simp add: valid_text_def)
  have "nat allowed < length (concat ?rs)" using assms(2,3) by (simp add: p)
  from rune_at [OF this] obtain k off
    where k: "k < length ?rs" "off < length (?rs ! k)" "nat allowed = length (concat (take k ?rs)) + off" by blast
  obtain b cs where r: "?rs ! k = b # cs" "RuneStart b" "list_all cont_byte cs" "length cs \<le> 3"
    using utf8_runes_encoded [of "?rs ! k" payload] k(1) by (auto simp: encoded_rune_def)
  have split: "payload = concat (take k ?rs) @ (b # cs) @ concat (drop (Suc k) ?rs)"
    using id_take_nth_drop [OF k(1)] r(1) p by (metis concat.simps(2) concat_append)
  have "walk_back 3 payload (nat allowed) = length (concat (take k ?rs))"
    using walk_back_rune [OF r(2,3), of off 3 "concat (take k ?rs)" "concat (drop (Suc k) ?rs)"] k(2,3) r(1,4) split by simp
  then have "trimToRuneBoundary payload allowed = take (length (concat (take k ?rs))) payload"
    using assms(3) by (simp add: trimToRuneBoundary_def)
  also have "\<dots> = concat (take k ?rs)" by (subst split) simp
  finally have "trimToRuneBoundary payload allowed = concat (take k ?rs)" .
  moreover have "length (concat (take (Suc k) ?rs)) = length (concat (take k ?rs)) + length (?rs ! k)"
    using k(1) by (simp add: take_Suc_conv_app_nth)
  ultimately show ?thesis using k assms(2) by (intro exI [of _ k]) auto
qed

theorem cut_lines_keep_whole_characters_witness:
  "trimToRuneBoundary [CHR 0x61, CHR 0xEA, CHR 0xB0, CHR 0x80, CHR 0x62] 3 = ''a''"
proof -
  let ?p = "[CHR 0x61, CHR 0xEA, CHR 0xB0, CHR 0x80, CHR 0x62]"
  have rs: "utf8_runes ?p = [[CHR 0x61], [CHR 0xEA, CHR 0xB0, CHR 0x80], [CHR 0x62]]" by code_simp
  have "valid_text ?p" by (simp add: valid_text_def rs)
  from cut_lines_keep_whole_characters [OF this, of 3]
  obtain k where k: "k < length (utf8_runes ?p)" "trimToRuneBoundary ?p 3 = concat (take k (utf8_runes ?p))"
    "int (length (concat (take k (utf8_runes ?p)))) \<le> 3" "3 < int (length (concat (take (Suc k) (utf8_runes ?p))))"
    by (simp only: list.size) auto
  then have "k \<in> {0, 1, 2}" by (auto simp: rs)
  then show ?thesis using k by (auto simp: rs)
qed

subsection \<open>The name of a download\<close>

lemma sanitize_loop_runes:
  assumes "\<forall>r\<in>set out. r = ''-'' \<or> safe_rune r"
  shows "\<forall>r\<in>set (sanitize_loop limit False out rs). r = ''-'' \<or> safe_rune r"
  using assms by (induction limit False out rs rule: sanitize_loop.induct) (auto simp: Let_def)

lemma sanitize_loop_length:
  assumes "0 < limit" "length out < limit"
  shows "length (sanitize_loop limit keep out rs) \<le> limit"
  using assms by (induction limit keep out rs rule: sanitize_loop.induct) (auto simp: Let_def)

lemma safe_rune_single: "safe_rune r \<Longrightarrow> \<exists>c. r = [c] \<and> unreserved c"
  by (auto simp: safe_rune_def unreserved_def split: list.splits)

lemma set_trim_cut: "set (trim_cut s cs) \<subseteq> set s"
  by (auto simp: trim_cut_def trim_right_cut_def trim_left_cut_def dest!: set_dropWhileD)

lemma length_trim_cut: "length (trim_cut s cs) \<le> length s"
  unfolding trim_cut_def trim_right_cut_def trim_left_cut_def
  by (simp add: order_trans [OF length_dropWhile_le] length_dropWhile_le)

lemma sanitized_plain:
  assumes "0 < limit"
  shows "(\<forall>c\<in>set (sanitizeNameSegment v limit False). unreserved c) \<and> length (sanitizeNameSegment v limit False) \<le> limit"
proof -
  let ?rs = "sanitize_loop limit False [] (utf8_runes v)"
  have rs: "\<forall>r\<in>set ?rs. \<exists>c. r = [c] \<and> unreserved c"
    using sanitize_loop_runes [of "[]" limit "utf8_runes v"] safe_rune_single by (fastforce simp: unreserved_def)
  then have "\<forall>c\<in>set (concat ?rs). unreserved c" by auto
  moreover have "length (concat xs) = length xs" if "\<forall>r\<in>set xs. \<exists>c. r = [c] \<and> unreserved c" for xs :: "string list"
    using that by (induction xs) auto
  ultimately show ?thesis
    using rs set_trim_cut [of "concat ?rs" "''-.''"] length_trim_cut [of "concat ?rs" "''-.''"]
      sanitize_loop_length [of limit "[]" False "utf8_runes v"] assms
    by (fastforce simp: sanitizeNameSegment_def)
qed

lemma length_join_dash: "length (join_with ''-'' xs) \<le> (\<Sum>x\<leftarrow>xs. Suc (length x))"
proof (induction xs)
  case (Cons x xs)
  then show ?case by (cases xs) simp_all
qed simp

lemma download_name_plain:
  "(\<forall>c\<in>set (runLogDownloadName f st i False). unreserved c) \<and> length (runLogDownloadName f st i False) \<le> 138"
proof -
  define a b c where "a = sanitizeNameSegment f 60 False" and "b = sanitizeNameSegment st 16 False"
    and "c = sanitizeNameSegment i 40 False"
  define parts where "parts = [''releasedock''] @ (if a \<noteq> [] then [a] else []) @ (if b \<noteq> [] then [b] else []) @ [if c = [] then ''run'' else c]"
  have name: "runLogDownloadName f st i False = join_with ''-'' parts @ ''.log''"
    by (simp add: runLogDownloadName_def Let_def parts_def a_def b_def c_def)
  have abc: "\<forall>x\<in>set a. unreserved x" "\<forall>x\<in>set b. unreserved x" "\<forall>x\<in>set c. unreserved x"
    "length a \<le> 60" "length b \<le> 16" "length c \<le> 40"
    using sanitized_plain [of 60 f] sanitized_plain [of 16 st] sanitized_plain [of 40 i] by (simp_all add: a_def b_def c_def)
  have lit: "\<forall>x\<in>set ''releasedock''. unreserved x" "\<forall>x\<in>set ''run''. unreserved x" "\<forall>x\<in>set ''.log''. unreserved x"
    by code_simp+
  then have "\<forall>p\<in>set parts. \<forall>x\<in>set p. unreserved x" using abc by (auto simp: parts_def)
  then have "\<forall>x\<in>set (join_with ''-'' parts). unreserved x"
    using set_join_with [of "''-''" parts] by (fastforce simp: unreserved_def)
  moreover have "(\<Sum>x\<leftarrow>parts. Suc (length x)) \<le> 134" using abc(4-6) by (simp add: parts_def)
  ultimately show ?thesis using lit(3) length_join_dash [of parts] by (auto simp: name)
qed

text \<open>Reading the extended form back.\<close>

fun percent_decode :: "string \<Rightarrow> string option" where
  "percent_decode [] = Some []"
| "percent_decode (c # cs) =
     (if c \<noteq> CHR ''%'' then map_option ((#) c) (percent_decode cs)
      else case cs of
             a # b # rest \<Rightarrow>
               (case (hex_value a, hex_value b) of
                  (Some x, Some y) \<Rightarrow> map_option ((#) (char_of (16 * x + y))) (percent_decode rest)
                | _ \<Rightarrow> None)
           | _ \<Rightarrow> None)"

lemma high_nibble: "of_char b div 16 < (16 :: nat)"
  using less_mult_imp_div_less [of "of_char b" 16 16] char_nat_bound [of b] by simp

lemma percent_hex_facts:
  assumes "n < 16"
  shows "hex_value (percent_hex n) = Some n \<and> (is_digit (percent_hex n) \<or> is_upper (percent_hex n))"
proof -
  have "\<forall>n\<in>set [0..<16]. hex_value (percent_hex n) = Some n \<and> (is_digit (percent_hex n) \<or> is_upper (percent_hex n))"
    by code_simp
  then show ?thesis using assms by simp
qed

lemma percent_roundtrip: "percent_decode (encodeExtendedHeaderValue v) = Some v"
proof (induction v)
  case (Cons b v)
  have "of_char b div 16 < (16 :: nat)" by (rule high_nibble)
  moreover have "char_of (16 * (of_char b div 16) + of_char b mod 16 :: nat) = b" by simp
  ultimately show ?case
    using Cons percent_hex_facts [of "of_char b div 16"] percent_hex_facts [of "of_char b mod 16"]
    by (auto simp: encodeExtendedHeaderValue_def unreserved_def is_lower_def is_upper_def is_digit_def)
qed (simp add: encodeExtendedHeaderValue_def)

lemma encoded_chars:
  "c \<in> set (encodeExtendedHeaderValue v) \<Longrightarrow> unreserved c \<or> c = CHR ''%''"
proof -
  have "of_char b div 16 < (16 :: nat)" "of_char b mod 16 < (16 :: nat)" for b by (simp_all add: high_nibble)
  then have "unreserved (percent_hex (of_char b div 16))" "unreserved (percent_hex (of_char b mod 16))" for b
    using percent_hex_facts unfolding unreserved_def by blast+
  then show "c \<in> set (encodeExtendedHeaderValue v) \<Longrightarrow> unreserved c \<or> c = CHR ''%''"
    by (auto simp: encodeExtendedHeaderValue_def split: if_splits)
qed

text \<open>
  The header that names a downloaded log cannot be broken by the names in it: between its
  quotes stand only letters, digits, dots, underscores and dashes (at most 138 of them), and what
  follows decodes to the full name, encoded with the same characters and the percent sign.
\<close>

theorem download_header_is_safe:
  "\<exists>plain ext. runLogDisposition f st i =
      ''attachment; filename='' @ [CHR 0x22] @ plain @ [CHR 0x22] @ ''; filename*=UTF-8'' @ [CHR 0x27, CHR 0x27] @ ext \<and>
    (\<forall>c\<in>set plain. unreserved c) \<and> length plain \<le> 138 \<and> (\<forall>c\<in>set ext. unreserved c \<or> c = CHR ''%'') \<and>
    percent_decode ext = Some (runLogDownloadName f st i True)"
  using download_name_plain [of f st i] encoded_chars percent_roundtrip unfolding runLogDisposition_def by blast

end
