(* ===== verification/Simple_Run.thy ===== *)
theory Simple_Run
  imports Simple_Upload Simple_Log
begin

text \<open>
  The runs of simple mode: the rest of \<open>src/backend/internal/server/simple.go\<close>. \<open>createSimpleRun\<close>
  accepts an upload, \<open>executeSimpleRun\<close> runs the command and the two stages after it, the replication of the
  registry (\<open>runReplication\<close>) and the application deployment (\<open>runAppDeploy\<close>), and \<open>RecoverSimpleRuns\<close>
  closes what a stopped process left open.

  Arguments stand for what is outside: the answers of the Harbor registry (\<open>harbor\<close>), the clock, the operating
  system that runs commands (as for \<open>localexec\<close>), the log table, and what other requests do to the
  database while a command runs. Go's text of a rounded duration is an argument as well, and statements of the
  database that touch a run fail only where their constraints refuse them. The request body limit
  of \<open>MaxBytesReader\<close> shows as the error that ends the multipart stream. Messages are in English.
\<close>

subsection \<open>Slots\<close>

definition maxSimpleConcurrentRuns :: int where "maxSimpleConcurrentRuns = 4"

definition acquireSimpleRun :: "int \<Rightarrow> int \<times> bool" where
  "acquireSimpleRun active = (if active \<ge> maxSimpleConcurrentRuns then (active, False) else (active + 1, True))"

definition releaseSimpleRun :: "int \<Rightarrow> int" where
  "releaseSimpleRun active = (if active > 0 then active - 1 else active)"

subsection \<open>The table of runs\<close>

text \<open>
  Inserting and updating rows. The partial unique index refuses a second run in flight for a target; the trigger
  \<open>guard_simple_run_transition\<close> refuses every update of a terminal row, and with it the statement.
\<close>

definition terminal_run :: "simple_run \<Rightarrow> bool" where
  "terminal_run r \<longleftrightarrow> run_status r = ''SUCCESS'' \<or> run_status r = ''FAILED'' \<or> run_status r = ''TIMEOUT''"

definition insert_run :: "simple_run \<Rightarrow> simple_db \<Rightarrow> simple_db option" where
  "insert_run r d =
     (if run_id r \<in> set (map run_id (sd_runs d)) \<or>
         in_flight r \<and> list_ex (\<lambda>x. run_target_id x = run_target_id r \<and> in_flight x) (sd_runs d)
      then None else Some (d\<lparr>sd_runs := sd_runs d @ [r]\<rparr>))"

definition update_runs :: "(simple_run \<Rightarrow> bool) \<Rightarrow> (simple_run \<Rightarrow> simple_run) \<Rightarrow> simple_db \<Rightarrow> simple_db option" where
  "update_runs hit f d =
     (if list_ex (\<lambda>r. hit r \<and> terminal_run r) (sd_runs d) then None
      else Some (d\<lparr>sd_runs := map (\<lambda>r. if hit r then f r else r) (sd_runs d)\<rparr>))"

definition RecoverSimpleRuns :: "simple_db \<Rightarrow> simple_db" where
  "RecoverSimpleRuns d =
     coalesce (update_runs in_flight
       (\<lambda>r. r\<lparr>run_status := ''FAILED'', run_error := ''the server was restarted: the result of the run is unknown''\<rparr>) d) d"

definition failSimpleRun :: "string \<Rightarrow> string \<Rightarrow> simple_db \<Rightarrow> simple_db" where
  "failSimpleRun runID reason d =
     coalesce (update_runs (\<lambda>r. run_id r = runID \<and> run_status r = ''PENDING'')
       (\<lambda>r. r\<lparr>run_status := ''FAILED'', run_error := reason\<rparr>) d) d"

text \<open>\<open>count(*)\<close> of the packages of the upload that are not deployed; an unreadable count is a yes.\<close>

definition uploadHasFailedPackages :: "bool \<Rightarrow> simple_db \<Rightarrow> string \<Rightarrow> string \<Rightarrow> bool" where
  "uploadHasFailedPackages readable d batchID runID =
     (if \<not> readable then True
      else 0 < length (filter (\<lambda>r. run_batch_id r = batchID \<and> run_id r \<noteq> runID \<and> run_status r \<noteq> ''SUCCESS'') (sd_runs d)))"

definition errSimpleTargetAmbiguous :: error where "errSimpleTargetAmbiguous = Err ''simple target is ambiguous''"

definition resolveSimpleTarget :: "simple_db \<Rightarrow> string \<Rightarrow> simpleTarget result" where
  "resolveSimpleTarget d targetID =
     (if trim_space targetID \<noteq> [] then
        (case filter (\<lambda>t. tr_id t = targetID \<and> listed t) (sd_targets d) of
           [] \<Rightarrow> Inl ErrNoRows | t # _ \<Rightarrow> Inr (scanSimpleTarget t))
      else case filter listed (sd_targets d) of
        [] \<Rightarrow> Inl ErrNoRows
      | [t] \<Rightarrow> Inr (scanSimpleTarget t)
      | _ \<Rightarrow> Inl errSimpleTargetAmbiguous)"

subsection \<open>Accepting an upload\<close>

text \<open>A goroutine that executes an accepted run, with the arguments it was started with.\<close>

record task =
  tk_runID :: string
  tk_command :: resolvedCommand
  tk_args :: "string list"
  tk_artifact :: string
  tk_filename :: string
  tk_checksum :: string
  tk_target :: simpleTarget
  tk_actorID :: string
  tk_batch :: uploadBatch

record simple_server =
  sv_active :: int
  sv_tasks :: "task list"
  sv_fs :: fs
  sv_db :: simple_db

record request =
  rq_targetID :: string
  rq_actorID :: string
  rq_parts :: "(part list \<times> error) result"

text \<open>What the surroundings decide: the random source, the identifier, and whether the disk stores and syncs.\<close>

record upload_env =
  ue_sha256 :: "bytes \<Rightarrow> bytes"
  ue_random :: "nat \<Rightarrow> bytes result"
  ue_newID :: "string result"
  ue_proc :: proc
  ue_stored :: bool
  ue_synced :: bool

definition pending_run ::
  "string \<Rightarrow> simpleTarget \<Rightarrow> string \<Rightarrow> string \<Rightarrow> stagedArtifact \<Rightarrow> resolvedCommand \<Rightarrow> string list \<Rightarrow> uploadBatch \<Rightarrow> simple_run" where
  "pending_run runID target actorID filename staged command args batch =
     \<lparr>run_id = runID, run_target_id = st_ID target, run_actor_id = actorID, run_original_filename = filename,
      run_stored_path = sa_path staged, run_size_bytes = sa_size staged, run_sha256 = sa_checksum staged,
      run_command_source = cmd_Source command, run_command_path = cmd_Path command, run_command_args = args,
      run_timeout_seconds = cmd_Timeout command div seconds 1, run_batch_id = batch_ID batch, run_batch_last = batch_Last batch,
      run_status = ''PENDING'', run_exit_code = None, run_error = [], run_replication_status = stageStatusNone,
      run_replication_execution_id = None, run_replication_error = [], run_app_deploy_status = stageStatusNone,
      run_app_deploy_error = []\<rparr>"

text \<open>The second half: the slot is taken and the package is being uploaded. A reply other than 202 gives the
  slot back and discards what is staged.\<close>

definition createSimpleRun_upload ::
  "upload_env \<Rightarrow> simpleTarget \<Rightarrow> resolvedCommand \<Rightarrow> string \<Rightarrow> string \<Rightarrow> part \<Rightarrow> part list \<Rightarrow> simpleUploadFields \<Rightarrow>
   simple_server \<Rightarrow> simple_server \<times> reply" where
  "createSimpleRun_upload env target command actorID filename file parts form s =
     (case stageSimpleArtifact (ue_sha256 env) (ue_random env) (ue_stored env) (ue_proc env) (sv_fs s) (st_UploadDir target)
             filename file (st_MaxUploadBytes target) of
        (fs1, Inl _) \<Rightarrow> (s\<lparr>sv_fs := fs1, sv_active := releaseSimpleRun (sv_active s)\<rparr>, Reply 400 ''upload_failed'')
      | (fs1, Inr staged) \<Rightarrow>
          let batch = readUploadBatch (fields_value (readSimpleUploadFields parts form));
              rejected = (\<lambda>fs d. s\<lparr>sv_fs := fs, sv_db := d, sv_active := releaseSimpleRun (sv_active s)\<rparr>)
          in case ue_newID env of
            Inl _ \<Rightarrow> (rejected (fst (staged_discard fs1 staged)) (sv_db s), Reply 500 ''id_error'')
          | Inr runID \<Rightarrow>
              let args = expandArgs (cmd_Args command) (sa_path staged)
              in case insert_run (pending_run runID target actorID filename staged command args batch) (sv_db s) of
                None \<Rightarrow> (rejected (fst (staged_discard fs1 staged)) (sv_db s), Reply 409 ''simple_run_active'')
              | Some d \<Rightarrow>
                  (case staged_commit (ue_synced env) fs1 staged of
                     (fs2, staged', Some e) \<Rightarrow>
                       (rejected (fst (staged_discard fs2 staged')) (failSimpleRun runID (error_text e) d), Reply 500 ''upload_failed'')
                   | (fs2, _, None) \<Rightarrow>
                       (s\<lparr>sv_fs := fs2, sv_db := d,
                          sv_tasks := sv_tasks s @ [\<lparr>tk_runID = runID, tk_command = command, tk_args = args,
                            tk_artifact = sa_path staged, tk_filename = filename, tk_checksum = sa_checksum staged,
                            tk_target = target, tk_actorID = actorID, tk_batch = batch\<rparr>]\<rparr>, Reply 202 [])))"

definition createSimpleRun :: "upload_env \<Rightarrow> request \<Rightarrow> simple_server \<Rightarrow> simple_server \<times> reply" where
  "createSimpleRun env r s =
     (case resolveSimpleTarget (sv_db s) (rq_targetID r) of
        Inl e \<Rightarrow> (s, if e = errSimpleTargetAmbiguous then Reply 400 ''target_required''
                     else if e = ErrNoRows then Reply 404 ''not_found'' else Reply 500 ''database_error'')
      | Inr target \<Rightarrow>
          (case resolveCommand (sd_settings (sv_db s)) target of
             Inl _ \<Rightarrow> (s, Reply 409 ''command_not_configured'')
           | Inr command \<Rightarrow>
               if validateCommandFields (sv_fs s) (cmd_Path command) (cmd_Args command) (cmd_Dir command) (cmd_Timeout command div seconds 1) \<noteq> None
               then (s, Reply 409 ''command_not_executable'')
               else case rq_parts r of
                 Inl _ \<Rightarrow> (s, Reply 400 ''invalid_upload'')
               | Inr (parts, fin) \<Rightarrow>
                   (case nextSimpleArtifactPart fin parts [] of
                      (Inl _, _) \<Rightarrow> (s, Reply 400 ''invalid_upload'')
                    | (Inr (file, rest), form) \<Rightarrow>
                        let filename = path_base (trim_space (pt_FileName file)) in
                        if \<not> safeArtifactName filename then (s, Reply 400 ''invalid_filename'')
                        else case acquireSimpleRun (sv_active s) of
                          (active, False) \<Rightarrow> (s\<lparr>sv_active := active\<rparr>, Reply 429 ''simple_run_limit'')
                        | (active, True) \<Rightarrow>
                            createSimpleRun_upload env target command (rq_actorID r) filename file rest form (s\<lparr>sv_active := active\<rparr>))))"

subsection \<open>Replication\<close>

definition replicationTerminal :: "string \<Rightarrow> bool \<times> bool" where
  "replicationTerminal status =
     (let v = to_lower (trim_space status)
      in if v \<in> {''succeed'', ''succeeded'', ''success''} then (True, True)
         else if v \<in> {''failed'', ''error''} then (True, False)
         else if v = ''stopped'' then (True, False)
         else (False, False))"

record replicationExecution =
  rx_ID :: int
  rx_Status :: string
  rx_Total :: int
  rx_Succeed :: int
  rx_Failed :: int
  rx_StatusTx :: string

text \<open>
  The registry as a run sees it: whether it is configured (its name), the identifier of the started execution, and
  the state it reports when it is asked for the \<open>k\<close>-th time. \<open>hb_now\<close> is the clock before the \<open>k\<close>-th
  wait, \<open>hb_cancelled\<close> whether the context ends during it.
\<close>

record harbor =
  hb_registry :: "string \<Rightarrow> string result"
  hb_start :: "int \<Rightarrow> int result"
  hb_execution :: "nat \<Rightarrow> replicationExecution result"
  hb_cancelled :: "nat \<Rightarrow> bool"
  hb_begin :: int
  hb_now :: "nat \<Rightarrow> int"

type_synonym stage_result = "string \<times> int \<times> string"

text \<open>The wait for the execution, with at most \<open>fuel\<close> polls. \<open>show\<close> is the text of a duration.\<close>

fun replication_loop ::
  "(int \<Rightarrow> string) \<Rightarrow> log_db \<Rightarrow> harbor \<Rightarrow> int \<Rightarrow> int \<Rightarrow> nat \<Rightarrow> nat \<Rightarrow> string \<Rightarrow> simpleRunLogger \<Rightarrow> (stage_result \<times> simpleRunLogger) option" where
  "replication_loop show db hb timeout executionID 0 k lastReported l = None"
| "replication_loop show db hb timeout executionID (Suc fuel) k lastReported l =
     (if hb_now hb k > hb_begin hb + timeout then
        let message = ''the replication did not end within '' @ show timeout @ '' (execution '' @ int_text executionID @ '')''
        in Some ((''TIMEOUT'', executionID, message), logger_system db l (''[replication] '' @ message))
      else if hb_cancelled hb k then Some ((''FAILED'', executionID, ''the wait for the replication was cancelled''), l)
      else case hb_execution hb k of
        Inl _ \<Rightarrow> replication_loop show db hb timeout executionID fuel (Suc k) lastReported l
      | Inr execution \<Rightarrow>
          let l1 = (if rx_Status execution \<noteq> lastReported
                    then logger_system db l (''[replication] '' @ rx_Status execution @ '' (succeeded '' @ int_text (rx_Succeed execution) @
                           '' / failed '' @ int_text (rx_Failed execution) @ '' / total '' @ int_text (rx_Total execution) @ '')'')
                    else l)
          in case replicationTerminal (rx_Status execution) of
               (False, _) \<Rightarrow> replication_loop show db hb timeout executionID fuel (Suc k) (rx_Status execution) l1
             | (True, True) \<Rightarrow>
                 Some ((''SUCCESS'', executionID, []), logger_system db l1 (''[replication] succeeded ('' @ show (hb_now hb (Suc k) - hb_begin hb) @ '')''))
             | (True, False) \<Rightarrow>
                 let message = ''the replication ended in the state '' @ rx_Status execution @ '' ('' @ int_text (rx_Failed execution) @ '' failed)'' @
                       (if rx_StatusTx execution \<noteq> [] then '': '' @ rx_StatusTx execution else [])
                 in Some ((''FAILED'', executionID, message), logger_system db l1 (''[replication] '' @ message)))"

definition runReplication ::
  "(int \<Rightarrow> string) \<Rightarrow> log_db \<Rightarrow> nat \<Rightarrow> harbor \<Rightarrow> simpleSettings \<Rightarrow> simpleRunLogger \<Rightarrow> (stage_result \<times> simpleRunLogger) option" where
  "runReplication show db fuel hb cfg l =
     (case hb_registry hb (ReplicationRegistry cfg) of
        Inl e \<Rightarrow>
          let message = ''the registry cannot be used: '' @ error_text e
          in Some ((''FAILED'', 0, message), logger_system db l (''[replication] '' @ message))
      | Inr name \<Rightarrow>
          let label = (if ReplicationPolicy cfg = [] then ''#'' @ int_text (ReplicationPolicyID cfg) else ReplicationPolicy cfg);
              l1 = logger_system db l (''[replication] '' @ name @ '' rule '' @ label @ '' started'')
          in case hb_start hb (ReplicationPolicyID cfg) of
               Inl e \<Rightarrow> Some ((''FAILED'', 0, error_text e), logger_system db l1 (''[replication] failed: '' @ error_text e))
             | Inr executionID \<Rightarrow>
                 if executionID = 0
                 then Some ((''SUCCESS'', 0, []), logger_system db l1 ''[replication] accepted, but without an execution to follow'')
                 else replication_loop show db hb
                        (if seconds (ReplicationTimeout cfg) \<le> 0 then 15 * 60 * seconds 1 else seconds (ReplicationTimeout cfg))
                        executionID fuel 0 [] l1)"

definition stageFailed :: "string \<Rightarrow> bool" where
  "stageFailed status \<longleftrightarrow> status \<noteq> stageStatusNone \<and> status \<noteq> stageStatusSkipped \<and> status \<noteq> stageStatusSuccess"

subsection \<open>Commands\<close>

definition stream_name :: "out_stream \<Rightarrow> string" where
  "stream_name st = (case st of Stdout \<Rightarrow> ''stdout'' | Stderr \<Rightarrow> ''stderr'')"

definition log_output :: "log_db \<Rightarrow> out_event list \<Rightarrow> simpleRunLogger \<Rightarrow> simpleRunLogger" where
  "log_output db out l = fold (\<lambda>(st, chunk) l. logger_write db l (stream_name st) chunk) out l"

text \<open>The surroundings of an execution: the operating system, the log table and the order in which its pending
  lines are flushed, and the text of a duration.\<close>

record 'w run_env =
  re_fs :: "'w \<Rightarrow> fs"
  re_exec :: "'w os_exec"
  re_log :: log_db
  re_order :: "string list"
  re_show :: "int \<Rightarrow> string"

definition command_env :: "string \<Rightarrow> string \<Rightarrow> string \<Rightarrow> (string \<times> string) list \<Rightarrow> string \<Rightarrow> string \<Rightarrow> string \<Rightarrow> string \<Rightarrow> string \<Rightarrow> (string \<times> string) list" where
  "command_env dir runID targetName stage artifact uploadDir filename checksum actorID =
     [(''PATH'', ''/usr/local/sbin:/usr/local/bin:/usr/sbin:/usr/bin:/sbin:/bin''), (''HOME'', dir), (''LANG'', ''C.UTF-8''),
      (''LC_ALL'', ''C.UTF-8''), (''RELEASEDOCK_RUN_ID'', runID), (''RELEASEDOCK_TARGET'', targetName)] @ stage @
     [(''ARTIFACT'', artifact), (''ARTIFACT_DIR'', uploadDir), (''ARTIFACT_NAME'', filename), (''ARTIFACT_SHA256'', checksum),
      (''ACTOR'', actorID)]"

definition runAppDeploy ::
  "'w run_env \<Rightarrow> simpleSettings \<Rightarrow> task \<Rightarrow> 'w \<Rightarrow> simpleRunLogger \<Rightarrow> 'w \<times> (string \<times> string) \<times> simpleRunLogger" where
  "runAppDeploy env cfg t w l =
     (case validateCommandFields (re_fs env w) (AppDeployPath cfg) (AppDeployArgs cfg) (AppDeployDir cfg) (AppDeployTimeout cfg) of
        Some e \<Rightarrow>
          let message = ''the command of the application deployment is not valid: '' @ error_text e
          in (w, (''FAILED'', message), logger_system (re_log env) l (''[app-deploy] '' @ message))
      | None \<Rightarrow>
          let dir = (if AppDeployDir cfg = [] then st_UploadDir (tk_target t) else AppDeployDir cfg);
              args = expandArgs (AppDeployArgs cfg) (tk_artifact t);
              l1 = logger_system (re_log env) l (''[app-deploy] $ '' @ AppDeployPath cfg @ '' '' @ join_with '' '' args)
          in case local_Run (re_fs env) (re_exec env) w
                    \<lparr>lx_Path = AppDeployPath cfg, lx_Args = args, lx_Dir = dir,
                     lx_Env = command_env dir (tk_runID t) (st_Name (tk_target t)) [(''RELEASEDOCK_STAGE'', ''app-deploy'')]
                       (tk_artifact t) (st_UploadDir (tk_target t)) (tk_filename t) (tk_checksum t) (tk_actorID t),
                     lx_Timeout = seconds (AppDeployTimeout cfg)\<rparr> of
               (w', out, result, runErr) \<Rightarrow>
                 let l2 = logger_flush (re_log env) (log_output (re_log env) out l1) (re_order env)
                 in if lr_TimedOut result then
                      let message = ''stopped after '' @ int_text (AppDeployTimeout cfg) @ '' seconds''
                      in (w', (''TIMEOUT'', message), logger_system (re_log env) l2 (''[app-deploy] '' @ message))
                    else (case runErr of
                       Some e \<Rightarrow> (w', (''FAILED'', error_text e), logger_system (re_log env) l2
                         (''[app-deploy] failed exit='' @ int_text (lr_ExitCode result) @ '': '' @ error_text e))
                     | None \<Rightarrow> (w', (''SUCCESS'', []), logger_system (re_log env) l2 (''[app-deploy] succeeded ('' @ re_show env (lr_Duration result) @ '')''))))"

subsection \<open>Executing a run\<close>

record run_outcome =
  ro_status :: string
  ro_exit :: int
  ro_message :: string
  ro_replication_status :: string
  ro_execution_id :: int
  ro_replication_error :: string
  ro_app_status :: string
  ro_app_error :: string

text \<open>The command of the run: its result, and the status and message it gives.\<close>

definition run_command ::
  "'w run_env \<Rightarrow> task \<Rightarrow> 'w \<Rightarrow> simpleRunLogger \<Rightarrow> 'w \<times> run_outcome \<times> simpleRunLogger" where
  "run_command env t w l =
     (let command = tk_command t;
          l1 = logger_system (re_log env) l (''$ '' @ cmd_Path command @ '' '' @ join_with '' '' (tk_args t))
      in case local_Run (re_fs env) (re_exec env) w
                \<lparr>lx_Path = cmd_Path command, lx_Args = tk_args t, lx_Dir = cmd_Dir command,
                 lx_Env = command_env (cmd_Dir command) (tk_runID t) (st_Name (tk_target t)) [] (tk_artifact t)
                   (st_UploadDir (tk_target t)) (tk_filename t) (tk_checksum t) (tk_actorID t),
                 lx_Timeout = cmd_Timeout command\<rparr> of
           (w', out, result, runErr) \<Rightarrow>
             let l2 = logger_flush (re_log env) (log_output (re_log env) out l1) (re_order env);
                 (status, message) =
                   (if lr_TimedOut result then (''TIMEOUT'', ''stopped after the time limit '' @ re_show env (cmd_Timeout command))
                    else case runErr of Some e \<Rightarrow> (''FAILED'', error_text e) | None \<Rightarrow> (''SUCCESS'', []));
                 l3 = logger_system (re_log env) l2 (''exit='' @ int_text (lr_ExitCode result) @ '' status='' @ status @
                        '' duration='' @ re_show env (lr_Duration result))
             in (w', \<lparr>ro_status = status, ro_exit = lr_ExitCode result, ro_message = message,
                      ro_replication_status = stageStatusNone, ro_execution_id = 0, ro_replication_error = [],
                      ro_app_status = stageStatusNone, ro_app_error = []\<rparr>,
                 logger_flush (re_log env) l3 (re_order env)))"

text \<open>The replication of a run that succeeded so far: the outcome, and whether the stage was held back.\<close>

definition replication_stage ::
  "'w run_env \<Rightarrow> harbor \<Rightarrow> nat \<Rightarrow> simpleSettings \<Rightarrow> bool \<Rightarrow> bool \<Rightarrow> run_outcome \<Rightarrow> simpleRunLogger \<Rightarrow> (run_outcome \<times> bool \<times> simpleRunLogger) option" where
  "replication_stage env hb fuel cfg batchLast uploadIncomplete o1 l =
     (let db = re_log env; flushed = (\<lambda>l. logger_flush db l (re_order env)) in
      if ReplicationEnabled cfg \<and> ReplicationRegistry cfg \<noteq> [] \<and> ReplicationPolicyID cfg > 0 then
        if \<not> stageRuns (ReplicationScope cfg) batchLast then
          Some (o1\<lparr>ro_replication_status := stageStatusSkipped\<rparr>, False,
            flushed (logger_system db l ''[replication] once per upload: runs with the last file''))
        else if stageHeldForIncompleteUpload (ReplicationScope cfg) uploadIncomplete then
          Some (o1\<lparr>ro_replication_status := stageStatusSkipped\<rparr>, True,
            flushed (logger_system db l ''[replication] not run: another package of the upload was not deployed''))
        else (case runReplication (re_show env) db fuel hb cfg l of
          None \<Rightarrow> None
        | Some ((status, executionID, failure), l') \<Rightarrow>
            Some (o1\<lparr>ro_replication_status := status, ro_execution_id := executionID, ro_replication_error := failure\<rparr>, False, flushed l'))
      else Some (o1, False, l))"

definition app_deploy_stage ::
  "'w run_env \<Rightarrow> simpleSettings \<Rightarrow> bool \<Rightarrow> bool \<Rightarrow> task \<Rightarrow> run_outcome \<Rightarrow> bool \<Rightarrow> 'w \<Rightarrow> simpleRunLogger \<Rightarrow> 'w \<times> run_outcome \<times> bool \<times> simpleRunLogger" where
  "app_deploy_stage env cfg batchLast uploadIncomplete t o1 replicationHeld w l =
     (let db = re_log env; flushed = (\<lambda>l. logger_flush db l (re_order env)) in
      if stageFailed (ro_replication_status o1) then
        (w, o1\<lparr>ro_status := ''FAILED'', ro_message := ''the command succeeded, but the replication failed: '' @ ro_replication_error o1\<rparr>, False, l)
      else if AppDeployEnabled cfg \<and> AppDeployPath cfg \<noteq> [] then
        if stageHeldForIncompleteUpload (AppDeployScope cfg) uploadIncomplete then
          (w, o1\<lparr>ro_app_status := stageStatusSkipped\<rparr>, True,
            flushed (logger_system db l ''[app-deploy] not run: another package of the upload was not deployed''))
        else if \<not> appDeployStageRuns (AppDeployScope cfg) batchLast (ro_replication_status o1) then
          (w, o1\<lparr>ro_app_status := stageStatusSkipped\<rparr>, False,
            flushed (logger_system db l
              (if replicationHeld then ''[app-deploy] not run: the replication was not run''
               else if ro_replication_status o1 = stageStatusSkipped then ''[app-deploy] the replication runs with the last file, and so does the deployment''
               else ''[app-deploy] once per upload: runs with the last file'')))
        else (case runAppDeploy env cfg t w l of
          (w', (status, failure), l') \<Rightarrow>
            let o2 = o1\<lparr>ro_app_status := status, ro_app_error := failure\<rparr>
            in (w', if stageFailed status
                    then o2\<lparr>ro_status := ''FAILED'', ro_message := ''the command and the replication succeeded, but the application deployment failed: '' @ failure\<rparr>
                    else o2, False, flushed l'))
      else (w, o1, False, l))"

text \<open>From the end of the command to the outcome: \<open>settings\<close> is what \<open>loadSimpleSettings\<close> returns then.\<close>

definition run_stages ::
  "'w run_env \<Rightarrow> harbor \<Rightarrow> nat \<Rightarrow> simpleSettings result \<Rightarrow> bool \<Rightarrow> task \<Rightarrow> run_outcome \<Rightarrow> 'w \<Rightarrow> simpleRunLogger \<Rightarrow>
   ('w \<times> run_outcome \<times> simpleRunLogger) option" where
  "run_stages env hb fuel settings failedPackages t o1 w l =
     (case settings of
        Inl e \<Rightarrow>
          (case outcomeWithoutStageSettings (ro_status o1) (ro_message o1) (Some e) of
             (status, message) \<Rightarrow>
               Some (w, o1\<lparr>ro_status := status, ro_message := message\<rparr>,
                 logger_system (re_log env) l (''[post-deploy] the settings of the stages could not be read: '' @ error_text e)))
      | Inr cfg \<Rightarrow>
          if ro_status o1 \<noteq> ''SUCCESS'' then Some (w, o1, l)
          else
            let last = batch_Last (tk_batch t);
                uploadIncomplete = (batch_ID (tk_batch t) \<noteq> [] \<and> last \<and> failedPackages)
            in (case replication_stage env hb fuel cfg last uploadIncomplete o1 l of
                  None \<Rightarrow> None
                | Some (o2, replicationHeld, l2) \<Rightarrow>
                    (case app_deploy_stage env cfg last uploadIncomplete t o2 replicationHeld w l2 of
                       (w', o3, appDeployHeld, l3) \<Rightarrow>
                         (case outcomeWithHeldStages (ro_status o3) (ro_message o3) (replicationHeld \<or> appDeployHeld) of
                            (status, message) \<Rightarrow> Some (w', o3\<lparr>ro_status := status, ro_message := message\<rparr>, l3)))))"

definition start_run :: "string \<Rightarrow> simple_db \<Rightarrow> simple_db option" where
  "start_run runID = update_runs (\<lambda>r. run_id r = runID \<and> run_status r = ''PENDING'') (\<lambda>r. r\<lparr>run_status := ''RUNNING''\<rparr>)"

definition record_outcome :: "run_outcome \<Rightarrow> simple_run \<Rightarrow> simple_run" where
  "record_outcome out r =
     r\<lparr>run_status := ro_status out, run_exit_code := Some (ro_exit out), run_error := ro_message out,
       run_replication_status := ro_replication_status out, run_replication_execution_id := nullif (ro_execution_id out) 0,
       run_replication_error := ro_replication_error out, run_app_deploy_status := ro_app_status out,
       run_app_deploy_error := ro_app_error out\<rparr>"

lemma record_outcome_simps [simp]:
  "run_status (record_outcome out r) = ro_status out" "run_exit_code (record_outcome out r) = Some (ro_exit out)"
  "run_replication_status (record_outcome out r) = ro_replication_status out"
  "run_app_deploy_status (record_outcome out r) = ro_app_status out"
  "run_id (record_outcome out r) = run_id r" "run_target_id (record_outcome out r) = run_target_id r"
  by (simp_all add: record_outcome_def)

definition finish_run :: "string \<Rightarrow> run_outcome \<Rightarrow> simple_db \<Rightarrow> simple_db" where
  "finish_run runID out d = coalesce (update_runs (\<lambda>r. run_id r = runID) (record_outcome out) d) d"

text \<open>
  The whole run. \<open>meanwhile\<close> is what other requests do to the database while the command runs, \<open>later\<close> while
  the stages do; \<open>settingsErr\<close> and \<open>readable\<close> say whether the two reads in between succeed.
\<close>

definition executeSimpleRun ::
  "'w run_env \<Rightarrow> harbor \<Rightarrow> nat \<Rightarrow> (simple_db \<Rightarrow> simple_db) \<Rightarrow> error option \<Rightarrow> bool \<Rightarrow> (simple_db \<Rightarrow> simple_db) \<Rightarrow> task \<Rightarrow>
   'w \<times> simple_db \<Rightarrow> ('w \<times> simple_db \<times> simpleRunLogger) option" where
  "executeSimpleRun env hb fuel meanwhile settingsErr readable later t = (\<lambda>(w, d).
     case start_run (tk_runID t) d of
       None \<Rightarrow> Some (w, d, new_logger)
     | Some d1 \<Rightarrow>
         (case run_command env t w new_logger of
            (w1, o1, l1) \<Rightarrow>
              let d2 = meanwhile d1;
                  settings = (case settingsErr of Some e \<Rightarrow> Inl e | None \<Rightarrow> Inr (sd_settings d2))
              in (case run_stages env hb fuel settings (uploadHasFailedPackages readable d2 (batch_ID (tk_batch t)) (tk_runID t)) t o1 w1 l1 of
                    None \<Rightarrow> None
                  | Some (w2, out, l2) \<Rightarrow> Some (w2, finish_run (tk_runID t) out (later d2), l2))))"

subsection \<open>Reading\<close>

text \<open>
  The shell a browser shows: the preference of the user, else the default, unless the user lacks the
  permissions for it. \<open>has\<close> is \<open>Principal.Has\<close>.
\<close>

definition uiMode :: "(string \<Rightarrow> bool) \<Rightarrow> simpleSettings \<Rightarrow> string \<Rightarrow> string" where
  "uiMode has cfg preference =
     (let canUseSimple = (has ''simple.deploy'' \<or> has ''simple.read'');
          canUseFull = has ''releases.read'';
          effective = (if preference = ''simple'' \<or> preference = ''full'' then preference else DefaultUIMode cfg);
          effective = (if effective = ''simple'' \<and> \<not> canUseSimple then ''full'' else effective)
      in if effective = ''full'' \<and> \<not> canUseFull \<and> canUseSimple then ''simple'' else effective)"

lemma uiMode_never_strands:
  assumes "DefaultUIMode cfg \<in> {''simple'', ''full''}" "has ''simple.deploy'' \<or> has ''simple.read'' \<or> has ''releases.read''"
  shows "uiMode has cfg preference = ''simple'' \<and> (has ''simple.deploy'' \<or> has ''simple.read'') \<or>
    uiMode has cfg preference = ''full'' \<and> has ''releases.read''"
  using assms by (auto simp: uiMode_def Let_def)

definition canReadEveryRun :: "(string \<Rightarrow> bool) \<Rightarrow> bool" where "canReadEveryRun has \<longleftrightarrow> has ''admin.simple.read''"

definition authorizeRun :: "(string \<Rightarrow> bool) \<Rightarrow> string \<Rightarrow> simple_db \<Rightarrow> string \<Rightarrow> string result" where
  "authorizeRun has userID d runID =
     (case List.find (\<lambda>r. run_id r = runID) (sd_runs d) of
        None \<Rightarrow> Inl ErrNoRows
      | Some r \<Rightarrow>
          if canReadEveryRun has then Inr (run_actor_id r)
          else if run_actor_id r \<noteq> userID then Inl ErrNoRows else Inr (run_actor_id r))"

text \<open>A run of somebody else is answered like one that does not exist.\<close>

lemma authorizeRun_Inr:
  assumes "authorizeRun has userID d runID = Inr a"
  obtains r where "r \<in> set (sd_runs d)" "run_id r = runID" "run_actor_id r = a" "has ''admin.simple.read'' \<or> a = userID"
proof -
  obtain r where r: "List.find (\<lambda>r. run_id r = runID) (sd_runs d) = Some r"
    using assms by (auto simp: authorizeRun_def split: option.splits)
  then have "r \<in> set (sd_runs d)" "run_id r = runID" by (auto simp: find_Some_iff)
  moreover have "run_actor_id r = a" "has ''admin.simple.read'' \<or> a = userID"
    using assms r by (auto simp: authorizeRun_def canReadEveryRun_def split: if_splits)
  ultimately show ?thesis using that by blast
qed

subsection \<open>Stages and outcome\<close>

definition replication_on :: "simpleSettings \<Rightarrow> bool" where
  "replication_on cfg \<longleftrightarrow> ReplicationEnabled cfg \<and> ReplicationRegistry cfg \<noteq> [] \<and> ReplicationPolicyID cfg > 0"

definition app_deploy_on :: "simpleSettings \<Rightarrow> bool" where
  "app_deploy_on cfg \<longleftrightarrow> AppDeployEnabled cfg \<and> AppDeployPath cfg \<noteq> []"

definition finished :: "string \<Rightarrow> bool" where "finished status \<longleftrightarrow> status \<in> {''SUCCESS'', ''FAILED'', ''TIMEOUT''}"

lemma replication_loop_status:
  "replication_loop sh db hb timeout x fuel k lastReported l = Some ((status, i, failure), l') \<Longrightarrow>
     finished status \<and> (status = ''SUCCESS'' \<longrightarrow> (\<exists>j e. hb_execution hb j = Inr e \<and> replicationTerminal (rx_Status e) = (True, True)))"
proof (induction sh db hb timeout x fuel k lastReported l rule: replication_loop.induct)
  case (2 sh db hb timeout x fuel k lastReported l)
  show ?case
  proof (cases "hb_execution hb k")
    case (Inl e)
    then show ?thesis using 2 by (auto simp: finished_def Let_def split: if_splits)
  next
    case (Inr e)
    obtain done' ok where tm: "replicationTerminal (rx_Status e) = (done', ok)" by fastforce
    show ?thesis
    proof (cases done')
      case True
      then show ?thesis using "2.prems" Inr tm
        by (cases ok) (auto simp: finished_def Let_def split: if_splits)
    next
      case False
      then show ?thesis using "2.prems" "2.IH"(2) [OF _ _ Inr refl tm [symmetric]] Inr tm
        by (auto simp: finished_def Let_def split: if_splits)
    qed
  qed
qed simp

lemma runReplication_status:
  "runReplication sh db fuel hb cfg l = Some ((status, i, failure), l') \<Longrightarrow>
     finished status \<and> (status = ''SUCCESS'' \<longrightarrow> hb_start hb (ReplicationPolicyID cfg) = Inr 0 \<or>
       (\<exists>j e. hb_execution hb j = Inr e \<and> replicationTerminal (rx_Status e) = (True, True)))"
  by (auto simp: runReplication_def Let_def finished_def dest: replication_loop_status split: sum.splits if_splits)

lemma finished_failed: "finished status \<Longrightarrow> stageFailed status \<longleftrightarrow> status \<noteq> ''SUCCESS''"
  by (auto simp: finished_def stageFailed_def simple_consts)

lemma replication_stage_outcome:
  assumes "replication_stage env hb fuel cfg batchLast incomplete o1 l = Some (o2, held, l')"
  shows "ro_status o2 = ro_status o1 \<and> ro_message o2 = ro_message o1 \<and> ro_exit o2 = ro_exit o1 \<and> ro_app_status o2 = ro_app_status o1 \<and>
    (if \<not> replication_on cfg then o2 = o1 \<and> \<not> held
     else if \<not> stageRuns (ReplicationScope cfg) batchLast then ro_replication_status o2 = stageStatusSkipped \<and> \<not> held
     else if stageHeldForIncompleteUpload (ReplicationScope cfg) incomplete then ro_replication_status o2 = stageStatusSkipped \<and> held
     else finished (ro_replication_status o2) \<and> \<not> held)"
  using assms
  by (auto simp: replication_stage_def replication_on_def Let_def dest: runReplication_status split: if_splits option.splits)

lemma runAppDeploy_status: "runAppDeploy env cfg t w l = (w', (status, failure), l') \<Longrightarrow> finished status"
  by (auto simp: runAppDeploy_def Let_def finished_def split: option.splits prod.splits if_splits)

lemma app_deploy_stage_outcome:
  assumes "app_deploy_stage env cfg batchLast incomplete t o1 rheld w l = (w', o2, held, l')"
  shows "ro_replication_status o2 = ro_replication_status o1 \<and> ro_exit o2 = ro_exit o1 \<and>
    (if stageFailed (ro_replication_status o1) then ro_status o2 = ''FAILED'' \<and> ro_app_status o2 = ro_app_status o1 \<and> \<not> held
     else if \<not> app_deploy_on cfg then o2 = o1 \<and> \<not> held
     else if stageHeldForIncompleteUpload (AppDeployScope cfg) incomplete
     then ro_app_status o2 = stageStatusSkipped \<and> ro_status o2 = ro_status o1 \<and> held
     else if \<not> appDeployStageRuns (AppDeployScope cfg) batchLast (ro_replication_status o1)
     then ro_app_status o2 = stageStatusSkipped \<and> ro_status o2 = ro_status o1 \<and> \<not> held
     else finished (ro_app_status o2) \<and> \<not> held \<and> ro_status o2 = (if ro_app_status o2 = ''SUCCESS'' then ro_status o1 else ''FAILED''))"
  using assms
  by (auto simp: app_deploy_stage_def app_deploy_on_def Let_def finished_failed dest: runAppDeploy_status
      split: if_splits prod.splits)

lemma run_command_outcome:
  assumes "run_command env t w l = (w', o1, l')"
  shows "finished (ro_status o1) \<and> ro_replication_status o1 = stageStatusNone \<and> ro_app_status o1 = stageStatusNone \<and>
    (ro_status o1 = ''SUCCESS'' \<longrightarrow> ro_exit o1 = 0)"
proof -
  have "lr_ExitCode result = 0" if "local_Run fs_of exec w sp = (w', out, result, None)" for fs_of exec w sp w' out result
    using that by (auto simp: local_Run_def local_outcome_def Let_def split: option.splits sum.splits if_splits prod.splits ctx_state.splits)
  with assms show ?thesis
    by (auto simp: run_command_def Let_def finished_def split: prod.splits if_splits option.splits)
qed

lemma run_stages_split:
  assumes rs: "run_stages env hb fuel (Inr cfg) failedPackages t o1 w l = Some (w', out, l')" "ro_status o1 = ''SUCCESS''"
  obtains o2 rheld l2 w3 o3 aheld l3 where
    "replication_stage env hb fuel cfg (batch_Last (tk_batch t)) (batch_ID (tk_batch t) \<noteq> [] \<and> batch_Last (tk_batch t) \<and> failedPackages) o1 l =
       Some (o2, rheld, l2)"
    "app_deploy_stage env cfg (batch_Last (tk_batch t)) (batch_ID (tk_batch t) \<noteq> [] \<and> batch_Last (tk_batch t) \<and> failedPackages) t o2 rheld w l2 =
       (w3, o3, aheld, l3)"
    "ro_status out = fst (outcomeWithHeldStages (ro_status o3) (ro_message o3) (rheld \<or> aheld))"
    "ro_exit out = ro_exit o3" "ro_replication_status out = ro_replication_status o3" "ro_app_status out = ro_app_status o3"
proof -
  let ?last = "batch_Last (tk_batch t)"
  let ?inc = "batch_ID (tk_batch t) \<noteq> [] \<and> ?last \<and> failedPackages"
  obtain o2 rheld l2 where r: "replication_stage env hb fuel cfg ?last ?inc o1 l = Some (o2, rheld, l2)"
    using rs by (auto simp: run_stages_def Let_def split: option.splits)
  obtain w3 o3 aheld l3 where a: "app_deploy_stage env cfg ?last ?inc t o2 rheld w l2 = (w3, o3, aheld, l3)"
    by (metis prod_cases4)
  show thesis
    by (rule that [OF r a]) (use rs r a in \<open>auto simp: run_stages_def Let_def split: prod.splits\<close>)
qed

text \<open>What the stages make of a run, in one statement. The flags are those of the source.\<close>

lemma run_stages_outcome:
  assumes rs: "run_stages env hb fuel settings failedPackages t o1 w l = Some (w', out, l')"
    and o1: "finished (ro_status o1)" "ro_replication_status o1 = stageStatusNone" "ro_app_status o1 = stageStatusNone"
  shows "finished (ro_status out) \<and> ro_exit out = ro_exit o1 \<and>
    (ro_status out = ''SUCCESS'' \<or> stageFailed (ro_app_status out) \<or> ro_app_status out = ''SUCCESS'' \<longrightarrow>
      ro_status o1 = ''SUCCESS'' \<and> (\<exists>cfg. settings = Inr cfg))"
proof (cases settings)
  case (Inl e)
  then show ?thesis using rs o1
    by (auto simp: run_stages_def outcomeWithoutStageSettings_def finished_def stageFailed_def simple_consts split: if_splits)
next
  case (Inr cfg)
  show ?thesis
  proof (cases "ro_status o1 = ''SUCCESS''")
    case False
    then show ?thesis using rs o1 Inr by (auto simp: run_stages_def stageFailed_def simple_consts)
  next
    case True
    from rs [unfolded Inr] True show ?thesis
    proof (rule run_stages_split)
      fix o2 rheld l2 w3 o3 aheld l3
      assume r: "replication_stage env hb fuel cfg (batch_Last (tk_batch t)) (batch_ID (tk_batch t) \<noteq> [] \<and> batch_Last (tk_batch t) \<and> failedPackages) o1 l = Some (o2, rheld, l2)"
        and a: "app_deploy_stage env cfg (batch_Last (tk_batch t)) (batch_ID (tk_batch t) \<noteq> [] \<and> batch_Last (tk_batch t) \<and> failedPackages) t o2 rheld w l2 = (w3, o3, aheld, l3)"
        and out: "ro_status out = fst (outcomeWithHeldStages (ro_status o3) (ro_message o3) (rheld \<or> aheld))" "ro_exit out = ro_exit o3"
      have "finished (ro_status o3)" "ro_exit o3 = ro_exit o1"
        using replication_stage_outcome [OF r] app_deploy_stage_outcome [OF a] True
        by (auto simp: finished_def split: if_splits)
      then show ?thesis using out True Inr by (auto simp: outcomeWithHeldStages_def finished_def)
    qed
  qed
qed

text \<open>From a finished execution to its parts.\<close>

lemma execute_split:
  assumes "executeSimpleRun env hb fuel meanwhile settingsErr readable later t (w, d) = Some (w', d', l')"
    "start_run (tk_runID t) d = Some d1"
  obtains w1 o1 l1 w2 out where "run_command env t w new_logger = (w1, o1, l1)"
    "run_stages env hb fuel (case settingsErr of Some e \<Rightarrow> Inl e | None \<Rightarrow> Inr (sd_settings (meanwhile d1)))
       (uploadHasFailedPackages readable (meanwhile d1) (batch_ID (tk_batch t)) (tk_runID t)) t o1 w1 l1 = Some (w2, out, l')"
    "d' = finish_run (tk_runID t) out (later (meanwhile d1))"
proof -
  obtain w1 o1 l1 where c: "run_command env t w new_logger = (w1, o1, l1)" by (metis prod_cases3)
  show thesis using assms c that by (auto simp: executeSimpleRun_def Let_def split: option.splits)
qed

lemma finish_run_row:
  assumes "\<forall>x\<in>set (sd_runs d). run_id x = i \<longrightarrow> in_flight x" "r \<in> set (sd_runs (finish_run i out d))" "run_id r = i"
  shows "run_status r = ro_status out \<and> run_exit_code r = Some (ro_exit out) \<and>
    run_replication_status r = ro_replication_status out \<and> run_app_deploy_status r = ro_app_status out"
proof -
  have "\<not> terminal_run x" if "in_flight x" for x using that by (auto simp: in_flight_def terminal_run_def)
  then have "\<not> list_ex (\<lambda>r. run_id r = i \<and> terminal_run r) (sd_runs d)" using assms(1) by (auto simp: list_ex_iff)
  then have "set (sd_runs (finish_run i out d)) = (\<lambda>r. if run_id r = i then record_outcome out r else r) ` set (sd_runs d)"
    by (simp add: finish_run_def update_runs_def coalesce_def)
  with assms(2) have "r \<in> (\<lambda>r. if run_id r = i then record_outcome out r else r) ` set (sd_runs d)" by simp
  then obtain x where x: "r = (if run_id x = i then record_outcome out x else x)" by (rule imageE)
  show ?thesis by (cases "run_id x = i") (use assms(3) x in simp_all)
qed



subsection \<open>Every run ends\<close>

text \<open>Between two checks of the deadline at least three seconds pass.\<close>

definition clock_advances :: "harbor \<Rightarrow> bool" where
  "clock_advances hb \<longleftrightarrow> hb_begin hb \<le> hb_now hb 0 \<and> (\<forall>k. hb_now hb k + seconds 3 \<le> hb_now hb (Suc k))"

lemma clock_lower: "clock_advances hb \<Longrightarrow> hb_begin hb + seconds (3 * int k) \<le> hb_now hb k"
proof (induction k)
  case (Suc k)
  then have "hb_now hb k + seconds 3 \<le> hb_now hb (Suc k)" by (simp add: clock_advances_def)
  with Suc show ?case by (simp add: seconds_def algebra_simps)
qed (simp add: clock_advances_def seconds_def)

lemma replication_loop_returns:
  assumes "clock_advances hb" "timeout < seconds (3 * int (k + fuel))"
  shows "replication_loop sh db hb timeout x (Suc fuel) k lastReported l \<noteq> None"
  using assms(2)
proof (induction fuel arbitrary: k lastReported l)
  case 0
  with clock_lower [OF assms(1), of k] show ?case by (simp add: Let_def)
next
  case (Suc fuel)
  have IH: "replication_loop sh db hb timeout x (Suc fuel) (Suc k) lastReported l \<noteq> None" for lastReported l
    by (rule Suc.IH) (use Suc.prems in simp)
  note step = replication_loop.simps(2) [of sh db hb timeout x "Suc fuel" k lastReported l]
  show ?case
  proof (cases "hb_now hb k > hb_begin hb + timeout \<or> hb_cancelled hb k")
    case True
    then show ?thesis unfolding step by (auto simp del: replication_loop.simps simp: Let_def)
  next
    case go: False
    show ?thesis
    proof (cases "hb_execution hb k")
      case (Inl e)
      then show ?thesis unfolding step using go IH by (simp del: replication_loop.simps)
    next
      case (Inr e)
      obtain ended ok where tm: "replicationTerminal (rx_Status e) = (ended, ok)" by fastforce
      show ?thesis unfolding step using go IH Inr tm
        by (cases ended; cases ok) (simp_all del: replication_loop.simps not_None_eq add: Let_def)
    qed
  qed
qed

lemma runReplication_returns:
  assumes "clock_advances hb" "ReplicationTimeout cfg \<le> 86400" "28802 \<le> fuel"
  shows "runReplication sh db fuel hb cfg l \<noteq> None"
proof -
  obtain fuel' where f: "fuel = Suc fuel'" "28801 \<le> fuel'" using assms(3) by (cases fuel) auto
  let ?timeout = "if seconds (ReplicationTimeout cfg) \<le> 0 then 15 * 60 * seconds 1 else seconds (ReplicationTimeout cfg)"
  have "?timeout < seconds (3 * int (0 + fuel'))" using assms(2) f(2) by (auto simp: seconds_def)
  from replication_loop_returns [OF assms(1) this] show ?thesis
    by (auto simp: runReplication_def f(1) Let_def simp del: replication_loop.simps split: sum.splits)
qed

text \<open>C18 (every_run_ends): a run that was started comes to an end and its row is closed, whatever the registry
  answers or fails to answer. The wait for a replication is the only loop: it polls every three seconds and gives
  up at its time limit, at most a day, so that 28802 rounds are enough. (What the command itself may take
  is bounded by the operating system's timer, which \<open>localexec\<close> sets.)\<close>

theorem every_run_ends:
  assumes "clock_advances hb" "28802 \<le> fuel" "ReplicationTimeout (sd_settings (meanwhile d1)) \<le> 86400"
    and "start_run (tk_runID t) d = Some d1"
    and "\<forall>x\<in>set (sd_runs (later (meanwhile d1))). run_id x = tk_runID t \<longrightarrow> in_flight x"
  shows "\<exists>w' d' l'. executeSimpleRun env hb fuel meanwhile settingsErr readable later t (w, d) = Some (w', d', l') \<and>
    (\<forall>r\<in>set (sd_runs d'). run_id r = tk_runID t \<longrightarrow> terminal_run r)"
proof -
  obtain w1 o1 l1 where c: "run_command env t w new_logger = (w1, o1, l1)" by (metis prod_cases3)
  let ?settings = "case settingsErr of Some e \<Rightarrow> Inl e | None \<Rightarrow> Inr (sd_settings (meanwhile d1))"
  let ?failed = "uploadHasFailedPackages readable (meanwhile d1) (batch_ID (tk_batch t)) (tk_runID t)"
  have "replication_stage env hb fuel (sd_settings (meanwhile d1)) bl inc o1 l1 \<noteq> None" for bl inc
    using runReplication_returns [OF assms(1,3,2), of "re_show env" "re_log env" l1]
    by (auto simp: replication_stage_def Let_def)
  then have "run_stages env hb fuel ?settings ?failed t o1 w1 l1 \<noteq> None"
    by (cases settingsErr) (auto simp: run_stages_def Let_def split: option.split prod.split, metis option.distinct(1))
  then obtain w2 out l2 where rs: "run_stages env hb fuel ?settings ?failed t o1 w1 l1 = Some (w2, out, l2)"
    by (metis not_None_eq prod_cases3)
  let ?d' = "finish_run (tk_runID t) out (later (meanwhile d1))"
  have "executeSimpleRun env hb fuel meanwhile settingsErr readable later t (w, d) = Some (w2, ?d', l2)"
    using assms(4) c rs by (simp add: executeSimpleRun_def Let_def)
  moreover have "finished (ro_status out)" using run_stages_outcome [OF rs] run_command_outcome [OF c] by blast
  then have "terminal_run r" if "r \<in> set (sd_runs ?d')" "run_id r = tk_runID t" for r
    using finish_run_row [OF assms(5) that] by (auto simp: terminal_run_def finished_def)
  ultimately show ?thesis by blast
qed

subsection \<open>The server\<close>

text \<open>
  What happens to a server: uploads, the two updates of an execution, restarts, and, from outside, changes of the
  file system and of the configuration. Of an execution only the outcome it records matters here.
\<close>

inductive server_step :: "'w run_env \<Rightarrow> simple_server \<Rightarrow> simple_server \<Rightarrow> bool" for env where
  upload: "createSimpleRun uenv r s = (s', rep) \<Longrightarrow> server_step env s s'"
| start: "t \<in> set (sv_tasks s) \<Longrightarrow> start_run (tk_runID t) (sv_db s) = Some d \<Longrightarrow> server_step env s (s\<lparr>sv_db := d\<rparr>)"
| finish: "t \<in> set (sv_tasks s) \<Longrightarrow> run_command env t w new_logger = (w1, o1, l1) \<Longrightarrow>
    run_stages env hb fuel settings failed t o1 w1 l1 = Some (w2, out, l2) \<Longrightarrow>
    server_step env s (s\<lparr>sv_db := finish_run (tk_runID t) out (sv_db s), sv_tasks := remove1 t (sv_tasks s),
      sv_active := releaseSimpleRun (sv_active s)\<rparr>)"
| restart: "server_step env s \<lparr>sv_active = 0, sv_tasks = [], sv_fs = RemoveStagedSimpleUploads (sv_fs s) (sv_db s),
    sv_db = RecoverSimpleRuns (sv_db s)\<rparr>"
| configure: "simple_step (fs, d) (fs', d') \<Longrightarrow> sd_runs d' = sd_runs d \<Longrightarrow> sv_db s = d \<Longrightarrow>
    server_step env s (s\<lparr>sv_fs := fs', sv_db := d'\<rparr>)"

definition initial_server :: "fs \<Rightarrow> simple_server" where
  "initial_server fs = \<lparr>sv_active = 0, sv_tasks = [], sv_fs = fs, sv_db = initial_db\<rparr>"

definition runs_ok :: "simple_server \<Rightarrow> bool" where
  "runs_ok s \<longleftrightarrow> sv_active s = int (length (sv_tasks s)) \<and> sv_active s \<le> maxSimpleConcurrentRuns \<and>
     distinct (map run_id (sd_runs (sv_db s))) \<and> distinct (map tk_runID (sv_tasks s)) \<and>
     (\<forall>r\<in>set (sd_runs (sv_db s)). in_flight r \<or> terminal_run r) \<and>
     run_id ` {r\<in>set (sd_runs (sv_db s)). in_flight r} = tk_runID ` set (sv_tasks s) \<and>
     (\<forall>r\<in>set (sd_runs (sv_db s)). \<forall>r'\<in>set (sd_runs (sv_db s)).
        in_flight r \<and> in_flight r' \<and> run_target_id r = run_target_id r' \<longrightarrow> run_id r = run_id r')"

lemma runs_okD:
  assumes "runs_ok s"
  shows "sv_active s = int (length (sv_tasks s))" "sv_active s \<le> maxSimpleConcurrentRuns"
    "distinct (map run_id (sd_runs (sv_db s)))" "distinct (map tk_runID (sv_tasks s))"
    "r \<in> set (sd_runs (sv_db s)) \<Longrightarrow> in_flight r \<or> terminal_run r"
    "r \<in> set (sd_runs (sv_db s)) \<Longrightarrow> in_flight r \<Longrightarrow> run_id r \<in> tk_runID ` set (sv_tasks s)"
  using assms unfolding runs_ok_def by blast+

text \<open>Rows of a run that change without a change of identity: \<open>f\<close> closes the rows in \<open>ids\<close>, keeps the others.\<close>

lemma runs_ok_update:
  assumes ok: "runs_ok s" and f: "\<And>r. run_id (f r) = run_id r" "\<And>r. run_target_id (f r) = run_target_id r"
    and open': "\<And>r. r \<in> set (sd_runs (sv_db s)) \<Longrightarrow> in_flight (f r) \<or> terminal_run (f r)"
    and flight: "\<And>r. r \<in> set (sd_runs (sv_db s)) \<Longrightarrow> in_flight (f r) \<longleftrightarrow> in_flight r \<and> run_id r \<in> tk_runID ` set tasks"
    and tasks: "set tasks \<subseteq> set (sv_tasks s)" "distinct (map tk_runID tasks)"
    and s': "sv_tasks s' = tasks" "sd_runs (sv_db s') = map f (sd_runs (sv_db s))" "sv_active s' = int (length tasks)"
      "length tasks \<le> length (sv_tasks s)"
  shows "runs_ok s'"
proof -
  let ?runs = "sd_runs (sv_db s)"
  have pair: "run_id r = run_id r'" if "r \<in> set ?runs" "r' \<in> set ?runs" "in_flight r" "in_flight r'" "run_target_id r = run_target_id r'" for r r'
    using ok that unfolding runs_ok_def by blast
  have ids: "map run_id (map f ?runs) = map run_id ?runs" by (simp add: f)
  have "run_id ` {r\<in>set (map f ?runs). in_flight r} = run_id ` f ` {r\<in>set ?runs. in_flight (f r)}" by auto
  also have "\<dots> = run_id ` {r\<in>set ?runs. in_flight (f r)}" by (simp only: image_image f)
  also have "\<dots> = run_id ` {r\<in>set ?runs. in_flight r} \<inter> tk_runID ` set tasks" using flight by auto
  also have "\<dots> = tk_runID ` set tasks" using ok tasks(1) by (auto simp: runs_ok_def)
  finally have flights: "run_id ` {r\<in>set (map f ?runs). in_flight r} = tk_runID ` set tasks" .
  have "distinct (map run_id (map f ?runs))" unfolding ids using ok by (simp add: runs_ok_def)
  moreover have "\<forall>r\<in>set (map f ?runs). \<forall>r'\<in>set (map f ?runs). in_flight r \<and> in_flight r' \<and> run_target_id r = run_target_id r' \<longrightarrow> run_id r = run_id r'"
    using pair flight unfolding set_map ball_simps f by blast
  moreover have "\<forall>r\<in>set (map f ?runs). in_flight r \<or> terminal_run r" using open' by auto
  moreover have "sv_active s' \<le> maxSimpleConcurrentRuns" using runs_okD(1,2) [OF ok] s'(3,4) by linarith
  ultimately show ?thesis unfolding runs_ok_def s'(1,2) using flights s'(3) tasks(2) by blast
qed

lemma update_runs_some:
  assumes "\<And>r. r \<in> set (sd_runs d) \<Longrightarrow> hit r \<Longrightarrow> \<not> terminal_run r"
  shows "update_runs hit f d = Some (d\<lparr>sd_runs := map (\<lambda>r. if hit r then f r else r) (sd_runs d)\<rparr>)"
  using assms by (auto simp: update_runs_def list_ex_iff)

lemma runs_ok_task:
  assumes "runs_ok s" "t \<in> set (sv_tasks s)" "r \<in> set (sd_runs (sv_db s))" "run_id r = tk_runID t"
  shows "in_flight r"
proof -
  have "tk_runID t \<in> run_id ` {r\<in>set (sd_runs (sv_db s)). in_flight r}" using assms(1,2) by (simp add: runs_ok_def)
  then obtain x where x: "x \<in> set (sd_runs (sv_db s))" "in_flight x" "run_id x = tk_runID t" by auto
  have "inj_on run_id (set (sd_runs (sv_db s)))" using assms(1) by (simp add: runs_ok_def distinct_map)
  with x assms(3,4) have "x = r" by (metis inj_onD)
  with x show ?thesis by simp
qed

lemma runs_ok_start:
  assumes ok: "runs_ok s" and t: "t \<in> set (sv_tasks s)" and d: "start_run (tk_runID t) (sv_db s) = Some d"
  shows "runs_ok (s\<lparr>sv_db := d\<rparr>)"
proof -
  let ?f = "\<lambda>r. if run_id r = tk_runID t \<and> run_status r = ''PENDING'' then r\<lparr>run_status := ''RUNNING''\<rparr> else r"
  have runs: "sd_runs d = map ?f (sd_runs (sv_db s))" using d by (auto simp: start_run_def update_runs_def split: if_splits)
  have flight: "in_flight (?f r) \<longleftrightarrow> in_flight r" "terminal_run (?f r) \<longleftrightarrow> terminal_run r" for r
    by (auto simp: in_flight_def terminal_run_def)
  show ?thesis
    by (rule runs_ok_update [OF ok, where f = ?f and tasks = "sv_tasks s"])
      (use runs_okD(6) [OF ok] in \<open>auto simp: flight runs runs_okD(1,4,5) [OF ok]\<close>)
qed

lemma task_ids_remove:
  assumes "distinct (map tk_runID ts)" "t \<in> set ts"
  shows "tk_runID ` set (remove1 t ts) = tk_runID ` set ts - {tk_runID t}" "distinct (map tk_runID (remove1 t ts))"
proof -
  have inj: "inj_on tk_runID (set ts)" "distinct ts" using assms(1) by (simp_all add: distinct_map)
  then have eq: "set (remove1 t ts) = set ts - {t}" by simp
  show "tk_runID ` set (remove1 t ts) = tk_runID ` set ts - {tk_runID t}"
    unfolding eq using inj_on_image_set_diff [OF inj(1), of "set ts" "{t}"] assms(2) by auto
  show "distinct (map tk_runID (remove1 t ts))"
    using inj eq by (auto simp: distinct_map intro: inj_on_subset)
qed

lemma runs_ok_finish:
  assumes ok: "runs_ok s" and t: "t \<in> set (sv_tasks s)" and out: "finished (ro_status out)"
  shows "runs_ok (s\<lparr>sv_db := finish_run (tk_runID t) out (sv_db s), sv_tasks := remove1 t (sv_tasks s), sv_active := releaseSimpleRun (sv_active s)\<rparr>)"
proof -
  let ?f = "\<lambda>r. if run_id r = tk_runID t then record_outcome out r else r"
  have "\<not> terminal_run r" if "r \<in> set (sd_runs (sv_db s))" "run_id r = tk_runID t" for r
    using runs_ok_task [OF ok t that] by (auto simp: in_flight_def terminal_run_def)
  then have runs: "sd_runs (finish_run (tk_runID t) out (sv_db s)) = map ?f (sd_runs (sv_db s))"
    by (simp add: finish_run_def coalesce_def update_runs_some)
  have closed: "\<not> in_flight (record_outcome out r)" "terminal_run (record_outcome out r)" for r
    using out by (auto simp: in_flight_def terminal_run_def finished_def)
  obtain n where len: "length (sv_tasks s) = Suc n" using t by (cases "sv_tasks s") auto
  note ids = task_ids_remove [OF runs_okD(4) [OF ok] t]
  show ?thesis
  proof (rule runs_ok_update [OF ok, where f = ?f and tasks = "remove1 t (sv_tasks s)"])
    fix r assume r: "r \<in> set (sd_runs (sv_db s))"
    show "in_flight (?f r) \<or> terminal_run (?f r)" using closed runs_okD(5) [OF ok r] by simp
    show "in_flight (?f r) \<longleftrightarrow> in_flight r \<and> run_id r \<in> tk_runID ` set (remove1 t (sv_tasks s))"
      using closed runs_okD(6) [OF ok r] by (auto simp: ids)
  next
    show "set (remove1 t (sv_tasks s)) \<subseteq> set (sv_tasks s)" by (rule set_remove1_subset)
  qed (use ids runs len t runs_okD(1) [OF ok] in \<open>simp_all add: releaseSimpleRun_def length_remove1\<close>)
qed

lemma runs_ok_restart:
  assumes ok: "runs_ok s"
  shows "runs_ok \<lparr>sv_active = 0, sv_tasks = [], sv_fs = fs, sv_db = RecoverSimpleRuns (sv_db s)\<rparr>"
proof -
  let ?f = "\<lambda>r. if in_flight r then r\<lparr>run_status := ''FAILED'', run_error := ''the server was restarted: the result of the run is unknown''\<rparr> else r"
  have runs: "sd_runs (RecoverSimpleRuns (sv_db s)) = map ?f (sd_runs (sv_db s))"
    unfolding RecoverSimpleRuns_def by (subst update_runs_some) (auto simp: in_flight_def terminal_run_def coalesce_def)
  have closed: "\<not> in_flight (?f r)" "in_flight r \<Longrightarrow> terminal_run (?f r)" "\<not> in_flight r \<Longrightarrow> ?f r = r" for r
    by (auto simp: in_flight_def terminal_run_def)
  show ?thesis
  proof (rule runs_ok_update [OF ok, where f = ?f and tasks = "[]"])
    fix r assume r: "r \<in> set (sd_runs (sv_db s))"
    show "in_flight (?f r) \<or> terminal_run (?f r)"
    proof (cases "in_flight r")
      case True
      then show ?thesis using closed(2) [of r] by blast
    next
      case False
      then show ?thesis using runs_okD(5) [OF ok r] by simp
    qed
    show "in_flight (?f r) \<longleftrightarrow> in_flight r \<and> run_id r \<in> tk_runID ` set []" using closed(1) [of r] by simp
  qed (simp_all add: runs)
qed

lemma runs_ok_cong:
  assumes ok: "runs_ok s" and eqs: "sv_active s' = sv_active s" "sv_tasks s' = sv_tasks s" "sd_runs (sv_db s') = sd_runs (sv_db s)"
  shows "runs_ok s'"
  using ok unfolding runs_ok_def eqs .

lemma runs_ok_add_closed:
  assumes ok: "runs_ok s" and r: "run_id r \<notin> set (map run_id (sd_runs (sv_db s)))" "terminal_run r"
    and s': "sv_active s' = sv_active s" "sv_tasks s' = sv_tasks s" "sd_runs (sv_db s') = sd_runs (sv_db s) @ [r]"
  shows "runs_ok s'"
proof -
  have "\<not> in_flight r" using r(2) by (auto simp: in_flight_def terminal_run_def)
  then have "{x\<in>set (sd_runs (sv_db s) @ [r]). in_flight x} = {x\<in>set (sd_runs (sv_db s)). in_flight x}" by auto
  then have flights: "run_id ` {x\<in>set (sd_runs (sv_db s) @ [r]). in_flight x} = tk_runID ` set (sv_tasks s)"
    using ok by (simp only: runs_ok_def)
  have pair: "\<forall>x\<in>set (sd_runs (sv_db s)). \<forall>x'\<in>set (sd_runs (sv_db s)). in_flight x \<and> in_flight x' \<and> run_target_id x = run_target_id x' \<longrightarrow> run_id x = run_id x'"
    using ok unfolding runs_ok_def by blast
  show ?thesis unfolding runs_ok_def s'
  proof (intro conjI)
    show "\<forall>x\<in>set (sd_runs (sv_db s) @ [r]). \<forall>x'\<in>set (sd_runs (sv_db s) @ [r]).
        in_flight x \<and> in_flight x' \<and> run_target_id x = run_target_id x' \<longrightarrow> run_id x = run_id x'"
    proof (intro ballI impI)
      fix x x' assume x: "x \<in> set (sd_runs (sv_db s) @ [r])" "x' \<in> set (sd_runs (sv_db s) @ [r])"
        "in_flight x \<and> in_flight x' \<and> run_target_id x = run_target_id x'"
      then have "x \<in> set (sd_runs (sv_db s))" "x' \<in> set (sd_runs (sv_db s))" using \<open>\<not> in_flight r\<close> by auto
      then show "run_id x = run_id x'" using pair x(3) by blast
    qed
    show "\<forall>x\<in>set (sd_runs (sv_db s) @ [r]). in_flight x \<or> terminal_run x" using runs_okD(5) [OF ok] r(2) by auto
  qed (use runs_okD(1-4) [OF ok] r flights in simp_all)
qed

lemma runs_ok_add_task:
  assumes ok: "runs_ok s" and r: "run_id r \<notin> set (map run_id (sd_runs (sv_db s)))" "in_flight r" "tk_runID t = run_id r"
    "\<And>x. x \<in> set (sd_runs (sv_db s)) \<Longrightarrow> in_flight x \<Longrightarrow> run_target_id x \<noteq> run_target_id r"
    and slot: "sv_active s < maxSimpleConcurrentRuns"
    and s': "sv_active s' = sv_active s + 1" "sv_tasks s' = sv_tasks s @ [t]" "sd_runs (sv_db s') = sd_runs (sv_db s) @ [r]"
  shows "runs_ok s'"
proof -
  let ?runs = "sd_runs (sv_db s)"
  have flights: "{x\<in>set (?runs @ [r]). in_flight x} = insert r {x\<in>set ?runs. in_flight x}" using r(2) by auto
  have old: "run_id ` {x\<in>set ?runs. in_flight x} = tk_runID ` set (sv_tasks s)" using ok by (simp add: runs_ok_def)
  have "run_id r \<notin> run_id ` {x\<in>set ?runs. in_flight x}" using r(1) by auto
  then have new: "tk_runID t \<notin> tk_runID ` set (sv_tasks s)" by (simp add: old r(3))
  have pair: "run_id x = run_id x'" if "x \<in> set (?runs @ [r])" "x' \<in> set (?runs @ [r])" "in_flight x" "in_flight x'" "run_target_id x = run_target_id x'" for x x'
  proof (cases "x = r \<or> x' = r")
    case True
    then show ?thesis using r(4) [of x] r(4) [of x'] that by auto
  next
    case False
    then have "x \<in> set ?runs" "x' \<in> set ?runs" using that by auto
    then show ?thesis using ok that unfolding runs_ok_def by blast
  qed
  show ?thesis unfolding runs_ok_def s'
  proof (intro conjI)
    show "run_id ` {x\<in>set (?runs @ [r]). in_flight x} = tk_runID ` set (sv_tasks s @ [t])" unfolding flights by (simp add: old r(3))
    show "distinct (map tk_runID (sv_tasks s @ [t]))" using new runs_okD(4) [OF ok] by simp
    show "\<forall>x\<in>set (?runs @ [r]). \<forall>x'\<in>set (?runs @ [r]). in_flight x \<and> in_flight x' \<and> run_target_id x = run_target_id x' \<longrightarrow> run_id x = run_id x'"
      using pair by blast
    show "\<forall>x\<in>set (?runs @ [r]). in_flight x \<or> terminal_run x" using runs_okD(5) [OF ok] r(2) by auto
  qed (use runs_okD(1,2,3) [OF ok] r slot in simp_all)
qed

lemma fail_new_run:
  assumes ins: "insert_run r d = Some d1" and r: "run_status r = ''PENDING''"
  shows "sd_runs (failSimpleRun (run_id r) reason d1) = sd_runs d @ [r\<lparr>run_status := ''FAILED'', run_error := reason\<rparr>]"
proof -
  have d1: "sd_runs d1 = sd_runs d @ [r]" and new: "run_id r \<notin> set (map run_id (sd_runs d))"
    using ins by (auto simp: insert_run_def split: if_splits)
  have "map (\<lambda>x. if run_id x = run_id r \<and> run_status x = ''PENDING'' then x\<lparr>run_status := ''FAILED'', run_error := reason\<rparr> else x) (sd_runs d) = sd_runs d"
  proof (rule map_idI)
    fix x assume "x \<in> set (sd_runs d)"
    then have "run_id x \<in> set (map run_id (sd_runs d))" by simp
    then have "run_id x \<noteq> run_id r" using new by metis
    then show "(if run_id x = run_id r \<and> run_status x = ''PENDING'' then x\<lparr>run_status := ''FAILED'', run_error := reason\<rparr> else x) = x" by simp
  qed
  then show ?thesis unfolding failSimpleRun_def
    by (subst update_runs_some) (auto simp: terminal_run_def coalesce_def d1 r)
qed

lemma runs_ok_upload:
  assumes ok: "runs_ok s" and slot: "sv_active s < maxSimpleConcurrentRuns"
    and up: "createSimpleRun_upload env target command actorID filename file parts form (s\<lparr>sv_active := sv_active s + 1\<rparr>) = (s', rep)"
  shows "runs_ok s'"
proof -
  let ?s = "s\<lparr>sv_active := sv_active s + 1\<rparr>"
  have released: "releaseSimpleRun (sv_active ?s) = sv_active s" using runs_okD(1) [OF ok] by (simp add: releaseSimpleRun_def)
  obtain fs1 st where stage: "stageSimpleArtifact (ue_sha256 env) (ue_random env) (ue_stored env) (ue_proc env) (sv_fs ?s) (st_UploadDir target)
             filename file (st_MaxUploadBytes target) = (fs1, st)" by fastforce
  show ?thesis
  proof (cases "\<exists>a i d. st = Inr a \<and> ue_newID env = Inr i \<and> insert_run (pending_run i target actorID filename a command
      (expandArgs (cmd_Args command) (sa_path a)) (readUploadBatch (fields_value (readSimpleUploadFields parts form)))) (sv_db s) = Some d")
    case False
    then have "sv_active s' = sv_active s \<and> sv_tasks s' = sv_tasks s \<and> sv_db s' = sv_db s"
      using up stage released
      by (cases st; cases "ue_newID env") (auto simp: createSimpleRun_upload_def Let_def split: option.splits)
    then show ?thesis using runs_ok_cong [OF ok] by simp
  next
    case True
    then obtain a i d where st: "st = Inr a" and i: "ue_newID env = Inr i"
      and ins: "insert_run (pending_run i target actorID filename a command (expandArgs (cmd_Args command) (sa_path a))
        (readUploadBatch (fields_value (readSimpleUploadFields parts form)))) (sv_db s) = Some d" (is "insert_run ?r _ = _") by blast
    have r: "run_id ?r = i" "run_status ?r = ''PENDING''" "in_flight ?r" by (simp_all add: pending_run_def in_flight_def)
    have d: "run_id ?r \<notin> set (map run_id (sd_runs (sv_db s)))" "sd_runs d = sd_runs (sv_db s) @ [?r]"
      "\<And>x. x \<in> set (sd_runs (sv_db s)) \<Longrightarrow> in_flight x \<Longrightarrow> run_target_id x \<noteq> run_target_id ?r"
      using ins r(3) by (auto simp: insert_run_def list_ex_iff split: if_splits)
    obtain fs2 a' err where com: "staged_commit (ue_synced env) fs1 a = (fs2, a', err)" by (metis prod_cases3)
    show ?thesis
    proof (cases err)
      case (Some e)
      have "sd_runs (sv_db s') = sd_runs (sv_db s) @ [?r\<lparr>run_status := ''FAILED'', run_error := error_text e\<rparr>]"
        "sv_active s' = sv_active s" "sv_tasks s' = sv_tasks s"
        using up stage st i ins com Some released fail_new_run [OF ins r(2), of "error_text e"] r(1)
        by (auto simp: createSimpleRun_upload_def Let_def)
      then show ?thesis using d(1) by (intro runs_ok_add_closed [OF ok, of "?r\<lparr>run_status := ''FAILED'', run_error := error_text e\<rparr>"])
        (simp_all add: terminal_run_def)
    next
      case None
      let ?t = "\<lparr>tk_runID = i, tk_command = command, tk_args = expandArgs (cmd_Args command) (sa_path a), tk_artifact = sa_path a,
        tk_filename = filename, tk_checksum = sa_checksum a, tk_target = target, tk_actorID = actorID,
        tk_batch = readUploadBatch (fields_value (readSimpleUploadFields parts form))\<rparr>"
      have s': "sv_tasks s' = sv_tasks s @ [?t]" "sv_active s' = sv_active s + 1" "sd_runs (sv_db s') = sd_runs (sv_db s) @ [?r]"
        using up stage st i ins com None d(2) by (auto simp: createSimpleRun_upload_def Let_def)
      have "tk_runID ?t = run_id ?r" using r(1) by simp
      from runs_ok_add_task [OF ok d(1) r(3) this d(3) slot s'(2,1,3)] show ?thesis by blast
    qed
  qed
qed

lemma runs_ok_create:
  assumes ok: "runs_ok s" and c: "createSimpleRun env r s = (s', rep)"
  shows "runs_ok s'"
proof -
  have "s' = s \<or> (sv_active s < maxSimpleConcurrentRuns \<and> (\<exists>target command actorID filename file parts form.
      createSimpleRun_upload env target command actorID filename file parts form (s\<lparr>sv_active := sv_active s + 1\<rparr>) = (s', rep)))"
    using c unfolding createSimpleRun_def
    by (auto simp: Let_def acquireSimpleRun_def split: sum.splits if_splits prod.splits)
  then show ?thesis using ok runs_ok_upload [OF ok] by blast
qed

text \<open>C12 (one_run_in_flight_per_target): in every state the server can reach, through uploads at any time, executions that
  start and finish in any order, restarts and changes of the configuration, at most four runs are executing, no two runs in
  flight belong to the same target, and a run in flight is one that a goroutine is executing: no target stays
  blocked by a run that nobody will finish.\<close>

theorem one_run_in_flight_per_target:
  assumes "(server_step env)\<^sup>*\<^sup>* (initial_server fs) s"
  shows "length (sv_tasks s) \<le> 4 \<and>
    (\<forall>r\<in>set (sd_runs (sv_db s)). \<forall>r'\<in>set (sd_runs (sv_db s)).
       in_flight r \<and> in_flight r' \<and> run_target_id r = run_target_id r' \<longrightarrow> r = r') \<and>
    (\<forall>r\<in>set (sd_runs (sv_db s)). in_flight r \<longrightarrow> (\<exists>t\<in>set (sv_tasks s). tk_runID t = run_id r)) \<and>
    (\<forall>t\<in>set (sv_tasks s). \<exists>r\<in>set (sd_runs (sv_db s)). run_id r = tk_runID t \<and> in_flight r)"
proof -
  have ok: "runs_ok s" using assms
  proof (induction rule: rtranclp_induct)
    case base
    show ?case by (simp add: runs_ok_def initial_server_def initial_db_def maxSimpleConcurrentRuns_def)
  next
    case (step s s')
    from step(2) show ?case
    proof cases
      case (upload uenv r rep)
      then show ?thesis using runs_ok_create step(3) by blast
    next
      case (start t d)
      then show ?thesis using runs_ok_start step(3) by blast
    next
      case (finish t w w1 o1 l1 hb fuel settings failed w2 out l2)
      have "finished (ro_status out)" using run_command_outcome [OF finish(3)] run_stages_outcome [OF finish(4)] by blast
      then show ?thesis unfolding finish(1) using runs_ok_finish [OF step(3) finish(2)] by blast
    next
      case restart
      then show ?thesis using runs_ok_restart step(3) by blast
    next
      case (configure fs d fs' d')
      then show ?thesis using runs_ok_cong [OF step(3)] by simp
    qed
  qed
  have inj: "inj_on run_id (set (sd_runs (sv_db s)))" using runs_okD(3) [OF ok] by (simp add: distinct_map)
  have ids: "run_id ` {r\<in>set (sd_runs (sv_db s)). in_flight r} = tk_runID ` set (sv_tasks s)" using ok by (simp add: runs_ok_def)
  show ?thesis
  proof (intro conjI ballI impI)
    show "length (sv_tasks s) \<le> 4" using runs_okD(1,2) [OF ok] by (simp add: maxSimpleConcurrentRuns_def)
  next
    fix r r' assume "r \<in> set (sd_runs (sv_db s))" "r' \<in> set (sd_runs (sv_db s))"
      "in_flight r \<and> in_flight r' \<and> run_target_id r = run_target_id r'"
    moreover from this have "run_id r = run_id r'" using ok unfolding runs_ok_def by blast
    ultimately show "r = r'" using inj by (metis inj_onD)
  next
    fix r assume "r \<in> set (sd_runs (sv_db s))" "in_flight r"
    then show "\<exists>t\<in>set (sv_tasks s). tk_runID t = run_id r" using runs_okD(6) [OF ok] by force
  next
    fix t assume "t \<in> set (sv_tasks s)"
    then have "tk_runID t \<in> run_id ` {r\<in>set (sd_runs (sv_db s)). in_flight r}" by (simp add: ids)
    then show "\<exists>r\<in>set (sd_runs (sv_db s)). run_id r = tk_runID t \<and> in_flight r" by auto
  qed
qed

subsection \<open>An example\<close>

definition demo_env :: "nat run_env" where
  "demo_env = \<lparr>re_fs = (\<lambda>_. local_fs), re_exec = demo_exec, re_log = demo_log_db, re_order = [''stdout'', ''stderr''], re_show = (\<lambda>_. ''1s'')\<rparr>"

definition demo_harbor :: harbor where
  "demo_harbor = \<lparr>hb_registry = (\<lambda>_. Inr ''main''), hb_start = (\<lambda>_. Inr 7),
     hb_execution = (\<lambda>k. Inr \<lparr>rx_ID = 1, rx_Status = (if k = 0 then ''InProgress'' else ''Succeed''), rx_Total = 1, rx_Succeed = 1, rx_Failed = 0, rx_StatusTx = []\<rparr>),
     hb_cancelled = (\<lambda>_. False), hb_begin = 0, hb_now = (\<lambda>k. seconds (3 * int k))\<rparr>"

definition demo_run_task :: task where
  "demo_run_task = \<lparr>tk_runID = ''r1'',
     tk_command = \<lparr>cmd_Source = commandModePerTarget, cmd_Path = ''/sh'', cmd_Args = [''-c''], cmd_Dir = ''/'', cmd_Timeout = seconds 5\<rparr>,
     tk_args = [''-c''], tk_artifact = ''/up/a.tar'', tk_filename = ''a.tar'', tk_checksum = ''00'', tk_target = scanSimpleTarget demo_target,
     tk_actorID = ''u1'', tk_batch = \<lparr>batch_ID = ''b'', batch_Last = True\<rparr>\<rparr>"

definition demo_pending :: simple_run where
  "demo_pending = pending_run ''r1'' (scanSimpleTarget demo_target) ''u1'' ''a.tar''
     \<lparr>sa_path = ''/up/a.tar'', sa_partial = [], sa_size = 3, sa_checksum = ''00''\<rparr> (tk_command demo_run_task) [''-c''] (tk_batch demo_run_task)"

definition demo_run_db :: simple_db where
  "demo_run_db = initial_db
     \<lparr>sd_settings := initial_settings\<lparr>ReplicationEnabled := True, ReplicationRegistry := ''h'', ReplicationPolicyID := 3,
        AppDeployEnabled := True, AppDeployPath := ''/sh'', AppDeployDir := ''/''\<rparr>,
      sd_runs := [demo_pending\<lparr>run_id := ''r0'', run_status := ''SUCCESS''\<rparr>, demo_pending]\<rparr>"

definition demo_execution :: "nat \<Rightarrow> (nat \<times> simple_db \<times> simpleRunLogger) option" where
  "demo_execution fuel = executeSimpleRun demo_env demo_harbor fuel (\<lambda>d. d) None True (\<lambda>d. d) demo_run_task (0, demo_run_db)"

lemma demo_commands:
  "local_Run (\<lambda>_. local_fs) demo_exec w
     \<lparr>lx_Path = ''/sh'', lx_Args = [''-c''], lx_Dir = ''/'',
      lx_Env = command_env ''/'' ''r1'' ''shop'' [] ''/up/a.tar'' ''/var/lib/releasedock/simple/shop'' ''a.tar'' ''00'' ''u1'', lx_Timeout = seconds 5\<rparr> =
     (Suc w, [(Stdout, ''ran'')], \<lparr>lr_ExitCode = 0, lr_Duration = 1, lr_TimedOut = False\<rparr>, None)"
  "local_Run (\<lambda>_. local_fs) demo_exec w
     \<lparr>lx_Path = ''/sh'', lx_Args = [], lx_Dir = ''/'',
      lx_Env = command_env ''/'' ''r1'' ''shop'' [(''RELEASEDOCK_STAGE'', ''app-deploy'')] ''/up/a.tar'' ''/var/lib/releasedock/simple/shop'' ''a.tar'' ''00'' ''u1'',
      lx_Timeout = seconds 600\<rparr> =
     (Suc w, [(Stdout, ''ran'')], \<lparr>lr_ExitCode = 0, lr_Duration = 1, lr_TimedOut = False\<rparr>, None)"
  "validateCommandFields local_fs ''/sh'' [] ''/'' 600 = None"
  "replicationTerminal ''InProgress'' = (False, False)" "replicationTerminal ''Succeed'' = (True, True)"
  "replication_on (sd_settings demo_run_db)" "app_deploy_on (sd_settings demo_run_db)"
  "stageRuns (ReplicationScope (sd_settings demo_run_db)) True" "stageRuns (AppDeployScope (sd_settings demo_run_db)) True"
  by code_simp+

lemma demo_run_command:
  "\<exists>l'. run_command demo_env demo_run_task w l = (Suc w, \<lparr>ro_status = ''SUCCESS'', ro_exit = 0, ro_message = [],
     ro_replication_status = stageStatusNone, ro_execution_id = 0, ro_replication_error = [], ro_app_status = stageStatusNone, ro_app_error = []\<rparr>, l')"
  by (simp add: run_command_def demo_env_def demo_run_task_def Let_def demo_commands scanSimpleTarget_def demo_target_def)

lemma demo_replication:
  "\<exists>l'. runReplication sh db (Suc (Suc (Suc fuel))) demo_harbor (sd_settings demo_run_db) l = Some ((''SUCCESS'', 7, []), l')"
  by (simp add: runReplication_def demo_harbor_def Let_def seconds_def demo_commands demo_run_db_def initial_db_def initial_settings_def)

lemma demo_app_deploy:
  "\<exists>l'. runAppDeploy demo_env (sd_settings demo_run_db) demo_run_task w l = (Suc w, (''SUCCESS'', []), l')"
  by (simp add: runAppDeploy_def demo_env_def demo_run_task_def Let_def demo_commands demo_run_db_def initial_db_def initial_settings_def
      scanSimpleTarget_def demo_target_def expandArgs_def)

lemma demo_stages:
  "\<exists>l'. run_stages demo_env demo_harbor (Suc (Suc (Suc fuel))) (Inr (sd_settings demo_run_db)) False demo_run_task
     \<lparr>ro_status = ''SUCCESS'', ro_exit = 0, ro_message = [], ro_replication_status = stageStatusNone, ro_execution_id = 0,
      ro_replication_error = [], ro_app_status = stageStatusNone, ro_app_error = []\<rparr> w l =
   Some (Suc w, \<lparr>ro_status = ''SUCCESS'', ro_exit = 0, ro_message = [], ro_replication_status = ''SUCCESS'', ro_execution_id = 7,
      ro_replication_error = [], ro_app_status = ''SUCCESS'', ro_app_error = []\<rparr>, l')"
proof -
  note on = demo_commands(6-9) [unfolded replication_on_def app_deploy_on_def]
  have held: "\<not> stageHeldForIncompleteUpload scope False" for scope by (simp add: stageHeldForIncompleteUpload_def)
  have last: "batch_Last (tk_batch demo_run_task)" by (simp add: demo_run_task_def)
  obtain l1 where r: "runReplication (re_show demo_env) (re_log demo_env) (Suc (Suc (Suc fuel))) demo_harbor (sd_settings demo_run_db) l = Some ((''SUCCESS'', 7, []), l1)"
    using demo_replication by blast
  obtain l2 where a: "runAppDeploy demo_env (sd_settings demo_run_db) demo_run_task w (logger_flush (re_log demo_env) l1 (re_order demo_env)) = (Suc w, (''SUCCESS'', []), l2)"
    using demo_app_deploy by blast
  show ?thesis
    by (simp add: run_stages_def replication_stage_def app_deploy_stage_def Let_def on held last r a
        stageFailed_def simple_consts appDeployStageRuns_def outcomeWithHeldStages_def)
qed

definition demo_started :: simple_db where
  "demo_started = demo_run_db\<lparr>sd_runs := [demo_pending\<lparr>run_id := ''r0'', run_status := ''SUCCESS''\<rparr>, demo_pending\<lparr>run_status := ''RUNNING''\<rparr>]\<rparr>"

lemma demo_start: "start_run (tk_runID demo_run_task) demo_run_db = Some demo_started"
  "\<forall>x\<in>set (sd_runs demo_started). run_id x = tk_runID demo_run_task \<longrightarrow> in_flight x"
  "sd_settings demo_started = sd_settings demo_run_db"
  "\<not> uploadHasFailedPackages True demo_started (batch_ID (tk_batch demo_run_task)) (tk_runID demo_run_task)"
  by (simp_all add: start_run_def update_runs_def demo_started_def demo_run_db_def demo_run_task_def demo_pending_def pending_run_def
      terminal_run_def in_flight_def uploadHasFailedPackages_def initial_db_def)

text \<open>The run of the example: the last of two packages, with both stages once per upload.\<close>

lemma demo_execution_ok:
  "\<exists>d' l'. demo_execution (Suc (Suc (Suc fuel))) = Some (2, d', l') \<and>
     (\<exists>r\<in>set (sd_runs d'). run_id r = ''r1'' \<and> run_status r = ''SUCCESS'')"
proof -
  let ?o1 = "\<lparr>ro_status = ''SUCCESS'', ro_exit = 0, ro_message = [], ro_replication_status = stageStatusNone, ro_execution_id = 0,
      ro_replication_error = [], ro_app_status = stageStatusNone, ro_app_error = []\<rparr>"
  let ?out = "\<lparr>ro_status = ''SUCCESS'', ro_exit = 0, ro_message = [], ro_replication_status = ''SUCCESS'', ro_execution_id = 7,
      ro_replication_error = [], ro_app_status = ''SUCCESS'', ro_app_error = []\<rparr>"
  obtain l1 where c: "run_command demo_env demo_run_task 0 new_logger = (1, ?o1, l1)"
    using demo_run_command [of 0 new_logger] by auto
  obtain l2 where rs: "run_stages demo_env demo_harbor (Suc (Suc (Suc fuel))) (Inr (sd_settings demo_run_db)) False demo_run_task ?o1 1 l1 = Some (2, ?out, l2)"
    using demo_stages [of fuel 1 l1] by (auto simp: numeral_2_eq_2)
  let ?d' = "finish_run ''r1'' ?out demo_started"
  have "demo_execution (Suc (Suc (Suc fuel))) = Some (2, ?d', l2)"
    using c rs demo_start by (simp add: demo_execution_def executeSimpleRun_def Let_def) (simp add: demo_run_task_def)
  moreover have "\<exists>r\<in>set (sd_runs ?d'). run_id r = ''r1'' \<and> run_status r = ''SUCCESS''"
    by (simp add: finish_run_def update_runs_def coalesce_def demo_started_def demo_pending_def pending_run_def terminal_run_def)
  ultimately show ?thesis by blast
qed



theorem every_run_ends_witness:
  "\<exists>w' d' l'. demo_execution 28802 = Some (w', d', l') \<and> (\<forall>r\<in>set (sd_runs d'). run_id r = ''r1'' \<longrightarrow> terminal_run r)"
proof -
  have clock: "clock_advances demo_harbor" by (simp add: clock_advances_def demo_harbor_def seconds_def)
  have limit: "ReplicationTimeout (sd_settings ((\<lambda>d. d) demo_started)) \<le> 86400"
    by (simp add: demo_started_def demo_run_db_def initial_db_def initial_settings_def)
  have "\<exists>w' d' l'. executeSimpleRun demo_env demo_harbor 28802 (\<lambda>d. d) None True (\<lambda>d. d) demo_run_task (0, demo_run_db) = Some (w', d', l') \<and>
    (\<forall>r\<in>set (sd_runs d'). run_id r = tk_runID demo_run_task \<longrightarrow> terminal_run r)"
    by (rule every_run_ends [where ?d1.0 = demo_started]) (use clock limit demo_start in simp_all)
  then show ?thesis by (simp add: demo_execution_def) (simp add: demo_run_task_def)
qed

text \<open>A server with one target, and an upload to it.\<close>

definition demo_uenv :: upload_env where
  "demo_uenv = \<lparr>ue_sha256 = (\<lambda>b. b), ue_random = demo_random, ue_newID = Inr ''r1'', ue_proc = demo_proc_root, ue_stored = True, ue_synced = True\<rparr>"

definition demo_request :: request where
  "demo_request = \<lparr>rq_targetID = ''t1'', rq_actorID = ''u1'', rq_parts = Inr ([demo_part], errEOF)\<rparr>"

definition demo_server0 :: simple_server where
  "demo_server0 = (initial_server local_fs)\<lparr>sv_fs := fst demo_config, sv_db := snd demo_config\<rparr>"

definition demo_server :: simple_server where
  "demo_server = fst (createSimpleRun demo_uenv demo_request demo_server0)"

definition demo_shop :: string where "demo_shop = ''/var/lib/releasedock/simple/shop''"

definition demo_shop_fs :: fs where "demo_shop_fs = fst (ensureUploadDir demo_proc_root (fst demo_config) demo_shop)"

definition demo_shop_partial :: string where
  "demo_shop_partial = demo_shop @ ''/a.tar'' @ stagedUploadMarker @ replicate 22 (CHR ''A'')"

definition demo_staged_fs :: fs where
  "demo_staged_fs = write_content (fst (os_create_excl demo_proc_root demo_shop_fs demo_shop_partial (octal 6 4 0))) demo_shop_partial ''abc''"

lemma demo_shop_paths:
  "snd (ensureUploadDir demo_proc_root (fst demo_config) demo_shop) = None"
  "eval_symlinks demo_shop_fs demo_shop = Inr demo_shop"
  "path_join [demo_shop, ''a.tar''] = demo_shop @ ''/a.tar''"
  "path_dir (demo_shop @ ''/a.tar'') = path_clean demo_shop"
  "snd (os_create_excl demo_proc_root demo_shop_fs demo_shop_partial (octal 6 4 0)) = None"
  by code_simp+

lemma demo_shop_commit:
  "snd (os_rename demo_staged_fs demo_shop_partial (demo_shop @ ''/a.tar'')) = None"
  "syncDirectory True (fst (os_rename demo_staged_fs demo_shop_partial (demo_shop @ ''/a.tar''))) demo_shop = None"
  by code_simp+

lemma demo_shop_config:
  "validateCommandFields (fst demo_config) ''/sh'' [''-c''] demo_shop 600 = None"
  "path_base (trim_space ''a.tar'') = ''a.tar''"
  "path_clean demo_shop = demo_shop"
  "resolveSimpleTarget (snd demo_config) ''t1'' = Inr (scanSimpleTarget demo_target)"
  "sd_settings (snd demo_config) = initial_settings"
  "sd_runs (snd demo_config) = []"
  by code_simp+

lemmas demo_shop_facts = demo_shop_paths demo_shop_commit demo_shop_config

lemma demo_stage:
  "stageSimpleArtifact (\<lambda>b. b) demo_random True demo_proc_root (fst demo_config) demo_shop ''a.tar'' demo_part 10737418240 =
     (demo_staged_fs, Inr \<lparr>sa_path = demo_shop @ ''/a.tar'', sa_partial = demo_shop_partial, sa_size = 3, sa_checksum = hex_encode ''abc''\<rparr>)"
proof -
  have dir: "ensureUploadDir demo_proc_root (fst demo_config) demo_shop = (demo_shop_fs, None)"
    using demo_shop_facts(1) by (simp add: demo_shop_fs_def prod_eq_iff)
  have create: "os_create_excl demo_proc_root demo_shop_fs demo_shop_partial (octal 6 4 0) =
      (fst (os_create_excl demo_proc_root demo_shop_fs demo_shop_partial (octal 6 4 0)), None)"
    using demo_shop_facts(5) by (simp add: prod_eq_iff)
  have partial: "(demo_shop @ ''/a.tar'') @ stagedUploadMarker @ replicate 22 (CHR ''A'') = demo_shop_partial" by (simp add: demo_shop_partial_def)
  have body: "read_limited (nat (10737418240 + 1)) demo_part = (''abc'', None)" by (simp add: read_limited_def demo_part_def)
  show ?thesis
    unfolding stageSimpleArtifact_def dir prod.case option.case demo_shop_facts(2,3) sum.case Let_def demo_shop_facts(4) demo_token body
      stagedArtifact.simps partial
    by (subst create) (simp add: demo_staged_fs_def)
qed

lemma demo_server_runs: "map run_status (sd_runs (sv_db demo_server)) = [''PENDING'']"
proof -
  let ?cmd = "\<lparr>cmd_Source = commandModePerTarget, cmd_Path = ''/sh'', cmd_Args = [''-c''], cmd_Dir = demo_shop, cmd_Timeout = seconds 600\<rparr>"
  have cmd: "resolveCommand initial_settings (scanSimpleTarget demo_target) = Inr ?cmd"
    by (simp add: resolveCommand_def initial_settings_def scanSimpleTarget_def demo_target_def coalesce_def demo_shop_def simple_consts)
  have target: "st_UploadDir (scanSimpleTarget demo_target) = demo_shop" "st_MaxUploadBytes (scanSimpleTarget demo_target) = 10737418240"
    by (simp_all add: scanSimpleTarget_def demo_target_def demo_shop_def)
  have part: "nextSimpleArtifactPart errEOF [demo_part] [] = (Inr (demo_part, []), [])" by (simp add: demo_part_def)
  have rename: "os_rename demo_staged_fs demo_shop_partial (demo_shop @ ''/a.tar'') = (fst (os_rename demo_staged_fs demo_shop_partial (demo_shop @ ''/a.tar'')), None)"
    using demo_shop_facts(6) by (simp add: prod_eq_iff)
  have commit: "\<exists>fs a. staged_commit True demo_staged_fs \<lparr>sa_path = demo_shop @ ''/a.tar'', sa_partial = demo_shop_partial, sa_size = 3, sa_checksum = hex_encode ''abc''\<rparr> = (fs, a, None)"
    unfolding staged_commit_def stagedArtifact.simps by (subst rename) (simp add: demo_shop_facts)
  show ?thesis
    using commit demo_upload_facts(4)
    by (auto simp: demo_server_def createSimpleRun_def demo_request_def demo_server0_def initial_server_def demo_shop_facts cmd part target
        demo_part_def acquireSimpleRun_def maxSimpleConcurrentRuns_def createSimpleRun_upload_def demo_uenv_def demo_stage [unfolded demo_part_def] Let_def
        insert_run_def pending_run_def seconds_def)
qed

lemma demo_server_reached: "(server_step demo_env)\<^sup>*\<^sup>* (initial_server local_fs) demo_server"
proof -
  have "simple_step (local_fs, initial_db) (fst demo_config, snd demo_config)"
    unfolding demo_config_def prod.collapse by (rule simple_step.create, rule prod.collapse [symmetric])
  then have "server_step demo_env (initial_server local_fs) demo_server0"
    unfolding demo_server0_def by (rule server_step.configure) (simp_all add: demo_shop_facts initial_server_def initial_db_def)
  moreover have "server_step demo_env demo_server0 demo_server"
    unfolding demo_server_def by (rule server_step.upload, rule prod.collapse [symmetric])
  ultimately show ?thesis by (meson converse_rtranclp_into_rtranclp r_into_rtranclp)
qed

theorem one_run_in_flight_per_target_witness:
  "(server_step demo_env)\<^sup>*\<^sup>* (initial_server local_fs) demo_server \<and> map run_status (sd_runs (sv_db demo_server)) = [''PENDING''] \<and>
   (\<exists>t\<in>set (sv_tasks demo_server). tk_runID t = run_id (hd (sd_runs (sv_db demo_server))))"
proof -
  obtain r where r: "sd_runs (sv_db demo_server) = [r]" "run_status r = ''PENDING''" using demo_server_runs by auto
  then have "in_flight r" by (simp add: in_flight_def)
  then show ?thesis using one_run_in_flight_per_target [OF demo_server_reached] demo_server_reached demo_server_runs r by auto
qed

end
