(* ===== verification/Spec2Isabelle.thy ===== *)
theory Spec2Isabelle
  imports Archive Manifest Redact Leases Isolated_Run Vault Localexec Pipeline_Files Workflow_Props
    Simple_Run
begin

text \<open>
  ReleaseDock deploys software packages. This library models its Go code, the control plane under
  \<open>src/backend/internal\<close> and the runner under \<open>src/runner/internal\<close>, function by function, and proves what
  makes it trustworthy: who may change what, that a deployment runs only what was approved, at most
  once per target, and that credentials and files stay where they belong.

  \<^bold>\<open>The program.\<close> Users create releases in the control plane, upload a package, and submit it; a protected
  release needs the approval of a second person. Then a job is put into a queue in PostgreSQL. Runners
  poll the queue, claim a job with a lock on its target, and process it: check and unpack the package, resolve,
  load, tag and push its images, run approved scripts through an isolated executor on a Unix socket, check
  the health of the service, and record steps, log and outcome under a lease that they keep alive. Simple
  mode leaves all of that out: an upload is stored in the directory of a target and the control plane runs the configured
  command itself, followed by a replication of the registry and a deployment command where these are on.

  \<^bold>\<open>Conventions\<close> (\<open>Prelude\<close>, \<open>Go_Strings\<close>, \<open>Go_Paths\<close>, \<open>Encoding\<close>, \<open>Filesystem\<close>). Strings and byte slices
  are lists of 8-bit characters. An operation that can fail returns \<open>error + 'a\<close> (type \<open>result\<close>) or an
  optional error; \<open>error\<close> has the sentinel errors of the sources and wrapping. Structs are records, handlers are functions from
  request and state to state and reply. The functions of Go's packages \<open>strings\<close>, \<open>path/filepath\<close>, \<open>encoding\<close> that are called
  are defined here. \<open>Filesystem\<close> is the part of Unix that package \<open>os\<close> exposes: inodes addressed by
  paths, with symbolic links followed at most \<open>max_links\<close> = 40 times as in Linux (\<open>filepath.EvalSymlinks\<close> at most
  255 times as in Go), owners and modes; walks over a tree are bounded by its depth, which always
  suffices. Integers are unbounded where the code only compares and adds values that are bounded by its own limits.

  \<^bold>\<open>The runner.\<close>
  \<^item> \<open>Model\<close>: the types of \<open>model/model.go\<close>.
  \<^item> \<open>Store\<close>, \<open>Leases\<close>: \<open>store/store.go\<close>. The state \<open>db\<close> is the tables; each method of \<open>PGStore\<close> is one definition of
    the same name, one transaction each. \<open>Leases\<close> has the steps of all runners (\<open>store_step\<close>), the invariant of the
    locks, and the properties about claims, leases, recovery and deployment heads.
  \<^item> \<open>Archive\<close>, \<open>Manifest\<close>: \<open>archive/extract.go\<close> and \<open>manifest/manifest.go\<close> on the file system; the entries of a tar stream
    are given as a list. Extraction stays below its destination, within its limits.
  \<^item> \<open>Logstream\<close>, \<open>Redact\<close>: the log writer with its shared budget, and the redaction of the credential in
    front of it. The locales \<open>log_sink\<close> and \<open>full_writer\<close> are the interfaces between store, writer and redactor.
  \<^item> \<open>Executor\<close>, \<open>Secrets\<close>, \<open>Wire\<close>, \<open>Socket_Server\<close>, \<open>Isolated_Run\<close>: package \<open>executor\<close>, the local runner, credential directories,
    the packet protocol (locale \<open>progress_writer\<close>), request validation, and client and server together.
  \<^item> \<open>Secretbox\<close>: packages \<open>crypto\<close> and \<open>config\<close>. \<open>Runtime_Client\<close>, \<open>Registry\<close>: package \<open>runtime\<close>. \<open>Health\<close>: package \<open>health\<close>.
  \<^item> \<open>Pipeline_Steps\<close>, \<open>Pipeline\<close>, \<open>Pipeline_Process\<close>: \<open>pipeline/pipeline.go\<close>, the functions of the steps, the scripts, and \<open>Process\<close>. The
    heartbeat that runs beside a job shows as its outcome. \<open>Pipeline_Trace\<close> has the locale \<open>step_relation\<close>: a relation
    that holds for the elementary effects holds for a whole job. \<open>Pipeline_Props\<close> and \<open>Pipeline_Files\<close> use it
    for what a job runs, records and leaves on the host.

  \<^bold>\<open>The control plane.\<close>
  \<^item> \<open>Rbac\<close>: \<open>server/rbac_policy.go\<close> and the handlers of \<open>admin.go\<close> and \<open>admin_compat.go\<close> that change roles, users and grants, behind
    the permission of their routes. The locale \<open>admin_change\<close> says which changes of the tables a relation
    must allow; it is interpreted for delegation, the last administrator and the schema.
  \<^item> \<open>Semver\<close>: the versions of \<open>server/presets.go\<close>; three interpretations of the locale \<open>comparison\<close> reduce the code to a linear order.
  \<^item> \<open>Workflow\<close>, \<open>Workflow_Effects\<close>, \<open>Workflow_Props\<close>: \<open>server/releases.go\<close> and the quick deployment of \<open>presets.go\<close>. Every request has one of
    the effects of \<open>workflow_effect\<close>; the locale \<open>workflow_invariant\<close> lifts a property of the effects to all runs in which requests
    interleave with runners and changes of the configuration. What a request does to the queue is shown to be a sequence of steps of \<open>Store\<close>.
  \<^item> \<open>Vault\<close>: packages \<open>secure\<close> and \<open>config\<close> of the control plane. \<open>Localexec\<close>: package \<open>localexec\<close>.
  \<^item> \<open>Simple_Config\<close>, \<open>Simple_Upload\<close>, \<open>Simple_Log\<close>, \<open>Simple_Run\<close>: simple mode (\<open>server/simple.go\<close>, \<open>simple_config.go\<close>, \<open>admin_simple.go\<close>). The state
    is \<open>simple_db\<close> (settings, targets, runs), the file system, the number of slots in use and the goroutines that
    execute runs (\<open>simple_server\<close>). \<open>simple_step\<close> and \<open>server_step\<close> are what can happen to them; the locale \<open>logger_invariant\<close> carries
    an invariant through everything a logger is given.

  The theory at hand adds what spans the components of the log: writer, budget and store together.

  \<^bold>\<open>What is shown.\<close> Invariants of all interleavings (one running job and one queued job per target, one run in flight
  per target, an administrator remains, finished jobs are frozen, tables well formed, targets stay runnable); safety of single operations on the file
  system and on credentials; refinements (isolated runs, streaming redaction, uploads, requests against the queue); functional
  correctness of claims, jobs and runs; bounds of logs; equivalences and round trips of the encodings; that
  health checks and runs end. Lemmas outside the numbered properties show more of the same kind: the limits of an
  extraction, the life of credential directories, round trips of environments, secrets and file names.

  \<^bold>\<open>Bounds.\<close> Loops are structural or have a measure, except for two: a walk over a directory tree is given its
  depth, and the wait for a replication takes fuel. A wait polls every three seconds up to its time limit, which the
  settings keep within a day, so 28802 rounds suffice.

  \<^bold>\<open>Parameters.\<close> AES-GCM, SHA-256, bcrypt, random sources, JSON, tar and gzip decoding, the HTTP transport, the answers of a Harbor
  registry, the clock, and what the operating system does when it runs a command are arguments of the definitions;
  what is assumed of them is a premise of the property, with a witness.

  \<^bold>\<open>Atomicity.\<close> A transaction is one step. A handler of the control plane is one step as well, also where it reads the settings
  before it writes (\<open>createSimpleTarget\<close>, \<open>updateSimpleTarget\<close>); only the execution of a job or a run is interleaved with other steps.

  \<^bold>\<open>Not modelled.\<close> Handlers that only read and format rows; the multipart creation of releases and the file store behind
  uploaded artifacts; the preset, resource and settings administration, whose rows are an arbitrary configuration here;
  sessions, cookies, OIDC and the routing table beyond its permissions; network policy, the Harbor client, MCP and AI
  endpoints, guides; the SQL schema beyond the constraints stated with the tables; the main programs and the web interface.
  Contexts show as the errors of the operations they cancel; deadlines of connections do not appear.
\<close>

subsection \<open>Command output, end to end\<close>

text \<open>Writing a list of payloads through a log writer.\<close>

fun writer_Writes ::
  "'s append_log \<Rightarrow> budget \<Rightarrow> 's \<Rightarrow> writer \<Rightarrow> bytes list \<Rightarrow> (budget \<times> 's \<times> writer) option" where
  "writer_Writes al b s w [] = Some (b, s, w)"
| "writer_Writes al b s w (p # ps) =
     (case writer_Write al b s w p of
        None \<Rightarrow> None
      | Some (b', s', w', _) \<Rightarrow> writer_Writes al b' s' w' ps)"

lemma log_bounded_step:
  assumes "writer_Writes (AppendLog now st) b d w ps = Some (b', d', w')" "0 < w_chunkSize w" "budget_ok b"
  shows "budget_ok b' \<and> maximum b' = maximum b \<and> (truncated b \<longrightarrow> truncated b') \<and>
    int (stored_bytes (log_rows d')) \<le> int (stored_bytes (log_rows d)) + (used b' - used b) +
      (if truncated b' \<and> \<not> truncated b then int (length truncationNotice) else 0)"
  using assms
proof (induction ps arbitrary: b d w)
  case (Cons p ps)
  obtain b1 d1 w1 n where one: "writer_Write (AppendLog now st) b d w p = Some (b1, d1, w1, n)"
    and rest: "writer_Writes (AppendLog now st) b1 d1 w1 ps = Some (b', d', w')"
    using Cons.prems(1) by (auto split: option.splits)
  note s = job_log.Write_stored [OF one Cons.prems(2,3)]
  have "0 < w_chunkSize w1" using s(4) Cons.prems(2) by simp
  note ih = Cons.IH [OF rest this s(2)]
  have "truncated b \<Longrightarrow> truncated b1" by (rule s(5))
  then show ?case
    using ih s(3,6) by (cases "truncated b"; cases "truncated b1"; cases "truncated b'"; simp)
qed simp



end
